(* ===== verification/Prelude.thy ===== *)
theory Prelude
  imports Main "HOL-Library.Word" "HOL-Library.Monad_Syntax" "HOL-Library.Char_ord"
begin

unbundle bit_operations_syntax

text \<open>
  Shared vocabulary of the development: the machine integer types, the convention for
  memory faults, bounds-checked array access, C strings, and the byte-order and address
  conversion routines of the C library the program calls.

  A C function that can touch memory it does not own (an index past the end of a buffer,
  a null or dangling pointer, a second \<open>free\<close>) is modelled in the option monad:
  \<^const>\<open>None\<close> is the fault, \<^const>\<open>Some\<close> carries the ordinary result. Error codes the
  program itself returns are ordinary results, never \<^const>\<open>None\<close>.
\<close>

type_synonym u8 = "8 word"
type_synonym u16 = "16 word"
type_synonym u32 = "32 word"
type_synonym u64 = "64 word"

type_synonym addr = nat  \<comment> \<open>a heap address; a pointer that may be NULL is an \<open>addr option\<close>\<close>

named_theorems fault_simps \<open>rewrites that run the option monad on checked accesses\<close>

section \<open>Checked memory access\<close>

definition fetch :: "'a list \<Rightarrow> nat \<Rightarrow> 'a option" where
  "fetch xs i = (if i < length xs then Some (xs ! i) else None)"

definition store :: "'a list \<Rightarrow> nat \<Rightarrow> 'a \<Rightarrow> 'a list option" where
  "store xs i v = (if i < length xs then Some (xs[i := v]) else None)"

lemma fetch_in [simp, fault_simps]: "i < length xs \<Longrightarrow> fetch xs i = Some (xs ! i)"
  by (simp add: fetch_def)

lemma fetch_out [simp, fault_simps]: "length xs \<le> i \<Longrightarrow> fetch xs i = None"
  by (simp add: fetch_def)

lemma store_in [simp, fault_simps]: "i < length xs \<Longrightarrow> store xs i v = Some (xs[i := v])"
  by (simp add: store_def)

lemma store_out [simp, fault_simps]: "length xs \<le> i \<Longrightarrow> store xs i v = None"
  by (simp add: store_def)

lemma fetch_Some_iff: "fetch xs i = Some v \<longleftrightarrow> i < length xs \<and> xs ! i = v"
  by (auto simp: fetch_def)

lemma store_Some_iff: "store xs i v = Some ys \<longleftrightarrow> i < length xs \<and> ys = xs[i := v]"
  by (auto simp: store_def)

lemma store_length: "store xs i v = Some ys \<Longrightarrow> length ys = length xs"
  by (auto simp: store_Some_iff)

section \<open>Bits of a byte\<close>

lemma bit_byte_or: "n < 8 \<Longrightarrow> bit (w OR 2 ^ k :: u8) n \<longleftrightarrow> bit w n \<or> n = k"
  by (auto simp: bit_simps)

lemma bit_byte_clear: "n < 8 \<Longrightarrow> bit (w AND NOT (2 ^ k) :: u8) n \<longleftrightarrow> bit w n \<and> n \<noteq> k"
  by (auto simp: bit_simps)

lemma drop_and_one: "drop_bit k (w::u8) AND 1 = of_bool (bit w k)"
  by (simp add: and_one_eq bit_iff_odd_drop_bit odd_iff_mod_2_eq_one of_bool_odd_eq_mod_2)

lemma byte_full_iff: "(w::u8) = 0xff \<longleftrightarrow> (\<forall>j<8. bit w j)"
proof -
  have eq: "(0xff::u8) = mask 8" by (simp add: mask_eq_exp_minus_1)
  show ?thesis unfolding eq by (auto simp: bit_simps intro!: bit_word_eqI)
qed

lemma bit_255: "j < 8 \<Longrightarrow> bit (255::u8) j"
  using byte_full_iff [of 255] by simp

lemma bit_255_int: "j < 8 \<Longrightarrow> bit (255::int) j"
proof -
  assume "j < 8"
  then have "bit (mask 8 :: int) j" by (simp add: bit_mask_iff)
  moreover have "mask 8 = (255::int)" by (simp add: mask_eq_exp_minus_1)
  ultimately show ?thesis by (simp only:)
qed

lemma byte_not_full: "(w::u8) \<noteq> 0xff \<Longrightarrow> \<exists>j<8. \<not> bit w j"
  using byte_full_iff by blast

end
