(* ===== verification/Chain.thy ===== *)
theory Chain
  imports Prelude
begin

text \<open>
  Doubly linked lists in an explicit store, for the two components that keep one: the buffer
  queues of \<open>Mbuf\<close> and the session lists of \<open>Vnetwork\<close>.  The interface is a node type with a
  forward and a backward pointer that can be read and set independently; the lemmas are about
  \<open>chain ns p xs q\<close>: the nodes \<open>xs\<close> follow each other, the first points back to \<open>p\<close>, the last
  forward to \<open>q\<close>.
\<close>

definition first :: "addr list \<Rightarrow> addr option \<Rightarrow> addr option" where
  "first xs q = (case xs of [] \<Rightarrow> q | b # _ \<Rightarrow> Some b)"

lemma first_simps [simp]: "first [] q = q" "first (a # xs) q = Some a"
  "first (xs @ ys) q = first xs (first ys q)"
  by (simp_all add: first_def split: list.splits)

lemma first_cons_eq [simp]: "first xs (Some a) = None \<longleftrightarrow> False"
  by (cases xs) simp_all

lemma first_None_iff [simp]: "first xs None = None \<longleftrightarrow> xs = []"
  by (cases xs) simp_all

definition last_or :: "addr list \<Rightarrow> addr option \<Rightarrow> addr option" where
  "last_or xs p = (if xs = [] then p else Some (last xs))"

lemma last_or_simps [simp]: "last_or [] p = p" "last_or (a # xs) p = last_or xs (Some a)"
  "last_or (xs @ ys) p = last_or ys (last_or xs p)"
  by (auto simp: last_or_def)

lemma last_or_None_iff [simp]: "last_or xs None = None \<longleftrightarrow> xs = []"
  by (simp add: last_or_def)

locale dlist =
  fixes nxt :: "'n \<Rightarrow> addr option"
    and prv :: "'n \<Rightarrow> addr option"
    and set_nxt :: "addr option \<Rightarrow> 'n \<Rightarrow> 'n"
    and set_prv :: "addr option \<Rightarrow> 'n \<Rightarrow> 'n"
  assumes nxt_set_nxt: "nxt (set_nxt q n) = q"
    and prv_set_nxt: "prv (set_nxt q n) = prv n"
    and prv_set_prv: "prv (set_prv q n) = q"
    and nxt_set_prv: "nxt (set_prv q n) = nxt n"
begin

fun chain :: "(addr \<rightharpoonup> 'n) \<Rightarrow> addr option \<Rightarrow> addr list \<Rightarrow> addr option \<Rightarrow> bool" where
  "chain ns p [] q = True"
| "chain ns p (a # xs) q =
     (\<exists>n. ns a = Some n \<and> prv n = p \<and> nxt n = first xs q \<and> chain ns (Some a) xs q)"

lemma chain_append [simp]:
  "chain ns p (xs @ ys) q \<longleftrightarrow> chain ns p xs (first ys q) \<and> chain ns (last_or xs p) ys q"
  by (induction xs arbitrary: p) auto

lemma chain_frame: "a \<notin> set xs \<Longrightarrow> chain (ns(a := v)) p xs q = chain ns p xs q"
  by (induction xs arbitrary: p) auto

lemma chain_nodes: "chain ns p xs q \<Longrightarrow> a \<in> set xs \<Longrightarrow> ns a \<noteq> None"
  by (induction xs arbitrary: p) auto

lemma chain_same:
  "chain ns p xs q \<Longrightarrow> ns a = Some n \<Longrightarrow> nxt n' = nxt n \<Longrightarrow> prv n' = prv n \<Longrightarrow>
   chain (ns(a \<mapsto> n')) p xs q"
  by (induction xs arbitrary: p) auto

lemma chain_set_prev:
  "chain ns p (a # xs) q \<Longrightarrow> a \<notin> set xs \<Longrightarrow> ns a = Some n \<Longrightarrow>
   chain (ns(a \<mapsto> set_prv p' n)) p' (a # xs) q"
  by (simp add: chain_frame prv_set_prv nxt_set_prv)

lemma chain_set_next:
  "chain ns p (xs @ [a]) q \<Longrightarrow> a \<notin> set xs \<Longrightarrow> ns a = Some n \<Longrightarrow>
   chain (ns(a \<mapsto> set_nxt q' n)) p (xs @ [a]) q'"
  by (simp add: chain_frame prv_set_nxt nxt_set_nxt)

text \<open>A new node in front.\<close>

lemma chain_push:
  assumes "chain ns None xs None" "s \<notin> set xs" "distinct xs" "nxt n = first xs None" "prv n = None"
  shows "chain (case xs of [] \<Rightarrow> ns(s \<mapsto> n) | a # _ \<Rightarrow> ns(s \<mapsto> n, a \<mapsto> set_prv (Some s) (the (ns a))))
    None (s # xs) None"
proof (cases xs)
  case (Cons a as)
  with assms show ?thesis by (auto simp: chain_frame prv_set_prv nxt_set_prv)
qed (use assms in simp)

text \<open>A node taken out: its neighbours are pointed at each other.\<close>

definition bypass :: "(addr \<rightharpoonup> 'n) \<Rightarrow> 'n \<Rightarrow> (addr \<rightharpoonup> 'n)" where
  "bypass ns n =
     (let ns = (case prv n of None \<Rightarrow> ns | Some p \<Rightarrow> ns(p \<mapsto> set_nxt (nxt n) (the (ns p))))
      in case nxt n of None \<Rightarrow> ns | Some q \<Rightarrow> ns(q \<mapsto> set_prv (prv n) (the (ns q))))"

lemma chain_bypass:
  assumes c: "chain ns None (xs @ s # ys) None" and d: "distinct (xs @ s # ys)" and n: "ns s = Some n"
  shows "chain (bypass ns n) None (xs @ ys) None"
proof -
  have links: "prv n = last_or xs None" "nxt n = first ys None" using c n by auto
  have pre: "chain (case prv n of None \<Rightarrow> ns | Some p \<Rightarrow> ns(p \<mapsto> set_nxt (nxt n) (the (ns p))))
      None xs (first ys None)"
  proof (cases xs rule: rev_cases)
    case (snoc zs p)
    have "chain ns None (zs @ [p]) (Some s)" using c snoc by auto
    moreover obtain y where "ns p = Some y" using c snoc by auto
    moreover have "p \<notin> set zs" using d snoc by simp
    ultimately have "chain (ns(p \<mapsto> set_nxt (first ys None) y)) None (zs @ [p]) (first ys None)"
      by (intro chain_set_next)
    with snoc links \<open>ns p = Some y\<close> show ?thesis by simp
  qed (use c in simp)
  have post: "chain (case prv n of None \<Rightarrow> ns | Some p \<Rightarrow> ns(p \<mapsto> set_nxt (nxt n) (the (ns p))))
      (Some s) ys None"
  proof (cases "xs = []")
    case False
    then have "last xs \<notin> set ys" using d last_in_set [OF False] by (auto simp del: last_in_set)
    then show ?thesis using c by (auto simp: links last_or_def chain_frame)
  qed (use c links in auto)
  define ns1 where "ns1 = (case prv n of None \<Rightarrow> ns | Some p \<Rightarrow> ns(p \<mapsto> set_nxt (nxt n) (the (ns p))))"
  note pre = pre [folded ns1_def] and post = post [folded ns1_def]
  have b: "bypass ns n = (case nxt n of None \<Rightarrow> ns1 | Some q \<Rightarrow> ns1(q \<mapsto> set_prv (prv n) (the (ns1 q))))"
    by (simp only: bypass_def ns1_def Let_def)
  show ?thesis
  proof (cases ys)
    case Nil
    with pre b links show ?thesis by simp
  next
    case (Cons q zs)
    obtain y where "ns1 q = Some y" using post Cons by auto
    moreover have "q \<notin> set zs" "q \<notin> set xs" using d Cons by auto
    ultimately show ?thesis
      using pre post Cons links b by (auto simp: chain_frame prv_set_prv nxt_set_prv)
  qed
qed

end

end
