(* ===== verification/Id_Pool.thy ===== *)
theory Id_Pool
  imports Prelude
begin

text \<open>
  The contract of an identifier pool: a component that hands out small numbers and takes
  them back.  Two parts of the program provide it (the session identifiers of a virtual
  network in \<open>Bitv\<close>, the host addresses of a virtual subnet in \<open>Ippool\<close>) and every client
  argument, uniqueness of live identifiers above all, is made once here.
\<close>

section \<open>Interface\<close>

locale id_pool =
  fixes alloc :: "'p \<Rightarrow> ('p \<times> nat) option"
    and release :: "'p \<Rightarrow> nat \<Rightarrow> 'p"
    and used :: "'p \<Rightarrow> nat set"
    and cap :: "'p \<Rightarrow> nat"
    and invar :: "'p \<Rightarrow> bool"
  assumes used_bound: "invar p \<Longrightarrow> used p \<subseteq> {..<cap p}"
    and alloc_None: "invar p \<Longrightarrow> alloc p = None \<longleftrightarrow> used p = {..<cap p}"
    and alloc_Some: "invar p \<Longrightarrow> alloc p = Some (p', i) \<Longrightarrow>
      i < cap p \<and> i \<notin> used p \<and> (\<forall>k<i. k \<in> used p) \<and> used p' = insert i (used p)
      \<and> cap p' = cap p \<and> invar p'"
    and release_ok: "invar p \<Longrightarrow>
      used (release p i) = used p - {i} \<and> cap (release p i) = cap p \<and> invar (release p i)"
begin

lemma alloc_fresh: "invar p \<Longrightarrow> alloc p = Some (p', i) \<Longrightarrow> i \<notin> used p"
  by (simp add: alloc_Some)

lemma alloc_used: "invar p \<Longrightarrow> alloc p = Some (p', i) \<Longrightarrow> used p' = insert i (used p)"
  by (simp add: alloc_Some)

lemma alloc_invar: "invar p \<Longrightarrow> alloc p = Some (p', i) \<Longrightarrow> invar p'"
  by (simp add: alloc_Some)

lemma alloc_cap: "invar p \<Longrightarrow> alloc p = Some (p', i) \<Longrightarrow> cap p' = cap p"
  by (simp add: alloc_Some)

lemma used_finite: "invar p \<Longrightarrow> finite (used p)"
  by (meson used_bound finite_lessThan finite_subset)

lemma used_card_le: "invar p \<Longrightarrow> card (used p) \<le> cap p"
  by (metis used_bound card_lessThan card_mono finite_lessThan)

lemma alloc_succeeds_iff: "invar p \<Longrightarrow> alloc p \<noteq> None \<longleftrightarrow> card (used p) < cap p"
proof -
  assume inv: "invar p"
  have "used p = {..<cap p} \<longleftrightarrow> card (used p) = cap p"
    using used_bound [OF inv] by (metis card_lessThan card_subset_eq finite_lessThan)
  then have "alloc p = None \<longleftrightarrow> card (used p) = cap p"
    by (simp only: alloc_None [OF inv])
  then show ?thesis
    using used_card_le [OF inv] by linarith
qed

lemma alloc_least: "invar p \<Longrightarrow> alloc p = Some (p', i) \<Longrightarrow> i = (LEAST k. k \<notin> used p)"
  by (rule Least_equality [symmetric]) (use alloc_Some [of p p' i] not_le in blast)+

text \<open>Releasing the identifier just handed out restores the set of live identifiers, and the
  next allocation hands the same one out again.\<close>

lemma release_alloc:
  assumes inv: "invar p" and al: "alloc p = Some (p', i)"
  shows "used (release p' i) = used p"
  using release_ok [OF alloc_invar [OF inv al], of i] alloc_Some [OF inv al] by auto

lemma realloc:
  assumes inv: "invar p" and al: "alloc p = Some (p', i)"
    and al2: "alloc (release p' i) = Some (p'', k)"
  shows "k = i"
proof -
  have inv2: "invar (release p' i)"
    using release_ok alloc_invar [OF inv al] by blast
  have "k = (LEAST n. n \<notin> used (release p' i))"
    by (rule alloc_least [OF inv2 al2])
  also have "\<dots> = i"
    using alloc_least [OF inv al] release_alloc [OF inv al] by simp
  finally show ?thesis .
qed

text \<open>A history of requests.  \<open>live\<close> collects the identifiers handed out and not yet
  released; a client only releases what it holds.\<close>

fun take_ids :: "'p \<Rightarrow> nat \<Rightarrow> nat list \<times> 'p" where
  "take_ids p 0 = ([], p)"
| "take_ids p (Suc n) =
     (case alloc p of
        None \<Rightarrow> ([], p)
      | Some (p', i) \<Rightarrow> (let (is, q) = take_ids p' n in (i # is, q)))"

lemma take_ids_props:
  "invar p \<Longrightarrow> take_ids p n = (is, q) \<Longrightarrow>
   distinct is \<and> set is \<inter> used p = {} \<and> used q = used p \<union> set is \<and> cap q = cap p
   \<and> invar q \<and> length is = min n (cap p - card (used p))"
proof (induction n arbitrary: p "is" q)
  case 0
  then show ?case by simp
next
  case (Suc n)
  note inv = Suc.prems(1)
  show ?case
  proof (cases "alloc p")
    case None
    then have "cap p \<le> card (used p)"
      using alloc_succeeds_iff [OF inv] by simp
    with None Suc.prems show ?thesis by simp
  next
    case (Some r)
    then obtain p' i where al: "alloc p = Some (p', i)" by (cases r) auto
    obtain js where js: "take_ids p' n = (js, q)" "is = i # js"
      using Suc.prems(2) al by (auto split: prod.splits)
    note A = alloc_Some [OF inv al]
    have IH: "distinct js \<and> set js \<inter> used p' = {} \<and> used q = used p' \<union> set js \<and> cap q = cap p'
      \<and> invar q \<and> length js = min n (cap p' - card (used p'))"
      by (rule Suc.IH [OF alloc_invar [OF inv al] js(1)])
    have card': "card (used p') = Suc (card (used p))"
      using A used_finite [OF inv] by simp
    have lt: "card (used p) < cap p"
      using alloc_succeeds_iff [OF inv] al by simp
    from IH A js(2) card' lt show ?thesis by auto
  qed
qed

end

end
