(* ===== verification/Bitv.thy ===== *)
theory Bitv
  imports Id_Pool
begin

text \<open>
  \<open>libnvcore/src/bitv.c\<close>: a pool of bits kept in a byte array.  The byte array is a list of
  8-bit words; every access is bounds-checked, so running past the end is the fault
  \<^const>\<open>None\<close>.  The lemmas show that \<open>bitpool_allocate_bit\<close> hands out the least clear bit,
  that it refuses exactly when every bit is set, and that the pool meets the contract of
  \<open>Id_Pool\<close>.
\<close>

section \<open>The code\<close>

definition get_bit :: "u8 list \<Rightarrow> nat \<Rightarrow> u8 option" where
  "get_bit bitmap b = do { w \<leftarrow> fetch bitmap (b div 8); Some (drop_bit (b mod 8) w AND 1) }"

definition set_bit :: "u8 list \<Rightarrow> nat \<Rightarrow> u8 list option" where
  "set_bit bitmap b = do {
     w \<leftarrow> fetch bitmap (b div 8);
     store bitmap (b div 8) (w OR push_bit (b mod 8) 1) }"

definition clear_bit :: "u8 list \<Rightarrow> nat \<Rightarrow> u8 list option" where
  "clear_bit bitmap b = do {
     w \<leftarrow> fetch bitmap (b div 8);
     store bitmap (b div 8) (w AND NOT (push_bit (b mod 8) 1)) }"

definition bitpool_release_bit :: "u8 list \<Rightarrow> nat \<Rightarrow> nat \<Rightarrow> (int \<times> u8 list) option" where
  "bitpool_release_bit bitpool nbits b =
     (if b < nbits then do { bitpool' \<leftarrow> clear_bit bitpool b; Some (0, bitpool') }
      else Some (- 1, bitpool))"

text \<open>\<open>for (i = 0; (i < nbyte) && (bitpool[i] == 0xff); i++);\<close>\<close>

function skip_full :: "u8 list \<Rightarrow> nat \<Rightarrow> nat \<Rightarrow> nat option" where
  "skip_full bitpool nbyte i =
     (if i < nbyte then do {
        w \<leftarrow> fetch bitpool i;
        if w = 0xff then skip_full bitpool nbyte (Suc i) else Some i }
      else Some i)"
  by pat_completeness auto
termination by (relation "measure (\<lambda>(_, n, i). n - i)") auto

text \<open>\<open>for (j = 0; get_bit(bitpool + i, j); j++);\<close> The pointer \<open>bitpool + i\<close> is the list
  from index \<open>i\<close> on; the loop has no bound of its own, so it runs off the end and faults
  when every remaining bit is set.\<close>

function find_clear :: "u8 list \<Rightarrow> nat \<Rightarrow> nat option" where
  "find_clear bitmap j =
     (case get_bit bitmap j of
        None \<Rightarrow> None
      | Some v \<Rightarrow> if v \<noteq> 0 then find_clear bitmap (Suc j) else Some j)"
  by pat_completeness auto
termination
  by (relation "measure (\<lambda>(bm, j). 8 * length bm - j)")
    (auto simp: get_bit_def fetch_def split: if_splits Option.bind_splits)

declare skip_full.simps [simp del] find_clear.simps [simp del]

definition bitpool_allocate_bit :: "u8 list \<Rightarrow> nat \<Rightarrow> (int + (nat \<times> u8 list)) option" where
  "bitpool_allocate_bit bitpool nbits =
     (let nbyte = (nbits div 8) mod 2 ^ 32 in do {
        i \<leftarrow> skip_full bitpool nbyte 0;
        if i = nbyte then Some (Inl (- 1))
        else do {
          j \<leftarrow> find_clear (drop i bitpool) 0;
          let b = (i * 8 + j) mod 2 ^ 32;
          bitpool' \<leftarrow> set_bit bitpool b;
          Some (Inr (b, bitpool')) } })"

text \<open>\<open>calloc((nbits + 7) / 8, 1)\<close>; the model lets the allocation succeed.\<close>

definition bitpool_new :: "nat \<Rightarrow> u8 list" where
  "bitpool_new nbits = replicate ((nbits + 7) div 8) 0"

section \<open>Set bits\<close>

definition bits_set :: "u8 list \<Rightarrow> nat set" where
  "bits_set bm = {b. b < 8 * length bm \<and> bit (bm ! (b div 8)) (b mod 8)}"

lemma div8_lt: "(b::nat) < 8 * n \<Longrightarrow> b div 8 < n"
  by (simp add: div_less_iff_less_mult mult.commute)

lemma get_bit_in: "b < 8 * length bm \<Longrightarrow> get_bit bm b = Some (of_bool (b \<in> bits_set bm))"
  by (simp add: get_bit_def bits_set_def div8_lt drop_and_one)

lemma get_bit_out: "8 * length bm \<le> b \<Longrightarrow> get_bit bm b = None"
  by (simp add: get_bit_def fetch_def less_eq_div_iff_mult_less_eq mult.commute not_less)

lemma update_bit_set:
  assumes "b < 8 * length bm" and "\<And>n. n < 8 \<Longrightarrow> bit w' n \<longleftrightarrow> (if n = b mod 8 then v else bit (bm ! (b div 8)) n)"
  shows "bits_set (bm[b div 8 := w']) = (if v then insert b (bits_set bm) else bits_set bm - {b})"
proof -
  have "c \<in> bits_set (bm[b div 8 := w']) \<longleftrightarrow>
      c \<in> (if v then insert b (bits_set bm) else bits_set bm - {b})" for c
  proof (cases "c div 8 = b div 8")
    case True
    then have "c mod 8 = b mod 8 \<longleftrightarrow> c = b"
      by (metis mod_mult_div_eq)
    with True assms show ?thesis by (auto simp: bits_set_def div8_lt)
  next
    case False
    then show ?thesis using assms(1) by (auto simp: bits_set_def nth_list_update)
  qed
  then show ?thesis by blast
qed

lemma set_bit_in:
  assumes "b < 8 * length bm"
  shows "\<exists>bm'. set_bit bm b = Some bm' \<and> length bm' = length bm \<and> bits_set bm' = insert b (bits_set bm)"
proof -
  have "bits_set (bm[b div 8 := bm ! (b div 8) OR 2 ^ (b mod 8)]) = insert b (bits_set bm)"
    by (subst update_bit_set [OF assms, where v = True]) (auto simp: bit_byte_or)
  with assms show ?thesis by (simp add: set_bit_def div8_lt)
qed

lemma clear_bit_in:
  assumes "b < 8 * length bm"
  shows "\<exists>bm'. clear_bit bm b = Some bm' \<and> length bm' = length bm \<and> bits_set bm' = bits_set bm - {b}"
proof -
  have "bits_set (bm[b div 8 := bm ! (b div 8) AND NOT (2 ^ (b mod 8))]) = bits_set bm - {b}"
    by (subst update_bit_set [OF assms, where v = False]) (auto simp: bit_byte_clear)
  with assms show ?thesis by (simp add: clear_bit_def div8_lt)
qed

section \<open>The scans\<close>

lemma skip_full_step:
  "i < length bm \<Longrightarrow> skip_full bm n i =
     (if i < n then if bm ! i = 0xff then skip_full bm n (Suc i) else Some i else Some i)"
  by (subst skip_full.simps) simp

lemma skip_full_end: "n \<le> i \<Longrightarrow> skip_full bm n i = Some i"
  by (subst skip_full.simps) simp

lemma skip_full_props:
  "n \<le> length bm \<Longrightarrow> i \<le> n \<Longrightarrow>
   \<exists>r. skip_full bm n i = Some r \<and> i \<le> r \<and> r \<le> n \<and> (\<forall>k\<in>{i..<r}. bm ! k = 0xff)
     \<and> (r < n \<longrightarrow> bm ! r \<noteq> 0xff)"
proof (induction "n - i" arbitrary: i)
  case 0
  then show ?case by (simp add: skip_full_end)
next
  case (Suc d)
  then have i: "i < n" "i < length bm" by auto
  show ?case
  proof (cases "bm ! i = 0xff")
    case True
    obtain r where r: "skip_full bm n (Suc i) = Some r" "Suc i \<le> r" "r \<le> n"
        "\<forall>k\<in>{Suc i..<r}. bm ! k = 0xff" "r < n \<longrightarrow> bm ! r \<noteq> 0xff"
      using Suc.hyps(1) [of "Suc i"] Suc.hyps(2) Suc.prems(1) i by fastforce
    have "\<forall>k\<in>{i..<r}. bm ! k = 0xff"
    proof
      fix k assume "k \<in> {i..<r}"
      then show "bm ! k = 0xff" using r(4) True by (cases "k = i") auto
    qed
    with r True i show ?thesis by (intro exI [of _ r]) (simp add: skip_full_step)
  next
    case False
    with i show ?thesis by (simp add: skip_full_step)
  qed
qed

lemma find_clear_step:
  "j < 8 * length bm \<Longrightarrow>
   find_clear bm j = (if j \<in> bits_set bm then find_clear bm (Suc j) else Some j)"
  by (subst find_clear.simps) (simp add: get_bit_in)

lemma find_clear_props:
  "j \<le> m \<Longrightarrow> m < 8 * length bm \<Longrightarrow> m \<notin> bits_set bm \<Longrightarrow>
   \<exists>r. find_clear bm j = Some r \<and> j \<le> r \<and> r \<le> m \<and> r \<notin> bits_set bm
     \<and> (\<forall>k\<in>{j..<r}. k \<in> bits_set bm)"
proof (induction "m - j" arbitrary: j)
  case 0
  then show ?case by (simp add: find_clear_step)
next
  case (Suc d)
  then have j: "j < m" "j < 8 * length bm" by auto
  show ?case
  proof (cases "j \<in> bits_set bm")
    case True
    obtain r where r: "find_clear bm (Suc j) = Some r" "Suc j \<le> r" "r \<le> m" "r \<notin> bits_set bm"
        "\<forall>k\<in>{Suc j..<r}. k \<in> bits_set bm"
      using Suc.hyps(1) [of "Suc j"] Suc.hyps(2) Suc.prems(2,3) j by fastforce
    have "\<forall>k\<in>{j..<r}. k \<in> bits_set bm"
    proof
      fix k assume "k \<in> {j..<r}"
      then show "k \<in> bits_set bm" using r(5) True by (cases "k = j") auto
    qed
    with r True j show ?thesis by (intro exI [of _ r]) (simp add: find_clear_step)
  next
    case False
    with j show ?thesis by (simp add: find_clear_step)
  qed
qed

lemma bits_set_drop: "i < length bm \<Longrightarrow> j \<in> bits_set (drop i bm) \<longleftrightarrow> i * 8 + j \<in> bits_set bm"
  by (auto simp: bits_set_def add.commute)

lemma full_bytes_set:
  assumes "\<forall>k<r. bm ! k = 0xff" "r \<le> length bm" "b < 8 * r" shows "b \<in> bits_set bm"
proof -
  have "bm ! (b div 8) = 0xff" using assms by (simp add: div8_lt)
  then show ?thesis using assms by (simp add: bits_set_def byte_full_iff)
qed

text \<open>The shared core of the two allocators of the program: scan for a byte that is not full,
  then for its first clear bit; together the least clear bit.\<close>

lemma scan_least:
  assumes n: "n \<le> length bm" and sk: "skip_full bm n 0 = Some i"
  shows "i \<le> n \<and> (i = n \<longrightarrow> {..<8 * n} \<subseteq> bits_set bm)
    \<and> (i \<noteq> n \<longrightarrow> (\<exists>j. find_clear (drop i bm) 0 = Some j \<and> j < 8 \<and> i * 8 + j \<notin> bits_set bm
          \<and> i * 8 + j < 8 * n \<and> (\<forall>k < i * 8 + j. k \<in> bits_set bm)))"
proof -
  from skip_full_props [OF n, of 0] sk have
    le: "i \<le> n" and full: "\<forall>k<i. bm ! k = 0xff" and nf: "i < n \<longrightarrow> bm ! i \<noteq> 0xff"
    by auto
  have below: "b \<in> bits_set bm" if "b < 8 * i" for b
    using full_bytes_set [OF full _ that] le n by simp
  show ?thesis
  proof (intro conjI impI)
    assume "i = n" then show "{..<8 * n} \<subseteq> bits_set bm" using below by auto
  next
    assume "i \<noteq> n"
    with le have i: "i < n" by simp
    then obtain m where m: "m < 8" "\<not> bit (bm ! i) m" using nf byte_not_full by blast
    have "m \<notin> bits_set (drop i bm)" "m < 8 * length (drop i bm)"
      using m i n by (auto simp: bits_set_drop bits_set_def)
    then obtain j where j: "find_clear (drop i bm) 0 = Some j" "j \<le> m"
      "j \<notin> bits_set (drop i bm)" "\<forall>k\<in>{0..<j}. k \<in> bits_set (drop i bm)"
      using find_clear_props [of 0 m "drop i bm"] by auto
    have low: "\<forall>k < i * 8 + j. k \<in> bits_set bm"
    proof (intro allI impI)
      fix k assume k: "k < i * 8 + j"
      show "k \<in> bits_set bm"
      proof (cases "k < 8 * i")
        case False
        then have "k = i * 8 + (k - i * 8)" "k - i * 8 < j" using k by auto
        with j(4) i n show ?thesis
          by (metis atLeastLessThan_iff bits_set_drop less_eq_nat.simps(1) order_less_le_trans)
      qed (rule below)
    qed
    show "\<exists>j. find_clear (drop i bm) 0 = Some j \<and> j < 8 \<and> i * 8 + j \<notin> bits_set bm
          \<and> i * 8 + j < 8 * n \<and> (\<forall>k < i * 8 + j. k \<in> bits_set bm)"
      using j low i n m(1) by (intro exI [of _ j]) (auto simp: bits_set_drop)
  qed (rule le)
qed

lemma skip_full_total: "n \<le> length bm \<Longrightarrow> \<exists>i. skip_full bm n 0 = Some i"
  using skip_full_props [of n bm 0] by auto

lemma bits_set_bound: "bits_set bm \<subseteq> {..<8 * length bm}"
  by (auto simp: bits_set_def)

lemma bits_set_replicate [simp]: "bits_set (replicate n 0) = {}"
  by (auto simp: bits_set_def div8_lt)

section \<open>What the two operations do\<close>

lemma bitpool_allocate_full:
  assumes "nbits div 8 \<le> length bm" "nbits < 2 ^ 32" "{..<8 * (nbits div 8)} \<subseteq> bits_set bm"
  shows "bitpool_allocate_bit bm nbits = Some (Inl (- 1))"
proof -
  have nb: "nbits div 8 mod 2 ^ 32 = nbits div 8" using assms(2) by simp
  obtain i where i: "skip_full bm (nbits div 8) 0 = Some i"
    using skip_full_total [OF assms(1)] by blast
  with scan_least [OF assms(1) i] assms(3) have "i = nbits div 8" by auto
  with i nb show ?thesis by (simp add: bitpool_allocate_bit_def Let_def)
qed

lemma bitpool_allocate_least:
  assumes "nbits div 8 \<le> length bm" "nbits < 2 ^ 32" "\<not> {..<8 * (nbits div 8)} \<subseteq> bits_set bm"
  shows "\<exists>b bm'. bitpool_allocate_bit bm nbits = Some (Inr (b, bm')) \<and> b < 8 * (nbits div 8)
    \<and> b \<notin> bits_set bm \<and> (\<forall>k<b. k \<in> bits_set bm) \<and> bits_set bm' = insert b (bits_set bm)
    \<and> length bm' = length bm"
proof -
  have nb: "nbits div 8 mod 2 ^ 32 = nbits div 8" using assms(2) by simp
  obtain i where i: "skip_full bm (nbits div 8) 0 = Some i"
    using skip_full_total [OF assms(1)] by blast
  note sc = scan_least [OF assms(1) i]
  with assms(3) have ne: "i \<noteq> nbits div 8" by auto
  then obtain j where j: "find_clear (drop i bm) 0 = Some j" "i * 8 + j \<notin> bits_set bm"
    "i * 8 + j < 8 * (nbits div 8)" "\<forall>k < i * 8 + j. k \<in> bits_set bm"
    using sc by blast
  have m: "(i * 8 + j) mod 2 ^ 32 = i * 8 + j" using j(3) assms(2) by simp
  have "i * 8 + j < 8 * length bm" using j(3) assms(1) by simp
  then obtain bm' where "set_bit bm (i * 8 + j) = Some bm'" "length bm' = length bm"
    "bits_set bm' = insert (i * 8 + j) (bits_set bm)"
    using set_bit_in by blast
  with i ne nb j m show ?thesis
    by (intro exI [of _ "i * 8 + j"] exI [of _ bm']) (simp add: bitpool_allocate_bit_def Let_def)
qed

lemma bitpool_release_in:
  assumes "b < nbits" "nbits \<le> 8 * length bm"
  shows "\<exists>bm'. bitpool_release_bit bm nbits b = Some (0, bm') \<and> length bm' = length bm
    \<and> bits_set bm' = bits_set bm - {b}"
  using clear_bit_in [of b bm] assms by (auto simp: bitpool_release_bit_def)

lemma bitpool_release_out: "nbits \<le> b \<Longrightarrow> bitpool_release_bit bm nbits b = Some (- 1, bm)"
  by (simp add: bitpool_release_bit_def)

section \<open>The contract\<close>

text \<open>A pool used with its own number of bits, as every caller in the program does.\<close>

definition bitv_alloc :: "u8 list \<Rightarrow> (u8 list \<times> nat) option" where
  "bitv_alloc bm = (case bitpool_allocate_bit bm (8 * length bm) of
      Some (Inr (b, bm')) \<Rightarrow> Some (bm', b) | _ \<Rightarrow> None)"

definition bitv_release :: "u8 list \<Rightarrow> nat \<Rightarrow> u8 list" where
  "bitv_release bm b = (case bitpool_release_bit bm (8 * length bm) b of
      Some (_, bm') \<Rightarrow> bm' | None \<Rightarrow> bm)"

definition bitv_invar :: "u8 list \<Rightarrow> bool" where
  "bitv_invar bm \<longleftrightarrow> 8 * length bm < 2 ^ 32"

lemma bitv_alloc_cases:
  assumes "bitv_invar bm"
  shows "(bits_set bm = {..<8 * length bm} \<and> bitv_alloc bm = None) \<or>
    (\<exists>b bm'. bits_set bm \<noteq> {..<8 * length bm} \<and> bitv_alloc bm = Some (bm', b) \<and> b < 8 * length bm
      \<and> b \<notin> bits_set bm \<and> (\<forall>k<b. k \<in> bits_set bm) \<and> bits_set bm' = insert b (bits_set bm)
      \<and> length bm' = length bm)"
proof (cases "{..<8 * length bm} \<subseteq> bits_set bm")
  case True
  then have "bits_set bm = {..<8 * length bm}" using bits_set_bound [of bm] by blast
  with True assms show ?thesis
    using bitpool_allocate_full [of "8 * length bm" bm] by (simp add: bitv_alloc_def bitv_invar_def)
next
  case False
  then show ?thesis
    using bitpool_allocate_least [of "8 * length bm" bm] assms
    by (auto simp: bitv_alloc_def bitv_invar_def)
qed

lemma bitv_release_props:
  "bits_set (bitv_release bm b) = bits_set bm - {b} \<and> length (bitv_release bm b) = length bm"
proof (cases "b < 8 * length bm")
  case True
  then obtain bm' where "bitpool_release_bit bm (8 * length bm) b = Some (0, bm')"
    "length bm' = length bm" "bits_set bm' = bits_set bm - {b}"
    using bitpool_release_in by blast
  then show ?thesis by (simp add: bitv_release_def)
next
  case False
  then show ?thesis using bits_set_bound [of bm]
    by (auto simp: bitv_release_def bitpool_release_out)
qed

interpretation bv: id_pool bitv_alloc bitv_release bits_set "\<lambda>bm. 8 * length bm" bitv_invar
proof unfold_locales
  fix p p' :: "u8 list" and i
  assume inv: "bitv_invar p"
  show "bits_set p \<subseteq> {..<8 * length p}" by (rule bits_set_bound)
  show "bitv_alloc p = None \<longleftrightarrow> bits_set p = {..<8 * length p}"
    by (rule disjE [OF bitv_alloc_cases [OF inv]]) (elim exE conjE, simp)+
  show "bits_set (bitv_release p i) = bits_set p - {i} \<and> 8 * length (bitv_release p i) = 8 * length p
      \<and> bitv_invar (bitv_release p i)"
    using bitv_release_props [of p i] inv by (simp add: bitv_invar_def)
  assume "bitv_alloc p = Some (p', i)"
  then show "i < 8 * length p \<and> i \<notin> bits_set p \<and> (\<forall>k<i. k \<in> bits_set p)
      \<and> bits_set p' = insert i (bits_set p) \<and> 8 * length p' = 8 * length p \<and> bitv_invar p'"
    using bitv_alloc_cases [OF inv] inv by (auto simp: bitv_invar_def)
qed

section \<open>Properties\<close>

text \<open>\<open>bitpool_allocate_bit\<close> on a pool of whole bytes: it returns \<open>-1\<close> exactly when every
  bit is set, and otherwise the least clear bit, which it sets; no access leaves the pool.\<close>

theorem bitpool_allocate_bit_correct:
  assumes "nbits = 8 * length bm" "nbits < 2 ^ 32"
  shows "if bits_set bm = {..<nbits} then bitpool_allocate_bit bm nbits = Some (Inl (- 1))
    else \<exists>bm'. bitpool_allocate_bit bm nbits = Some (Inr (LEAST b. b \<notin> bits_set bm, bm'))
      \<and> (LEAST b. b \<notin> bits_set bm) < nbits
      \<and> bits_set bm' = insert (LEAST b. b \<notin> bits_set bm) (bits_set bm) \<and> length bm' = length bm"
proof (cases "bits_set bm = {..<nbits}")
  case True
  then show ?thesis using bitpool_allocate_full [of nbits bm] assms by simp
next
  case False
  then have "\<not> {..<8 * (nbits div 8)} \<subseteq> bits_set bm"
    using bits_set_bound [of bm] assms(1) by auto
  then obtain b bm' where b: "bitpool_allocate_bit bm nbits = Some (Inr (b, bm'))" "b < nbits"
    "b \<notin> bits_set bm" "\<forall>k<b. k \<in> bits_set bm" "bits_set bm' = insert b (bits_set bm)"
    "length bm' = length bm"
    using bitpool_allocate_least [of nbits bm] assms by auto
  have "(LEAST b. b \<notin> bits_set bm) = b"
    by (rule Least_equality) (use b(3,4) not_le in blast)+
  with b False show ?thesis by simp
qed

theorem bitpool_allocate_bit_correct_witness:
  "bitpool_allocate_bit [0xff] 8 = Some (Inl (- 1)) \<and>
   (\<exists>bm'. bitpool_allocate_bit [0xff, 0] 16 = Some (Inr (8, bm')))"
proof -
  have full: "bits_set [0xff :: u8] = {..<8}"
    by (auto simp: bits_set_def bit_255 bit_255_int)
  have b8: "8 \<notin> bits_set [0xff, 0]" and lo: "\<forall>k<8. k \<in> bits_set [0xff, 0 :: u8]"
    by (auto simp: bits_set_def bit_255 bit_255_int)
  have L: "(LEAST b. b \<notin> bits_set [0xff, 0 :: u8]) = 8"
    by (rule Least_equality) (use b8 lo not_le in blast)+
  have ne: "bits_set [0xff, 0 :: u8] \<noteq> {..<16}"
  proof
    assume "bits_set [0xff, 0 :: u8] = {..<16}"
    with b8 have "(8::nat) \<notin> {..<16}" by (simp only: simp_thms)
    moreover have "(8::nat) \<in> {..<16}" by simp
    ultimately show False by (rule notE)
  qed
  have "\<exists>bm'. bitpool_allocate_bit [0xff, 0] 16 = Some (Inr (8, bm'))"
    using bitpool_allocate_bit_correct [of 16 "[0xff, 0]"] unfolding if_not_P [OF ne] L by auto
  moreover have "bitpool_allocate_bit [0xff] 8 = Some (Inl (- 1))"
    using bitpool_allocate_bit_correct [of 8 "[0xff]"] unfolding if_P [OF full] by simp
  ultimately show ?thesis by blast
qed

text \<open>The bits allocated one after the other from a pool are pairwise different, none is
  handed out while in use, and exactly as many requests succeed as there are clear bits.\<close>

fun alloc_bits :: "nat \<Rightarrow> u8 list \<Rightarrow> nat list \<times> u8 list" where
  "alloc_bits 0 bm = ([], bm)"
| "alloc_bits (Suc n) bm =
     (case bitpool_allocate_bit bm (8 * length bm) of
        Some (Inr (b, bm')) \<Rightarrow> (let (bs, q) = alloc_bits n bm' in (b # bs, q))
      | _ \<Rightarrow> ([], bm))"

lemma alloc_bits_take_ids: "alloc_bits n bm = bv.take_ids bm n"
  by (induction n arbitrary: bm) (auto simp: bitv_alloc_def split: option.splits sum.splits)

theorem alloc_bits_distinct:
  assumes "8 * length bm < 2 ^ 32" and "alloc_bits n bm = (bs, q)"
  shows "distinct bs \<and> set bs \<inter> bits_set bm = {} \<and> bits_set q = bits_set bm \<union> set bs
    \<and> length bs = min n (8 * length bm - card (bits_set bm))"
  using bv.take_ids_props [of bm n bs q] assms by (simp add: alloc_bits_take_ids bitv_invar_def)

theorem alloc_bits_distinct_witness:
  "\<exists>bs q. alloc_bits 2000 (bitpool_new 1024) = (bs, q) \<and> distinct bs \<and> length bs = 1024"
proof -
  obtain bs q where r: "alloc_bits 2000 (bitpool_new 1024) = (bs, q)" by force
  have len: "length (bitpool_new 1024) = 128" by (simp add: bitpool_new_def)
  then have "8 * length (bitpool_new 1024) < 2 ^ 32" by simp
  from alloc_bits_distinct [OF this r] r len show ?thesis
    by (simp add: bitpool_new_def)
qed

end
