(* ===== verification/Clib.thy ===== *)
theory Clib
  imports Prelude
begin

text \<open>
  What the program uses of the C library on addresses and numbers, on a little-endian host
  (the only byte order the build targets): \<open>htonl\<close>/\<open>ntohl\<close>, \<open>inet_ntoa\<close>/\<open>inet_ntop\<close>,
  \<open>inet_pton\<close>, \<open>inet_aton\<close>, \<open>atoi\<close> and the decimal printing of \<open>"%d"\<close>.  An
  \<open>in_addr\<close> is the 32-bit word a little-endian machine reads from the four network-order
  bytes.  A C string is a \<^typ>\<open>string\<close> without its terminating NUL.
\<close>

section \<open>Byte order\<close>

definition byte_of :: "nat \<Rightarrow> u32 \<Rightarrow> u8" where
  "byte_of k x = ucast (drop_bit (8 * k) x)"

definition word_of_bytes :: "u8 \<Rightarrow> u8 \<Rightarrow> u8 \<Rightarrow> u8 \<Rightarrow> u32" where
  "word_of_bytes b0 b1 b2 b3 =
     ucast b0 OR push_bit 8 (ucast b1) OR push_bit 16 (ucast b2) OR push_bit 24 (ucast b3)"

definition bswap32 :: "u32 \<Rightarrow> u32" where
  "bswap32 x = word_of_bytes (byte_of 3 x) (byte_of 2 x) (byte_of 1 x) (byte_of 0 x)"

abbreviation htonl :: "u32 \<Rightarrow> u32" where "htonl \<equiv> bswap32"
abbreviation ntohl :: "u32 \<Rightarrow> u32" where "ntohl \<equiv> bswap32"

lemma bit_u8_ge: "8 \<le> n \<Longrightarrow> \<not> bit (b::u8) n"
  using bit_imp_le_length [of b n] by auto

lemma bit_word_of_bytes:
  "bit (word_of_bytes b0 b1 b2 b3) n \<longleftrightarrow>
    (if n < 8 then bit b0 n else if n < 16 then bit b1 (n - 8)
     else if n < 24 then bit b2 (n - 16) else n < 32 \<and> bit b3 (n - 24))"
  by (auto simp: word_of_bytes_def bit_simps bit_u8_ge)

lemma bit_byte_of: "bit (byte_of k x) n \<longleftrightarrow> n < 8 \<and> bit x (8 * k + n)"
  by (auto simp: byte_of_def bit_simps)

lemma byte_of_word_of_bytes [simp]:
  "byte_of 0 (word_of_bytes b0 b1 b2 b3) = b0"
  "byte_of (Suc 0) (word_of_bytes b0 b1 b2 b3) = b1"
  "byte_of 2 (word_of_bytes b0 b1 b2 b3) = b2"
  "byte_of 3 (word_of_bytes b0 b1 b2 b3) = b3"
  by (rule bit_word_eqI; simp add: bit_byte_of bit_word_of_bytes)+

lemma word_of_bytes_byte_of [simp]:
  "word_of_bytes (byte_of 0 x) (byte_of (Suc 0) x) (byte_of 2 x) (byte_of 3 x) = x"
  by (rule bit_word_eqI) (auto simp: bit_word_of_bytes bit_byte_of)

lemma word_bytes_exhaust:
  obtains b0 b1 b2 b3 where "x = word_of_bytes b0 b1 b2 b3"
  using word_of_bytes_byte_of [of x] by metis

lemma bswap32_bytes [simp]:
  "bswap32 (word_of_bytes b0 b1 b2 b3) = word_of_bytes b3 b2 b1 b0"
  by (simp add: bswap32_def)

lemma bswap32_invol [simp]: "bswap32 (bswap32 x) = x"
  by (rule word_bytes_exhaust [of x]) simp

lemma bswap32_inj [simp]: "bswap32 x = bswap32 y \<longleftrightarrow> x = y"
  by (metis bswap32_invol)

text \<open>Byte by byte: bitwise operations always, subtraction when no byte borrows.\<close>

lemma bit_u8_less: "bit (b::u8) n \<Longrightarrow> n < 8"
  using bit_imp_le_length [of b n] by simp

lemma word_of_bytes_sum:
  "word_of_bytes b0 b1 b2 b3 =
     ucast b0 + (push_bit 8 (ucast b1) + (push_bit 16 (ucast b2) + push_bit 24 (ucast b3)))"
proof -
  let ?x = "ucast b0 :: u32" and ?y = "push_bit 8 (ucast b1) :: u32"
    and ?z = "push_bit 16 (ucast b2) :: u32" and ?w = "push_bit 24 (ucast b3) :: u32"
  have 1: "?z + ?w = ?z OR ?w"
    by (rule disjunctive_add) (auto simp: bit_simps dest!: bit_u8_less)
  have 2: "?y + (?z OR ?w) = ?y OR (?z OR ?w)"
    by (rule disjunctive_add) (auto simp: bit_simps dest!: bit_u8_less)
  have 3: "?x + (?y OR (?z OR ?w)) = ?x OR (?y OR (?z OR ?w))"
    by (rule disjunctive_add) (auto simp: bit_simps dest!: bit_u8_less)
  show ?thesis unfolding 1 2 3 by (simp only: word_of_bytes_def or.assoc)
qed

lemma ucast_diff_u8: "c \<le> b \<Longrightarrow> ucast (b - c) = (ucast b - ucast c :: u32)" for b c :: u8
proof -
  assume le: "c \<le> b"
  have uc: "ucast w = (of_nat (unat w) :: u32)" for w :: u8 by simp
  have "unat (b - c) = unat b - unat c" "unat c \<le> unat b"
    using le by (simp_all add: unat_sub word_le_nat_alt)
  then show ?thesis unfolding uc by (simp add: of_nat_diff del: of_nat_unat)
qed

lemma word_of_bytes_diff:
  assumes "c0 \<le> b0" "c1 \<le> b1" "c2 \<le> b2" "c3 \<le> b3"
  shows "word_of_bytes b0 b1 b2 b3 - word_of_bytes c0 c1 c2 c3
    = word_of_bytes (b0 - c0) (b1 - c1) (b2 - c2) (b3 - c3)"
proof -
  have p: "push_bit k (x - y) = push_bit k x - push_bit k (y::u32)" for k x y
    by (simp add: push_bit_eq_mult algebra_simps)
  show ?thesis
    unfolding word_of_bytes_sum ucast_diff_u8 [OF assms(1)] ucast_diff_u8 [OF assms(2)]
      ucast_diff_u8 [OF assms(3)] ucast_diff_u8 [OF assms(4)] p
    by simp
qed

lemma word_of_bytes_or:
  "word_of_bytes b0 b1 b2 b3 OR word_of_bytes c0 c1 c2 c3
     = word_of_bytes (b0 OR c0) (b1 OR c1) (b2 OR c2) (b3 OR c3)"
  by (rule bit_word_eqI) (auto simp: bit_word_of_bytes bit_simps)

lemma bswap32_not: "bswap32 (NOT x) = NOT (bswap32 x)"
  by (rule bit_word_eqI) (auto simp: bswap32_def bit_word_of_bytes bit_byte_of bit_simps)

section \<open>Decimal numbers\<close>

definition digit_char :: "nat \<Rightarrow> char" where
  "digit_char d = char_of (48 + d)"

definition digit_value :: "char \<Rightarrow> nat option" where
  "digit_value c = (let n = of_char c :: nat in
     if 48 \<le> n \<and> n \<le> 57 then Some (n - 48)
     else if 97 \<le> n \<and> n \<le> 102 then Some (n - 87)
     else if 65 \<le> n \<and> n \<le> 70 then Some (n - 55) else None)"

definition is_digit :: "char \<Rightarrow> bool" where
  "is_digit c \<longleftrightarrow> 48 \<le> (of_char c :: nat) \<and> (of_char c :: nat) \<le> 57"

definition is_space :: "char \<Rightarrow> bool" where
  "is_space c \<longleftrightarrow> of_char c = (32::nat) \<or> (9 \<le> (of_char c :: nat) \<and> (of_char c :: nat) \<le> 13)"

fun dec_nat :: "nat \<Rightarrow> string" where
  "dec_nat n = (if n < 10 then [digit_char n] else dec_nat (n div 10) @ [digit_char (n mod 10)])"

declare dec_nat.simps [simp del]

fun read_base :: "nat \<Rightarrow> string \<Rightarrow> nat \<Rightarrow> nat \<times> string" where
  "read_base b [] v = (v, [])"
| "read_base b (c # cs) v =
     (case digit_value c of
        Some d \<Rightarrow> if d < b then read_base b cs (v * b + d) else (v, c # cs)
      | None \<Rightarrow> (v, c # cs))"

lemma digit_value_digit [simp]: "d < 10 \<Longrightarrow> digit_value (digit_char d) = Some d"
  by (simp add: digit_value_def digit_char_def Let_def)

lemma digit_chars:
  "digit_char 0 = CHR ''0''" "digit_char 1 = CHR ''1''" "digit_char (Suc 0) = CHR ''1''"
  "digit_char 2 = CHR ''2''" "digit_char 3 = CHR ''3''" "digit_char 4 = CHR ''4''"
  "digit_char 5 = CHR ''5''" "digit_char 6 = CHR ''6''" "digit_char 7 = CHR ''7''"
  "digit_char 8 = CHR ''8''" "digit_char 9 = CHR ''9''"
  by code_simp+

lemma is_digit_digit [simp]: "d < 10 \<Longrightarrow> is_digit (digit_char d)"
  by (simp add: is_digit_def digit_char_def)

lemma dec_nat_hd: "\<exists>d cs. d < 10 \<and> dec_nat n = digit_char d # cs \<and> (n \<noteq> 0 \<longrightarrow> d \<noteq> 0)"
proof (induction n rule: dec_nat.induct)
  case (1 n)
  then show ?case by (cases "n < 10") (auto simp: dec_nat.simps [of n])
qed

text \<open>Reading back a printed number stops at the first character that is no digit.\<close>

lemma read_base_dec:
  "(case r of [] \<Rightarrow> True | c # _ \<Rightarrow> (case digit_value c of Some d \<Rightarrow> 10 \<le> d | None \<Rightarrow> True)) \<Longrightarrow>
   read_base 10 (dec_nat n @ r) v = (v * 10 ^ length (dec_nat n) + n, r)"
proof (induction n arbitrary: r v rule: dec_nat.induct)
  case (1 n)
  have stop: "read_base 10 r w = (w, r)" for w
    using "1.prems" by (cases r) (auto split: option.splits)
  show ?case
  proof (cases "n < 10")
    case True
    then show ?thesis using stop by (simp add: dec_nat.simps [of n])
  next
    case False
    have *: "read_base 10 (dec_nat m @ digit_char d # r) v
        = ((v * 10 ^ length (dec_nat m) + m) * 10 + d, r)"
      if IH: "\<And>v. read_base 10 (dec_nat m @ []) v = (v * 10 ^ length (dec_nat m) + m, [])"
        and d: "d < 10" for m d
    proof -
      have app: "read_base 10 xs v = (w, []) \<Longrightarrow> read_base 10 (xs @ ys) v = read_base 10 ys w"
        for xs ys v w
        by (induction xs arbitrary: v) (auto split: option.splits if_splits)
      show ?thesis using app [of "dec_nat m" v] IH [of v] d stop by simp
    qed
    have "read_base 10 (dec_nat (n div 10) @ digit_char (n mod 10) # r) v
        = ((v * 10 ^ length (dec_nat (n div 10)) + n div 10) * 10 + n mod 10, r)"
      by (rule *) (use "1.IH" [OF False, of "[]"] in auto)
    with False show ?thesis
      by (simp add: dec_nat.simps [of n] algebra_simps)
  qed
qed

lemma dec_nat_byte:
  "n < 256 \<Longrightarrow> dec_nat n =
     (if n < 10 then [digit_char n]
      else if n < 100 then [digit_char (n div 10), digit_char (n mod 10)]
      else [digit_char (n div 100), digit_char (n div 10 mod 10), digit_char (n mod 10)])"
proof -
  assume n: "n < 256"
  consider "n < 10" | "10 \<le> n" "n < 100" | "100 \<le> n" by linarith
  then show ?thesis
  proof cases
    case 1
    then show ?thesis by (simp add: dec_nat.simps [of n])
  next
    case 2
    then have "n div 10 < 10" by auto
    with 2 show ?thesis by (simp add: dec_nat.simps [of n] dec_nat.simps [of "n div 10"])
  next
    case 3
    with n have "\<not> n div 10 < 10" "n div 10 div 10 < 10" "n div 10 div 10 = n div 100" by auto
    with 3 show ?thesis
      by (simp add: dec_nat.simps [of n] dec_nat.simps [of "n div 10"] dec_nat.simps [of "n div 100"])
  qed
qed

section \<open>Addresses\<close>

text \<open>\<open>inet_ntoa\<close> and, for the buffer of \<open>INET_ADDRSTRLEN\<close> bytes every caller passes,
  \<open>inet_ntop(AF_INET, ..)\<close>: at most 15 characters, so the latter cannot fail.\<close>

definition dotted :: "u8 \<Rightarrow> u8 \<Rightarrow> u8 \<Rightarrow> u8 \<Rightarrow> string" where
  "dotted b0 b1 b2 b3 = dec_nat (unat b0) @ CHR ''.'' # dec_nat (unat b1) @ CHR ''.'' #
     dec_nat (unat b2) @ CHR ''.'' # dec_nat (unat b3)"

definition inet_ntoa :: "u32 \<Rightarrow> string" where
  "inet_ntoa a = dotted (byte_of 0 a) (byte_of 1 a) (byte_of 2 a) (byte_of 3 a)"

text \<open>\<open>inet_pton(AF_INET, ..)\<close>: four decimal numbers below 256, no leading zero, separated by
  single dots.\<close>

fun pton_loop :: "string \<Rightarrow> nat list \<Rightarrow> nat \<Rightarrow> bool \<Rightarrow> nat \<Rightarrow> nat list option" where
  "pton_loop [] acc cur saw oct = (if oct < 4 then None else Some (rev (cur # acc)))"
| "pton_loop (c # cs) acc cur saw oct =
     (if is_digit c then
        let new = cur * 10 + (of_char c - 48) in
        if saw \<and> cur = 0 then None
        else if 255 < new then None
        else if \<not> saw then (if 4 < oct + 1 then None else pton_loop cs acc new True (oct + 1))
        else pton_loop cs acc new saw oct
      else if c = CHR ''.'' \<and> saw then
        (if oct = 4 then None else pton_loop cs (cur # acc) 0 False oct)
      else None)"

definition inet_pton :: "string \<Rightarrow> u8 list option" where
  "inet_pton s = map_option (map of_nat) (pton_loop s [] 0 False 0)"

text \<open>\<open>inet_aton\<close>: one to four numbers in C notation (decimal, octal or hexadecimal), the last
  of which fills the remaining bytes; trailing white space ends the address.\<close>

definition strtoul0 :: "string \<Rightarrow> nat \<times> string" where
  "strtoul0 s = (case s of
      c0 # c1 # c2 # r \<Rightarrow>
        if c0 = CHR ''0'' \<and> (c1 = CHR ''x'' \<or> c1 = CHR ''X'') \<and> digit_value c2 \<noteq> None
        then read_base 16 (c2 # r) 0
        else if c0 = CHR ''0'' then read_base 8 s 0 else read_base 10 s 0
    | c0 # _ \<Rightarrow> if c0 = CHR ''0'' then read_base 8 s 0 else read_base 10 s 0
    | [] \<Rightarrow> (0, []))"

fun aton_parts :: "nat \<Rightarrow> string \<Rightarrow> (nat list \<times> nat \<times> string) option" where
  "aton_parts dots [] = None"
| "aton_parts dots (c # cs) =
     (if \<not> is_digit c then None
      else case strtoul0 (c # cs) of (v, r) \<Rightarrow>
        if 0xffffffff < v then None
        else (case r of
            c' # r' \<Rightarrow>
              if c' = CHR ''.'' then
                (case dots of 0 \<Rightarrow> None
                 | Suc d \<Rightarrow> if 0xff < v then None
                     else map_option (\<lambda>(ps, l, t). (v # ps, l, t)) (aton_parts d r'))
              else Some ([], v, r)
          | [] \<Rightarrow> Some ([], v, r)))"

definition pad4 :: "nat list \<Rightarrow> u32" where
  "pad4 ps = (case map of_nat ps @ [0, 0, 0, 0] of
      b0 # b1 # b2 # b3 # _ \<Rightarrow> word_of_bytes b0 b1 b2 b3 | _ \<Rightarrow> 0)"

definition inet_aton :: "string \<Rightarrow> u32 option" where
  "inet_aton s = (case aton_parts 3 s of
      None \<Rightarrow> None
    | Some (ps, lv, trail) \<Rightarrow>
        if (case trail of [] \<Rightarrow> True | c # _ \<Rightarrow> is_space c) \<and> lv < 256 ^ (4 - length ps)
        then Some (pad4 ps OR htonl (of_nat lv)) else None)"

lemma digit_char_minus [simp]: "d < 10 \<Longrightarrow> of_char (digit_char d) - 48 = d"
  by (simp add: digit_char_def)

lemma not_digit_dot [simp]: "\<not> is_digit (CHR ''.'')"
  by (simp add: is_digit_def)

lemma pton_digit:
  "d < 10 \<Longrightarrow> pton_loop (digit_char d # r) acc cur saw oct =
     (if saw \<and> cur = 0 \<or> 255 < cur * 10 + d \<or> \<not> saw \<and> 3 < oct then None
      else pton_loop r acc (cur * 10 + d) True (if saw then oct else oct + 1))"
  by (simp add: Let_def)

lemma pton_loop_dec:
  assumes "n < 256" "oct < 4"
  shows "pton_loop (dec_nat n @ r) acc 0 False oct = pton_loop r acc n True (oct + 1)"
proof -
  consider "n < 10" | "10 \<le> n" "n < 100" | "100 \<le> n" by linarith
  then show ?thesis
  proof cases
    case 1
    with assms show ?thesis by (simp add: dec_nat_byte pton_digit)
  next
    case 2
    then have "n div 10 < 10" "n div 10 \<noteq> 0" by auto
    with 2 assms show ?thesis by (simp add: dec_nat_byte pton_digit)
  next
    case 3
    with assms have "n div 100 < 10" "n div 100 \<noteq> 0" "n div 100 * 10 + n div 10 mod 10 = n div 10"
      "n div 10 \<noteq> 0" "n div 10 < 26"
      by (auto simp: div_mult2_eq [of n 10 10, simplified])
    with 3 assms show ?thesis
      by (simp add: dec_nat_byte pton_digit del: pton_loop.simps)
  qed
qed

lemma pton_loop_dot:
  "oct \<noteq> 4 \<Longrightarrow> pton_loop (CHR ''.'' # r) acc n True oct = pton_loop r (n # acc) 0 False oct"
  by simp

lemma unat_byte [simp]: "unat (b::u8) < 256"
  using unsigned_less [of b, where ?'a = nat] by simp

lemma pton_loop_part:
  "oct < 3 \<Longrightarrow> pton_loop (dec_nat (unat (b::u8)) @ CHR ''.'' # r) acc 0 False oct
     = pton_loop r (unat b # acc) 0 False (oct + 1)"
  by (subst pton_loop_dec) (simp_all add: pton_loop_dot del: pton_loop.simps)

lemma pton_loop_last:
  "pton_loop (dec_nat (unat (b::u8))) acc 0 False 3 = Some (rev (unat b # acc))"
  using pton_loop_dec [of "unat b" 3 "[]" acc] by simp

lemma inet_pton_dotted: "inet_pton (dotted b0 b1 b2 b3) = Some [b0, b1, b2, b3]"
  by (simp add: inet_pton_def dotted_def pton_loop_part pton_loop_last [unfolded numeral_3_eq_3]
      del: pton_loop.simps)

text \<open>What is parsed has four bytes.\<close>

lemma pton_loop_length:
  assumes "pton_loop cs acc cur saw oct = Some r" "length acc + (if saw then 1 else 0) = oct" "oct \<le> 4" "\<not> saw \<longrightarrow> oct < 4"
  shows "length r = 4"
  using assms
proof (induction cs arbitrary: acc cur saw oct)
  case (Cons c cs)
  define new where "new = cur * 10 + ((of_char c :: nat) - 48)"
  note p = Cons.prems(1) [unfolded pton_loop.simps Let_def, folded new_def]
  consider "is_digit c" saw | "is_digit c" "\<not> saw" | "\<not> is_digit c" saw
    using p by (auto split: if_split_asm)
  then show ?case
  proof cases
    case 1
    then have "pton_loop cs acc new True oct = Some r" using p by (simp split: if_split_asm)
    from Cons.IH [OF this] Cons.prems(2,3) 1 show ?thesis by simp
  next
    case 2
    then have "pton_loop cs acc new True (oct + 1) = Some r" using p by (simp split: if_split_asm)
    from Cons.IH [OF this] Cons.prems(2-4) 2 show ?thesis by simp
  next
    case 3
    then have "pton_loop cs (cur # acc) 0 False oct = Some r" "oct \<noteq> 4" using p by (simp_all split: if_split_asm)
    from Cons.IH [OF this(1)] this(2) Cons.prems(2,3) 3 show ?thesis by simp
  qed
qed (auto split: if_splits)

lemma inet_pton_length: "inet_pton t = Some b \<Longrightarrow> length b = 4"
  using pton_loop_length [of t "[]" 0 False 0] by (auto simp: inet_pton_def)

text \<open>Parsing what \<open>inet_ntoa\<close> prints gives the address back.\<close>

definition ends_number :: "string \<Rightarrow> bool" where
  "ends_number r \<longleftrightarrow> r = [] \<or> hd r = CHR ''.''"

lemma digit_value_dot [simp]: "digit_value (CHR ''.'') = None"
  by (simp add: digit_value_def Let_def)

lemma ends_number_stop:
  "ends_number r \<Longrightarrow>
   (case r of [] \<Rightarrow> True | c # _ \<Rightarrow> (case digit_value c of Some d \<Rightarrow> 10 \<le> d | None \<Rightarrow> True))"
  by (cases r) (auto simp: ends_number_def)

lemma digit_char_zero_iff: "d < 10 \<Longrightarrow> digit_char d = CHR ''0'' \<longleftrightarrow> d = 0"
proof -
  assume d: "d < 10"
  have "digit_char d = CHR ''0'' \<longleftrightarrow> of_char (digit_char d) = (of_char (CHR ''0'') :: nat)"
    by (simp only: of_char_eq_iff)
  also have "\<dots> \<longleftrightarrow> d = 0" using d by (simp add: digit_char_def)
  finally show ?thesis .
qed

lemma strtoul0_dec: "ends_number r \<Longrightarrow> strtoul0 (dec_nat n @ r) = (n, r)"
proof (cases "n = 0")
  case True
  assume "ends_number r"
  then show ?thesis using True
    by (cases r; cases "tl r")
      (auto simp: dec_nat.simps [of 0] strtoul0_def digit_char_def digit_value_def ends_number_def)
next
  case False
  assume r: "ends_number r"
  obtain d cs where d: "d < 10" "dec_nat n = digit_char d # cs" "d \<noteq> 0"
    using dec_nat_hd [of n] False by auto
  have "strtoul0 (dec_nat n @ r) = read_base 10 (dec_nat n @ r) 0"
    using d digit_char_zero_iff [of d] by (auto simp: strtoul0_def split: list.splits)
  then show ?thesis using read_base_dec [OF ends_number_stop [OF r], of n 0] by simp
qed

lemma aton_parts_dec_end: "n < 256 \<Longrightarrow> aton_parts dots (dec_nat n) = Some ([], n, [])"
  using strtoul0_dec [of "[]" n] dec_nat_hd [of n] by (auto simp: ends_number_def)

lemma aton_parts_dec_dot:
  "n < 256 \<Longrightarrow> aton_parts (Suc dots) (dec_nat n @ CHR ''.'' # r)
     = map_option (\<lambda>(ps, l, t). (n # ps, l, t)) (aton_parts dots r)"
  using strtoul0_dec [of "CHR ''.'' # r" n] dec_nat_hd [of n] by (auto simp: ends_number_def)

lemma aton_parts_dotted:
  "aton_parts 3 (dotted b0 b1 b2 b3) = Some ([unat b0, unat b1, unat b2], unat b3, [])"
  by (simp add: dotted_def numeral_3_eq_3 aton_parts_dec_dot aton_parts_dec_end del: aton_parts.simps)

lemma htonl_byte: "htonl (ucast (b::u8)) = word_of_bytes 0 0 0 b"
proof -
  have "(ucast b :: u32) = word_of_bytes b 0 0 0"
    by (simp add: word_of_bytes_def)
  then show ?thesis by simp
qed

theorem inet_aton_ntoa: "inet_aton (inet_ntoa a) = Some a"
proof (rule word_bytes_exhaust [of a])
  fix b0 b1 b2 b3 assume a: "a = word_of_bytes b0 b1 b2 b3"
  have "word_of_bytes b0 b1 b2 0 OR word_of_bytes 0 0 0 b3 = word_of_bytes b0 b1 b2 b3"
    by (simp add: word_of_bytes_def or.assoc)
  then show ?thesis
    by (simp add: a inet_ntoa_def inet_aton_def aton_parts_dotted pad4_def htonl_byte)
qed

lemma inet_pton_ntoa:
  "inet_pton (inet_ntoa a) = Some [byte_of 0 a, byte_of 1 a, byte_of 2 a, byte_of 3 a]"
  by (simp add: inet_ntoa_def inet_pton_dotted)

lemma inet_ntoa_inj [simp]: "inet_ntoa a = inet_ntoa b \<longleftrightarrow> a = b"
  by (metis inet_aton_ntoa option.inject)

text \<open>\<open>atoi\<close>: leading white space, an optional sign, decimal digits; the \<open>long\<close> the C
  library reads is cut to 32 bits.\<close>

definition atoi :: "string \<Rightarrow> int" where
  "atoi s = (let t = dropWhile is_space s;
       neg = (t \<noteq> [] \<and> hd t = CHR ''-'');
       u = (if t \<noteq> [] \<and> (hd t = CHR ''-'' \<or> hd t = CHR ''+'') then tl t else t);
       v = int (fst (read_base 10 u 0)) in
     signed_take_bit 31 (if neg then - v else v))"

text \<open>\<open>"%d"\<close>.\<close>

definition int_text :: "int \<Rightarrow> string" where
  "int_text i = (if i < 0 then CHR ''-'' # dec_nat (nat (- i)) else dec_nat (nat i))"

end
