(* ===== verification/Ippool.thy ===== *)
theory Ippool
  imports Bitv Clib
begin

text \<open>
  \<open>nvctrler/src/ippool.c\<close>: the pool of host addresses of a virtual subnet, a bitmap of the
  addresses handed out together with the address arithmetic of \<open>ipcalc\<close>.  The record is
  \<open>struct ippool\<close>; the addresses are \<open>s_addr\<close> words in network byte order on a little-endian
  host, as the code computes with them.  Memory allocation succeeds.
\<close>

section \<open>The code\<close>

record ippool =
  hosts :: u32
  hostmin :: u32
  hostmax :: u32
  address :: u32
  netmask :: u32
  pool :: "u8 list"

text \<open>The three bit helpers are the same code as in \<open>bitv.c\<close>.\<close>

definition ip_get_bit :: "u8 list \<Rightarrow> nat \<Rightarrow> u8 option" where
  "ip_get_bit bitmap b = do { w \<leftarrow> fetch bitmap (b div 8); Some (drop_bit (b mod 8) w AND 1) }"

definition ip_set_bit :: "u8 list \<Rightarrow> nat \<Rightarrow> u8 list option" where
  "ip_set_bit bitmap b = do {
     w \<leftarrow> fetch bitmap (b div 8);
     store bitmap (b div 8) (w OR push_bit (b mod 8) 1) }"

definition reset_bit :: "u8 list \<Rightarrow> nat \<Rightarrow> u8 list option" where
  "reset_bit bitmap b = do {
     w \<leftarrow> fetch bitmap (b div 8);
     store bitmap (b div 8) (w AND NOT (push_bit (b mod 8) 1)) }"

definition alloc_bitmap :: "nat \<Rightarrow> u8 list" where
  "alloc_bitmap bits = replicate ((bits + 7) div 8) 0"

text \<open>\<open>for (j = 0; get_bit( bitmap+i, j); j++);\<close>\<close>

function ip_find_clear :: "u8 list \<Rightarrow> nat \<Rightarrow> nat option" where
  "ip_find_clear bitmap j =
     (case ip_get_bit bitmap j of
        None \<Rightarrow> None
      | Some v \<Rightarrow> if v \<noteq> 0 then ip_find_clear bitmap (Suc j) else Some j)"
  by pat_completeness auto
termination
  by (relation "measure (\<lambda>(bm, j). 8 * length bm - j)")
    (auto simp: ip_get_bit_def fetch_def split: if_splits Option.bind_splits)

declare ip_find_clear.simps [simp del]

text \<open>\<open>allocate_bit\<close> returns 0 (here \<^term>\<open>None\<close>) or sets the bit and returns it.  The index is
  computed in \<open>int\<close>, whose overflow is undefined: a fault.  The byte scan is the loop of
  \<open>bitv.c\<close>.\<close>

definition allocate_bit :: "u8 list \<Rightarrow> nat \<Rightarrow> (nat \<times> u8 list) option option" where
  "allocate_bit bitmap bits =
     (let byte_size = (bits + 7) div 8 in do {
        i \<leftarrow> skip_full bitmap byte_size 0;
        if i = byte_size then Some None
        else do {
          j \<leftarrow> ip_find_clear (drop i bitmap) 0;
          let b = i * 8 + j;
          if 2 ^ 31 \<le> b then None
          else if bits < b then Some None
          else do {
            bitmap' \<leftarrow> ip_set_bit bitmap b;
            Some (Some (b, bitmap')) } } })"

definition free_bit :: "u8 list \<Rightarrow> nat \<Rightarrow> nat \<Rightarrow> (int \<times> u8 list) option" where
  "free_bit bitmap bits b =
     (if b \<le> bits then do { bitmap' \<leftarrow> reset_bit bitmap b; Some (1, bitmap') }
      else Some (0, bitmap))"

definition addr_of_bytes :: "u8 list \<Rightarrow> u32" where
  "addr_of_bytes bs = (case bs of b0 # b1 # b2 # b3 # _ \<Rightarrow> word_of_bytes b0 b1 b2 b3 | _ \<Rightarrow> 0)"

text \<open>\<open>ipcalc\<close>: \<^term>\<open>None\<close> is the return value \<open>-1\<close>; on success all fields but the bitmap.\<close>

definition ipcalc :: "string \<Rightarrow> string \<Rightarrow> ippool option" where
  "ipcalc addr nm =
     (case inet_pton ''255.255.255.255'' of None \<Rightarrow> None | Some mbytes \<Rightarrow>
      case inet_pton addr of None \<Rightarrow> None | Some abytes \<Rightarrow>
      case inet_pton nm of None \<Rightarrow> None | Some nbytes \<Rightarrow>
        let msk = addr_of_bytes mbytes; a = addr_of_bytes abytes; n = addr_of_bytes nbytes;
            h = ntohl (msk - n) - 2;
            hmax = (a OR NOT n) - htonl 1;
            hmin = hmax - htonl h
        in Some \<lparr>hosts = h, hostmin = hmin, hostmax = hmax, address = a, netmask = n, pool = []\<rparr>)"

definition ippool_new :: "string \<Rightarrow> string \<Rightarrow> ippool option" where
  "ippool_new addr nm =
     (case ipcalc addr nm of
        None \<Rightarrow> None
      | Some p \<Rightarrow> Some (p\<lparr>pool := alloc_bitmap (unat (hosts p))\<rparr>))"

definition ippool_get_ip :: "ippool \<Rightarrow> (string option \<times> ippool) option" where
  "ippool_get_ip p = do {
     r \<leftarrow> allocate_bit (pool p) (unat (hosts p));
     case r of
       None \<Rightarrow> Some (None, p)
     | Some (b, bm) \<Rightarrow>
         Some (Some (inet_ntoa (htonl (ntohl (hostmin p) + of_nat b))), p\<lparr>pool := bm\<rparr>) }"

text \<open>The difference is an \<open>int\<close> and is passed on as a \<open>size_t\<close>: an address below \<open>hostmin\<close>
  becomes a huge bit number.\<close>

definition ippool_release_ip :: "ippool \<Rightarrow> string \<Rightarrow> ippool option" where
  "ippool_release_ip p ip =
     (case inet_aton ip of
        None \<Rightarrow> Some p
      | Some a \<Rightarrow>
          let d = ntohl a - ntohl (hostmin p); b = unat (scast d :: u64)
          in do { (_, bm) \<leftarrow> free_bit (pool p) (unat (hosts p)) b; Some (p\<lparr>pool := bm\<rparr>) })"

section \<open>The bitmap\<close>

lemma ip_bit_ops: "ip_get_bit = get_bit" "ip_set_bit = set_bit" "reset_bit = clear_bit"
  by (rule ext, rule ext,
      simp add: ip_get_bit_def get_bit_def ip_set_bit_def set_bit_def reset_bit_def clear_bit_def)+

lemma ip_find_clear_eq: "ip_find_clear bm j = find_clear bm j"
  by (induction bm j rule: ip_find_clear.induct)
    (simp add: ip_bit_ops find_clear.simps [of bm j for bm j] ip_find_clear.simps [of bm j for bm j]
      split: option.splits)

text \<open>The bits an address pool can hand out: \<open>0 .. hosts\<close>, unless the bitmap is one short.\<close>

definition ip_cap :: "ippool \<Rightarrow> nat" where
  "ip_cap p = min (unat (hosts p) + 1) (8 * ((unat (hosts p) + 7) div 8))"

definition ip_used :: "ippool \<Rightarrow> nat set" where
  "ip_used p = bits_set (pool p)"

definition ip_invar :: "ippool \<Rightarrow> bool" where
  "ip_invar p \<longleftrightarrow> unat (hosts p) + 7 < 2 ^ 31 \<and> length (pool p) = (unat (hosts p) + 7) div 8
     \<and> bits_set (pool p) \<subseteq> {..<ip_cap p}"

definition ip_alloc :: "ippool \<Rightarrow> (ippool \<times> nat) option" where
  "ip_alloc p = (case allocate_bit (pool p) (unat (hosts p)) of
      Some (Some (b, bm)) \<Rightarrow> Some (p\<lparr>pool := bm\<rparr>, b) | _ \<Rightarrow> None)"

definition ip_release :: "ippool \<Rightarrow> nat \<Rightarrow> ippool" where
  "ip_release p b = (case free_bit (pool p) (unat (hosts p)) b of
      Some (_, bm) \<Rightarrow> p\<lparr>pool := bm\<rparr> | None \<Rightarrow> p)"

lemma ip_cap_le: "ip_cap p \<le> 8 * ((unat (hosts p) + 7) div 8)" "ip_cap p \<le> unat (hosts p) + 1"
  by (simp_all add: ip_cap_def)

lemma allocate_bit_cases:
  assumes inv: "ip_invar p"
  shows "(ip_used p = {..<ip_cap p} \<and> allocate_bit (pool p) (unat (hosts p)) = Some None) \<or>
    (\<exists>b bm. ip_used p \<noteq> {..<ip_cap p} \<and> allocate_bit (pool p) (unat (hosts p)) = Some (Some (b, bm))
      \<and> b < ip_cap p \<and> b \<notin> ip_used p \<and> (\<forall>k<b. k \<in> ip_used p)
      \<and> bits_set bm = insert b (ip_used p) \<and> length bm = length (pool p))"
proof -
  let ?h = "unat (hosts p)" and ?bm = "pool p"
  let ?n = "(?h + 7) div 8"
  have len: "length ?bm = ?n" and small: "?h + 7 < 2 ^ 31" and sub: "bits_set ?bm \<subseteq> {..<ip_cap p}"
    using inv by (auto simp: ip_invar_def)
  obtain i where i: "skip_full ?bm ?n 0 = Some i"
    using skip_full_total [of ?n ?bm] len by auto
  note sc = scan_least [OF _ i]
  show ?thesis
  proof (cases "i = ?n")
    case True
    then have "{..<8 * ?n} \<subseteq> bits_set ?bm" using sc len by simp
    then have "bits_set ?bm = {..<ip_cap p}" using sub ip_cap_le(1) [of p] by auto
    with True i show ?thesis by (simp add: allocate_bit_def ip_used_def Let_def)
  next
    case False
    then obtain j where j: "find_clear (drop i ?bm) 0 = Some j" "i * 8 + j \<notin> bits_set ?bm"
      "i * 8 + j < 8 * ?n" "\<forall>k < i * 8 + j. k \<in> bits_set ?bm"
      using sc len by auto
    let ?b = "i * 8 + j"
    have b31: "?b < 2 ^ 31" using j(3) small by linarith
    show ?thesis
    proof (cases "?h < ?b")
      case True
      then have "{..<ip_cap p} \<subseteq> bits_set ?bm"
        using j(4) ip_cap_le(2) [of p] by auto
      then have "bits_set ?bm = {..<ip_cap p}" using sub by auto
      with True i False j(1) b31 show ?thesis
        by (simp add: allocate_bit_def ip_used_def Let_def ip_find_clear_eq)
    next
      case lt: False
      obtain bm' where bm': "set_bit ?bm ?b = Some bm'" "length bm' = length ?bm"
        "bits_set bm' = insert ?b (bits_set ?bm)"
        using set_bit_in [of ?b ?bm] j(3) len by auto
      have "?b < ip_cap p" using lt j(3) by (simp add: ip_cap_def)
      moreover have "ip_used p \<noteq> {..<ip_cap p}" using calculation j(2) by (auto simp: ip_used_def)
      ultimately show ?thesis
        using i False j b31 lt bm'
        by (intro disjI2 exI [of _ ?b] exI [of _ bm'])
          (simp add: allocate_bit_def ip_used_def Let_def ip_find_clear_eq ip_bit_ops)
    qed
  qed
qed

lemma free_bit_in:
  assumes "ip_invar p" "b < ip_cap p"
  shows "\<exists>bm. free_bit (pool p) (unat (hosts p)) b = Some (1, bm)
    \<and> bits_set bm = bits_set (pool p) - {b} \<and> length bm = length (pool p)"
proof -
  have "b \<le> unat (hosts p)" "b < 8 * length (pool p)"
    using assms ip_cap_le [of p] by (auto simp: ip_invar_def)
  then show ?thesis
    using clear_bit_in [of b "pool p"] by (auto simp: free_bit_def ip_bit_ops)
qed

lemma ip_cap_pool [simp]: "ip_cap (p\<lparr>pool := bm\<rparr>) = ip_cap p"
  by (simp add: ip_cap_def)

lemma ip_invar_pool:
  "ip_invar p \<Longrightarrow> length bm = length (pool p) \<Longrightarrow> bits_set bm \<subseteq> {..<ip_cap p}
   \<Longrightarrow> ip_invar (p\<lparr>pool := bm\<rparr>)"
  by (simp add: ip_invar_def)

lemma ip_alloc_SomeD:
  assumes inv: "ip_invar p" and al: "ip_alloc p = Some (p', i)"
  shows "\<exists>bm. p' = p\<lparr>pool := bm\<rparr> \<and> i < ip_cap p \<and> i \<notin> ip_used p \<and> (\<forall>k<i. k \<in> ip_used p)
    \<and> bits_set bm = insert i (ip_used p) \<and> length bm = length (pool p)"
proof (rule disjE [OF allocate_bit_cases [OF inv]])
  assume "ip_used p = {..<ip_cap p} \<and> allocate_bit (pool p) (unat (hosts p)) = Some None"
  with al show ?thesis by (simp add: ip_alloc_def)
next
  assume "\<exists>b bm. ip_used p \<noteq> {..<ip_cap p}
      \<and> allocate_bit (pool p) (unat (hosts p)) = Some (Some (b, bm))
      \<and> b < ip_cap p \<and> b \<notin> ip_used p \<and> (\<forall>k<b. k \<in> ip_used p)
      \<and> bits_set bm = insert b (ip_used p) \<and> length bm = length (pool p)"
  then obtain b bm where "allocate_bit (pool p) (unat (hosts p)) = Some (Some (b, bm))"
    "b < ip_cap p" "b \<notin> ip_used p" "\<forall>k<b. k \<in> ip_used p"
    "bits_set bm = insert b (ip_used p)" "length bm = length (pool p)"
    by blast
  with al show ?thesis by (intro exI [of _ bm]) (simp add: ip_alloc_def)
qed

interpretation ip: id_pool ip_alloc ip_release ip_used ip_cap ip_invar
proof unfold_locales
  fix p p' :: ippool and i
  assume inv: "ip_invar p"
  show "ip_used p \<subseteq> {..<ip_cap p}" using inv by (simp add: ip_invar_def ip_used_def)
  show "ip_alloc p = None \<longleftrightarrow> ip_used p = {..<ip_cap p}"
    by (rule disjE [OF allocate_bit_cases [OF inv]]) (elim exE conjE, simp add: ip_alloc_def)+
  show "ip_used (ip_release p i) = ip_used p - {i} \<and> ip_cap (ip_release p i) = ip_cap p
      \<and> ip_invar (ip_release p i)"
  proof (cases "i < ip_cap p")
    case True
    obtain bm where bm: "free_bit (pool p) (unat (hosts p)) i = Some (1, bm)"
      "bits_set bm = bits_set (pool p) - {i}" "length bm = length (pool p)"
      using free_bit_in [OF inv True] by blast
    have "bits_set bm \<subseteq> {..<ip_cap p}" using bm(2) inv by (auto simp: ip_invar_def)
    with bm inv show ?thesis
      by (simp add: ip_release_def ip_used_def ip_invar_pool)
  next
    case False
    have len: "length (pool p) = (unat (hosts p) + 7) div 8"
      using inv by (simp add: ip_invar_def)
    have "ip_release p i = p"
    proof (cases "i \<le> unat (hosts p)")
      case True
      then have "8 * length (pool p) \<le> i" using False len by (simp add: ip_cap_def)
      then have "reset_bit (pool p) i = None"
        by (simp add: reset_bit_def fetch_def less_eq_div_iff_mult_less_eq mult.commute not_less)
      with True show ?thesis by (simp add: ip_release_def free_bit_def)
    qed (simp add: ip_release_def free_bit_def)
    moreover have "i \<notin> ip_used p"
      using False inv by (auto simp: ip_invar_def ip_used_def)
    ultimately show ?thesis using inv by simp
  qed
  assume "ip_alloc p = Some (p', i)"
  from ip_alloc_SomeD [OF inv this] obtain bm where bm: "p' = p\<lparr>pool := bm\<rparr>" "i < ip_cap p"
    "i \<notin> ip_used p" "\<forall>k<i. k \<in> ip_used p" "bits_set bm = insert i (ip_used p)"
    "length bm = length (pool p)"
    by blast
  moreover have "bits_set bm \<subseteq> {..<ip_cap p}"
    using bm(2,5) inv by (auto simp: ip_invar_def ip_used_def)
  ultimately show "i < ip_cap p \<and> i \<notin> ip_used p \<and> (\<forall>k<i. k \<in> ip_used p)
      \<and> ip_used p' = insert i (ip_used p) \<and> ip_cap p' = ip_cap p \<and> ip_invar p'"
    using inv by (simp add: ip_used_def ip_invar_pool)
qed

section \<open>Addresses handed out\<close>

definition nth_ip :: "ippool \<Rightarrow> nat \<Rightarrow> string" where
  "nth_ip p b = inet_ntoa (htonl (ntohl (hostmin p) + of_nat b))"

lemma ippool_get_ip_eq:
  assumes "ip_invar p"
  shows "ippool_get_ip p = Some (case ip_alloc p of
      None \<Rightarrow> (None, p) | Some (p', b) \<Rightarrow> (Some (nth_ip p b), p'))"
  by (rule disjE [OF allocate_bit_cases [OF assms]])
    (elim exE conjE, simp add: ippool_get_ip_def ip_alloc_def nth_ip_def)+

lemma nth_ip_inj:
  assumes "ip_invar p" "b < ip_cap p" "c < ip_cap p"
  shows "nth_ip p b = nth_ip p c \<longleftrightarrow> b = c"
proof -
  have small: "b < 2 ^ 32" "c < 2 ^ 32"
    using assms ip_cap_le(2) [of p] by (auto simp: ip_invar_def)
  have "nth_ip p b = nth_ip p c \<longleftrightarrow> (of_nat b :: u32) = of_nat c"
    by (simp add: nth_ip_def)
  also have "\<dots> \<longleftrightarrow> b = c"
    using small by (simp add: word_of_nat_eq_iff take_bit_eq_mod)
  finally show ?thesis .
qed

lemma ippool_release_nth:
  assumes inv: "ip_invar p" and b: "b < ip_cap p"
  shows "ippool_release_ip p (nth_ip p b) = Some (ip_release p b)"
proof -
  have lt: "b < 2 ^ 31" using b ip_cap_le(2) [of p] inv by (auto simp: ip_invar_def)
  have "sint (of_nat b :: u32) = int b"
    using lt by (simp add: signed_of_nat signed_take_bit_int_eq_self)
  then have "(scast (of_nat b :: u32) :: u64) = of_nat b"
    by (simp add: scast_eq)
  then have "unat (scast (of_nat b :: u32) :: u64) = b"
    using lt by (simp add: unat_of_nat)
  moreover obtain bm where "free_bit (pool p) (unat (hosts p)) b = Some (1, bm)"
    using free_bit_in [OF inv b] by blast
  ultimately show ?thesis
    by (simp add: ippool_release_ip_def nth_ip_def inet_aton_ntoa ip_release_def Let_def)
qed

section \<open>Address arithmetic\<close>

lemma le_or_byte: "(m::u8) \<le> a OR m"
  by (metis le_word_or2 or.commute)

lemma word_or_minus: "(a OR m) - m = a AND NOT (m::'a::len word)"
proof -
  have "(a AND NOT m) + m = (a AND NOT m) OR m"
    by (rule disjunctive_add) (auto simp: bit_simps)
  also have "\<dots> = a OR m"
    by (rule bit_word_eqI) (auto simp: bit_simps)
  finally show ?thesis by (simp add: algebra_simps)
qed

text \<open>The subtractions of \<open>ipcalc\<close> run on network-order words of a little-endian machine.
  They borrow across no byte, so they agree with the host-order arithmetic the comments of
  the code talk about, as long as the host part of the mask has its two low bits.\<close>

lemma ipcalc_arith:
  fixes A M :: u32
  assumes low: "M AND 3 = 3"
  defines "X \<equiv> htonl (A OR M)"
  shows "X - htonl 1 = htonl ((A OR M) - 1)"
    and "X - htonl 1 - htonl (M - 2) = htonl ((A AND NOT M) + 1)"
proof -
  obtain a0 a1 a2 a3 where A: "A = word_of_bytes a0 a1 a2 a3" by (rule word_bytes_exhaust)
  obtain m0 m1 m2 m3 where M: "M = word_of_bytes m0 m1 m2 m3" by (rule word_bytes_exhaust)
  have one: "(1::u32) = word_of_bytes 1 0 0 0" and two: "(2::u32) = word_of_bytes 2 0 0 0"
    by (simp_all add: word_of_bytes_def)
  have m0: "m0 AND 3 = 3"
  proof -
    have "byte_of 0 (M AND 3) = m0 AND 3"
      by (rule bit_word_eqI) (auto simp: M byte_of_def word_of_bytes_def bit_simps)
    then show ?thesis by (simp add: low byte_of_def)
  qed
  have m3: "3 \<le> m0" using word_and_le2 [of m0 3] m0 by (simp add: and.commute)
  then have m2: "2 \<le> m0" and m1: "1 \<le> m0 - 2"
    by (simp_all add: word_le_nat_alt unat_sub)
  have o3: "3 \<le> a0 OR m0" using m3 le_or_byte [of m0 a0] by simp
  then have o1: "1 \<le> a0 OR m0" by (simp add: word_le_nat_alt)
  have le: "m0 - 2 \<le> (a0 OR m0) - 1"
    using o3 m3 le_or_byte [of m0 a0] by (simp add: word_le_nat_alt unat_sub)
  have X: "X = word_of_bytes (a3 OR m3) (a2 OR m2) (a1 OR m1) (a0 OR m0)"
    by (simp add: X_def A M word_of_bytes_or)
  have hmax: "X - htonl 1 = word_of_bytes (a3 OR m3) (a2 OR m2) (a1 OR m1) ((a0 OR m0) - 1)"
    by (simp add: X one word_of_bytes_diff o1)
  have "(A OR M) - 1 = word_of_bytes ((a0 OR m0) - 1) (a1 OR m1) (a2 OR m2) (a3 OR m3)"
    by (simp add: A M one word_of_bytes_or word_of_bytes_diff o1)
  with hmax show 1: "X - htonl 1 = htonl ((A OR M) - 1)" by simp
  have Mm: "M - 2 = word_of_bytes (m0 - 2) m1 m2 m3"
    by (simp add: M two word_of_bytes_diff m2)
  have "X - htonl 1 - htonl (M - 2)
      = htonl (word_of_bytes ((a0 OR m0) - 1 - (m0 - 2)) ((a1 OR m1) - m1) ((a2 OR m2) - m2) ((a3 OR m3) - m3))"
    by (simp add: hmax Mm word_of_bytes_diff le le_or_byte)
  also have "word_of_bytes ((a0 OR m0) - 1 - (m0 - 2)) ((a1 OR m1) - m1) ((a2 OR m2) - m2) ((a3 OR m3) - m3)
      = (A OR M) - 1 - (M - 2)"
    by (simp add: A M one two word_of_bytes_or word_of_bytes_diff o1 m2 le le_or_byte)
  also have "\<dots> = (A AND NOT M) + 1"
    using word_or_minus [of A M] by (simp add: algebra_simps)
  finally show "X - htonl 1 - htonl (M - 2) = htonl ((A AND NOT M) + 1)" .
qed


lemma ipcalc_eq:
  assumes a: "inet_pton addr = Some abytes" and n: "inet_pton nm = Some nbytes"
    and low: "NOT (ntohl (addr_of_bytes nbytes)) AND 3 = 3"
  defines "A \<equiv> ntohl (addr_of_bytes abytes)" and "M \<equiv> NOT (ntohl (addr_of_bytes nbytes))"
  shows "ipcalc addr nm = Some \<lparr>hosts = M - 2, hostmin = htonl ((A AND NOT M) + 1),
    hostmax = htonl ((A OR M) - 1), address = addr_of_bytes abytes,
    netmask = addr_of_bytes nbytes, pool = []\<rparr>"
proof -
  have full: "inet_pton ''255.255.255.255'' = Some [255, 255, 255, 255]"
    by (simp add: inet_pton_def is_digit_def Let_def)
  have ones: "addr_of_bytes [255, 255, 255, 255] = - 1"
    by (simp add: addr_of_bytes_def word_of_bytes_def)
  have h: "ntohl (- 1 - addr_of_bytes nbytes) = M"
  proof -
    have "- 1 - addr_of_bytes nbytes = NOT (addr_of_bytes nbytes)" by (simp add: not_eq_complement)
    then show ?thesis by (simp only: bswap32_not M_def)
  qed
  have X: "addr_of_bytes abytes OR NOT (addr_of_bytes nbytes) = htonl (A OR M)"
  proof -
    have "htonl (A OR M) = htonl A OR htonl M"
      by (rule bit_word_eqI) (auto simp: bswap32_def bit_word_of_bytes bit_byte_of bit_simps)
    then show ?thesis by (simp add: A_def M_def bswap32_not)
  qed
  show ?thesis
    using ipcalc_arith [OF low, of A] 
    by (simp add: ipcalc_def full a n ones Let_def h X flip: M_def)
qed


lemma ip_cap_subnet:
  assumes "2 \<le> k" "k \<le> 30" "hosts p = mask k - 2"
  shows "ip_cap p = 2 ^ k - 2 \<and> unat (hosts p) = 2 ^ k - 3"
proof -
  have p4: "(4::nat) \<le> 2 ^ k" using assms(1) power_increasing [of 2 k "2::nat"] by simp
  have p30: "(2::nat) ^ k \<le> 2 ^ 30" using assms(2) by (rule power_increasing) simp
  have um: "unat (mask k :: u32) = 2 ^ k - 1"
  proof -
    have "unat (of_nat (mask k) :: u32) = mask k mod 2 ^ 32" by (simp add: unat_of_nat)
    moreover have "(mask k :: nat) < 2 ^ 32" using p30 by (simp add: mask_eq_exp_minus_1)
    ultimately show ?thesis by (simp only: of_nat_mask_eq mod_less) (simp add: mask_eq_exp_minus_1)
  qed
  have u: "unat (hosts p) = 2 ^ k - 3"
  proof -
    have "(2::u32) \<le> mask k" using um p4 by (simp add: word_le_nat_alt)
    then show ?thesis using um by (simp add: assms(3) unat_sub)
  qed
  have "2 ^ k - 2 \<le> 8 * ((2 ^ k - 3 + 7) div (8::nat))"
  proof (cases "k = 2")
    case False
    then obtain d where "k = 3 + d" using assms(1) by (metis add.commute le_Suc_ex
      le_antisym not_less_eq_eq numeral_2_eq_2 numeral_3_eq_3)
    then have "(2::nat) ^ k = 8 * 2 ^ d" by (simp add: power_add)
    then show ?thesis using p4 by presburger
  qed simp
  with u p4 show ?thesis by (simp add: ip_cap_def)
qed

lemma ip_new_props:
  assumes "2 \<le> k" "k \<le> 30" "hosts p = mask k - 2"
  defines "q \<equiv> p\<lparr>pool := alloc_bitmap (unat (hosts p))\<rparr>"
  shows "ip_invar q \<and> ip_used q = {} \<and> ip_cap q = 2 ^ k - 2"
proof -
  have p30: "(2::nat) ^ k \<le> 2 ^ 30" using assms(2) by (rule power_increasing) simp
  then have "unat (hosts p) + 7 < 2 ^ 31" using ip_cap_subnet [OF assms(1-3)] by simp
  then show ?thesis
    using ip_cap_subnet [OF assms(1-3)]
    by (simp add: q_def ip_invar_def ip_used_def alloc_bitmap_def)
qed


lemma unat_le_scast: "unat (d::u32) \<le> unat (scast d :: u64)"
proof -
  have "(ucast (scast d :: u64) :: u32) = d"
  proof (rule bit_word_eqI)
    fix n assume "n < LENGTH(32)"
    then have "min 31 n = n" "n < 32" by auto
    then show "bit (ucast (scast d :: u64) :: u32) n \<longleftrightarrow> bit d n" by (simp add: bit_simps)
  qed
  then have "unat d = unat (ucast (scast d :: u64) :: u32)" by simp
  also have "\<dots> = unat (scast d :: u64) mod 2 ^ 32"
    by (simp only: unsigned_ucast_eq take_bit_eq_mod) simp
  also have "\<dots> \<le> unat (scast d :: u64)" by simp
  finally show ?thesis .
qed

section \<open>Properties\<close>


definition demo_pool :: ippool where
  "demo_pool = the (ippool_new ''44.128.1.0'' ''255.255.255.0'')"

lemma demo_ipcalc: "ipcalc ''44.128.1.0'' ''255.255.255.0'' = Some \<lparr>hosts = mask 8 - 2,
    hostmin = word_of_bytes 44 128 1 1, hostmax = word_of_bytes 44 128 1 254,
    address = word_of_bytes 44 128 1 0, netmask = word_of_bytes 255 255 255 0, pool = []\<rparr>"
  by (simp add: ipcalc_def inet_pton_def is_digit_def Let_def addr_of_bytes_def bswap32_def byte_of_def
      word_of_bytes_def mask_eq_exp_minus_1)

lemma demo_pool_props: "ip_invar demo_pool \<and> ip_used demo_pool = {} \<and> ip_cap demo_pool = 254
    \<and> hostmin demo_pool = word_of_bytes 44 128 1 1"
  using ip_new_props [of 8 "the (ipcalc ''44.128.1.0'' ''255.255.255.0'')"]
  by (simp add: demo_pool_def ippool_new_def demo_ipcalc)

text \<open>C40. Any number of requests in a row hands out pairwise different addresses, as many as
  were asked for or, if the pool runs out first, all that were left.\<close>

fun get_ips :: "nat \<Rightarrow> ippool \<Rightarrow> (string list \<times> ippool) option" where
  "get_ips 0 p = Some ([], p)"
| "get_ips (Suc n) p = do {
     (r, p') \<leftarrow> ippool_get_ip p;
     case r of None \<Rightarrow> Some ([], p') | Some a \<Rightarrow> do { (as, q) \<leftarrow> get_ips n p'; Some (a # as, q) } }"

lemma get_ips_take_ids:
  "ip_invar p \<Longrightarrow> get_ips n p = Some (case ip.take_ids p n of (is, q) \<Rightarrow> (map (nth_ip p) is, q))"
proof (induction n arbitrary: p)
  case 0
  then show ?case by simp
next
  case (Suc n)
  show ?case
  proof (cases "ip_alloc p")
    case None
    with Suc.prems show ?thesis by (simp add: ippool_get_ip_eq)
  next
    case (Some r)
    then obtain p' b where al: "ip_alloc p = Some (p', b)" by (cases r) auto
    have "nth_ip p' = nth_ip p" using ip_alloc_SomeD [OF Suc.prems al] by (auto simp: nth_ip_def)
    with al Suc.IH [OF ip.alloc_invar [OF Suc.prems al]] Suc.prems show ?thesis
      by (simp add: ippool_get_ip_eq split: prod.splits)
  qed
qed



text \<open>Releasing an address just handed out undoes the request: the set of live addresses
  is as before, and the next request hands out the same address again.\<close>

theorem ippool_release_roundtrip:
  assumes inv: "ip_invar p" and get: "ippool_get_ip p = Some (Some a, p')"
  shows "\<exists>q. ippool_release_ip p' a = Some q \<and> ip_used q = ip_used p \<and> ip_invar q
    \<and> (\<exists>p''. ippool_get_ip q = Some (Some a, p''))"
proof -
  obtain b where al: "ip_alloc p = Some (p', b)" and a: "a = nth_ip p b"
    using get ippool_get_ip_eq [OF inv] by (auto split: option.splits prod.splits)
  note A = ip.alloc_Some [OF inv al]
  have same: "nth_ip p' = nth_ip p" using ip_alloc_SomeD [OF inv al] by (auto simp: nth_ip_def)
  let ?q = "ip_release p' b"
  have rel: "ippool_release_ip p' a = Some ?q"
    using ippool_release_nth [of p' b] A a same by simp
  have used: "ip_used ?q = ip_used p" by (rule ip.release_alloc [OF inv al])
  have qinv: "ip_invar ?q" and qcap: "ip_cap ?q = ip_cap p"
    using ip.release_ok [of p' b] A by auto
  have "nth_ip ?q = nth_ip p'"
    by (auto simp: nth_ip_def ip_release_def split: option.splits)
  moreover obtain p'' k where al2: "ip_alloc ?q = Some (p'', k)"
    using ip.alloc_succeeds_iff [OF qinv] ip.alloc_succeeds_iff [OF inv] al used qcap by auto
  moreover have "k = b" by (rule ip.realloc [OF inv al al2])
  ultimately have "ippool_get_ip ?q = Some (Some a, p'')"
    using ippool_get_ip_eq [OF qinv] a same by simp
  with rel used qinv show ?thesis by blast
qed

theorem ippool_release_roundtrip_witness:
  "\<exists>a p' q. ippool_get_ip demo_pool = Some (Some a, p') \<and> ippool_release_ip p' a = Some q
    \<and> ip_used q = {}"
proof -
  have inv: "ip_invar demo_pool" and empty: "ip_used demo_pool = {}" and cap: "ip_cap demo_pool = 254"
    using demo_pool_props by auto
  then obtain p' b where "ip_alloc demo_pool = Some (p', b)"
    using ip.alloc_succeeds_iff [OF inv] by auto
  then have get: "ippool_get_ip demo_pool = Some (Some (nth_ip demo_pool b), p')"
    by (simp add: ippool_get_ip_eq [OF inv])
  show ?thesis using ippool_release_roundtrip [OF inv get] get empty by auto
qed

text \<open>Releasing a string that is no address, or an address outside the pool's range (the
  network address just below \<open>hostmin\<close> included), changes nothing.\<close>

theorem ippool_release_foreign:
  assumes "inet_aton s = None
    \<or> (\<exists>a. inet_aton s = Some a \<and> unat (hosts p) < unat (ntohl a - ntohl (hostmin p)))"
  shows "ippool_release_ip p s = Some p"
  using assms
proof (elim disjE exE conjE)
  fix a assume a: "inet_aton s = Some a" "unat (hosts p) < unat (ntohl a - ntohl (hostmin p))"
  then have "unat (hosts p) < unat (scast (ntohl a - ntohl (hostmin p)) :: u64)"
    using unat_le_scast order_less_le_trans by blast
  then have "free_bit (pool p) (unat (hosts p)) (unat (scast (ntohl a - ntohl (hostmin p)) :: u64))
      = Some (0, pool p)"
    by (simp add: free_bit_def)
  with a(1) show ?thesis by (simp only: ippool_release_ip_def Let_def option.case) simp
qed (simp add: ippool_release_ip_def)

theorem ippool_release_foreign_witness:
  "ippool_release_ip demo_pool ''44.128.1.0'' = Some demo_pool"
proof (rule ippool_release_foreign)
  have s: "''44.128.1.0'' = inet_ntoa (word_of_bytes 44 128 1 0)"
    by (simp add: inet_ntoa_def dotted_def dec_nat.simps digit_chars)
  have "hosts demo_pool = 253"
    by (simp add: demo_pool_def ippool_new_def demo_ipcalc mask_eq_exp_minus_1)
  moreover have "hostmin demo_pool = word_of_bytes 44 128 1 1"
    using demo_pool_props by simp
  ultimately have "unat (hosts demo_pool)
      < unat (ntohl (word_of_bytes 44 128 1 0) - ntohl (hostmin demo_pool))"
    by (simp add: word_of_bytes_def bswap32_def byte_of_def unsigned_minus_1_eq_mask
        mask_eq_exp_minus_1)
  then show "inet_aton ''44.128.1.0'' = None \<or> (\<exists>a. inet_aton ''44.128.1.0'' = Some a
      \<and> unat (hosts demo_pool) < unat (ntohl a - ntohl (hostmin demo_pool)))"
    unfolding s by (simp add: inet_aton_ntoa)
qed

text \<open>A new pool for a subnet with \<open>k\<close> host bits hands out exactly the usual host
  addresses: number \<open>b\<close> is network base + 1 + \<open>b\<close>, for \<open>b\<close> below \<open>2 ^ k - 2\<close>, so neither the
  network nor the broadcast address, although the code computes with byte-swapped words.\<close>

theorem ippool_new_subnet:
  assumes a: "inet_pton addr = Some abytes" and n: "inet_pton nm = Some nbytes"
    and k: "2 \<le> k" "k \<le> 30" and mask: "ntohl (addr_of_bytes nbytes) = NOT (mask k)"
  defines "base \<equiv> ntohl (addr_of_bytes abytes) AND NOT (mask k)"
  shows "\<exists>p. ippool_new addr nm = Some p \<and> ip_invar p \<and> ip_used p = {} \<and> ip_cap p = 2 ^ k - 2
    \<and> (\<forall>b. nth_ip p b = inet_ntoa (htonl (base + 1 + of_nat b)))
    \<and> hostmax p = htonl (base + mask k - 1)"
proof -
  let ?A = "ntohl (addr_of_bytes abytes)"
  have low: "NOT (ntohl (addr_of_bytes nbytes)) AND 3 = 3"
  proof -
    have "mask k AND (3::u32) = mask k AND mask 2" by (simp add: mask_eq_exp_minus_1)
    also have "\<dots> = mask 2" using k by (intro bit_word_eqI) (auto simp: bit_simps)
    finally show ?thesis by (simp add: mask mask_eq_exp_minus_1)
  qed
  define q where "q = \<lparr>hosts = mask k - 2, hostmin = htonl (base + 1),
    hostmax = htonl ((?A OR mask k) - 1), address = addr_of_bytes abytes,
    netmask = addr_of_bytes nbytes, pool = []\<rparr>"
  have "ipcalc addr nm = Some q"
    using ipcalc_eq [OF a n low] by (simp add: q_def base_def mask)
  then have new: "ippool_new addr nm = Some (q\<lparr>pool := alloc_bitmap (unat (hosts q))\<rparr>)"
    by (simp add: ippool_new_def)
  have "?A OR mask k = base + mask k"
    using word_or_minus [of ?A "mask k"] by (simp add: base_def algebra_simps)
  then show ?thesis
    using new ip_new_props [OF k, of q] by (simp add: q_def nth_ip_def algebra_simps)
qed

theorem ippool_new_subnet_witness:
  "\<exists>p. ippool_new ''44.128.0.0'' ''255.255.0.0'' = Some p \<and> ip_cap p = 65534
    \<and> nth_ip p 0 = ''44.128.0.1''"
proof -
  have a: "inet_pton ''44.128.0.0'' = Some [44, 128, 0, 0]"
    and n: "inet_pton ''255.255.0.0'' = Some [255, 255, 0, 0]"
    by (simp_all add: inet_pton_def is_digit_def Let_def)
  have m: "ntohl (addr_of_bytes [255, 255, 0, 0]) = NOT (mask 16)"
    by (simp add: addr_of_bytes_def word_of_bytes_def mask_eq_exp_minus_1 bswap32_def byte_of_def)
  have one: "inet_ntoa (htonl ((ntohl (addr_of_bytes [44, 128, 0, 0]) AND NOT (mask 16)) + 1))
      = ''44.128.0.1''"
    by (simp add: addr_of_bytes_def word_of_bytes_def mask_eq_exp_minus_1 bswap32_def byte_of_def
        inet_ntoa_def dotted_def dec_nat.simps digit_chars)
  show ?thesis using ippool_new_subnet [OF a n _ _ m] one by auto
qed

end
