(* ===== verification/Cert.thy ===== *)
theory Cert
  imports Clib
begin

text \<open>
  \<open>libnvcore/src/cert.c\<close>: who a node is, read from the subject of its certificate.  A C string
  is the list of the bytes of its buffer from the pointer on, terminator included; the fields
  of \<open>node_info_t\<close> are character arrays of the sizes of the code.  The functions that only wrap
  OpenSSL calls are not modelled.
\<close>

section \<open>C strings in memory\<close>

definition cmem :: "string \<Rightarrow> u8 list" where
  "cmem s = map of_char s @ [0]"

fun strlen :: "u8 list \<Rightarrow> nat option" where
  "strlen [] = None"
| "strlen (c # cs) = (if c = 0 then Some 0 else map_option Suc (strlen cs))"

text \<open>\<open>strncmp(s, t, n) == 0\<close>.\<close>

fun strneq :: "u8 list \<Rightarrow> u8 list \<Rightarrow> nat \<Rightarrow> bool option" where
  "strneq s t 0 = Some True"
| "strneq (c # s) (d # t) (Suc n) =
     (if c \<noteq> d then Some False else if c = 0 then Some True else strneq s t n)"
| "strneq s t (Suc n) = None"

text \<open>\<open>strncpy\<close>: at most \<open>n\<close> characters, padded with zeros, no terminator of its own.\<close>

fun strncpy_chars :: "u8 list \<Rightarrow> nat \<Rightarrow> u8 list option" where
  "strncpy_chars s 0 = Some []"
| "strncpy_chars [] (Suc n) = None"
| "strncpy_chars (c # s) (Suc n) =
     (if c = 0 then Some (replicate (Suc n) 0) else map_option (Cons c) (strncpy_chars s n))"

definition strncpy :: "u8 list \<Rightarrow> u8 list \<Rightarrow> nat \<Rightarrow> u8 list option" where
  "strncpy dst src n =
     (if n \<le> length dst then do { cs \<leftarrow> strncpy_chars src n; Some (cs @ drop n dst) } else None)"

section \<open>The code\<close>

record node_info =
  ni_type :: "u8 list"
  ni_uuid :: "u8 list"
  ni_network_uuid :: "u8 list"
  ni_network_id :: "u8 list"
  ni_v :: int

definition node_info_zero :: node_info where
  "node_info_zero = \<lparr>ni_type = replicate 4 0, ni_uuid = replicate 37 0, ni_network_uuid = replicate 37 0,
     ni_network_id = replicate 6 0, ni_v = 0\<rparr>"

definition altname2node_info :: "u8 list option \<Rightarrow> node_info option" where
  "altname2node_info altn = do {
     altn \<leftarrow> altn;
     let ninfo = node_info_zero;
     t \<leftarrow> strncpy (ni_type ninfo) (cmem ''nva'') 3;
     t \<leftarrow> store t 3 0;
     u \<leftarrow> strncpy (ni_uuid ninfo) altn 36;
     u \<leftarrow> store u 36 0;
     n \<leftarrow> strncpy (ni_network_uuid ninfo) (drop 37 altn) 36;
     u \<leftarrow> store u 36 0;
     Some (ninfo\<lparr>ni_type := t, ni_uuid := u, ni_network_uuid := n, ni_v := 2\<rparr>) }"

text \<open>The length is an \<open>int\<close>; a negative one becomes an enormous \<open>size_t\<close> for \<open>strncpy\<close>, which
  then writes past \<open>network_id\<close>.\<close>

definition cn2node_info :: "u8 list option \<Rightarrow> node_info option option" where
  "cn2node_info cn =
     (case cn of
        None \<Rightarrow> Some None
      | Some cn \<Rightarrow> do {
          nva \<leftarrow> strneq cn (cmem ''nva-'') 4;
          dnc \<leftarrow> (if nva then Some False else strneq cn (cmem ''dnc-'') 4);
          if nva \<or> dnc then do {
            let ninfo = node_info_zero;
            t \<leftarrow> strncpy (ni_type ninfo) cn 3;
            t \<leftarrow> store t 3 0;
            u \<leftarrow> strncpy (ni_uuid ninfo) (drop 4 cn) 36;
            u \<leftarrow> store u 36 0;
            l \<leftarrow> strlen cn;
            let len = int l - 41;
            let len = (if len > 5 then 5 else len);
            n \<leftarrow> (if len < 0 then None else strncpy (ni_network_id ninfo) (drop 41 cn) (nat len));
            n \<leftarrow> store n 5 0;
            Some (Some (ninfo\<lparr>ni_type := t, ni_uuid := u, ni_network_id := n, ni_v := 1\<rparr>)) }
          else do {
            nva2 \<leftarrow> strneq cn (cmem ''nva2-'') 5;
            if nva2 then do {
              let ninfo = node_info_zero;
              t \<leftarrow> strncpy (ni_type ninfo) cn 3;
              t \<leftarrow> store t 3 0;
              n \<leftarrow> strncpy (ni_network_uuid ninfo) (drop 5 cn) 36;
              u \<leftarrow> store (ni_uuid ninfo) 36 0;
              Some (Some (ninfo\<lparr>ni_type := t, ni_uuid := u, ni_network_uuid := n, ni_v := 2\<rparr>)) }
            else Some None } })"

section \<open>Strings\<close>

text \<open>The bytes of a C string: none of them zero.\<close>

abbreviation cstring :: "u8 list \<Rightarrow> bool" where
  "cstring s \<equiv> 0 \<notin> set s"

lemma strlen_append: "cstring s \<Longrightarrow> strlen (s @ 0 # r) = Some (length s)"
  by (induction s) auto

lemma strncpy_chars_take: "cstring s \<Longrightarrow> length s = n \<Longrightarrow> strncpy_chars (s @ r) n = Some s"
  by (induction s arbitrary: n) auto

lemma strncpy_chars_long: "cstring s \<Longrightarrow> n \<le> length s \<Longrightarrow> strncpy_chars (s @ r) n = Some (take n s)"
proof (induction s arbitrary: n)
  case (Cons c s)
  then show ?case by (cases n) auto
qed simp

lemma strncpy_chars_short:
  "cstring s \<Longrightarrow> length s \<le> n \<Longrightarrow> strncpy_chars (s @ 0 # r) n = Some (s @ replicate (n - length s) 0)"
proof (induction s arbitrary: n)
  case Nil
  then show ?case by (cases n) auto
next
  case (Cons c s)
  then show ?case by (cases n) auto
qed

lemma strneq_numeral [simp]: "strneq (c # s) (d # t) (numeral k) =
    (if c \<noteq> d then Some False else if c = 0 then Some True else strneq s t (pred_numeral k))"
  by (simp add: numeral_eq_Suc)

lemma strncpy_chars_numeral [simp]: "strncpy_chars (c # s) (numeral k) =
    (if c = 0 then Some (replicate (numeral k) 0) else map_option (Cons c) (strncpy_chars s (pred_numeral k)))"
  by (simp add: numeral_eq_Suc)

lemma strneq_prefix: "length p = n \<Longrightarrow> strneq (p @ s) (p @ t) n = Some True"
  by (induction p arbitrary: n) auto

text \<open>A string as the array of its size that holds it.\<close>

definition arr :: "nat \<Rightarrow> u8 list \<Rightarrow> u8 list" where
  "arr n s = s @ replicate (n - length s) 0"

lemma chars: "map of_char ''nva-'' = [0x6e, 0x76, 0x61, 0x2d :: u8]"
  "map of_char ''dnc-'' = [0x64, 0x6e, 0x63, 0x2d :: u8]"
  "map of_char ''nva2-'' = [0x6e, 0x76, 0x61, 0x32, 0x2d :: u8]"
  "map of_char ''nva'' = [0x6e, 0x76, 0x61 :: u8]"
  "map of_char ''@'' = [0x40 :: u8]"
  by (simp_all add: of_char_def)

lemma strncpy_arr: "cstring s \<Longrightarrow> length s \<le> n \<Longrightarrow> n \<le> length d \<Longrightarrow>
    strncpy d (s @ 0 # r) n = Some (arr n s @ drop n d)"
  by (simp add: strncpy_def strncpy_chars_short arr_def)

lemma strncpy_cut: "cstring s \<Longrightarrow> n \<le> length s \<Longrightarrow> n \<le> length d \<Longrightarrow>
    strncpy d (s @ r) n = Some (take n s @ drop n d)"
  by (simp add: strncpy_def strncpy_chars_long)

lemma store_zero_tail: "length s = n \<Longrightarrow> n < m \<Longrightarrow> store (s @ drop n (replicate m 0)) n 0 = Some (arr m s)"
  by (auto simp: store_def arr_def list_update_append split: nat.splits)
    (metis Cons_nth_drop_Suc length_replicate list_update_code(2) nth_replicate drop_replicate)

lemma replicate_zero_update: "(replicate m (0::u8))[i := 0] = replicate m 0"
  by (cases "i < m") (simp_all add: list_update_same_conv list_update_beyond)

lemma strneq_nva: "strneq (0x6e # 0x76 # 0x61 # 0x2d # r) (cmem ''nva-'') 4 = Some True"
  by (simp add: cmem_def chars)

lemma strneq_nva2: "strneq (0x6e # 0x76 # 0x61 # 0x32 # r) (cmem ''nva-'') 4 = Some False"
  "strneq (0x6e # 0x76 # 0x61 # 0x32 # r) (cmem ''dnc-'') 4 = Some False"
  "strneq (0x6e # 0x76 # 0x61 # 0x32 # 0x2d # r) (cmem ''nva2-'') 5 = Some True"
  by (simp_all add: cmem_def chars)

lemma type_field: "strncpy (replicate 4 0) (0x6e # 0x76 # 0x61 # r) 3 = Some [0x6e, 0x76, 0x61, 0]"
  using strncpy_cut [of "[0x6e, 0x76, 0x61]" 3 "replicate 4 0" r] by (simp add: drop_replicate)

lemma uuid_field:
  assumes "cstring u" "length u = 36"
  shows "strncpy (replicate 37 0) (u @ r) 36 = Some (arr 37 u)" and "store (arr 37 u) 36 0 = Some (arr 37 u)"
proof -
  have r: "replicate 37 (0::u8) = replicate 36 0 @ [0]" using replicate_append_same [of 36 "0::u8"]
    by (metis Suc_eq_plus1 add.commute numeral_plus_one replicate_Suc semiring_norm(5) semiring_norm(4) semiring_norm(3))
  have a: "arr 37 u = u @ [0]" using assms by (simp add: arr_def)
  show "strncpy (replicate 37 0) (u @ r) 36 = Some (arr 37 u)"
    using strncpy_cut [of u 36 "replicate 37 0" r] assms by (simp add: a)
  show "store (arr 37 u) 36 0 = Some (arr 37 u)"
    using assms by (simp add: a store_def list_update_append)
qed

section \<open>Properties\<close>

text \<open>A version 1 common name, \<open>nva-\<close>, 36 characters of uuid, a separator and a network id, is
  taken apart as documented: the uuid whole, the first five characters of the network id, both
  terminated.\<close>

theorem cn2node_info_v1:
  assumes "cstring u" "length u = 36" "cstring n" "sep \<noteq> 0"
  shows "cn2node_info (Some (map of_char ''nva-'' @ u @ [sep] @ n @ [0])) =
    Some (Some \<lparr>ni_type = arr 4 (map of_char ''nva''), ni_uuid = arr 37 u, ni_network_uuid = arr 37 [],
                ni_network_id = arr 6 (take 5 n), ni_v = 1\<rparr>)"
proof -
  let ?m = "0x6e # 0x76 # 0x61 # 0x2d # u @ sep # n @ [0] :: u8 list"
  have d4: "drop 4 ?m = u @ sep # n @ [0]" by simp
  have d41: "drop 41 ?m = n @ [0]"
  proof -
    have "drop 41 ?m = drop 37 (drop 4 ?m)" by simp
    then show ?thesis using assms(2) by (simp add: d4)
  qed
  have len: "strlen ?m = Some (41 + length n)"
    using strlen_append [of "0x6e # 0x76 # 0x61 # 0x2d # u @ sep # n" "[]"] assms by simp
  have id: "store i 5 0 = Some (arr 6 (take 5 n))"
    if "strncpy (replicate 6 0) (n @ [0]) (nat (if int (41 + length n) - 41 > 5 then 5 else int (41 + length n) - 41)) = Some i" for i
  proof (cases "length n \<le> 5")
    case True
    then have "i = n @ drop (length n) (replicate 6 0)"
      using strncpy_arr [of n "length n" "replicate 6 0" "[]"] assms(3) that by (simp add: arr_def)
    then have "i = arr 6 n" by (simp add: arr_def)
    with True show ?thesis by (auto simp: arr_def store_def list_update_append replicate_zero_update)
  next
    case False
    then have "i = take 5 n @ drop 5 (replicate 6 0)"
      using strncpy_cut [of n 5 "replicate 6 0" "[0]"] assms(3) that by simp
    then show ?thesis using store_zero_tail [of "take 5 n" 5 6] False by simp
  qed
  obtain i where i: "strncpy (replicate 6 0) (n @ [0]) (nat (if int (41 + length n) - 41 > 5 then 5 else int (41 + length n) - 41)) = Some i"
    using strncpy_cut [of n "min 5 (length n)" "replicate 6 0" "[0]"] assms(3)
    by (cases "length n > 5") (auto simp: min_def not_less)
  have cn: "map of_char ''nva-'' @ u @ [sep] @ n @ [0] = ?m" by (simp add: chars)
  have a: "arr 4 [0x6e, 0x76, 0x61] = [0x6e, 0x76, 0x61, 0]" "arr 37 [] = replicate 37 0"
    by (simp_all add: arr_def)
  have s3: "store [0x6e, 0x76, 0x61, 0] 3 0 = Some [0x6e, 0x76, 0x61, 0 :: u8]" by (simp add: store_def)
  define m where "m = ?m"
  have m: "strneq m (cmem ''nva-'') 4 = Some True" "strncpy (replicate 4 0) m 3 = Some [0x6e, 0x76, 0x61, 0]"
    "drop 4 m = u @ sep # n @ [0]" "drop 41 m = n @ [0]" "strlen m = Some (41 + length n)"
    unfolding m_def by (rule strneq_nva type_field d4 d41 len)+
  show ?thesis
    unfolding cn m_def [symmetric] cn2node_info_def node_info_zero_def
    using m uuid_field [OF assms(1,2)] i id [OF i] s3 a
    by (simp add: Let_def chars split: if_splits)
qed

theorem cn2node_info_v1_witness:
  "\<exists>ni. cn2node_info (Some (map of_char ''nva-'' @ replicate 36 0x61 @ [0x40] @ [0x31, 0x32] @ [0])) = Some (Some ni)
     \<and> ni_uuid ni = arr 37 (replicate 36 0x61) \<and> ni_network_id ni = arr 6 [0x31, 0x32]"
  using cn2node_info_v1 [where u = "replicate 36 0x61" and n = "[0x31, 0x32]" and sep = "0x40"] by simp

text \<open>A common name that starts with \<open>nva-\<close> and is shorter than 41 characters makes
  \<open>cn2node_info\<close> fault: the length left for the network id is negative and \<open>strncpy\<close> is called
  with it.\<close>

theorem cn2node_info_short_faults:
  assumes "cstring s" "length s < 37"
  shows "cn2node_info (Some (map of_char ''nva-'' @ s @ 0 # r)) = None"
proof -
  have "strlen (0x6e # 0x76 # 0x61 # 0x2d # s @ 0 # r) = Some (4 + length s)"
    using strlen_append [of "0x6e # 0x76 # 0x61 # 0x2d # s" r] assms by simp
  moreover have "int (4 + length s) - 41 < 0" using assms(2) by simp
  ultimately show ?thesis
    by (auto simp: cn2node_info_def chars strneq_nva Let_def split: Option.bind_splits)
qed

theorem cn2node_info_short_faults_witness:
  "cn2node_info (Some (map of_char ''nva-'' @ map of_char ''1234'' @ [0])) = None"
  by (rule cn2node_info_short_faults) (simp_all add: of_char_def)

text \<open>A version 2 common name carries the network uuid and no node uuid: \<open>uuid\<close> stays the empty
  string whatever follows the prefix.\<close>

theorem cn2node_info_v2_no_uuid:
  assumes "cstring n" "length n = 36"
  shows "cn2node_info (Some (map of_char ''nva2-'' @ n @ r)) =
    Some (Some \<lparr>ni_type = arr 4 (map of_char ''nva''), ni_uuid = arr 37 [], ni_network_uuid = arr 37 n,
                ni_network_id = arr 6 [], ni_v = 2\<rparr>)"
proof -
  have d: "drop 5 (0x6e # 0x76 # 0x61 # 0x32 # 0x2d # n @ r) = n @ r" by simp
  have "store (replicate 37 0) 36 (0::u8) = Some (replicate 37 0)"
    by (simp only: store_def replicate_zero_update length_replicate) simp
  then show ?thesis
    using uuid_field(1) [OF assms]
    by (simp add: cn2node_info_def chars strneq_nva2 node_info_zero_def type_field d Let_def store_def arr_def)
qed

theorem cn2node_info_v2_no_uuid_witness:
  "\<exists>ni. cn2node_info (Some (map of_char ''nva2-'' @ replicate 36 0x61 @ [0])) = Some (Some ni)
     \<and> ni_uuid ni = arr 37 []"
  using cn2node_info_v2_no_uuid [of "replicate 36 0x61" "[0]"] by simp

lemma altname_fields:
  assumes "cstring u" "length u = 36" "cstring n" "length n = 36"
  shows "altname2node_info (Some (u @ [sep] @ n @ r)) =
    Some \<lparr>ni_type = arr 4 (map of_char ''nva''), ni_uuid = arr 37 u, ni_network_uuid = arr 37 n,
          ni_network_id = arr 6 [], ni_v = 2\<rparr>"
proof -
  have "drop 37 (u @ [sep] @ n @ r) = n @ r" using assms(2) by simp
  moreover have "strncpy (replicate 4 0) (cmem ''nva'') 3 = Some [0x6e, 0x76, 0x61, 0]"
    using type_field [of "[0]"] by (simp add: cmem_def chars)
  ultimately show ?thesis
    using uuid_field [OF assms(1,2)] uuid_field [OF assms(3,4)]
    by (simp add: altname2node_info_def node_info_zero_def chars Let_def store_def arr_def)
qed

text \<open>An alternative name, 36 characters of node uuid, a separator and 36 characters of network
  uuid, gives exactly these two fields.\<close>

theorem altname2node_info_fields:
  assumes "cstring u" "length u = 36" "cstring n" "length n = 36"
  shows "altname2node_info (Some (u @ [sep] @ n @ r)) =
    Some \<lparr>ni_type = arr 4 (map of_char ''nva''), ni_uuid = arr 37 u, ni_network_uuid = arr 37 n,
          ni_network_id = arr 6 [], ni_v = 2\<rparr>"
  by (rule altname_fields [OF assms])

theorem altname2node_info_fields_witness:
  "\<exists>ni. altname2node_info (Some (replicate 36 0x61 @ [0x40] @ replicate 36 0x62 @ [0])) = Some ni
     \<and> ni_uuid ni = arr 37 (replicate 36 0x61) \<and> ni_network_uuid ni = arr 37 (replicate 36 0x62)"
  using altname2node_info_fields [where u = "replicate 36 0x61" and n = "replicate 36 0x62" and sep = "0x40" and r = "[0]"] by simp

section \<open>Strings in memory\<close>

text \<open>The bytes of a C string, without its terminator.\<close>

definition cbytes :: "u8 list \<Rightarrow> u8 list option" where
  "cbytes s = do { n \<leftarrow> strlen s; Some (take n s) }"

definition cbytes_opt :: "u8 list option \<Rightarrow> u8 list option option" where
  "cbytes_opt p = (case p of None \<Rightarrow> Some None | Some s \<Rightarrow> do { b \<leftarrow> cbytes s; Some (Some b) })"

text \<open>A string that ends.\<close>

abbreviation terminated :: "u8 list \<Rightarrow> bool" where
  "terminated s \<equiv> 0 \<in> set s"

lemma strlen_Some_iff: "(\<exists>n. strlen s = Some n) \<longleftrightarrow> 0 \<in> set s"
  by (induction s) auto

lemma cbytes_terminated: "0 \<in> set s \<Longrightarrow> \<exists>b. cbytes s = Some b \<and> cstring b"
proof (induction s)
  case (Cons c s)
  then show ?case by (cases "c = 0") (auto simp: cbytes_def split: Option.bind_splits)
qed simp

end
