(* ===== verification/Hash.thy ===== *)
theory Hash
  imports Clib
begin

text \<open>
  \<open>libnvcore/src/hash.c\<close>: Bob Jenkins' \<open>hashword\<close> over an array of 32-bit words.  The macros
  \<open>mix\<close> and \<open>final\<close> are functions on the triple they update; the key is the list of words
  from the pointer on, and reading past its end is the fault \<^const>\<open>None\<close>.
\<close>

section \<open>The code\<close>

definition rot :: "u32 \<Rightarrow> nat \<Rightarrow> u32" where
  "rot x k = push_bit k x OR drop_bit (32 - k) x"

text \<open>One line of \<open>mix\<close>: \<open>a -= c; a ^= rot(c,k); c += b;\<close>, the variables named by position.\<close>

fun mix_line :: "nat \<Rightarrow> u32 \<times> u32 \<times> u32 \<Rightarrow> u32 \<times> u32 \<times> u32" where
  "mix_line k (a, b, c) = (let a = a - c; a = a XOR rot c k; c = c + b in (a, b, c))"

definition mix :: "u32 \<times> u32 \<times> u32 \<Rightarrow> u32 \<times> u32 \<times> u32" where
  "mix = (\<lambda>(a, b, c).
     let (a, b, c) = mix_line 4 (a, b, c);
         (b, c, a) = mix_line 6 (b, c, a);
         (c, a, b) = mix_line 8 (c, a, b);
         (a, b, c) = mix_line 16 (a, b, c);
         (b, c, a) = mix_line 19 (b, c, a);
         (c, a, b) = mix_line 4 (c, a, b)
     in (a, b, c))"

text \<open>One statement pair of \<open>final\<close>: \<open>c ^= b; c -= rot(b,k);\<close>.\<close>

definition final_line :: "nat \<Rightarrow> u32 \<Rightarrow> u32 \<Rightarrow> u32" where
  "final_line k c b = (let c = c XOR b in c - rot b k)"

definition final :: "u32 \<times> u32 \<times> u32 \<Rightarrow> u32 \<times> u32 \<times> u32" where
  "final = (\<lambda>(a, b, c).
     let c = final_line 14 c b;
         a = final_line 11 a c;
         b = final_line 25 b a;
         c = final_line 16 c b;
         a = final_line 4 a c;
         b = final_line 14 b a;
         c = final_line 24 c b
     in (a, b, c))"

text \<open>\<open>while (length > 3)\<close>: the pointer \<open>k\<close> moves by three words.\<close>

fun hash_loop :: "u32 list \<Rightarrow> nat \<Rightarrow> u32 \<times> u32 \<times> u32 \<Rightarrow> (u32 list \<times> nat \<times> u32 \<times> u32 \<times> u32) option" where
  "hash_loop k len (a, b, c) =
     (if len > 3 then do {
        k0 \<leftarrow> fetch k 0;
        k1 \<leftarrow> fetch k 1;
        k2 \<leftarrow> fetch k 2;
        hash_loop (drop 3 k) (len - 3) (mix (a + k0, b + k1, c + k2)) }
      else Some (k, len, a, b, c))"

declare hash_loop.simps [simp del]

definition hashword :: "u32 list \<Rightarrow> nat \<Rightarrow> u32 \<Rightarrow> u32 option" where
  "hashword k len initval = do {
     let s = 0xdeadbeef + push_bit 2 (of_nat len) + initval;
     (k, len, a, b, c) \<leftarrow> hash_loop k len (s, s, s);
     c \<leftarrow> (if len \<ge> 3 then do { w \<leftarrow> fetch k 2; Some (c + w) } else Some c);
     b \<leftarrow> (if len \<ge> 2 then do { w \<leftarrow> fetch k 1; Some (b + w) } else Some b);
     if len \<ge> 1 then do { w \<leftarrow> fetch k 0; let (a, b, c) = final (a + w, b, c); Some c }
     else Some c }"

text \<open>The bytes at a pointer, read as \<open>uint32_t\<close>s on the little-endian target.\<close>

definition words_at :: "u8 list \<Rightarrow> nat \<Rightarrow> u32 list" where
  "words_at bs n = map (\<lambda>i. word_of_bytes (bs ! (4 * i)) (bs ! (4 * i + 1)) (bs ! (4 * i + 2)) (bs ! (4 * i + 3)))
     [0 ..< min n (length bs div 4)]"

section \<open>Reversibility\<close>

fun unmix_line :: "nat \<Rightarrow> u32 \<times> u32 \<times> u32 \<Rightarrow> u32 \<times> u32 \<times> u32" where
  "unmix_line k (a, b, c) = (let c = c - b; a = a XOR rot c k in (a + c, b, c))"

lemma unmix_line [simp]: "unmix_line k (mix_line k x) = x"
  by (cases x) (simp add: Let_def xor.assoc)

lemma mix_unmix_line [simp]: "mix_line k (unmix_line k x) = x"
  by (cases x) (simp add: Let_def xor.assoc)

definition unmix :: "u32 \<times> u32 \<times> u32 \<Rightarrow> u32 \<times> u32 \<times> u32" where
  "unmix = (\<lambda>(a, b, c).
     let (c, a, b) = unmix_line 4 (c, a, b);
         (b, c, a) = unmix_line 19 (b, c, a);
         (a, b, c) = unmix_line 16 (a, b, c);
         (c, a, b) = unmix_line 8 (c, a, b);
         (b, c, a) = unmix_line 6 (b, c, a);
         (a, b, c) = unmix_line 4 (a, b, c)
     in (a, b, c))"

lemma unmix_line_eq: "mix_line k x = y \<Longrightarrow> unmix_line k y = x"
  by auto

lemma unmix_mix: "unmix (mix x) = x"
  by (cases x) (auto simp: mix_def unmix_def dest!: unmix_line_eq split: prod.splits simp del: mix_line.simps unmix_line.simps)

text \<open>\<open>mix\<close> is reversible, as its comment says: it is a bijection of triples of 32-bit words,
  undone by running its lines backwards.\<close>

theorem mix_reversible: "bij mix \<and> unmix (mix (a, b, c)) = (a, b, c)"
proof -
  have "inj mix" by (rule inj_on_inverseI [where g = unmix]) (rule unmix_mix)
  then have "bij mix" by (rule bijI) (simp add: finite_UNIV_inj_surj \<open>inj mix\<close>)
  then show ?thesis by (simp add: unmix_mix)
qed

section \<open>Memory safety\<close>

lemma hash_loop_total:
  "len \<le> length k \<Longrightarrow> \<exists>k' len' x. hash_loop k len s = Some (k', len', x) \<and> len' \<le> 3 \<and> len' \<le> length k'"
proof (induction k len s rule: hash_loop.induct)
  case (1 k len a b c)
  show ?case
  proof (cases "len > 3")
    case True
    with 1 have "k \<noteq> []" by auto
    with 1 True show ?thesis by (subst hash_loop.simps) auto
  next
    case False
    with 1 show ?thesis by (subst hash_loop.simps) simp
  qed
qed

lemma hash_loop_take:
  "len \<le> length k \<Longrightarrow> hash_loop (take len k) len s =
     map_option (\<lambda>(k', len', x). (take len' k', len', x)) (hash_loop k len s)"
proof (induction k len s rule: hash_loop.induct)
  case (1 k len a b c)
  show ?case
  proof (cases "len > 3")
    case True
    with 1 have "k \<noteq> []" by auto
    with 1 True show ?thesis
      by (subst (1 2) hash_loop.simps) (simp add: drop_take)
  next
    case False
    then show ?thesis by (subst (1 2) hash_loop.simps) simp
  qed
qed

lemma hashword_reads:
  assumes "n \<le> length k"
  shows "\<exists>h. hashword k n iv = Some h \<and> hashword (take n k) n iv = Some h"
proof -
  let ?s = "0xdeadbeef + push_bit 2 (of_nat n) + iv :: u32"
  obtain k' n' a b c where l: "hash_loop k n (?s, ?s, ?s) = Some (k', n', a, b, c)" "n' \<le> 3" "n' \<le> length k'"
    using hash_loop_total [OF assms, of "(?s, ?s, ?s)"] by auto
  then have "hash_loop (take n k) n (?s, ?s, ?s) = Some (take n' k', n', a, b, c)"
    by (simp add: hash_loop_take [OF assms])
  moreover have "n' = 0 \<or> n' = 1 \<and> k' \<noteq> [] \<or> n' = 2 \<and> k' \<noteq> [] \<or> n' = 3 \<and> k' \<noteq> []"
    using l(2,3) by auto
  ultimately show ?thesis
    using l by (elim disjE conjE) (simp_all add: hashword_def Let_def split: prod.splits)
qed

lemma hashword_total: "n \<le> length k \<Longrightarrow> \<exists>h. hashword k n iv = Some h"
  using hashword_reads by blast

text \<open>\<open>hashword\<close> reads exactly the words its length names: it never faults when the key has
  that many words, and the hash does not depend on what follows them in memory.\<close>

theorem hashword_reads_key:
  assumes "n \<le> length k"
  shows "\<exists>h. hashword k n iv = Some h \<and> hashword (take n k) n iv = Some h"
  using assms by (rule hashword_reads)

theorem hashword_reads_key_witness:
  "\<exists>h. hashword [1, 2, 3, 4, 5] 4 0 = Some h \<and> hashword [1, 2, 3, 4] 4 0 = Some h"
  using hashword_reads_key [of 4 "[1, 2, 3, 4, 5]" 0] by simp

end
