(* ===== verification/Jsw_hlib.thy ===== *)
theory Jsw_hlib
  imports Prelude
begin

text \<open>
  \<open>libnvcore/src/jsw_hlib.c\<close>: a hash table with separate chaining, generic in its keys.  A
  bucket is a null pointer or a chain head; the links of a chain belong to the table alone, so
  a chain is the list of its links, and the traversal cursor, a pointer into a chain, is the
  rest of that chain from the link on (insertion happens in front of it, and erasure resets
  it).  The user's key functions may fault, so they are partial; \<open>item\<close> pointers may be null.
  The lemmas show that the table is a finite map up to key equality.
\<close>

section \<open>The code\<close>

type_synonym ('k, 'v) jnode = "'k \<times> 'v option"

record ('k, 'v) jsw_head =
  links :: "('k, 'v) jnode list"
  csize :: u64

record ('k, 'v) jsw_hash =
  table :: "('k, 'v) jsw_head option list"
  hsize :: u64
  capacity :: nat
  curri :: nat
  currl :: "('k, 'v) jnode list"
  hash :: "'k \<Rightarrow> u32 option"
  cmp :: "'k \<Rightarrow> 'k \<Rightarrow> int option"
  keydup :: "'k \<Rightarrow> 'k option"
  itemdup :: "'v option \<Rightarrow> 'v option"

text \<open>\<open>new_chain\<close> and \<open>new_node\<close>; the argument tells whether \<open>malloc\<close> succeeds.\<close>

definition new_chain :: "bool \<Rightarrow> ('k, 'v) jsw_head option" where
  "new_chain ok = (if ok then Some \<lparr>links = [], csize = 0\<rparr> else None)"

definition jsw_hnew ::
  "bool \<Rightarrow> nat \<Rightarrow> ('k \<Rightarrow> u32 option) \<Rightarrow> ('k \<Rightarrow> 'k \<Rightarrow> int option) \<Rightarrow> ('k \<Rightarrow> 'k option)
   \<Rightarrow> ('v option \<Rightarrow> 'v option) \<Rightarrow> ('k, 'v) jsw_hash option" where
  "jsw_hnew ok sz h c kd idup =
     (if ok then Some \<lparr>table = replicate sz None, hsize = 0, capacity = sz, curri = 0, currl = [],
                       hash = h, cmp = c, keydup = kd, itemdup = idup\<rparr>
      else None)"

text \<open>The bucket of a key; \<open>hash(key) % capacity\<close> faults on a table without buckets.\<close>

definition bucket :: "('k, 'v) jsw_hash \<Rightarrow> 'k \<Rightarrow> nat option" where
  "bucket htab key = do {
     h \<leftarrow> hash htab key;
     if capacity htab = 0 then None else Some (unat h mod capacity htab) }"

text \<open>\<open>jsw_hdelete\<close> releases every link; the result is the list of the keys and items passed to
  the release callbacks.\<close>

fun hdelete_loop :: "('k, 'v) jsw_head option list \<Rightarrow> nat \<Rightarrow> nat \<Rightarrow> ('k, 'v) jnode list option" where
  "hdelete_loop t i n =
     (if n = 0 then Some []
      else do {
        c \<leftarrow> fetch t i;
        rest \<leftarrow> hdelete_loop t (Suc i) (n - 1);
        Some ((case c of None \<Rightarrow> [] | Some c \<Rightarrow> links c) @ rest) })"

declare hdelete_loop.simps [simp del]

definition jsw_hdelete :: "('k, 'v) jsw_hash \<Rightarrow> ('k, 'v) jnode list option" where
  "jsw_hdelete htab = hdelete_loop (table htab) 0 (capacity htab)"

text \<open>The search along a chain: the item of the first link whose key compares equal.\<close>

fun find_in_chain :: "('k \<Rightarrow> 'k \<Rightarrow> int option) \<Rightarrow> 'k \<Rightarrow> ('k, 'v) jnode list \<Rightarrow> 'v option option" where
  "find_in_chain c key [] = Some None"
| "find_in_chain c key ((k, v) # its) = do {
     r \<leftarrow> c key k;
     if r = 0 then Some v else find_in_chain c key its }"

definition jsw_hfind :: "('k, 'v) jsw_hash \<Rightarrow> 'k \<Rightarrow> 'v option option" where
  "jsw_hfind htab key = do {
     h \<leftarrow> bucket htab key;
     c \<leftarrow> fetch (table htab) h;
     case c of None \<Rightarrow> Some None | Some c \<Rightarrow> find_in_chain (cmp htab) key (links c) }"

text \<open>\<open>jsw_hinsert\<close>; the first two arguments tell whether \<open>new_node\<close> and \<open>new_chain\<close> succeed.\<close>

definition jsw_hinsert ::
  "bool \<Rightarrow> bool \<Rightarrow> ('k, 'v) jsw_hash \<Rightarrow> 'k \<Rightarrow> 'v option \<Rightarrow> (int \<times> ('k, 'v) jsw_hash) option" where
  "jsw_hinsert node_ok chain_ok htab key item = do {
     h \<leftarrow> bucket htab key;
     found \<leftarrow> jsw_hfind htab key;
     if found \<noteq> None then Some (0, htab)
     else do {
       dupkey \<leftarrow> keydup htab key;
       let dupitem = itemdup htab item;
       if \<not> node_ok then Some (0, htab)
       else do {
         c \<leftarrow> fetch (table htab) h;
         case (case c of None \<Rightarrow> new_chain chain_ok | Some c \<Rightarrow> Some c) of
           None \<Rightarrow> Some (0, htab)
         | Some c \<Rightarrow> do {
             t \<leftarrow> store (table htab) h
                    (Some \<lparr>links = (dupkey, dupitem) # links c, csize = csize c + 1\<rparr>);
             Some (1, htab\<lparr>table := t, hsize := hsize htab + 1\<rparr>) } } } }"

text \<open>\<open>jsw_hreset\<close> moves the cursor to the first link of the first chain.\<close>

fun next_chain :: "('k, 'v) jsw_head option list \<Rightarrow> nat \<Rightarrow> nat \<Rightarrow> nat option" where
  "next_chain t i n =
     (if n = 0 then Some i
      else do {
        c \<leftarrow> fetch t i;
        if c \<noteq> None then Some i else next_chain t (Suc i) (n - 1) })"

declare next_chain.simps [simp del]

definition chain_at :: "('k, 'v) jsw_hash \<Rightarrow> nat \<Rightarrow> ('k, 'v) jnode list option" where
  "chain_at htab i = do { c \<leftarrow> fetch (table htab) i; c \<leftarrow> c; Some (links c) }"

definition jsw_hreset :: "('k, 'v) jsw_hash \<Rightarrow> ('k, 'v) jsw_hash option" where
  "jsw_hreset htab = do {
     i \<leftarrow> next_chain (table htab) 0 (capacity htab);
     if i \<noteq> capacity htab
     then do { l \<leftarrow> chain_at htab i; Some (htab\<lparr>curri := i, currl := l\<rparr>) }
     else Some (htab\<lparr>curri := i, currl := []\<rparr>) }"

text \<open>The search of \<open>jsw_herase\<close> behind the first link: the chain without the link found and
  the link released, or nothing.\<close>

fun erase_behind ::
  "('k \<Rightarrow> 'k \<Rightarrow> int option) \<Rightarrow> 'k \<Rightarrow> ('k, 'v) jnode \<Rightarrow> ('k, 'v) jnode list
   \<Rightarrow> (('k, 'v) jnode list \<times> ('k, 'v) jnode) option option" where
  "erase_behind c key it [] = Some None"
| "erase_behind c key it (nxt # its) = do {
     r \<leftarrow> c key (fst nxt);
     if r = 0 then Some (Some (it # its, nxt))
     else do {
       res \<leftarrow> erase_behind c key nxt its;
       Some (map_option (\<lambda>(l, gone). (it # l, gone)) res) } }"

text \<open>\<open>jsw_herase\<close> returns the link it released; a chain head without links is read through a
  null pointer.\<close>

definition jsw_herase ::
  "('k, 'v) jsw_hash \<Rightarrow> 'k \<Rightarrow> (int \<times> ('k, 'v) jnode list \<times> ('k, 'v) jsw_hash) option" where
  "jsw_herase htab key = do {
     h \<leftarrow> bucket htab key;
     c \<leftarrow> fetch (table htab) h;
     case c of
       None \<Rightarrow> Some (0, [], htab)
     | Some c \<Rightarrow>
         (case links c of
            [] \<Rightarrow> None
          | it # its \<Rightarrow> do {
              r \<leftarrow> cmp htab key (fst it);
              if r = 0 then do {
                t \<leftarrow> store (table htab) h
                       (if its = [] then None
                        else Some (c\<lparr>links := its, csize := csize c - 1\<rparr>));
                htab \<leftarrow> jsw_hreset (htab\<lparr>table := t\<rparr>);
                Some (1, [it], htab\<lparr>hsize := hsize htab - 1\<rparr>) }
              else do {
                res \<leftarrow> erase_behind (cmp htab) key it its;
                case res of
                  None \<Rightarrow> Some (0, [], htab)
                | Some (l, gone) \<Rightarrow> do {
                    t \<leftarrow> store (table htab) h (Some (c\<lparr>links := l, csize := csize c - 1\<rparr>));
                    htab \<leftarrow> jsw_hreset (htab\<lparr>table := t\<rparr>);
                    Some (1, [gone], htab\<lparr>hsize := hsize htab - 1\<rparr>) } } }) }"

text \<open>\<open>jsw_hresize\<close> builds a new table, releases the old one and assigns the new one to its own
  parameter.  The result is the return code, the table the caller's pointer still designates
  (\<^const>\<open>None\<close>: freed memory), the new table, if one was built, and what was released.  The
  links of the old table are inserted in the order of the buckets.\<close>

fun insert_all ::
  "('k, 'v) jsw_hash \<Rightarrow> ('k, 'v) jnode list \<Rightarrow> ('k, 'v) jsw_hash option" where
  "insert_all new [] = Some new"
| "insert_all new ((k, v) # its) = do {
     (_, new) \<leftarrow> jsw_hinsert True True new k v;
     insert_all new its }"

definition jsw_hresize ::
  "bool \<Rightarrow> ('k, 'v) jsw_hash \<Rightarrow> nat
   \<Rightarrow> (int \<times> ('k, 'v) jsw_hash option \<times> ('k, 'v) jsw_hash option \<times> ('k, 'v) jnode list) option" where
  "jsw_hresize ok htab new_size =
     (case jsw_hnew ok new_size (hash htab) (cmp htab) (keydup htab) (itemdup htab) of
        None \<Rightarrow> Some (0, Some htab, None, [])
      | Some new \<Rightarrow> do {
          its \<leftarrow> jsw_hdelete htab;
          new \<leftarrow> insert_all new its;
          Some (1, None, Some new, its) })"

text \<open>\<open>jsw_hnext\<close>: \<open>while (++curri < capacity)\<close>, then the first link there.\<close>

definition jsw_hnext :: "('k, 'v) jsw_hash \<Rightarrow> (int \<times> ('k, 'v) jsw_hash) option" where
  "jsw_hnext htab =
     (case currl htab of
        [] \<Rightarrow> Some (1, htab)
      | _ # l \<Rightarrow>
          if l \<noteq> [] then Some (1, htab\<lparr>currl := l\<rparr>)
          else do {
            i \<leftarrow> next_chain (table htab) (Suc (curri htab)) (capacity htab - Suc (curri htab));
            if i = capacity htab then Some (0, htab\<lparr>curri := i, currl := []\<rparr>)
            else do { l \<leftarrow> chain_at htab i; Some (1, htab\<lparr>curri := i, currl := l\<rparr>) } })"

definition jsw_hkey :: "('k, 'v) jsw_hash \<Rightarrow> 'k option" where
  "jsw_hkey htab = (case currl htab of [] \<Rightarrow> None | (k, v) # _ \<Rightarrow> Some k)"

definition jsw_hitem :: "('k, 'v) jsw_hash \<Rightarrow> 'v option" where
  "jsw_hitem htab = (case currl htab of [] \<Rightarrow> None | (k, v) # _ \<Rightarrow> v)"

definition jsw_hsize :: "('k, 'v) jsw_hash \<Rightarrow> u64" where
  "jsw_hsize htab = hsize htab"

definition jsw_hcapacity :: "('k, 'v) jsw_hash \<Rightarrow> nat" where
  "jsw_hcapacity htab = capacity htab"

section \<open>Buckets\<close>

definition entries :: "('k, 'v) jsw_hash \<Rightarrow> nat \<Rightarrow> ('k, 'v) jnode list" where
  "entries t i = (case table t ! i of None \<Rightarrow> [] | Some c \<Rightarrow> links c)"

definition jnodes :: "('k, 'v) jsw_hash \<Rightarrow> ('k, 'v) jnode list" where
  "jnodes t = concat (map (entries t) [0..<capacity t])"

lemma hdelete_loop_eq:
  "i + n \<le> length t \<Longrightarrow> hdelete_loop t i n =
     Some (concat (map (\<lambda>j. case t ! j of None \<Rightarrow> [] | Some c \<Rightarrow> links c) [i..<i + n]))"
proof (induction n arbitrary: i)
  case 0
  then show ?case by (subst hdelete_loop.simps) simp
next
  case (Suc n)
  then have "[i..<i + Suc n] = i # [Suc i..<Suc i + n]" by (simp add: upt_rec)
  with Suc show ?case by (subst hdelete_loop.simps) simp
qed

lemma hdelete_nodes: "length (table t) = capacity t \<Longrightarrow> jsw_hdelete t = Some (jnodes t)"
  using hdelete_loop_eq [of 0 "capacity t" "table t"]
  by (simp add: jsw_hdelete_def jnodes_def entries_def [abs_def])

lemma next_chain_result:
  "i + n \<le> length t \<Longrightarrow> \<exists>j. next_chain t i n = Some j \<and> i \<le> j \<and> j \<le> i + n
     \<and> (\<forall>k. i \<le> k \<and> k < j \<longrightarrow> t ! k = None) \<and> (j < i + n \<longrightarrow> t ! j \<noteq> None)"
proof (induction n arbitrary: i)
  case 0
  then show ?case by (subst next_chain.simps) auto
next
  case (Suc n)
  show ?case
  proof (cases "t ! i")
    case None
    from Suc.IH [of "Suc i"] Suc.prems obtain j where "next_chain t (Suc i) n = Some j"
      "Suc i \<le> j" "j \<le> Suc i + n" "\<forall>k. Suc i \<le> k \<and> k < j \<longrightarrow> t ! k = None"
      "j < Suc i + n \<longrightarrow> t ! j \<noteq> None" by auto
    moreover from this(4) None have "t ! k = None" if "i \<le> k" "k < j" for k
      using that by (cases "k = i") auto
    ultimately show ?thesis
      using None Suc.prems by (subst next_chain.simps) auto
  next
    case (Some c)
    with Suc.prems show ?thesis by (subst next_chain.simps) auto
  qed
qed

lemma hreset_total:
  assumes "length (table t) = capacity t"
  shows "\<exists>i l. jsw_hreset t = Some (t\<lparr>curri := i, currl := l\<rparr>) \<and> i \<le> capacity t
    \<and> (\<forall>k<i. entries t k = []) \<and> (if i < capacity t then table t ! i \<noteq> None \<and> l = entries t i else l = [])"
proof -
  obtain j where "next_chain (table t) 0 (capacity t) = Some j" "j \<le> capacity t"
    "\<forall>k<j. table t ! k = None" "j < capacity t \<longrightarrow> table t ! j \<noteq> None"
    using next_chain_result [of 0 "capacity t" "table t"] assms by auto
  with assms show ?thesis
    by (cases "j = capacity t")
      (auto simp: jsw_hreset_def chain_at_def entries_def intro!: exI [of _ j])
qed

section \<open>Key functions\<close>

text \<open>What the table needs of its key functions: on well-formed keys they do not fault,
  \<open>cmp\<close> is equality of an abstract key value, \<open>hash\<close> depends on that value alone, and
  \<open>keydup\<close> keeps it.\<close>

locale hash_keys =
  fixes h :: "'k \<Rightarrow> u32 option"
    and c :: "'k \<Rightarrow> 'k \<Rightarrow> int option"
    and kd :: "'k \<Rightarrow> 'k option"
    and ok :: "'k \<Rightarrow> bool"
    and kv :: "'k \<Rightarrow> 'a"
    and hv :: "'a \<Rightarrow> u32"
  assumes hash_ok: "ok k \<Longrightarrow> h k = Some (hv (kv k))"
    and cmp_ok: "ok k \<Longrightarrow> ok k' \<Longrightarrow> \<exists>r. c k k' = Some r \<and> (r = 0 \<longleftrightarrow> kv k = kv k')"
    and dup_ok: "ok k \<Longrightarrow> \<exists>k'. kd k = Some k' \<and> ok k' \<and> kv k' = kv k"
begin

definition keys :: "('k, 'v) jnode list \<Rightarrow> 'a list" where
  "keys l = map (\<lambda>n. kv (fst n)) l"

definition good_chain :: "nat \<Rightarrow> nat \<Rightarrow> ('k, 'v) jnode list \<Rightarrow> bool" where
  "good_chain cap i l \<longleftrightarrow> distinct (keys l) \<and>
     (\<forall>n\<in>set l. ok (fst n) \<and> snd n \<noteq> None \<and> unat (hv (kv (fst n))) mod cap = i)"

text \<open>The map a chain stands for.\<close>

definition cmap :: "('k, 'v) jnode list \<Rightarrow> 'a \<rightharpoonup> 'v" where
  "cmap l = map_of (map (\<lambda>n. (kv (fst n), the (snd n))) l)"

definition invar :: "('k, 'v) jsw_hash \<Rightarrow> bool" where
  "invar t \<longleftrightarrow> hash t = h \<and> cmp t = c \<and> keydup t = kd \<and> (\<forall>v. itemdup t (Some v) = Some v)
     \<and> 0 < capacity t \<and> length (table t) = capacity t
     \<and> (\<forall>i<capacity t. good_chain (capacity t) i (entries t i)
          \<and> (table t ! i \<noteq> None \<longrightarrow> entries t i \<noteq> []))
     \<and> hsize t = of_nat (length (jnodes t))"

definition slot :: "('k, 'v) jsw_hash \<Rightarrow> 'a \<Rightarrow> nat" where
  "slot t a = unat (hv a) mod capacity t"

definition absm :: "('k, 'v) jsw_hash \<Rightarrow> 'a \<rightharpoonup> 'v" where
  "absm t a = cmap (entries t (slot t a)) a"

lemma cmap_simps [simp]: "cmap [] = Map.empty"
  "cmap (n # l) = (cmap l)(kv (fst n) \<mapsto> the (snd n))"
  by (simp_all add: cmap_def)

lemma cmap_None: "cmap l a = None \<longleftrightarrow> a \<notin> set (keys l)"
  by (induction l) (auto simp: keys_def)

lemma slot_less: "invar t \<Longrightarrow> slot t a < capacity t"
  by (simp add: invar_def slot_def)

lemma bucket_ok: "invar t \<Longrightarrow> ok k \<Longrightarrow> bucket t k = Some (slot t (kv k))"
  by (simp add: bucket_def invar_def slot_def hash_ok)

lemma find_in_chain_ok:
  "ok k \<Longrightarrow> good_chain cap i l \<Longrightarrow> find_in_chain c k l = Some (cmap l (kv k))"
proof (induction l)
  case (Cons n l)
  obtain k' v where n: "n = (k', Some v)" "ok k'"
    using Cons.prems(2) by (cases n) (auto simp: good_chain_def)
  obtain r where "c k k' = Some r" "r = 0 \<longleftrightarrow> kv k = kv k'"
    using cmp_ok [OF Cons.prems(1) n(2)] by blast
  with n Cons show ?case by (auto simp: good_chain_def keys_def)
qed simp

lemma hfind_ok: "invar t \<Longrightarrow> ok k \<Longrightarrow> jsw_hfind t k = Some (absm t (kv k))"
proof -
  assume t: "invar t" and k: "ok k"
  have "good_chain (capacity t) (slot t (kv k)) (entries t (slot t (kv k)))"
    using t slot_less [OF t] by (simp add: invar_def)
  note f = find_in_chain_ok [OF k this]
  have "length (table t) = capacity t" "cmp t = c" using t by (simp_all add: invar_def)
  with f slot_less [OF t] show ?thesis
    by (auto simp: jsw_hfind_def bucket_ok [OF t k] absm_def entries_def split: option.splits)
qed

lemma erase_behind_ok:
  assumes "ok k" "\<forall>n\<in>set its. ok (fst n)"
  shows "(if kv k \<in> set (keys its)
     then \<exists>us n vs. its = us @ n # vs \<and> kv (fst n) = kv k \<and> kv k \<notin> set (keys us)
            \<and> erase_behind c k it its = Some (Some (it # us @ vs, n))
     else erase_behind c k it its = Some None)"
  using assms(2)
proof (induction its arbitrary: it)
  case Nil
  then show ?case by (simp add: keys_def)
next
  case (Cons n its)
  obtain r where r: "c k (fst n) = Some r" "r = 0 \<longleftrightarrow> kv k = kv (fst n)"
    using cmp_ok [OF assms(1)] Cons.prems by (metis list.set_intros(1))
  show ?case
  proof (cases "r = 0")
    case True
    have "\<exists>us x vs. n # its = us @ x # vs \<and> kv (fst x) = kv k \<and> kv k \<notin> set (keys us)
        \<and> erase_behind c k it (n # its) = Some (Some (it # us @ vs, x))"
      by (rule exI [of _ "[]"], rule exI [of _ n], rule exI [of _ its]) (use True r in \<open>simp add: keys_def\<close>)
    with True r show ?thesis by (simp add: keys_def)
  next
    case False
    have IH: "if kv k \<in> set (keys its)
     then \<exists>us x vs. its = us @ x # vs \<and> kv (fst x) = kv k \<and> kv k \<notin> set (keys us)
            \<and> erase_behind c k n its = Some (Some (n # us @ vs, x))
     else erase_behind c k n its = Some None"
      by (rule Cons.IH) (use Cons.prems in simp)
    show ?thesis
    proof (cases "kv k \<in> set (keys its)")
      case in_its: True
      then obtain us x vs where "its = us @ x # vs" "kv (fst x) = kv k" "kv k \<notin> set (keys us)"
        "erase_behind c k n its = Some (Some (n # us @ vs, x))"
        using IH by auto
      with False r have "\<exists>us x vs. n # its = us @ x # vs \<and> kv (fst x) = kv k \<and> kv k \<notin> set (keys us)
          \<and> erase_behind c k it (n # its) = Some (Some (it # us @ vs, x))"
        by - (rule exI [of _ "n # us"], rule exI [of _ x], rule exI [of _ vs], simp add: keys_def)
      with in_its show ?thesis by (simp add: keys_def)
    next
      case False
      with IH r \<open>r \<noteq> 0\<close> show ?thesis by (auto simp: keys_def)
    qed
  qed
qed


lemma jnodes_length: "length (jnodes t) = (\<Sum>i<capacity t. length (entries t i))"
  by (simp add: jnodes_def length_concat comp_def interv_sum_list_conv_sum_set_nat atLeast0LessThan)

text \<open>Replacing the chain of one bucket.\<close>

lemma put_chain:
  assumes t: "invar t" and i: "i < capacity t" and l: "good_chain (capacity t) i l"
    and t': "table t' = (table t)[i := x]" "capacity t' = capacity t" "hash t' = hash t" "cmp t' = cmp t"
      "keydup t' = keydup t" "itemdup t' = itemdup t"
    and n: "hsize t' = hsize t + of_nat (length l) - of_nat (length (entries t i))"
    and x: "x = None \<and> l = [] \<or> (\<exists>ch. x = Some ch \<and> links ch = l \<and> l \<noteq> [])"
  shows "invar t'" and "absm t' a = (if slot t a = i then cmap l a else absm t a)"
proof -
  have len: "length (table t) = capacity t" using t by (simp add: invar_def)
  have e: "entries t' j = (if j = i then l else entries t j)" if "j < capacity t" for j
    using that x len i by (auto simp: entries_def t'(1) nth_list_update)
  have "length (jnodes t') = (\<Sum>j<capacity t. length (if j = i then l else entries t j))"
    unfolding jnodes_length t'(2) by (rule sum.cong) (auto simp: e)
  also have "\<dots> = length l + (\<Sum>j\<in>{..<capacity t} - {i}. length (entries t j))"
    using i by (subst sum.remove [of _ i]) (auto intro!: sum.cong)
  moreover have "length (jnodes t) = length (entries t i) + (\<Sum>j\<in>{..<capacity t} - {i}. length (entries t j))"
    unfolding jnodes_length using i by (subst sum.remove [of _ i]) auto
  ultimately have "length (jnodes t') + length (entries t i) = length (jnodes t) + length l"
    by simp
  then have "of_nat (length (jnodes t') + length (entries t i)) = (of_nat (length (jnodes t) + length l) :: u64)"
    by simp
  then have "hsize t' + of_nat (length (entries t i)) = of_nat (length (jnodes t')) + of_nat (length (entries t i))"
    using n t by (simp add: invar_def)
  then have "hsize t' = of_nat (length (jnodes t'))" by (rule add_right_imp_eq)
  then show "invar t'"
    using t l x e i len unfolding invar_def t' by (auto simp: nth_list_update)
  show "absm t' a = (if slot t a = i then cmap l a else absm t a)"
    using e [OF slot_less [OF t]] by (simp add: absm_def slot_def t'(2))
qed

lemma hinsert_ok:
  assumes t: "invar t" and k: "ok k"
  shows "if absm t (kv k) \<noteq> None then jsw_hinsert True True t k (Some v) = Some (0, t)
    else \<exists>t'. jsw_hinsert True True t k (Some v) = Some (1, t') \<and> invar t'
      \<and> absm t' = (absm t)(kv k \<mapsto> v) \<and> capacity t' = capacity t \<and> itemdup t' = itemdup t
      \<and> hsize t' = hsize t + 1"
proof (cases "absm t (kv k)")
  case Some
  then show ?thesis
    by (simp add: jsw_hinsert_def bucket_ok [OF t k] hfind_ok [OF t k])
next
  case None
  let ?i = "slot t (kv k)"
  have i: "?i < capacity t" and len: "length (table t) = capacity t"
    and gc: "good_chain (capacity t) ?i (entries t ?i)" and dup: "keydup t = kd" "itemdup t (Some v) = Some v"
    using t slot_less [OF t] by (auto simp: invar_def)
  obtain k' where k': "kd k = Some k'" "ok k'" "kv k' = kv k" using dup_ok [OF k] by blast
  let ?l = "(k', Some v) # entries t ?i"
  define cs where "cs = (case table t ! ?i of None \<Rightarrow> 1 | Some ch \<Rightarrow> csize ch + 1)"
  let ?x = "Some \<lparr>links = ?l, csize = cs\<rparr>"
  let ?t = "t\<lparr>table := (table t)[?i := ?x], hsize := hsize t + 1\<rparr>"
  have "jsw_hinsert True True t k (Some v) = Some (1, ?t)"
    using i len dup k' None
    by (auto simp: jsw_hinsert_def bucket_ok [OF t k] hfind_ok [OF t k] new_chain_def entries_def cs_def
        split: option.splits)
  moreover have "good_chain (capacity t) ?i ?l"
    using gc None k' by (auto simp: good_chain_def keys_def absm_def cmap_None slot_def)
  note p = put_chain [OF t i this, of ?t ?x]
  have "invar ?t" by (rule p(1)) auto
  moreover have "absm ?t = (absm t)(kv k \<mapsto> v)"
  proof
    fix a
    have "absm ?t a = (if slot t a = ?i then cmap ?l a else absm t a)" by (rule p(2)) auto
    then show "absm ?t a = ((absm t)(kv k \<mapsto> v)) a" by (auto simp: k'(3) absm_def)
  qed
  ultimately show ?thesis using None by auto
qed

lemma cmap_remove:
  "distinct (keys (us @ n # vs)) \<Longrightarrow> cmap (us @ vs) = (cmap (us @ n # vs))(kv (fst n) := None)"
proof (induction us)
  case Nil
  then have "cmap vs (kv (fst n)) = None" by (simp add: cmap_None keys_def)
  then show ?case by (simp add: fun_eq_iff)
next
  case (Cons m us)
  then show ?case by (auto simp: keys_def fun_eq_iff)
qed

lemma good_chain_remove: "good_chain cap i (us @ n # vs) \<Longrightarrow> good_chain cap i (us @ vs)"
  by (auto simp: good_chain_def keys_def)

lemma herase_ok:
  assumes t: "invar t" and k: "ok k"
  shows "if absm t (kv k) = None then jsw_herase t k = Some (0, [], t)
    else \<exists>k' t'. jsw_herase t k = Some (1, [(k', absm t (kv k))], t') \<and> kv k' = kv k \<and> invar t'
      \<and> absm t' = (absm t)(kv k := None) \<and> capacity t' = capacity t \<and> itemdup t' = itemdup t
      \<and> hsize t' = hsize t - 1"
proof -
  let ?i = "slot t (kv k)"
  have i: "?i < capacity t" and len: "length (table t) = capacity t" and cmp: "cmp t = c"
    and gc: "good_chain (capacity t) ?i (entries t ?i)"
    and ne: "table t ! ?i \<noteq> None \<longrightarrow> entries t ?i \<noteq> []"
    using t slot_less [OF t] by (auto simp: invar_def)
  have fin: ?thesis if er: "entries t ?i = us @ n # vs" "kv (fst n) = kv k"
      and x: "x = None \<and> us @ vs = [] \<or> (\<exists>ch. x = Some ch \<and> links ch = us @ vs \<and> us @ vs \<noteq> [])"
      and run: "jsw_herase t k = do { t' \<leftarrow> jsw_hreset (t\<lparr>table := (table t)[?i := x]\<rparr>);
           Some (1, [n], t'\<lparr>hsize := hsize t' - 1\<rparr>) }" for us n vs x
  proof -
    obtain ci cl where rs: "jsw_hreset (t\<lparr>table := (table t)[?i := x]\<rparr>) =
        Some (t\<lparr>table := (table t)[?i := x], curri := ci, currl := cl\<rparr>)"
      using hreset_total [of "t\<lparr>table := (table t)[?i := x]\<rparr>"] len by auto
    let ?t = "t\<lparr>table := (table t)[?i := x], curri := ci, currl := cl, hsize := hsize t - 1\<rparr>"
    have good: "good_chain (capacity t) ?i (us @ vs)" by (rule good_chain_remove) (use gc er(1) in simp)
    have dist: "distinct (keys (us @ n # vs))" using gc er(1) by (simp add: good_chain_def)
    note p = put_chain [OF t i good, of ?t x]
    have "invar ?t" using x by (intro p(1)) (auto simp: er(1))
    moreover have "absm ?t = (absm t)(kv k := None)"
    proof
      fix a
      have "absm ?t a = (if slot t a = ?i then cmap (us @ vs) a else absm t a)"
        using x by (intro p(2)) (auto simp: er(1))
      then show "absm ?t a = ((absm t)(kv k := None)) a"
        using cmap_remove [OF dist] er by (auto simp: absm_def)
    qed
    moreover have "snd n = absm t (kv k)" "absm t (kv k) \<noteq> None"
    proof -
      have "cmap (us @ n # vs) (kv (fst n)) = Some (the (snd n))"
        using dist by (induction us) (auto simp: keys_def cmap_def)
      moreover have "snd n \<noteq> None" using gc er(1) by (auto simp: good_chain_def)
      ultimately show "snd n = absm t (kv k)" "absm t (kv k) \<noteq> None"
        using er by (auto simp: absm_def)
    qed
    ultimately show ?thesis
      using run rs er(2) by (cases n) auto
  qed
  show ?thesis
  proof (cases "table t ! ?i")
    case None
    then have "absm t (kv k) = None" by (simp add: absm_def entries_def)
    with None show ?thesis using i len by (simp add: jsw_herase_def bucket_ok [OF t k])
  next
    case (Some ch)
    then obtain it its where ls: "links ch = it # its" and e: "entries t ?i = it # its"
      using ne by (cases "links ch") (auto simp: entries_def)
    have oks: "\<forall>n\<in>set its. ok (fst n)" "ok (fst it)" using gc by (auto simp: e good_chain_def)
    obtain r where r: "c k (fst it) = Some r" "r = 0 \<longleftrightarrow> kv k = kv (fst it)"
      using cmp_ok [OF k oks(2)] by blast
    show ?thesis
    proof (cases "r = 0")
      case True
      show ?thesis
        by (rule fin [of "[]" it its "if its = [] then None else Some (ch\<lparr>links := its, csize := csize ch - 1\<rparr>)"])
          (use True r e Some ls i len cmp in \<open>auto simp: jsw_herase_def bucket_ok [OF t k]\<close>)
    next
      case False
      note eb = erase_behind_ok [OF k oks(1), of it]
      show ?thesis
      proof (cases "kv k \<in> set (keys its)")
        case True
        then obtain us n vs where d: "its = us @ n # vs" "kv (fst n) = kv k"
          "erase_behind c k it its = Some (Some (it # us @ vs, n))" using eb by auto
        show ?thesis
          by (rule fin [of "it # us" n vs "Some (ch\<lparr>links := it # us @ vs, csize := csize ch - 1\<rparr>)"])
            (use False r e Some ls i len cmp d in \<open>auto simp: jsw_herase_def bucket_ok [OF t k]\<close>)
      next
        case notin: False
        then have "absm t (kv k) = None" using False r e by (simp add: absm_def cmap_None keys_def)
        with notin eb False r Some ls i len cmp show ?thesis
          by (simp add: jsw_herase_def bucket_ok [OF t k])
      qed
    qed
  qed
qed


lemma hnew_ok:
  assumes "0 < n" "\<And>v. idup (Some v) = Some v"
  shows "\<exists>t. jsw_hnew True n h c kd idup = Some t \<and> invar t \<and> absm t = Map.empty
    \<and> capacity t = n \<and> itemdup t = idup \<and> hsize t = 0 \<and> jnodes t = []"
proof -
  define T where "T = \<lparr>table = replicate n None, hsize = 0, capacity = n, curri = 0, currl = [],
      hash = h, cmp = c, keydup = kd, itemdup = idup\<rparr>"
  have f: "table T = replicate n None" "hsize T = 0" "capacity T = n" "hash T = h" "cmp T = c"
    "keydup T = kd" "itemdup T = idup" by (simp_all add: T_def)
  have e: "entries T j = []" if "j < n" for j
    using that by (simp add: entries_def f)
  then have "jnodes T = []" by (simp add: jnodes_def f)
  moreover have "absm T = Map.empty"
    using e assms(1) by (simp add: absm_def slot_def f fun_eq_iff)
  moreover have "invar T"
    using assms e calculation(1) by (simp add: invar_def f good_chain_def keys_def)
  moreover have "jsw_hnew True n h c kd idup = Some T" by (simp add: jsw_hnew_def T_def)
  ultimately show ?thesis using f by blast
qed

text \<open>The links of the whole table.\<close>

lemma set_jnodes: "set (jnodes t) = (\<Union>i<capacity t. set (entries t i))"
  by (auto simp: jnodes_def)

lemma node_slot: "invar t \<Longrightarrow> i < capacity t \<Longrightarrow> a \<in> set (keys (entries t i)) \<Longrightarrow> slot t a = i"
  by (auto simp: invar_def good_chain_def keys_def slot_def)

lemma distinct_keys_jnodes:
  assumes t: "invar t"
  shows "distinct (keys (jnodes t))"
proof -
  have "distinct (keys (concat (map (entries t) xs)))"
    if "distinct xs" "\<forall>i\<in>set xs. i < capacity t" for xs
    using that
  proof (induction xs)
    case (Cons i xs)
    have "distinct (keys (entries t i))" using t Cons.prems by (simp add: invar_def good_chain_def)
    moreover have "set (keys (entries t i)) \<inter> set (keys (concat (map (entries t) xs))) = {}"
    proof (rule ccontr)
      assume "\<not> ?thesis"
      then obtain a j where "a \<in> set (keys (entries t i))" "j \<in> set xs" "a \<in> set (keys (entries t j))"
        by (auto simp: keys_def)
      then show False using node_slot [OF t, of i a] node_slot [OF t, of j a] Cons.prems by auto
    qed
    ultimately show ?case using Cons by (simp add: keys_def)
  qed (simp add: keys_def)
  then show ?thesis by (simp add: jnodes_def)
qed

lemma absm_jnodes:
  fixes t :: "('k, 'v) jsw_hash"
  assumes t: "invar t"
  shows "absm t = cmap (jnodes t)"
proof
  fix a
  have "absm t a = Some v \<longleftrightarrow> cmap (jnodes t) a = Some v" for v
  proof -
    have some: "cmap l a = Some v \<longleftrightarrow> (\<exists>n\<in>set l. kv (fst n) = a \<and> the (snd n) = v)"
      if "distinct (keys l)" for l :: "('k, 'v) jnode list"
      unfolding cmap_def using that by (subst map_of_eq_Some_iff) (auto simp: keys_def comp_def)
    have "good_chain (capacity t) (slot t a) (entries t (slot t a))"
      using t slot_less [OF t] by (simp add: invar_def)
    then have d: "distinct (keys (entries t (slot t a)))" by (simp add: good_chain_def)
    have "(\<exists>n\<in>set (entries t (slot t a)). kv (fst n) = a \<and> the (snd n) = v) \<longleftrightarrow>
        (\<exists>n\<in>set (jnodes t). kv (fst n) = a \<and> the (snd n) = v)"
    proof -
      have "n \<in> set (entries t (slot t a)) \<longleftrightarrow> n \<in> set (jnodes t)" if "kv (fst n) = a" for n
      proof
        assume "n \<in> set (entries t (slot t a))"
        then show "n \<in> set (jnodes t)" using slot_less [OF t] by (auto simp: set_jnodes)
      next
        assume "n \<in> set (jnodes t)"
        then obtain i where "i < capacity t" "n \<in> set (entries t i)" by (auto simp: set_jnodes)
        moreover from this have "slot t a = i"
          using node_slot [OF t, of i a] that by (auto simp: keys_def)
        ultimately show "n \<in> set (entries t (slot t a))" by simp
      qed
      then show ?thesis by blast
    qed
    then show ?thesis by (simp add: absm_def some [OF d] some [OF distinct_keys_jnodes [OF t]])
  qed
  then show "absm t a = cmap (jnodes t) a" by (metis not_Some_eq)
qed

lemma dom_cmap: "dom (cmap l) = set (keys l)"
  using cmap_None [of l] by (auto simp: dom_def)

lemma hsize_ok: "invar t \<Longrightarrow> finite (dom (absm t)) \<and> jsw_hsize t = of_nat (card (dom (absm t)))"
  using distinct_card [OF distinct_keys_jnodes [of t]]
  by (simp add: absm_jnodes dom_cmap jsw_hsize_def invar_def) (simp add: keys_def)

subsection \<open>Traversal\<close>

text \<open>The links still ahead of the cursor, itself included.\<close>

definition ahead :: "('k, 'v) jsw_hash \<Rightarrow> ('k, 'v) jnode list" where
  "ahead t = currl t @ concat (map (entries t) [Suc (curri t)..<capacity t])"

definition cursor :: "('k, 'v) jsw_hash \<Rightarrow> bool" where
  "cursor t \<longleftrightarrow> (currl t \<noteq> [] \<longrightarrow> curri t < capacity t) \<and> (currl t = [] \<longrightarrow> ahead t = [])"

lemma concat_skip:
  assumes "i \<le> j" "j \<le> n" "\<forall>k. i \<le> k \<and> k < j \<longrightarrow> f k = []"
  shows "concat (map f [i..<n]) = concat (map f [j..<n])"
proof -
  have "[i..<n] = [i..<j] @ [j..<n]" using upt_add_eq_append [of i j "n - j"] assms(1,2) by simp
  moreover have "concat (map f [i..<j]) = []" using assms(3) by simp
  ultimately show ?thesis by simp
qed

lemma hreset_ahead:
  assumes t: "invar t"
  shows "\<exists>i l. jsw_hreset t = Some (t\<lparr>curri := i, currl := l\<rparr>) \<and> cursor (t\<lparr>curri := i, currl := l\<rparr>)
    \<and> ahead (t\<lparr>curri := i, currl := l\<rparr>) = jnodes t"
proof -
  obtain i l where r: "jsw_hreset t = Some (t\<lparr>curri := i, currl := l\<rparr>)" "i \<le> capacity t"
    "\<forall>k<i. entries t k = []"
    "if i < capacity t then table t ! i \<noteq> None \<and> l = entries t i else l = []"
    using hreset_total [of t] t by (auto simp: invar_def)
  have e: "entries (t\<lparr>curri := i, currl := l\<rparr>) = entries t" by (simp add: entries_def fun_eq_iff)
  have sk: "jnodes t = concat (map (entries t) [i..<capacity t])"
    unfolding jnodes_def using concat_skip [of 0 i "capacity t" "entries t"] r(2,3) by simp
  have "ahead (t\<lparr>curri := i, currl := l\<rparr>) = jnodes t"
    using r(2,4) by (auto simp: ahead_def e sk upt_conv_Cons split: if_splits)
  moreover have "i < capacity t" if "l \<noteq> []" using r(4) that by (auto split: if_splits)
  moreover have "i = capacity t" if "l = []"
  proof (rule ccontr)
    assume "i \<noteq> capacity t"
    then have "i < capacity t" using r(2) by simp
    then have "entries t i = []" "table t ! i \<noteq> None" using r(4) that by auto
    with t \<open>i < capacity t\<close> show False by (auto simp: invar_def)
  qed
  ultimately have "cursor (t\<lparr>curri := i, currl := l\<rparr>)"
    using r(2) by (cases "i = capacity t") (auto simp: cursor_def ahead_def)
  with r(1) \<open>ahead _ = _\<close> show ?thesis by blast
qed

lemma hnext_ahead:
  assumes t: "invar t" and cu: "cursor t" and a: "ahead t = n # rest"
  shows "\<exists>t'. jsw_hnext t = Some (if rest = [] then 0 else 1, t') \<and> ahead t' = rest \<and> cursor t' \<and> invar t'
    \<and> currl t = n # tl (currl t)"
proof -
  have "currl t \<noteq> []" using cu a by (auto simp: cursor_def)
  then obtain l where l: "currl t = n # l" using a by (cases "currl t") (auto simp: ahead_def)
  then have ci: "curri t < capacity t" using cu by (simp add: cursor_def)
  have e: "entries (t\<lparr>curri := i, currl := m\<rparr>) = entries t" "jnodes (t\<lparr>curri := i, currl := m\<rparr>) = jnodes t" for i m
    by (simp_all add: entries_def [abs_def] jnodes_def fun_eq_iff)
  have iv: "\<forall>i m. invar (t\<lparr>curri := i, currl := m\<rparr>)"
    using t unfolding invar_def e by simp
  show ?thesis
  proof (cases "l = []")
    case False
    let ?t = "t\<lparr>curri := curri t, currl := l\<rparr>"
    have "entries (t\<lparr>currl := l\<rparr>) = entries t" by (simp add: entries_def [abs_def])
    then have ae: "ahead ?t = l @ concat (map (entries t) [Suc (curri t)..<capacity t])"
      by (simp add: ahead_def)
    have "jsw_hnext t = Some (1, ?t)" using l False by (simp add: jsw_hnext_def)
    moreover have "ahead ?t = rest" "rest \<noteq> []" using a l False unfolding ae by (auto simp: ahead_def)
    moreover have "cursor ?t" using False ci by (simp add: cursor_def)
    moreover from iv have "invar ?t" by blast
    ultimately show ?thesis using l False by auto
  next
    case True
    have len: "length (table t) = capacity t" using t by (simp add: invar_def)
    obtain j where j: "next_chain (table t) (Suc (curri t)) (capacity t - Suc (curri t)) = Some j"
      "Suc (curri t) \<le> j" "j \<le> capacity t" "\<forall>k. Suc (curri t) \<le> k \<and> k < j \<longrightarrow> table t ! k = None"
      "j < capacity t \<longrightarrow> table t ! j \<noteq> None"
      using next_chain_result [of "Suc (curri t)" "capacity t - Suc (curri t)" "table t"] ci len by auto
    have rest: "rest = concat (map (entries t) [j..<capacity t])"
      using a l True concat_skip [of "Suc (curri t)" j "capacity t" "entries t"] j(2-4)
      by (simp add: ahead_def entries_def)
    show ?thesis
    proof (cases "j = capacity t")
      case True
      let ?t = "t\<lparr>curri := j, currl := []\<rparr>"
      have "jsw_hnext t = Some (0, ?t)" using l \<open>l = []\<close> j True by (simp add: jsw_hnext_def)
      moreover have "rest = []" "ahead ?t = []" using rest True by (simp_all add: ahead_def)
      moreover from iv have "invar ?t" by blast
      ultimately show ?thesis using l by (auto simp: cursor_def)
    next
      case False
      let ?t = "t\<lparr>curri := j, currl := entries t j\<rparr>"
      have jl: "j < capacity t" using j False by simp
      then have "entries t j \<noteq> []" using t j(5) by (auto simp: invar_def)
      moreover have "jsw_hnext t = Some (1, ?t)"
        using l \<open>l = []\<close> j jl len by (auto simp: jsw_hnext_def chain_at_def entries_def)
      moreover have "ahead ?t = rest" using rest jl by (simp add: ahead_def e upt_conv_Cons)
      moreover have "rest \<noteq> []" using \<open>entries t j \<noteq> []\<close> rest jl by (simp add: upt_conv_Cons)
      moreover from iv have "invar ?t" by blast
      ultimately show ?thesis using l jl by (auto simp: cursor_def)
    qed
  qed
qed

end

text \<open>The loop a client writes: read the key and the item, advance, stop when \<open>jsw_hnext\<close>
  returns 0.\<close>

fun traverse :: "nat \<Rightarrow> ('k, 'v) jsw_hash \<Rightarrow> ('k option \<times> 'v option) list option" where
  "traverse 0 t = Some []"
| "traverse (Suc n) t = do {
     (r, t') \<leftarrow> jsw_hnext t;
     rest \<leftarrow> (if r = 0 then Some [] else traverse n t');
     Some ((jsw_hkey t, jsw_hitem t) # rest) }"

context hash_keys
begin

lemma traverse_ahead:
  "invar t \<Longrightarrow> cursor t \<Longrightarrow> ahead t \<noteq> [] \<Longrightarrow> length (ahead t) \<le> m \<Longrightarrow>
   traverse m t = Some (map (\<lambda>n. (Some (fst n), snd n)) (ahead t))"
proof (induction m arbitrary: t)
  case (Suc m)
  then obtain n rest where a: "ahead t = n # rest" by (cases "ahead t") auto
  obtain t' where t': "jsw_hnext t = Some (if rest = [] then 0 else 1, t')" "ahead t' = rest" "cursor t'"
    "invar t'" "currl t = n # tl (currl t)"
    using hnext_ahead [OF Suc.prems(1,2) a] by blast
  have "jsw_hkey t = Some (fst n)" "jsw_hitem t = snd n"
    using t'(5) by (metis jsw_hkey_def jsw_hitem_def list.simps(5) case_prod_unfold)+
  then show ?case
    using t' Suc.IH [OF t'(4,3)] Suc.prems(4) a by (cases "rest = []") simp_all
qed simp

lemma reset_traverse:
  assumes t: "invar t" and "jnodes t \<noteq> []" "length (jnodes t) \<le> m"
  shows "\<exists>t0. jsw_hreset t = Some t0 \<and> traverse m t0 = Some (map (\<lambda>n. (Some (fst n), snd n)) (jnodes t))"
proof -
  obtain i l where r: "jsw_hreset t = Some (t\<lparr>curri := i, currl := l\<rparr>)" "cursor (t\<lparr>curri := i, currl := l\<rparr>)"
    "ahead (t\<lparr>curri := i, currl := l\<rparr>) = jnodes t" using hreset_ahead [OF t] by blast
  have "jnodes (t\<lparr>curri := i, currl := l\<rparr>) = jnodes t" "entries (t\<lparr>curri := i, currl := l\<rparr>) = entries t"
    by (simp_all add: entries_def [abs_def] jnodes_def fun_eq_iff)
  then have "invar (t\<lparr>curri := i, currl := l\<rparr>)" using t unfolding invar_def by simp
  from traverse_ahead [OF this r(2)] r(1,3) assms(2,3) show ?thesis by auto
qed

subsection \<open>Rehashing\<close>

lemma insert_all_ok:
  assumes "invar t" "\<forall>n\<in>set l. ok (fst n) \<and> snd n \<noteq> None" "distinct (keys l)"
    "set (keys l) \<inter> dom (absm t) = {}"
  shows "\<exists>t'. insert_all t l = Some t' \<and> invar t' \<and> absm t' = absm t ++ cmap l"
  using assms
proof (induction l arbitrary: t)
  case Nil
  then show ?case by simp
next
  case (Cons n l)
  obtain k v where n: "n = (k, Some v)" "ok k" using Cons.prems(2) by (cases n) auto
  have "absm t (kv k) = None" using Cons.prems(4) n by (auto simp: keys_def)
  then obtain t1 where t1: "jsw_hinsert True True t k (Some v) = Some (1, t1)" "invar t1"
    "absm t1 = (absm t)(kv k \<mapsto> v)" using hinsert_ok [OF Cons.prems(1) n(2), of v] by auto
  have "set (keys l) \<inter> dom (absm t1) = {}"
    using Cons.prems(3,4) n t1(3) by (auto simp: keys_def)
  then obtain t' where "insert_all t1 l = Some t'" "invar t'" "absm t' = absm t1 ++ cmap l"
    using Cons.IH [OF t1(2)] Cons.prems(2,3) by (auto simp: keys_def)
  moreover have "(absm t)(kv k \<mapsto> v) ++ cmap l = absm t ++ (cmap l)(kv k \<mapsto> v)"
    using Cons.prems(3) n cmap_None [of l "kv k"] by (auto simp: fun_eq_iff map_add_def keys_def split: option.splits)
  ultimately have "absm t' = absm t ++ cmap (n # l)" using t1(3) n by (simp only: cmap_simps fst_conv snd_conv option.sel)
  moreover have "insert_all t (n # l) = insert_all t1 l" using t1(1) n by simp
  ultimately show ?case using \<open>insert_all t1 l = Some t'\<close> \<open>invar t'\<close> by metis
qed

lemma hresize_ok:
  fixes t :: "('k, 'v) jsw_hash"
  assumes t: "invar t" and n: "0 < n"
  shows "\<exists>new. jsw_hresize True t n = Some (1, None, Some new, jnodes t) \<and> invar new
    \<and> capacity new = n \<and> absm new = absm t"
proof -
  have idup: "\<And>v. itemdup t (Some v) = Some v" and f: "hash t = h" "cmp t = c" "keydup t = kd"
    and len: "length (table t) = capacity t" using t by (auto simp: invar_def)
  obtain new where new: "jsw_hnew True n h c kd (itemdup t) = Some new" "invar new" "absm new = Map.empty"
    "capacity new = n" using hnew_ok [OF n idup] by blast
  have ok: "\<forall>x\<in>set (jnodes t). ok (fst x) \<and> snd x \<noteq> None"
    using t by (auto simp: set_jnodes invar_def good_chain_def)
  obtain t' where t': "insert_all new (jnodes t) = Some t'" "invar t'" "absm t' = absm new ++ cmap (jnodes t)"
    using insert_all_ok [OF new(2) ok distinct_keys_jnodes [OF t]] new(3) by auto
  have cap: "insert_all x l = Some y \<Longrightarrow> capacity y = capacity x" for x y :: "('k, 'v) jsw_hash" and l
    by (induction x l rule: insert_all.induct)
      (auto simp: jsw_hinsert_def Let_def split: if_splits option.splits Option.bind_splits prod.splits)
  show ?thesis
    using t' new cap [OF t'(1)] f hdelete_nodes [OF len]
    by (auto simp: jsw_hresize_def absm_jnodes [OF t])
qed


end

section \<open>The finite map\<close>

text \<open>A client of a table, and the map it should see.\<close>

datatype ('k, 'v) tab_op = Find 'k | Insert 'k 'v | Erase 'k

datatype 'v tab_out = Found "'v option" | Ret int

fun tab_step :: "('k, 'v) jsw_hash \<Rightarrow> ('k, 'v) tab_op \<Rightarrow> ('v tab_out \<times> ('k, 'v) jsw_hash) option" where
  "tab_step t (Find k) = do { v \<leftarrow> jsw_hfind t k; Some (Found v, t) }"
| "tab_step t (Insert k v) = do { (r, t') \<leftarrow> jsw_hinsert True True t k (Some v); Some (Ret r, t') }"
| "tab_step t (Erase k) = do { (r, _, t') \<leftarrow> jsw_herase t k; Some (Ret r, t') }"

fun tab_run :: "('k, 'v) jsw_hash \<Rightarrow> ('k, 'v) tab_op list \<Rightarrow> 'v tab_out list option" where
  "tab_run t [] = Some []"
| "tab_run t (op # ops) = do {
     (out, t') \<leftarrow> tab_step t op;
     outs \<leftarrow> tab_run t' ops;
     Some (out # outs) }"

fun op_key :: "('k, 'v) tab_op \<Rightarrow> 'k" where
  "op_key (Find k) = k"
| "op_key (Insert k v) = k"
| "op_key (Erase k) = k"

fun map_step :: "('k \<Rightarrow> 'a) \<Rightarrow> ('a \<rightharpoonup> 'v) \<Rightarrow> ('k, 'v) tab_op \<Rightarrow> 'v tab_out \<times> ('a \<rightharpoonup> 'v)" where
  "map_step kv m (Find k) = (Found (m (kv k)), m)"
| "map_step kv m (Insert k v) = (if m (kv k) = None then (Ret 1, m(kv k \<mapsto> v)) else (Ret 0, m))"
| "map_step kv m (Erase k) = (if m (kv k) = None then (Ret 0, m) else (Ret 1, m(kv k := None)))"

fun map_run :: "('k \<Rightarrow> 'a) \<Rightarrow> ('a \<rightharpoonup> 'v) \<Rightarrow> ('k, 'v) tab_op list \<Rightarrow> 'v tab_out list" where
  "map_run kv m [] = []"
| "map_run kv m (op # ops) = (let (out, m') = map_step kv m op in out # map_run kv m' ops)"

context hash_keys
begin

lemma step_refines:
  "invar t \<Longrightarrow> ok (op_key op) \<Longrightarrow>
   \<exists>out t'. tab_step t op = Some (out, t') \<and> invar t' \<and> map_step kv (absm t) op = (out, absm t')"
proof (cases op)
  case (Find k)
  assume "invar t" "ok (op_key op)"
  with Find show ?thesis by (simp add: hfind_ok)
next
  case (Insert k v)
  assume "invar t" "ok (op_key op)"
  with Insert hinsert_ok [of t k v] show ?thesis by (cases "absm t (kv k)") auto
next
  case (Erase k)
  assume "invar t" "ok (op_key op)"
  with Erase herase_ok [of t k] show ?thesis by (cases "absm t (kv k)") auto
qed

lemma run_refines:
  "invar t \<Longrightarrow> \<forall>op\<in>set ops. ok (op_key op) \<Longrightarrow> tab_run t ops = Some (map_run kv (absm t) ops)"
proof (induction ops arbitrary: t)
  case (Cons op ops)
  obtain out t' where "tab_step t op = Some (out, t')" "invar t'" "map_step kv (absm t) op = (out, absm t')"
    using step_refines [OF Cons.prems(1), of op] Cons.prems(2) by auto
  with Cons.IH [of t'] Cons.prems(2) show ?case by simp
qed simp

end

end
