(* ===== verification/Tables.thy ===== *)
theory Tables
  imports Jsw_hlib Hash
begin

text \<open>
  \<open>libnvcore/src/ftable.c\<close> and \<open>nvswitch/src/ctable.c\<close>: the forwarding table of a virtual
  network, keyed by MAC address, and the connection table, keyed by node uuid.  A key is the
  list of bytes from its pointer on; reading past its end is the fault \<^const>\<open>None\<close>.  Both
  tables satisfy the interface \<open>hash_keys\<close>, so both are finite maps.
\<close>

section \<open>Memory comparison and copying\<close>

fun memcmp_loop :: "u8 list \<Rightarrow> u8 list \<Rightarrow> nat \<Rightarrow> int" where
  "memcmp_loop (a # as) (b # bs) (Suc n) =
     (if a = b then memcmp_loop as bs n else if a < b then - 1 else 1)"
| "memcmp_loop as bs n = 0"

definition memcmp :: "u8 list \<Rightarrow> u8 list \<Rightarrow> nat \<Rightarrow> int option" where
  "memcmp a b n = (if n \<le> length a \<and> n \<le> length b then Some (memcmp_loop a b n) else None)"

definition memcpy :: "u8 list \<Rightarrow> nat \<Rightarrow> u8 list option" where
  "memcpy src n = (if n \<le> length src then Some (take n src) else None)"

lemma memcmp_loop_eq: "n \<le> length a \<Longrightarrow> n \<le> length b \<Longrightarrow> memcmp_loop a b n = 0 \<longleftrightarrow> take n a = take n b"
  by (induction a b n rule: memcmp_loop.induct) auto

section \<open>Forwarding table\<close>

abbreviation (input) ETHER_ADDR_LEN :: nat where "ETHER_ADDR_LEN \<equiv> 6"

definition ftable_hash :: "u8 list \<Rightarrow> u32 option" where
  "ftable_hash mac = do {
     a \<leftarrow> memcpy mac ETHER_ADDR_LEN;
     b \<leftarrow> memcpy mac 2;
     hashword (words_at (a @ b) 2) 2 0 }"

definition ftable_cmp :: "u8 list \<Rightarrow> u8 list \<Rightarrow> int option" where
  "ftable_cmp a b = memcmp a b ETHER_ADDR_LEN"

definition ftable_keydup :: "u8 list \<Rightarrow> u8 list option" where
  "ftable_keydup key = memcpy key ETHER_ADDR_LEN"

definition ftable_new :: "nat \<Rightarrow> ('v option \<Rightarrow> 'v option) \<Rightarrow> (u8 list, 'v) jsw_hash option" where
  "ftable_new sz idup = jsw_hnew True sz ftable_hash ftable_cmp ftable_keydup idup"

definition ftable_delete :: "(u8 list, 'v) jsw_hash \<Rightarrow> (u8 list, 'v) jnode list option" where
  "ftable_delete ftable = jsw_hdelete ftable"

definition ftable_find :: "(u8 list, 'v) jsw_hash \<Rightarrow> u8 list \<Rightarrow> 'v option option" where
  "ftable_find ftable mac = jsw_hfind ftable mac"

definition ftable_insert ::
  "(u8 list, 'v) jsw_hash \<Rightarrow> u8 list \<Rightarrow> 'v option \<Rightarrow> (int \<times> (u8 list, 'v) jsw_hash) option" where
  "ftable_insert ftable mac item = jsw_hinsert True True ftable mac item"

definition ftable_erase ::
  "(u8 list, 'v) jsw_hash \<Rightarrow> u8 list \<Rightarrow> (int \<times> (u8 list, 'v) jnode list \<times> (u8 list, 'v) jsw_hash) option" where
  "ftable_erase ftable mac = jsw_herase ftable mac"

section \<open>Connection table\<close>

abbreviation (input) UUID_STR_LEN :: nat where "UUID_STR_LEN \<equiv> 36"

definition ctable_hash :: "u8 list \<Rightarrow> u32 option" where
  "ctable_hash uuid = hashword (words_at uuid 8) 8 0"

definition ctable_cmp :: "u8 list \<Rightarrow> u8 list \<Rightarrow> int option" where
  "ctable_cmp uuid_a uuid_b = memcmp uuid_a uuid_b UUID_STR_LEN"

definition ctable_keydup :: "u8 list \<Rightarrow> u8 list option" where
  "ctable_keydup uuid = memcpy uuid (UUID_STR_LEN + 1)"

definition ctable_new :: "nat \<Rightarrow> ('v option \<Rightarrow> 'v option) \<Rightarrow> (u8 list, 'v) jsw_hash option" where
  "ctable_new sz idup = jsw_hnew True sz ctable_hash ctable_cmp ctable_keydup idup"

text \<open>The table pointer may be null.\<close>

definition ctable_delete :: "(u8 list, 'v) jsw_hash option \<Rightarrow> (u8 list, 'v) jnode list option" where
  "ctable_delete ctable = (case ctable of None \<Rightarrow> Some [] | Some t \<Rightarrow> jsw_hdelete t)"

definition ctable_find :: "(u8 list, 'v) jsw_hash option \<Rightarrow> u8 list \<Rightarrow> 'v option option" where
  "ctable_find ctable uuid = (case ctable of None \<Rightarrow> Some None | Some t \<Rightarrow> jsw_hfind t uuid)"

definition ctable_insert ::
  "(u8 list, 'v) jsw_hash option \<Rightarrow> u8 list \<Rightarrow> 'v option \<Rightarrow> (int \<times> (u8 list, 'v) jsw_hash option) option" where
  "ctable_insert ctable uuid session =
     (case ctable of
        None \<Rightarrow> Some (- 1, None)
      | Some t \<Rightarrow> do { (r, t') \<leftarrow> jsw_hinsert True True t uuid session; Some (r, Some t') })"

definition ctable_erase ::
  "(u8 list, 'v) jsw_hash option \<Rightarrow> u8 list
   \<Rightarrow> (int \<times> (u8 list, 'v) jnode list \<times> (u8 list, 'v) jsw_hash option) option" where
  "ctable_erase ctable uuid =
     (case ctable of
        None \<Rightarrow> Some (- 1, [], None)
      | Some t \<Rightarrow> do { (r, gone, t') \<leftarrow> jsw_herase t uuid; Some (r, gone, Some t') })"

section \<open>The key functions meet the interface\<close>

lemma words_at_take: "4 * n \<le> m \<Longrightarrow> words_at (take m bs) n = words_at bs n"
proof -
  assume m: "4 * n \<le> m"
  then have "min n (length (take m bs) div 4) = min n (length bs div 4)" by (simp add: min_def) linarith
  then show ?thesis using m by (auto simp: words_at_def intro!: map_cong)
qed

lemma words_at_length: "4 * n \<le> length bs \<Longrightarrow> length (words_at bs n) = n"
  by (simp add: words_at_def min_def)

lemma hashword_some: "n \<le> length k \<Longrightarrow> hashword k n iv = Some (the (hashword k n iv))"
  using hashword_total [of n k iv] by auto

definition mac_value :: "u8 list \<Rightarrow> u8 list" where
  "mac_value mac = take 6 mac"

definition mac_hash :: "u8 list \<Rightarrow> u32" where
  "mac_hash mac = the (hashword (words_at (mac @ take 2 mac) 2) 2 0)"

interpretation ft: hash_keys ftable_hash ftable_cmp ftable_keydup "\<lambda>mac. 6 \<le> length mac" mac_value mac_hash
proof
  fix k k' :: "u8 list"
  assume k: "6 \<le> length k"
  show "ftable_hash k = Some (mac_hash (mac_value k))"
    using k hashword_some [of 2 "words_at (take 6 k @ take 2 k) 2" 0]
    by (simp add: ftable_hash_def mac_hash_def mac_value_def memcpy_def words_at_length)
  show "\<exists>k'. ftable_keydup k = Some k' \<and> 6 \<le> length k' \<and> mac_value k' = mac_value k"
    using k by (simp add: ftable_keydup_def memcpy_def mac_value_def)
  assume "6 \<le> length k'"
  with k show "\<exists>r. ftable_cmp k k' = Some r \<and> (r = 0 \<longleftrightarrow> mac_value k = mac_value k')"
    by (simp add: ftable_cmp_def memcmp_def memcmp_loop_eq mac_value_def)
qed

definition uuid_value :: "u8 list \<Rightarrow> u8 list" where
  "uuid_value uuid = take 36 uuid"

definition uuid_hash :: "u8 list \<Rightarrow> u32" where
  "uuid_hash uuid = the (hashword (words_at uuid 8) 8 0)"

interpretation ct: hash_keys ctable_hash ctable_cmp ctable_keydup "\<lambda>uuid. 37 \<le> length uuid" uuid_value uuid_hash
proof
  fix k k' :: "u8 list"
  assume k: "37 \<le> length k"
  show "ctable_hash k = Some (uuid_hash (uuid_value k))"
    using k hashword_some [of 8 "words_at k 8" 0]
    by (simp add: ctable_hash_def uuid_hash_def uuid_value_def words_at_length words_at_take)
  show "\<exists>k'. ctable_keydup k = Some k' \<and> 37 \<le> length k' \<and> uuid_value k' = uuid_value k"
    using k by (simp add: ctable_keydup_def memcpy_def uuid_value_def)
  assume "37 \<le> length k'"
  with k show "\<exists>r. ctable_cmp k k' = Some r \<and> (r = 0 \<longleftrightarrow> uuid_value k = uuid_value k')"
    by (simp add: ctable_cmp_def memcmp_def memcmp_loop_eq uuid_value_def)
qed


section \<open>Clients of the tables\<close>

fun ft_step :: "(u8 list, 'v) jsw_hash \<Rightarrow> (u8 list, 'v) tab_op \<Rightarrow> ('v tab_out \<times> (u8 list, 'v) jsw_hash) option" where
  "ft_step t (Find k) = do { v \<leftarrow> ftable_find t k; Some (Found v, t) }"
| "ft_step t (Insert k v) = do { (r, t') \<leftarrow> ftable_insert t k (Some v); Some (Ret r, t') }"
| "ft_step t (Erase k) = do { (r, _, t') \<leftarrow> ftable_erase t k; Some (Ret r, t') }"

fun ft_run :: "(u8 list, 'v) jsw_hash \<Rightarrow> (u8 list, 'v) tab_op list \<Rightarrow> 'v tab_out list option" where
  "ft_run t [] = Some []"
| "ft_run t (op # ops) = do {
     (out, t') \<leftarrow> ft_step t op;
     outs \<leftarrow> ft_run t' ops;
     Some (out # outs) }"

fun ct_step :: "(u8 list, 'v) jsw_hash option \<Rightarrow> (u8 list, 'v) tab_op
   \<Rightarrow> ('v tab_out \<times> (u8 list, 'v) jsw_hash option) option" where
  "ct_step t (Find k) = do { v \<leftarrow> ctable_find t k; Some (Found v, t) }"
| "ct_step t (Insert k v) = do { (r, t') \<leftarrow> ctable_insert t k (Some v); Some (Ret r, t') }"
| "ct_step t (Erase k) = do { (r, _, t') \<leftarrow> ctable_erase t k; Some (Ret r, t') }"

fun ct_run :: "(u8 list, 'v) jsw_hash option \<Rightarrow> (u8 list, 'v) tab_op list \<Rightarrow> 'v tab_out list option" where
  "ct_run t [] = Some []"
| "ct_run t (op # ops) = do {
     (out, t') \<leftarrow> ct_step t op;
     outs \<leftarrow> ct_run t' ops;
     Some (out # outs) }"

lemma ft_run_eq: "ft_run t ops = tab_run t ops"
proof (induction ops arbitrary: t)
  case (Cons op ops)
  have "ft_step t op = tab_step t op"
    by (cases op) (simp_all add: ftable_find_def ftable_insert_def ftable_erase_def)
  with Cons show ?case by simp
qed simp

lemma ct_run_eq: "ct_run (Some t) ops = tab_run t ops"
proof (induction ops arbitrary: t)
  case (Cons op ops)
  have "ct_step (Some t) op = map_option (\<lambda>(out, t'). (out, Some t')) (tab_step t op)"
    by (cases op) (auto simp: ctable_find_def ctable_insert_def ctable_erase_def map_option_bind comp_def
        split: Option.bind_splits prod.splits)
  with Cons show ?case
    by (cases "tab_step t op") (auto split: prod.splits)
qed simp

text \<open>C37. The forwarding table is a finite map from MAC addresses: for every sequence of
  \<open>ftable_find\<close>, \<open>ftable_insert\<close> and \<open>ftable_erase\<close> calls on a new table, with pointers to at
  least six readable bytes and non-null items, no call faults and each returns what the map
  keyed by the first six bytes says: the item last inserted and not erased since, 0 for the
  insertion of a key that is present and for the erasure of one that is not, 1 otherwise.\<close>

theorem ftable_refines_map:
  assumes "0 < n" and "\<forall>op\<in>set ops. 6 \<le> length (op_key op)"
  shows "\<exists>t. ftable_new n (\<lambda>item. item) = Some t
    \<and> ft_run t ops = Some (map_run (take 6) Map.empty ops)"
proof -
  obtain t :: "(u8 list, 'a) jsw_hash" where "ftable_new n (\<lambda>item. item) = Some t" "ft.invar t" "ft.absm t = Map.empty"
    using ft.hnew_ok [OF assms(1), of "\<lambda>item. item"] by (auto simp: ftable_new_def)
  with ft.run_refines [of t ops] assms(2) show ?thesis
    by (simp add: ft_run_eq mac_value_def [abs_def])
qed

theorem ftable_refines_map_witness:
  "\<exists>t. ftable_new 3 (\<lambda>item. item) = Some t \<and>
     ft_run t [Insert [1, 2, 3, 4, 5, 6] (10::nat), Insert [1, 2, 3, 4, 5, 6, 7] 11,
               Find [1, 2, 3, 4, 5, 6, 9], Erase [1, 2, 3, 4, 5, 6], Find [1, 2, 3, 4, 5, 6]]
       = Some [Ret 1, Ret 0, Found (Some 10), Ret 1, Found None]"
  using ftable_refines_map [of 3 "[Insert [1, 2, 3, 4, 5, 6] (10::nat), Insert [1, 2, 3, 4, 5, 6, 7] 11,
     Find [1, 2, 3, 4, 5, 6, 9], Erase [1, 2, 3, 4, 5, 6], Find [1, 2, 3, 4, 5, 6]]"] by simp

text \<open>C36. The connection table is a finite map from uuids: for every sequence of calls on a new
  table, with pointers to at least 37 readable bytes (36 characters and the terminator) and
  non-null items, no call faults and each returns what the map keyed by the first 36 bytes
  says.\<close>

theorem ctable_refines_map:
  assumes "0 < n" and "\<forall>op\<in>set ops. 37 \<le> length (op_key op)"
  shows "\<exists>t. ctable_new n (\<lambda>item. item) = Some t
    \<and> ct_run (Some t) ops = Some (map_run (take 36) Map.empty ops)"
proof -
  obtain t :: "(u8 list, 'a) jsw_hash" where "ctable_new n (\<lambda>item. item) = Some t" "ct.invar t" "ct.absm t = Map.empty"
    using ct.hnew_ok [OF assms(1), of "\<lambda>item. item"] by (auto simp: ctable_new_def)
  with ct.run_refines [of t ops] assms(2) show ?thesis
    by (simp add: ct_run_eq uuid_value_def [abs_def])
qed

theorem ctable_refines_map_witness:
  "\<exists>t. ctable_new 100 (\<lambda>item. item) = Some t \<and>
     ct_run (Some t) [Insert (replicate 37 65) (1::nat), Find (replicate 37 65), Erase (replicate 37 66)]
       = Some [Ret 1, Found (Some 1), Ret 0]"
proof -
  have "take 36 (replicate 37 65) \<noteq> take 36 (replicate 37 (66::u8))"
    by (simp add: numeral_eq_Suc)
  then show ?thesis
    using ctable_refines_map [of 100 "[Insert (replicate 37 65) (1::nat), Find (replicate 37 65), Erase (replicate 37 66)]"]
    by simp
qed

text \<open>A traversal with \<open>jsw_hreset\<close> and \<open>jsw_hnext\<close> until the latter returns 0 visits every
  entry of a non-empty connection table exactly once: the keys met are pairwise different
  and the pairs met are those of the map.\<close>

theorem ctable_traversal_complete:
  assumes t: "ct.invar t" and ne: "ct.absm t \<noteq> Map.empty" and m: "card (dom (ct.absm t)) \<le> m"
  shows "\<exists>t0 l. jsw_hreset t = Some t0 \<and> traverse m t0 = Some (map (\<lambda>(k, v). (Some k, Some v)) l)
    \<and> distinct (map (\<lambda>(k, v). uuid_value k) l) \<and> map_of (map (\<lambda>(k, v). (uuid_value k, v)) l) = ct.absm t"
proof -
  have a: "ct.absm t = ct.cmap (jnodes t)" by (rule ct.absm_jnodes [OF t])
  have len: "card (dom (ct.absm t)) = length (jnodes t)"
    using distinct_card [OF ct.distinct_keys_jnodes [OF t]] by (simp add: a ct.dom_cmap) (simp add: ct.keys_def)
  have "jnodes t \<noteq> []" using ne a by auto
  then obtain t0 where t0: "jsw_hreset t = Some t0" "traverse m t0 = Some (map (\<lambda>n. (Some (fst n), snd n)) (jnodes t))"
    using ct.reset_traverse [OF t] m len by auto
  let ?l = "map (\<lambda>n. (fst n, the (snd n))) (jnodes t)"
  have "snd n = Some (the (snd n))" if "n \<in> set (jnodes t)" for n
  proof -
    have "snd n \<noteq> None" using that t by (auto simp: ct.set_jnodes ct.invar_def ct.good_chain_def)
    then show ?thesis by simp
  qed
  then have "map (\<lambda>n. (Some (fst n), snd n)) (jnodes t) = map (\<lambda>(k, v). (Some k, Some v)) ?l"
    unfolding map_map by (intro map_cong) (simp_all add: comp_def)
  moreover have "distinct (map (\<lambda>(k, v). uuid_value k) ?l)"
    using ct.distinct_keys_jnodes [OF t] by (simp add: ct.keys_def comp_def)
  moreover have "map_of (map (\<lambda>(k, v). (uuid_value k, v)) ?l) = ct.absm t"
    by (simp add: a ct.cmap_def comp_def)
  ultimately show ?thesis
    using t0 by (intro exI [of _ t0] exI [of _ ?l] conjI) (simp_all only:)
qed

lemma demo_ctable:
  "\<exists>t. ct.invar t \<and> ct.absm t = [replicate 36 65 \<mapsto> (1::nat)]"
proof -
  obtain t :: "(u8 list, nat) jsw_hash" where t: "ct.invar t" "ct.absm t = Map.empty"
    using ct.hnew_ok [of 7 "\<lambda>x. x"] by auto
  have "ct.absm t (uuid_value (replicate 37 65)) = None" by (simp add: t(2))
  then show ?thesis
    using ct.hinsert_ok [OF t(1), of "replicate 37 65" 1] t(2)
    by (auto simp: uuid_value_def)
qed

theorem ctable_traversal_complete_witness:
  "\<exists>(t :: (u8 list, nat) jsw_hash) t0 k. jsw_hreset t = Some t0 \<and> traverse 5 t0 = Some [(Some k, Some (1::nat))]"
proof -
  obtain t where t: "ct.invar t" "ct.absm t = [replicate 36 65 \<mapsto> (1::nat)]" using demo_ctable by blast
  have m: "card (dom (ct.absm t)) \<le> 5" and ne: "ct.absm t \<noteq> Map.empty" by (simp_all add: t(2))
  obtain t0 l where l: "jsw_hreset t = Some t0" "traverse 5 t0 = Some (map (\<lambda>(k, v). (Some k, Some v)) l)"
    "distinct (map (\<lambda>(k, v). uuid_value k) l)" "map_of (map (\<lambda>(k, v). (uuid_value k, v)) l) = [replicate 36 65 \<mapsto> 1]"
    using ctable_traversal_complete [OF t(1) ne m] t(2) by auto
  then have "dom (map_of (map (\<lambda>(k, v). (uuid_value k, v)) l)) = {replicate 36 65}" by simp
  then have "set (map (\<lambda>(k, v). uuid_value k) l) = {replicate 36 65}"
    by (simp add: dom_map_of_conv_image_fst image_image case_prod_unfold)
  then have "length l = 1" using distinct_card [OF l(3)] by simp
  then obtain k v where kv: "l = [(k, v)]" by (auto simp: length_Suc_conv)
  then have "v = 1" using l(4) by (auto simp: fun_eq_iff split: if_splits)
  then have "traverse 5 t0 = Some [(Some k, Some 1)]" using l(2) kv by simp
  with l(1) show ?thesis by blast
qed

text \<open>Resizing a table builds a table of the new capacity with the same map and releases
  every key and item of the old one once, but it assigns the new table to its own parameter
  only: on success the pointer the caller keeps designates freed memory, and nothing
  designates the new table.\<close>

theorem jsw_hresize_dangles:
  assumes "ct.invar t" "0 < n"
  shows "\<exists>new. jsw_hresize True t n = Some (1, None, Some new, jnodes t) \<and> ct.invar new
    \<and> capacity new = n \<and> ct.absm new = ct.absm t \<and> jsw_hdelete t = Some (jnodes t)"
  using ct.hresize_ok [OF assms] hdelete_nodes [of t] assms(1) by (auto simp: ct.invar_def)

theorem jsw_hresize_dangles_witness:
  "\<exists>(t :: (u8 list, nat) jsw_hash) new. jsw_hresize True t 50 = Some (1, None, Some new, jnodes t) \<and> capacity new = 50
     \<and> ct.absm new = [replicate 36 65 \<mapsto> 1]"
proof -
  obtain t where t: "ct.invar t" "ct.absm t = [replicate 36 65 \<mapsto> (1::nat)]" using demo_ctable by blast
  have "(0::nat) < 50" by simp
  from jsw_hresize_dangles [OF t(1) this] t(2) show ?thesis by metis
qed

end
