(* ===== verification/Inet.thy ===== *)
theory Inet
  imports Tables
begin

text \<open>
  \<open>nvswitch/src/inet.c\<close>: reading the fields of an Ethernet frame.  A frame is the list of its
  bytes; the offsets are those of \<open>struct ether_header\<close> (destination, source, type) and
  \<open>struct ip\<close> on the little-endian target.
\<close>

section \<open>The code\<close>

definition mac_addr_broadcast :: "u8 list" where
  "mac_addr_broadcast = [0xff, 0xff, 0xff, 0xff, 0xff, 0xff]"

definition mac_addr_multicast :: "u8 list" where
  "mac_addr_multicast = [0x01, 0x00, 0x5e, 0x0, 0x0, 0x0]"

definition mac_addr_empty :: "u8 list" where
  "mac_addr_empty = [0, 0, 0, 0, 0, 0]"

abbreviation (input) ADDR_UNICAST :: int where "ADDR_UNICAST \<equiv> 1"
abbreviation (input) ADDR_BROADCAST :: int where "ADDR_BROADCAST \<equiv> 2"
abbreviation (input) ADDR_MULTICAST :: int where "ADDR_MULTICAST \<equiv> 4"

definition inet_get_mac_addr_type :: "u8 list \<Rightarrow> int option" where
  "inet_get_mac_addr_type mac_addr = do {
     r \<leftarrow> memcmp mac_addr mac_addr_broadcast ETHER_ADDR_LEN;
     if r = 0 then Some ADDR_BROADCAST
     else do {
       r \<leftarrow> memcmp mac_addr mac_addr_multicast 3;
       Some (if r = 0 then ADDR_MULTICAST else ADDR_UNICAST) } }"

definition inet_get_mac_addr_dst :: "u8 list \<Rightarrow> u8 list option" where
  "inet_get_mac_addr_dst data = memcpy data ETHER_ADDR_LEN"

definition inet_get_mac_addr_src :: "u8 list \<Rightarrow> u8 list option" where
  "inet_get_mac_addr_src data = memcpy (drop 6 data) ETHER_ADDR_LEN"

text \<open>A 16-bit field, stored low byte first, and the byte swaps of the C library.\<close>

definition read_u16 :: "u8 list \<Rightarrow> nat \<Rightarrow> u16 option" where
  "read_u16 data i = do {
     b0 \<leftarrow> fetch data i;
     b1 \<leftarrow> fetch data (i + 1);
     Some (ucast b0 OR push_bit 8 (ucast b1)) }"

definition htons :: "u16 \<Rightarrow> u16" where
  "htons x = push_bit 8 x OR drop_bit 8 x"

text \<open>\<open>ntohl(iph->ip_len)\<close>: the 16-bit field is widened to 32 bits, swapped, and truncated by the
  \<open>uint16_t\<close> result.\<close>

definition inet_get_iphdr_len :: "u8 list \<Rightarrow> u16 option" where
  "inet_get_iphdr_len data = do {
     len \<leftarrow> read_u16 data (14 + 2);
     Some (ucast (ntohl (ucast len))) }"

definition inet_is_ipv4 :: "u8 list \<Rightarrow> int option" where
  "inet_is_ipv4 data = do {
     ty \<leftarrow> read_u16 data 12;
     Some (if htons ty = 0x800 then 1 else 0) }"

text \<open>The destination address of the packet is written to \<open>ip\<close> without a terminator; the
  result is its length and the buffer, or -1 as a \<open>size_t\<close>.\<close>

definition inet_get_ipv4 :: "u8 list \<Rightarrow> string \<Rightarrow> (u64 \<times> string) option" where
  "inet_get_ipv4 data ip = do {
     r \<leftarrow> inet_is_ipv4 data;
     if r \<noteq> 0 then do {
       b0 \<leftarrow> fetch data (14 + 16);
       b1 \<leftarrow> fetch data (14 + 17);
       b2 \<leftarrow> fetch data (14 + 18);
       b3 \<leftarrow> fetch data (14 + 19);
       let s = inet_ntoa (word_of_bytes b0 b1 b2 b3);
       if length s \<le> length ip then Some (of_nat (length s), s @ drop (length s) ip) else None }
     else Some (- 1, ip) }"

definition inet_is_ipv6 :: "u8 list \<Rightarrow> int option" where
  "inet_is_ipv6 data = do {
     ty \<leftarrow> read_u16 data 12;
     Some (if htons ty = 0x86DD then 1 else 0) }"

section \<open>Properties\<close>

lemma memcmp_eq_0: "n \<le> length a \<Longrightarrow> n \<le> length b \<Longrightarrow> \<exists>r. memcmp a b n = Some r \<and> (r = 0 \<longleftrightarrow> take n a = take n b)"
  by (simp add: memcmp_def memcmp_loop_eq)

text \<open>The address class: broadcast is all ones, multicast is the prefix 01:00:5e alone, and
  every other address is unicast, group addresses (odd first byte) of other protocols
  included.\<close>

theorem inet_mac_class:
  assumes "6 \<le> length mac"
  shows "inet_get_mac_addr_type mac = Some
    (if take 6 mac = [0xff, 0xff, 0xff, 0xff, 0xff, 0xff] then ADDR_BROADCAST
     else if take 3 mac = [0x01, 0x00, 0x5e] then ADDR_MULTICAST else ADDR_UNICAST)"
proof -
  obtain r where r: "memcmp mac mac_addr_broadcast 6 = Some r"
    "r = 0 \<longleftrightarrow> take 6 mac = take 6 mac_addr_broadcast"
    using memcmp_eq_0 [of 6 mac mac_addr_broadcast] assms by (auto simp: mac_addr_broadcast_def)
  obtain q where q: "memcmp mac mac_addr_multicast 3 = Some q"
    "q = 0 \<longleftrightarrow> take 3 mac = take 3 mac_addr_multicast"
    using memcmp_eq_0 [of 3 mac mac_addr_multicast] assms by (auto simp: mac_addr_multicast_def)
  have "take 6 mac_addr_broadcast = [0xff, 0xff, 0xff, 0xff, 0xff, 0xff]" "take 3 mac_addr_multicast = [0x01, 0x00, 0x5e]"
    by (simp_all add: mac_addr_broadcast_def mac_addr_multicast_def)
  with r q show ?thesis by (simp add: inet_get_mac_addr_type_def)
qed

theorem inet_mac_class_witness:
  "inet_get_mac_addr_type [0x33, 0x33, 0, 0, 0, 1] = Some ADDR_UNICAST"
  using inet_mac_class [of "[0x33, 0x33, 0, 0, 0, 1]"] by simp

text \<open>\<open>inet_get_iphdr_len\<close> swaps a 16-bit field with the 32-bit \<open>ntohl\<close> and keeps the low half:
  whatever the packet says, the length it returns is 0.\<close>

theorem inet_get_iphdr_len_zero:
  assumes "18 \<le> length data"
  shows "inet_get_iphdr_len data = Some 0"
proof -
  have hi: "byte_of 2 (ucast (w::u16)) = 0" "byte_of 3 (ucast w) = 0" for w
    by (rule bit_word_eqI, use bit_imp_le_length [of w] in \<open>fastforce simp: byte_of_def bit_simps\<close>)+
  have "ucast (ntohl (ucast w)) = (0::u16)" for w :: u16
    unfolding bswap32_def hi by (rule bit_word_eqI) (simp add: word_of_bytes_def bit_simps)
  then show ?thesis using assms by (simp add: inet_get_iphdr_len_def read_u16_def)
qed

theorem inet_get_iphdr_len_zero_witness:
  "inet_get_iphdr_len (replicate 34 0x45) = Some 0"
  using inet_get_iphdr_len_zero [of "replicate 34 0x45"] by simp

end
