(* ===== verification/Link_State.thy ===== *)
theory Link_State
  imports Prelude
begin

text \<open>
  The contract of a link state: a bounded set of nodes, numbered from 1, with a symmetric
  relation that grows by \<open>join\<close> and loses a node by \<open>disjoin\<close>.  The abstract specification is
  the relation itself; \<open>Linkst\<close> provides the contract, the switch relies on it when it
  decides which pairs of agents it has still to introduce.
\<close>

section \<open>Specification\<close>

datatype link_op = Join u32 u32 int | Disjoin u32

fun link_spec :: "u32 \<Rightarrow> link_op \<Rightarrow> (u32 \<times> u32) set \<Rightarrow> (u32 \<times> u32) set" where
  "link_spec limit (Join a b now) R =
     (if 1 \<le> a \<and> a \<le> limit \<and> 1 \<le> b \<and> b \<le> limit then R \<union> {(a, b), (b, a)} else R)"
| "link_spec limit (Disjoin i) R = {(a, b) \<in> R. a \<noteq> i \<and> b \<noteq> i}"

lemma link_spec_sym: "sym R \<Longrightarrow> sym (link_spec limit op R)"
  by (cases "(limit, op, R)" rule: link_spec.cases) (auto simp: sym_def)

section \<open>Interface\<close>

locale link_state =
  fixes join :: "'s \<Rightarrow> u32 \<Rightarrow> u32 \<Rightarrow> int \<Rightarrow> 's option"
    and disjoin :: "'s \<Rightarrow> u32 \<Rightarrow> 's option"
    and rel :: "'s \<Rightarrow> (u32 \<times> u32) set"
    and limit :: "'s \<Rightarrow> u32"
    and invar :: "'s \<Rightarrow> bool"
  assumes join_law: "invar s \<Longrightarrow>
      \<exists>s'. join s a b now = Some s' \<and> invar s' \<and> limit s' = limit s
        \<and> rel s' = link_spec (limit s) (Join a b now) (rel s)"
    and disjoin_law: "invar s \<Longrightarrow>
      \<exists>s'. disjoin s i = Some s' \<and> invar s' \<and> limit s' = limit s
        \<and> rel s' = link_spec (limit s) (Disjoin i) (rel s)"
begin

fun step :: "link_op \<Rightarrow> 's \<Rightarrow> 's option" where
  "step (Join a b now) s = join s a b now"
| "step (Disjoin i) s = disjoin s i"

fun run :: "link_op list \<Rightarrow> 's \<Rightarrow> 's option" where
  "run [] s = Some s"
| "run (op # ops) s = do { s' \<leftarrow> step op s; run ops s' }"

lemma step_simulates:
  "invar s \<Longrightarrow> \<exists>s'. step op s = Some s' \<and> invar s' \<and> limit s' = limit s
    \<and> rel s' = link_spec (limit s) op (rel s)"
  by (cases op) (simp_all only: step.simps join_law disjoin_law)

lemma run_simulates:
  "invar s \<Longrightarrow> \<exists>s'. run ops s = Some s' \<and> invar s' \<and> limit s' = limit s
    \<and> rel s' = fold (link_spec (limit s)) ops (rel s)"
proof (induction ops arbitrary: s)
  case (Cons op ops)
  obtain s1 where s1: "step op s = Some s1" "invar s1" "limit s1 = limit s"
    "rel s1 = link_spec (limit s) op (rel s)"
    using step_simulates [OF Cons.prems] by blast
  with Cons.IH [OF s1(2)] show ?case by auto
qed simp

end

end
