(* ===== verification/Linkst.thy ===== *)
theory Linkst
  imports Link_State
begin

text \<open>
  \<open>nvswitch/src/linkst.c\<close>: which nodes of a virtual network have been introduced to each
  other.  The state is the lower triangle of an adjacency matrix, grown on demand up to a
  limit; row \<open>i\<close> has \<open>i + 1\<close> cells.  All sizes are 32-bit words, as in the code.  The link
  state that a client sees is the symmetric relation \<open>links\<close>; the lemmas show that the
  operations never leave the matrix and act on that relation as their names say.
\<close>

section \<open>The code\<close>

record linkinfo =
  linked :: u8
  timestamp :: int

record linkst =
  adjacency_matrix :: "linkinfo list list"
  matrix_size :: u32
  upper_limit :: u32
  timeout_sec :: u16

definition zero_link :: linkinfo where
  "zero_link = \<lparr>linked = 0, timestamp = 0\<rparr>"

text \<open>\<open>realloc\<close> keeps the rows that fit; the loop then allocates every new row with
  \<open>calloc\<close>.  All the sums wrap at 32 bits.\<close>

definition linkst_resize :: "linkst \<Rightarrow> u32 \<Rightarrow> linkst" where
  "linkst_resize l resize_size =
     (let resize_size =
            (if matrix_size l + resize_size + 5 < upper_limit l then resize_size + 5
             else upper_limit l - matrix_size l);
          newsize = unat (matrix_size l + resize_size);
          rows = take newsize (adjacency_matrix l)
                 @ map (\<lambda>i. replicate (i + 1) zero_link) [unat (matrix_size l) ..< newsize]
      in l\<lparr>adjacency_matrix := rows, matrix_size := matrix_size l + resize_size\<rparr>)"

text \<open>A cell of the matrix, read and written at \<open>[x - 1][y - 1]\<close>.\<close>

definition get_cell :: "linkinfo list list \<Rightarrow> u32 \<Rightarrow> u32 \<Rightarrow> linkinfo option" where
  "get_cell m x y = do { row \<leftarrow> fetch m (unat (x - 1)); fetch row (unat (y - 1)) }"

definition set_cell ::
  "linkinfo list list \<Rightarrow> u32 \<Rightarrow> u32 \<Rightarrow> linkinfo \<Rightarrow> linkinfo list list option" where
  "set_cell m x y c = do {
     row \<leftarrow> fetch m (unat (x - 1));
     row' \<leftarrow> store row (unat (y - 1)) c;
     store m (unat (x - 1)) row' }"

text \<open>The loop of \<open>linkst_disjoin\<close>; its counter is a 32-bit word, and a loop that never ends
  is \<^const>\<open>None\<close>.\<close>

partial_function (option) disjoin_loop ::
  "linkinfo list list \<Rightarrow> u32 \<Rightarrow> u32 \<Rightarrow> u32 \<Rightarrow> linkinfo list list option" where
  "disjoin_loop m msize idx i =
     (if i \<le> msize then do {
        let (x, y) = (if idx > i then (idx, i) else (i, idx));
        c \<leftarrow> get_cell m x y;
        m' \<leftarrow> (if linked c = 1 then set_cell m x y (c\<lparr>linked := 0, timestamp := 0\<rparr>) else Some m);
        disjoin_loop m' msize idx (i + 1) }
      else Some m)"

definition linkst_disjoin :: "linkst option \<Rightarrow> u32 \<Rightarrow> (int \<times> linkst option) option" where
  "linkst_disjoin linkst idx =
     (case linkst of
        None \<Rightarrow> Some (- 1, None)
      | Some l \<Rightarrow>
          if idx < 1 \<or> idx > matrix_size l then Some (- 1, Some l)
          else do {
            m \<leftarrow> disjoin_loop (adjacency_matrix l) (matrix_size l) idx 1;
            Some (0, Some (l\<lparr>adjacency_matrix := m\<rparr>)) })"

definition linkst_joined :: "linkst option \<Rightarrow> u32 \<Rightarrow> u32 \<Rightarrow> int option" where
  "linkst_joined linkst idx_a idx_b =
     (case linkst of
        None \<Rightarrow> Some (- 1)
      | Some l \<Rightarrow>
          if idx_a < 1 \<or> idx_a > matrix_size l \<or> idx_b < 1 \<or> idx_b > matrix_size l
          then Some (- 1)
          else do {
            let (x, y) = (if idx_a > idx_b then (idx_a, idx_b) else (idx_b, idx_a));
            c \<leftarrow> get_cell (adjacency_matrix l) x y;
            Some (if linked c = 1 then 1 else 0) })"

text \<open>The last argument is what \<open>time()\<close> returns.\<close>

definition linkst_join :: "linkst option \<Rightarrow> u32 \<Rightarrow> u32 \<Rightarrow> int \<Rightarrow> (int \<times> linkst option) option" where
  "linkst_join linkst idx_a idx_b now =
     (case linkst of
        None \<Rightarrow> Some (- 1, None)
      | Some l \<Rightarrow>
          if idx_a < 1 \<or> idx_a > upper_limit l \<or> idx_b < 1 \<or> idx_b > upper_limit l
          then Some (- 1, Some l)
          else do {
            let (x, y) = (if idx_a > idx_b then (idx_a, idx_b) else (idx_b, idx_a));
            let l' = (if x \<ge> matrix_size l then linkst_resize l (x - matrix_size l) else l);
            m \<leftarrow> set_cell (adjacency_matrix l') x y \<lparr>linked = 1, timestamp = now\<rparr>;
            Some (0, Some (l'\<lparr>adjacency_matrix := m\<rparr>)) })"

text \<open>\<open>linkst_free\<close> releases row \<open>i - 1\<close> for \<open>i = 1 .. matrix_size\<close>; the result is the list of
  the rows it passes to \<open>free\<close>.\<close>

definition linkst_free :: "linkst option \<Rightarrow> linkinfo list list option" where
  "linkst_free linkst =
     (case linkst of
        None \<Rightarrow> Some []
      | Some l \<Rightarrow> those (map (\<lambda>i. fetch (adjacency_matrix l) (i - 1)) [1 ..< Suc (unat (matrix_size l))]))"

definition linkst_new :: "u32 \<Rightarrow> u16 \<Rightarrow> linkst" where
  "linkst_new upper timeout =
     \<lparr>adjacency_matrix = [], matrix_size = 0, upper_limit = upper, timeout_sec = timeout\<rparr>"


section \<open>The matrix\<close>

definition rows_ok :: "linkinfo list list \<Rightarrow> nat \<Rightarrow> bool" where
  "rows_ok m n \<longleftrightarrow> length m = n \<and> (\<forall>i<n. length (m ! i) = Suc i)"

text \<open>The cell of an unordered pair, one-based, and whether it says \<open>linked\<close>.\<close>

definition linked_at :: "linkinfo list list \<Rightarrow> u32 \<Rightarrow> u32 \<Rightarrow> bool" where
  "linked_at m a b \<longleftrightarrow>
     linked (m ! (unat (max a b) - 1) ! (unat (min a b) - 1)) = 1"

definition linkst_wf :: "linkst \<Rightarrow> bool" where
  "linkst_wf l \<longleftrightarrow> rows_ok (adjacency_matrix l) (unat (matrix_size l))
     \<and> matrix_size l \<le> upper_limit l \<and> unat (upper_limit l) + 5 < 2 ^ 32"

text \<open>What a client sees of the link state.\<close>

definition links :: "linkst \<Rightarrow> (u32 \<times> u32) set" where
  "links l = {(a, b). linkst_joined (Some l) a b = Some 1}"

lemma linked_at_commute: "linked_at m a b = linked_at m b a"
  by (simp add: linked_at_def max.commute min.commute)

lemma unat_dec: "1 \<le> (x::u32) \<Longrightarrow> unat (x - 1) = unat x - 1"
  by (simp add: unat_sub)

lemma one_le_unat: "1 \<le> (x::u32) \<longleftrightarrow> 1 \<le> unat x"
  by (simp add: word_le_nat_alt)

lemma one_le_word: "1 \<le> (x::u32) \<longleftrightarrow> x \<noteq> 0"
  by (simp add: one_le_unat word_unat_eq_iff Suc_le_eq)

lemma swap_max_min:
  "(if a > b then (a, b) else (b, a)) = (max a b, min a b)" for a b :: u32
  by (auto simp: max_def min_def)

lemma get_cell_ok:
  assumes "rows_ok m n" "1 \<le> y" "y \<le> x" "unat x \<le> n"
  shows "get_cell m x y = Some (m ! (unat x - 1) ! (unat y - 1))"
proof -
  from assms have "1 \<le> x" by order
  have "unat y \<le> unat x" "1 \<le> unat y" using assms by (auto simp: word_le_nat_alt)
  with assms \<open>1 \<le> x\<close> show ?thesis
    by (simp add: get_cell_def rows_ok_def unat_dec)
qed

definition upd_cell :: "linkinfo list list \<Rightarrow> u32 \<Rightarrow> u32 \<Rightarrow> linkinfo \<Rightarrow> linkinfo list list" where
  "upd_cell m x y c = m[unat x - 1 := (m ! (unat x - 1))[unat y - 1 := c]]"

lemma set_cell_ok:
  assumes "rows_ok m n" "1 \<le> y" "y \<le> x" "unat x \<le> n"
  shows "set_cell m x y c = Some (upd_cell m x y c)" and "rows_ok (upd_cell m x y c) n"
proof -
  from assms have "1 \<le> x" by order
  have "unat y \<le> unat x" "1 \<le> unat y" using assms by (auto simp: word_le_nat_alt)
  with assms \<open>1 \<le> x\<close> show "set_cell m x y c = Some (upd_cell m x y c)"
    by (simp add: set_cell_def upd_cell_def rows_ok_def unat_dec)
  show "rows_ok (upd_cell m x y c) n"
    using assms by (simp add: upd_cell_def rows_ok_def nth_list_update)
qed

lemma unat_pred_eq: "1 \<le> a \<Longrightarrow> 1 \<le> b \<Longrightarrow> unat a - 1 = unat b - 1 \<longleftrightarrow> a = b" for a b :: u32
  by (auto simp: one_le_unat word_unat_eq_iff)

lemma upd_cell_nth:
  assumes "rows_ok m n" "1 \<le> y" "y \<le> x" "unat x \<le> n" "1 \<le> b" "b \<le> a" "unat a \<le> n"
  shows "upd_cell m x y c ! (unat a - 1) ! (unat b - 1) =
    (if a = x \<and> b = y then c else m ! (unat a - 1) ! (unat b - 1))"
proof -
  have ge: "1 \<le> x" "1 \<le> a" using assms by order+
  have "unat y \<le> unat x" "unat b \<le> unat a" "1 \<le> unat y" "1 \<le> unat b"
    using assms by (auto simp: word_le_nat_alt)
  moreover have "unat x - 1 = unat a - 1 \<longleftrightarrow> x = a" "unat y - 1 = unat b - 1 \<longleftrightarrow> y = b"
    using assms ge by (simp_all only: unat_pred_eq)
  ultimately show ?thesis
    using assms ge by (auto simp: upd_cell_def rows_ok_def nth_list_update)
qed

lemma linked_at_upd:
  assumes "rows_ok m n" "1 \<le> y" "y \<le> x" "unat x \<le> n"
    and "1 \<le> a" "1 \<le> b" "unat a \<le> n" "unat b \<le> n"
  shows "linked_at (upd_cell m x y c) a b =
    (if max a b = x \<and> min a b = y then linked c = 1 else linked_at m a b)"
proof -
  have "1 \<le> min a b" "min a b \<le> max a b" "unat (max a b) \<le> n"
    using assms by (auto simp: max_def min_def)
  with assms show ?thesis
    unfolding linked_at_def by (subst upd_cell_nth [of m n]) (auto simp only: split: if_splits)
qed


lemma max_min_pair:
  "max a b = max p q \<and> min a b = min p q \<longleftrightarrow> a = p \<and> b = q \<or> a = q \<and> b = p"
  for a b p q :: u32
  by (auto simp: max_def min_def)

text \<open>One round of the loop clears the link between \<open>idx\<close> and \<open>i\<close>.\<close>

lemma disjoin_step:
  assumes "rows_ok m (unat n)" "1 \<le> idx" "idx \<le> n" "1 \<le> i" "i \<le> n"
  shows "\<exists>m'. disjoin_loop m n idx i = disjoin_loop m' n idx (i + 1) \<and> rows_ok m' (unat n) \<and>
    (\<forall>a b. 1 \<le> a \<longrightarrow> a \<le> n \<longrightarrow> 1 \<le> b \<longrightarrow> b \<le> n \<longrightarrow>
      linked_at m' a b = (linked_at m a b \<and> \<not> (a = idx \<and> b = i \<or> a = i \<and> b = idx)))"
proof -
  let ?x = "max idx i" and ?y = "min idx i"
  have ord: "1 \<le> ?y" "?y \<le> ?x" "unat ?x \<le> unat n"
    using assms by (auto simp: max_def min_def word_le_nat_alt)
  let ?c = "m ! (unat ?x - 1) ! (unat ?y - 1)"
  let ?m = "if linked ?c = 1 then upd_cell m ?x ?y (?c\<lparr>linked := 0, timestamp := 0\<rparr>) else m"
  have c: "get_cell m ?x ?y = Some ?c"
    by (rule get_cell_ok [OF assms(1) ord])
  note s = set_cell_ok [OF assms(1) ord, of "?c\<lparr>linked := 0, timestamp := 0\<rparr>"]
  have "disjoin_loop m n idx i = disjoin_loop ?m n idx (i + 1)"
    using assms(5) c s(1)
    by (subst disjoin_loop.simps) (simp add: swap_max_min Let_def)
  moreover have "rows_ok ?m (unat n)" using assms(1) s(2) by simp
  moreover have "linked_at ?m a b = (linked_at m a b \<and> \<not> (a = idx \<and> b = i \<or> a = i \<and> b = idx))"
    if "1 \<le> a" "a \<le> n" "1 \<le> b" "b \<le> n" for a b
  proof -
    have le: "unat a \<le> unat n" "unat b \<le> unat n" using that by (simp_all add: word_le_nat_alt)
    have old: "linked ?c = 1 \<longleftrightarrow> linked_at m idx i" by (simp add: linked_at_def)
    show ?thesis
      using linked_at_upd [OF assms(1) ord that(1) that(3) le, of "?c\<lparr>linked := 0, timestamp := 0\<rparr>"]
        old max_min_pair [of a b idx i] linked_at_commute [of m idx i]
      by (auto split: if_splits)
  qed
  ultimately show ?thesis by blast
qed

lemma disjoin_loop_ok:
  assumes "rows_ok m (unat n)" "unat n + 1 < 2 ^ 32" "1 \<le> idx" "idx \<le> n" "1 \<le> i" "unat i \<le> unat n + 1"
  shows "\<exists>m'. disjoin_loop m n idx i = Some m' \<and> rows_ok m' (unat n) \<and>
    (\<forall>a b. 1 \<le> a \<longrightarrow> a \<le> n \<longrightarrow> 1 \<le> b \<longrightarrow> b \<le> n \<longrightarrow>
      linked_at m' a b = (linked_at m a b \<and> \<not> (a = idx \<and> i \<le> b \<or> b = idx \<and> i \<le> a)))"
  using assms(1,5,6)
proof (induction "unat n + 1 - unat i" arbitrary: m i)
  case 0
  then have "\<not> i \<le> n" "\<And>a. a \<le> n \<Longrightarrow> \<not> i \<le> a" by (auto simp: word_le_nat_alt)
  with 0 show ?case by (subst disjoin_loop.simps) auto
next
  case (Suc k)
  then have "i \<le> n" by (simp add: word_le_nat_alt)
  then have i1: "unat (i + 1) = unat i + 1"
    using assms(2) by (simp add: unat_word_ariths word_le_nat_alt)
  obtain m1 where m1: "disjoin_loop m n idx i = disjoin_loop m1 n idx (i + 1)" "rows_ok m1 (unat n)"
    "\<And>a b. 1 \<le> a \<Longrightarrow> a \<le> n \<Longrightarrow> 1 \<le> b \<Longrightarrow> b \<le> n \<Longrightarrow>
      linked_at m1 a b = (linked_at m a b \<and> \<not> (a = idx \<and> b = i \<or> a = i \<and> b = idx))"
    using disjoin_step [OF Suc.prems(1) assms(3,4) Suc.prems(2) \<open>i \<le> n\<close>] by metis
  have "1 \<le> i + 1" "k = unat n + 1 - unat (i + 1)" "unat (i + 1) \<le> unat n + 1"
    using i1 Suc.hyps(2) by (auto simp: one_le_unat)
  then obtain m2 where m2: "disjoin_loop m1 n idx (i + 1) = Some m2" "rows_ok m2 (unat n)"
    "\<And>a b. 1 \<le> a \<Longrightarrow> a \<le> n \<Longrightarrow> 1 \<le> b \<Longrightarrow> b \<le> n \<Longrightarrow>
      linked_at m2 a b = (linked_at m1 a b \<and> \<not> (a = idx \<and> i + 1 \<le> b \<or> b = idx \<and> i + 1 \<le> a))"
    using Suc.hyps(1) [of "i + 1" m1] m1(2) by metis
  have step: "i + 1 \<le> a \<longleftrightarrow> i \<le> a \<and> i \<noteq> a" for a :: u32
    using i1 by (auto simp: word_le_nat_alt word_unat_eq_iff)
  have "linked_at m2 a b = (linked_at m a b \<and> \<not> (a = idx \<and> i \<le> b \<or> b = idx \<and> i \<le> a))"
    if "1 \<le> a" "a \<le> n" "1 \<le> b" "b \<le> n" for a b
    using m1(3) [OF that] m2(3) [OF that] by (auto simp: step)
  with m1(1) m2(1,2) show ?case by auto
qed

section \<open>Each operation\<close>

lemma joined_eq:
  assumes "linkst_wf l" "1 \<le> a" "a \<le> matrix_size l" "1 \<le> b" "b \<le> matrix_size l"
  shows "linkst_joined (Some l) a b = Some (of_bool (linked_at (adjacency_matrix l) a b))"
proof -
  have "1 \<le> min a b" "min a b \<le> max a b" "unat (max a b) \<le> unat (matrix_size l)"
    using assms by (auto simp: max_def min_def word_le_nat_alt)
  then have "get_cell (adjacency_matrix l) (max a b) (min a b) =
      Some (adjacency_matrix l ! (unat (max a b) - 1) ! (unat (min a b) - 1))"
    using assms(1) unfolding linkst_wf_def by (blast intro: get_cell_ok)
  moreover have "\<not> (a < 1 \<or> a > matrix_size l \<or> b < 1 \<or> b > matrix_size l)"
    using assms by (simp add: not_less one_le_word)
  ultimately show ?thesis
    unfolding linkst_joined_def linked_at_def by (simp only: swap_max_min option.case if_False Let_def) simp
qed

lemma joined_out:
  "\<not> (1 \<le> a \<and> a \<le> matrix_size l \<and> 1 \<le> b \<and> b \<le> matrix_size l) \<Longrightarrow>
   linkst_joined (Some l) a b = Some (- 1)"
  by (auto simp: linkst_joined_def not_less one_le_word)

lemma links_iff:
  "linkst_wf l \<Longrightarrow> (a, b) \<in> links l \<longleftrightarrow>
    1 \<le> a \<and> a \<le> matrix_size l \<and> 1 \<le> b \<and> b \<le> matrix_size l \<and> linked_at (adjacency_matrix l) a b"
  using joined_eq [of l a b] joined_out [of a l b] by (cases "1 \<le> a \<and> a \<le> matrix_size l \<and> 1 \<le> b \<and> b \<le> matrix_size l") (auto simp: links_def)

lemma links_sym: "linkst_wf l \<Longrightarrow> sym (links l)"
  by (auto simp: sym_def links_iff linked_at_commute)

lemma disjoin_ok:
  assumes "linkst_wf l" "1 \<le> idx" "idx \<le> matrix_size l"
  shows "\<exists>l'. linkst_disjoin (Some l) idx = Some (0, Some l') \<and> linkst_wf l'
    \<and> links l' = {(a, b) \<in> links l. a \<noteq> idx \<and> b \<noteq> idx} \<and> upper_limit l' = upper_limit l
    \<and> matrix_size l' = matrix_size l"
proof -
  let ?n = "matrix_size l"
  have small: "unat ?n + 1 < 2 ^ 32" and ok: "rows_ok (adjacency_matrix l) (unat ?n)"
    using assms(1) by (auto simp: linkst_wf_def word_le_nat_alt)
  obtain m' where m': "disjoin_loop (adjacency_matrix l) ?n idx 1 = Some m'" "rows_ok m' (unat ?n)"
    "\<And>a b. 1 \<le> a \<Longrightarrow> a \<le> ?n \<Longrightarrow> 1 \<le> b \<Longrightarrow> b \<le> ?n \<Longrightarrow>
      linked_at m' a b = (linked_at (adjacency_matrix l) a b \<and> \<not> (a = idx \<and> 1 \<le> b \<or> b = idx \<and> 1 \<le> a))"
    using disjoin_loop_ok [OF ok small assms(2,3), of 1] by (auto simp: word_le_nat_alt)
  let ?l = "l\<lparr>adjacency_matrix := m'\<rparr>"
  have wf: "linkst_wf ?l" using assms(1) m'(2) by (simp add: linkst_wf_def)
  have "links ?l = {(a, b) \<in> links l. a \<noteq> idx \<and> b \<noteq> idx}"
    using assms(1) wf m'(3) by (auto simp: links_iff)
  moreover have "linkst_disjoin (Some l) idx = Some (0, Some ?l)"
    using assms m'(1) by (simp add: linkst_disjoin_def not_less one_le_word)
  ultimately show ?thesis using wf by auto
qed


lemma resize_ok:
  assumes "linkst_wf l" "matrix_size l \<le> x" "x \<le> upper_limit l"
  shows "linkst_wf (linkst_resize l (x - matrix_size l))"
    and "x \<le> matrix_size (linkst_resize l (x - matrix_size l))"
    and "links (linkst_resize l (x - matrix_size l)) = links l"
    and "upper_limit (linkst_resize l (x - matrix_size l)) = upper_limit l"
proof -
  let ?l = "linkst_resize l (x - matrix_size l)" and ?n = "matrix_size l" and ?u = "upper_limit l"
  have ok: "rows_ok (adjacency_matrix l) (unat ?n)" and ul: "?n \<le> ?u" "unat ?u + 5 < 2 ^ 32"
    using assms(1) by (auto simp: linkst_wf_def)
  define n' where "n' = (if x + 5 < ?u then x + 5 else ?u)"
  have "unat x + 5 < 2 ^ 32" using ul assms(3) by (simp add: word_le_nat_alt)
  then have x5: "unat (x + 5) = unat x + 5" by (simp add: unat_word_ariths)
  then have n': "?n \<le> n'" "x \<le> n'" "n' \<le> ?u"
    using assms ul by (auto simp: n'_def word_le_nat_alt word_less_nat_alt)
  have size': "matrix_size ?l = n'" and am: "adjacency_matrix ?l =
      adjacency_matrix l @ map (\<lambda>i. replicate (i + 1) zero_link) [unat ?n ..< unat n']"
    using n' ok by (auto simp: linkst_resize_def n'_def Let_def algebra_simps rows_ok_def word_le_nat_alt)
  have up: "upper_limit ?l = ?u" by (simp add: linkst_resize_def Let_def)
  then show "upper_limit ?l = ?u" .
  have "rows_ok (adjacency_matrix ?l) (unat n')"
    using ok n'(1) by (auto simp: am rows_ok_def nth_append word_le_nat_alt)
  then show wf: "linkst_wf ?l" using n' ul up by (simp add: linkst_wf_def size')
  show "x \<le> matrix_size ?l" using n' by (simp add: size')
  have at: "linked_at (adjacency_matrix ?l) a b \<longleftrightarrow>
      a \<le> ?n \<and> b \<le> ?n \<and> linked_at (adjacency_matrix l) a b"
    if "1 \<le> a" "a \<le> n'" "1 \<le> b" "b \<le> n'" for a b
  proof -
    let ?x = "max a b" and ?y = "min a b"
    have xy: "1 \<le> unat ?y" "unat ?y \<le> unat ?x" "unat ?x \<le> unat n'"
      using that by (auto simp: max_def min_def word_le_nat_alt)
    have "linked_at (adjacency_matrix ?l) a b \<longleftrightarrow>
        unat ?x \<le> unat ?n \<and> linked_at (adjacency_matrix l) a b"
      using xy ok n'(1)
      by (auto simp: linked_at_def am nth_append rows_ok_def word_le_nat_alt zero_link_def
          simp del: replicate_Suc)
    moreover have "unat ?x \<le> unat ?n \<longleftrightarrow> a \<le> ?n \<and> b \<le> ?n"
      by (auto simp: max_def word_le_nat_alt)
    ultimately show ?thesis by simp
  qed
  have "(a, b) \<in> links ?l \<longleftrightarrow> (a, b) \<in> links l" for a b
    unfolding links_iff [OF wf] links_iff [OF assms(1)] size'
    using at [of a b] n'(1) by (auto intro: order_trans)
  then show "links ?l = links l" by auto
qed

lemma join_in_matrix:
  assumes "linkst_wf l" "1 \<le> a" "1 \<le> b" "a \<le> matrix_size l" "b \<le> matrix_size l"
  shows "\<exists>m. set_cell (adjacency_matrix l) (max a b) (min a b) \<lparr>linked = 1, timestamp = now\<rparr> = Some m
    \<and> linkst_wf (l\<lparr>adjacency_matrix := m\<rparr>)
    \<and> links (l\<lparr>adjacency_matrix := m\<rparr>) = links l \<union> {(a, b), (b, a)}"
proof -
  let ?n = "matrix_size l" and ?c = "\<lparr>linked = 1, timestamp = now\<rparr>"
  let ?m = "upd_cell (adjacency_matrix l) (max a b) (min a b) ?c"
  have ok: "rows_ok (adjacency_matrix l) (unat ?n)" using assms(1) by (simp add: linkst_wf_def)
  have ord: "1 \<le> min a b" "min a b \<le> max a b" "unat (max a b) \<le> unat ?n"
    using assms by (auto simp: max_def min_def word_le_nat_alt)
  note s = set_cell_ok [OF ok ord, of ?c]
  have wf: "linkst_wf (l\<lparr>adjacency_matrix := ?m\<rparr>)" using assms(1) s(2) by (simp add: linkst_wf_def)
  have at: "linked_at ?m p q \<longleftrightarrow> p = a \<and> q = b \<or> p = b \<and> q = a \<or> linked_at (adjacency_matrix l) p q"
    if "1 \<le> p" "p \<le> ?n" "1 \<le> q" "q \<le> ?n" for p q
    using linked_at_upd [OF ok ord that(1) that(3), of ?c] max_min_pair [of p q a b] that
    by (auto simp: word_le_nat_alt)
  have "(p, q) \<in> links (l\<lparr>adjacency_matrix := ?m\<rparr>) \<longleftrightarrow> (p, q) \<in> links l \<union> {(a, b), (b, a)}" for p q
    using assms at [of p q] by (auto simp: links_iff [OF wf] links_iff [OF assms(1)])
  then have "links (l\<lparr>adjacency_matrix := ?m\<rparr>) = links l \<union> {(a, b), (b, a)}" by auto
  with s(1) wf show ?thesis by blast
qed

lemma join_ok:
  assumes "linkst_wf l" "1 \<le> a" "a \<le> upper_limit l" "1 \<le> b" "b \<le> upper_limit l"
  shows "\<exists>l'. linkst_join (Some l) a b now = Some (0, Some l') \<and> linkst_wf l'
    \<and> links l' = links l \<union> {(a, b), (b, a)} \<and> upper_limit l' = upper_limit l"
proof -
  let ?x = "max a b"
  define l1 where "l1 = (if ?x \<ge> matrix_size l then linkst_resize l (?x - matrix_size l) else l)"
  have xu: "?x \<le> upper_limit l" using assms by (simp add: max_def)
  have l1: "linkst_wf l1" "?x \<le> matrix_size l1" "links l1 = links l" "upper_limit l1 = upper_limit l"
    using resize_ok [OF assms(1) _ xu] assms(1) by (auto simp: l1_def not_le less_imp_le)
  have "a \<le> matrix_size l1" "b \<le> matrix_size l1" using l1(2) by (auto simp: max_def split: if_splits)
  from join_in_matrix [OF l1(1) assms(2,4) this, of now] obtain m where m:
    "set_cell (adjacency_matrix l1) ?x (min a b) \<lparr>linked = 1, timestamp = now\<rparr> = Some m"
    "linkst_wf (l1\<lparr>adjacency_matrix := m\<rparr>)"
    "links (l1\<lparr>adjacency_matrix := m\<rparr>) = links l1 \<union> {(a, b), (b, a)}" by blast
  have "\<not> (a < 1 \<or> a > upper_limit l \<or> b < 1 \<or> b > upper_limit l)"
    using assms by (simp add: not_less one_le_word)
  then have "linkst_join (Some l) a b now = Some (0, Some (l1\<lparr>adjacency_matrix := m\<rparr>))"
    using m(1) unfolding linkst_join_def
    by (simp only: swap_max_min option.case if_False Let_def l1_def [symmetric] prod.case) simp
  with m l1 show ?thesis by auto
qed

lemma join_out:
  "\<not> (1 \<le> a \<and> a \<le> upper_limit l \<and> 1 \<le> b \<and> b \<le> upper_limit l) \<Longrightarrow>
   linkst_join (Some l) a b now = Some (- 1, Some l)"
  by (auto simp: linkst_join_def not_less one_le_word)

lemma disjoin_out:
  "\<not> (1 \<le> idx \<and> idx \<le> matrix_size l) \<Longrightarrow> linkst_disjoin (Some l) idx = Some (- 1, Some l)"
  by (auto simp: linkst_disjoin_def not_less one_le_word)

lemma linkst_new_wf: "unat u + 5 < 2 ^ 32 \<Longrightarrow> linkst_wf (linkst_new u t)"
  by (simp add: linkst_new_def linkst_wf_def rows_ok_def)

lemma linkst_new_links: "unat u + 5 < 2 ^ 32 \<Longrightarrow> links (linkst_new u t) = {}"
  using linkst_new_wf [of u t] one_le_unat
  by (auto simp: links_iff) (auto simp: linkst_new_def)


lemma links_bounded: "linkst_wf l \<Longrightarrow> (a, b) \<in> links l \<Longrightarrow> a \<le> matrix_size l \<and> b \<le> matrix_size l"
  by (simp add: links_iff)

section \<open>The contract\<close>

text \<open>The operations as the switch uses them, the return code dropped.\<close>

definition ls_join :: "linkst \<Rightarrow> u32 \<Rightarrow> u32 \<Rightarrow> int \<Rightarrow> linkst option" where
  "ls_join l a b now = do { (r, l') \<leftarrow> linkst_join (Some l) a b now; l' }"

definition ls_disjoin :: "linkst \<Rightarrow> u32 \<Rightarrow> linkst option" where
  "ls_disjoin l i = do { (r, l') \<leftarrow> linkst_disjoin (Some l) i; l' }"

lemma ls_join_spec:
  assumes "linkst_wf l"
  shows "\<exists>l'. ls_join l a b now = Some l' \<and> linkst_wf l' \<and> upper_limit l' = upper_limit l
    \<and> links l' = link_spec (upper_limit l) (Join a b now) (links l)"
  using assms join_ok [OF assms, of a b now] join_out [of a l b now]
  by (auto simp: ls_join_def)

lemma ls_disjoin_spec:
  assumes "linkst_wf l"
  shows "\<exists>l'. ls_disjoin l i = Some l' \<and> linkst_wf l' \<and> upper_limit l' = upper_limit l
    \<and> links l' = link_spec (upper_limit l) (Disjoin i) (links l)"
proof (cases "1 \<le> i \<and> i \<le> matrix_size l")
  case True
  with disjoin_ok [OF assms, of i] show ?thesis by (auto simp: ls_disjoin_def)
next
  case False
  then have "{(a, b) \<in> links l. a \<noteq> i \<and> b \<noteq> i} = links l"
    using assms by (auto simp: links_iff)
  with False assms show ?thesis by (simp add: ls_disjoin_def disjoin_out)
qed

interpretation ls: link_state ls_join ls_disjoin links upper_limit linkst_wf
  by unfold_locales (use ls_join_spec ls_disjoin_spec in blast)+

text \<open>C38. For every history of \<open>linkst_join\<close> and \<open>linkst_disjoin\<close> calls on a fresh link state
  whose limit is below 2^32 - 5, in range or not, no call leaves the matrix, and the pairs for
  which \<open>linkst_joined\<close> then answers 1 are exactly those of the abstract relation: joined in
  either order with both ends within the limit, and neither end disjoined since.\<close>

fun run_links :: "link_op list \<Rightarrow> linkst \<Rightarrow> linkst option" where
  "run_links [] l = Some l"
| "run_links (Join a b now # ops) l = do { l' \<leftarrow> ls_join l a b now; run_links ops l' }"
| "run_links (Disjoin i # ops) l = do { l' \<leftarrow> ls_disjoin l i; run_links ops l' }"

lemma run_links_eq: "run_links ops l = ls.run ops l"
  by (induction ops l rule: run_links.induct) (simp_all split: Option.bind_splits)



text \<open>\<open>linkst_joined\<close> and \<open>linkst_disjoin\<close> never fault on a well-formed link state, answer -1
  exactly for indices outside the matrix or a null state, and otherwise 0 or 1; the answer is
  symmetric.\<close>

theorem linkst_joined_total:
  assumes "linkst_wf l"
  shows "linkst_joined (Some l) a b = Some
      (if 1 \<le> a \<and> a \<le> matrix_size l \<and> 1 \<le> b \<and> b \<le> matrix_size l
       then of_bool (linked_at (adjacency_matrix l) a b) else - 1)
    \<and> linkst_joined (Some l) a b = linkst_joined (Some l) b a
    \<and> linkst_joined None a b = Some (- 1)"
proof -
  have main: "linkst_joined (Some l) p q = Some
      (if 1 \<le> p \<and> p \<le> matrix_size l \<and> 1 \<le> q \<and> q \<le> matrix_size l
       then of_bool (linked_at (adjacency_matrix l) p q) else - 1)" for p q
    using joined_eq [OF assms] joined_out [of p l q] by auto
  have "linkst_joined None a b = Some (- 1)" by (simp add: linkst_joined_def)
  then show ?thesis
    using main [of a b] main [of b a] linked_at_commute [of "adjacency_matrix l" a b] by auto
qed

theorem linkst_joined_total_witness:
  "linkst_joined (Some (linkst_new 1024 3)) 1 2 = Some (- 1)"
  using linkst_joined_total [OF linkst_new_wf, of 1024 3 1 2] by (simp add: linkst_new_def)

text \<open>A link never times out: whatever the timestamps of the cells and whatever the
  configured timeout, \<open>linkst_joined\<close> answers the same.\<close>

definition set_times :: "(nat \<Rightarrow> nat \<Rightarrow> int) \<Rightarrow> u16 \<Rightarrow> linkst \<Rightarrow> linkst" where
  "set_times f t l = l\<lparr>timeout_sec := t, adjacency_matrix :=
     map (\<lambda>i. map (\<lambda>j. (adjacency_matrix l ! i ! j)\<lparr>timestamp := f i j\<rparr>)
                  [0..<length (adjacency_matrix l ! i)]) [0..<length (adjacency_matrix l)]\<rparr>"

lemma get_cell_set_times:
  "get_cell (adjacency_matrix (set_times f t l)) x y =
   map_option (\<lambda>c. c\<lparr>timestamp := f (unat (x - 1)) (unat (y - 1))\<rparr>) (get_cell (adjacency_matrix l) x y)"
  by (simp add: set_times_def get_cell_def fetch_def)

theorem linkst_joined_ignores_time:
  "linkst_joined (Some (set_times f t l)) a b = linkst_joined (Some l) a b"
proof -
  have "matrix_size (set_times f t l) = matrix_size l" by (simp add: set_times_def)
  then show ?thesis
    by (simp add: linkst_joined_def get_cell_set_times map_option_bind comp_def split: Option.bind_splits prod.splits if_splits)
qed

end
