(* ===== verification/Mbuf.thy ===== *)
theory Mbuf
  imports Chain
begin

text \<open>
  \<open>libnvcore/src/mbuf.c\<close>: the queues of outgoing buffers, doubly linked lists whose head's
  \<open>prev\<close> points to the tail and whose head alone keeps the element count.  The nodes live in
  an explicit store, so that a dangling pointer or a second \<open>free\<close> is the fault
  \<^const>\<open>None\<close>; the buffers released are recorded in order.  The lemmas relate the pointer
  structure to the list of its nodes and show that every operation is the list operation its
  name says and that freeing a queue releases each buffer once.
\<close>

section \<open>The code\<close>

record mbuf =
  mnext :: "addr option"
  mprev :: "addr option"
  count :: u64
  mem_type :: u8
  ext_buf :: addr
  ext_size :: u32
  free_cb :: nat

text \<open>A buffer is released by \<open>free\<close> or handed to the callback of its node.\<close>

datatype release = Free addr | Callback nat addr

record mstore =
  nodes :: "addr \<rightharpoonup> mbuf"
  blocks :: "addr \<rightharpoonup> u8 list"
  released :: "release list"

abbreviation (input) MBUF_BYVAL :: u8 where "MBUF_BYVAL \<equiv> 1"
abbreviation (input) MBUF_BYREF :: u8 where "MBUF_BYREF \<equiv> 2"

definition upd :: "mstore \<Rightarrow> addr option \<Rightarrow> (mbuf \<Rightarrow> mbuf) \<Rightarrow> mstore option" where
  "upd s p f = do {
     a \<leftarrow> p;
     n \<leftarrow> nodes s a;
     Some (s\<lparr>nodes := (nodes s)(a \<mapsto> f n)\<rparr>) }"

text \<open>The count is a \<open>size_t\<close>, returned as an \<open>int\<close>.\<close>

definition mbuf_count :: "mstore \<Rightarrow> addr option \<Rightarrow> int option" where
  "mbuf_count s mbuf_head =
     (case mbuf_head of
        None \<Rightarrow> Some 0
      | Some h \<Rightarrow> do { n \<leftarrow> nodes s h; Some (sint (ucast (count n) :: u32)) })"

definition mbuf_add :: "mstore \<Rightarrow> addr option \<Rightarrow> addr \<Rightarrow> (int \<times> addr option \<times> mstore) option" where
  "mbuf_add s mbuf_head mbuf =
     (case mbuf_head of
        None \<Rightarrow> do {
          s \<leftarrow> upd s (Some mbuf) (\<lambda>n. n\<lparr>mnext := None\<rparr>);
          s \<leftarrow> upd s (Some mbuf) (\<lambda>n. n\<lparr>mprev := Some mbuf\<rparr>);
          s \<leftarrow> upd s (Some mbuf) (\<lambda>n. n\<lparr>count := 1\<rparr>);
          Some (0, Some mbuf, s) }
      | Some h \<Rightarrow> do {
          s \<leftarrow> upd s (Some mbuf) (\<lambda>n. n\<lparr>mnext := None\<rparr>);
          hn \<leftarrow> nodes s h;
          s \<leftarrow> upd s (Some mbuf) (\<lambda>n. n\<lparr>mprev := mprev hn\<rparr>);
          hn \<leftarrow> nodes s h;
          s \<leftarrow> upd s (mprev hn) (\<lambda>n. n\<lparr>mnext := Some mbuf\<rparr>);
          s \<leftarrow> upd s (Some h) (\<lambda>n. n\<lparr>mprev := Some mbuf\<rparr>);
          s \<leftarrow> upd s (Some h) (\<lambda>n. n\<lparr>count := count n + 1\<rparr>);
          Some (0, Some h, s) })"

definition release_ext :: "mstore \<Rightarrow> mbuf \<Rightarrow> mstore option" where
  "release_ext s n =
     (if mem_type n = MBUF_BYVAL then do {
        b \<leftarrow> blocks s (ext_buf n);
        Some (s\<lparr>blocks := (blocks s)(ext_buf n := None),
                released := released s @ [Free (ext_buf n)]\<rparr>) }
      else if mem_type n = MBUF_BYREF then
        Some (s\<lparr>released := released s @ [Callback (free_cb n) (ext_buf n)]\<rparr>)
      else Some s)"

definition mbuf_del ::
  "mstore \<Rightarrow> addr option \<Rightarrow> addr option \<Rightarrow> (int \<times> addr option \<times> mstore) option" where
  "mbuf_del s mbuf_head mbuf =
     (case (mbuf_head, mbuf) of
        (Some h, Some m) \<Rightarrow> do {
          hn \<leftarrow> nodes s h;
          n \<leftarrow> nodes s m;
          s \<leftarrow> (if mprev hn = Some m then upd s (Some h) (\<lambda>x. x\<lparr>mprev := mprev n\<rparr>) else Some s);
          n \<leftarrow> nodes s m;
          s \<leftarrow> (if m \<noteq> h then upd s (mprev n) (\<lambda>x. x\<lparr>mnext := mnext n\<rparr>) else Some s);
          n \<leftarrow> nodes s m;
          s \<leftarrow> (if mnext n \<noteq> None then upd s (mnext n) (\<lambda>x. x\<lparr>mprev := mprev n\<rparr>) else Some s);
          n \<leftarrow> nodes s m;
          let head = (if m = h then mnext n else Some h);
          let head = (if Some m = head \<and> mnext n = None then None else head);
          s \<leftarrow> (if head \<noteq> None then upd s head (\<lambda>x. x\<lparr>count := count x - 1\<rparr>) else Some s);
          n \<leftarrow> nodes s m;
          s \<leftarrow> release_ext s n;
          Some (0, head, s\<lparr>nodes := (nodes s)(m := None)\<rparr>) }
      | _ \<Rightarrow> Some (- 1, mbuf_head, s))"

text \<open>A loop that does not end is \<^const>\<open>None\<close>.\<close>

partial_function (option) mbuf_free :: "mstore \<Rightarrow> addr option \<Rightarrow> (addr option \<times> mstore) option" where
  "mbuf_free s mbuf =
     (if mbuf \<noteq> None then do {
        (_, mbuf, s) \<leftarrow> mbuf_del s mbuf mbuf;
        mbuf_free s mbuf }
      else Some (None, s))"

text \<open>\<open>mbuf_new\<close>: the addresses \<open>a\<close> and \<open>e\<close> are those \<open>calloc\<close> and \<open>malloc\<close> return, both
  fresh.  The data size is a \<open>size_t\<close>, kept in 32 bits in the node.\<close>

definition mbuf_new ::
  "mstore \<Rightarrow> addr \<Rightarrow> addr \<Rightarrow> u8 list \<Rightarrow> addr \<Rightarrow> u8 \<Rightarrow> nat \<Rightarrow> addr option \<times> mstore" where
  "mbuf_new s a e data buf ty cb =
     (let zero = \<lparr>mnext = None, mprev = None, count = 0, mem_type = ty, ext_buf = 0,
                  ext_size = 0, free_cb = 0\<rparr>
      in if ty = MBUF_BYVAL then
           (Some a, s\<lparr>nodes := (nodes s)(a \<mapsto> zero\<lparr>ext_buf := e, ext_size := of_nat (length data)\<rparr>),
                      blocks := (blocks s)(e \<mapsto> data)\<rparr>)
         else if ty = MBUF_BYREF then
           (Some a, s\<lparr>nodes := (nodes s)(a \<mapsto> zero\<lparr>ext_buf := buf, free_cb := cb\<rparr>)\<rparr>)
         else (None, s))"

text \<open>\<open>mbuf_print\<close> logs the size of every node from the head on.\<close>

partial_function (option) mbuf_print :: "mstore \<Rightarrow> addr option \<Rightarrow> u32 list option" where
  "mbuf_print s mbuf =
     (case mbuf of
        None \<Rightarrow> Some []
      | Some m \<Rightarrow> do {
          n \<leftarrow> nodes s m;
          rest \<leftarrow> mbuf_print s (mnext n);
          Some (ext_size n # rest) })"

section \<open>The pointer structure\<close>

text \<open>The nodes are those of a doubly linked list.\<close>

interpretation mb: dlist mnext mprev "\<lambda>q n. n\<lparr>mnext := q\<rparr>" "\<lambda>q n. n\<lparr>mprev := q\<rparr>"
  by unfold_locales simp_all

abbreviation chain :: "(addr \<rightharpoonup> mbuf) \<Rightarrow> addr option \<Rightarrow> addr list \<Rightarrow> addr option \<Rightarrow> bool" where
  "chain \<equiv> mb.chain"

definition mqueue :: "mstore \<Rightarrow> addr option \<Rightarrow> addr list \<Rightarrow> bool" where
  "mqueue s h xs \<longleftrightarrow> h = first xs None \<and> distinct xs
     \<and> (xs \<noteq> [] \<longrightarrow> chain (nodes s) (Some (last xs)) xs None)"

lemmas chain_frame = mb.chain_frame and chain_nodes = mb.chain_nodes and chain_same = mb.chain_same
  and chain_set_prev = mb.chain_set_prev and chain_set_next = mb.chain_set_next

section \<open>Each operation\<close>

text \<open>What a node carries, its count, the release it calls for and whether that is possible.\<close>

definition payloads :: "mstore \<Rightarrow> addr \<rightharpoonup> u8 \<times> addr \<times> u32 \<times> nat" where
  "payloads s a = map_option (\<lambda>n. (mem_type n, ext_buf n, ext_size n, free_cb n)) (nodes s a)"

definition counts :: "mstore \<Rightarrow> addr \<rightharpoonup> u64" where
  "counts s a = map_option count (nodes s a)"

definition frees :: "mstore \<Rightarrow> addr \<Rightarrow> release list" where
  "frees s a = (case payloads s a of None \<Rightarrow> [] | Some (ty, b, _, cb) \<Rightarrow>
     if ty = MBUF_BYVAL then [Free b] else if ty = MBUF_BYREF then [Callback cb b] else [])"

definition blocks_after :: "mstore \<Rightarrow> addr \<Rightarrow> addr \<rightharpoonup> u8 list" where
  "blocks_after s a = (case payloads s a of None \<Rightarrow> blocks s | Some (ty, b, _, cb) \<Rightarrow>
     if ty = MBUF_BYVAL then (blocks s)(b := None) else blocks s)"

definition releasable :: "mstore \<Rightarrow> addr \<Rightarrow> bool" where
  "releasable s a = (case payloads s a of None \<Rightarrow> False | Some (ty, b, _, cb) \<Rightarrow>
     ty = MBUF_BYVAL \<longrightarrow> blocks s b \<noteq> None)"



lemma upd_simp: "nodes s a = Some n \<Longrightarrow> upd s (Some a) f = Some (s\<lparr>nodes := (nodes s)(a \<mapsto> f n)\<rparr>)"
  by (simp add: upd_def)

lemma list_ends: "xs = [] \<or> (\<exists>h. xs = [h]) \<or> (\<exists>h ys l. xs = h # ys @ [l])"
  by (metis rev_exhaust neq_Nil_conv)

lemma mbuf_add_ok:
  assumes q: "mqueue s h xs" and a: "nodes s a = Some n" "a \<notin> set xs"
  shows "\<exists>s'. mbuf_add s h a = Some (0, first xs (Some a), s') \<and> mqueue s' (first xs (Some a)) (xs @ [a])
    \<and> payloads s' = payloads s
    \<and> counts s' = (case xs of [] \<Rightarrow> (counts s)(a \<mapsto> 1)
        | b # _ \<Rightarrow> (counts s)(b := map_option (\<lambda>c. c + 1) (counts s b)))
    \<and> blocks s' = blocks s \<and> released s' = released s"
proof -
  consider "xs = []" | b where "xs = [b]" | b ys l where "xs = b # ys @ [l]" using list_ends by blast
  then show ?thesis
  proof cases
    case 1
    with q a show ?thesis by (auto simp: mbuf_add_def mqueue_def upd_simp payloads_def counts_def fun_eq_iff)
  next
    case 2
    with q a show ?thesis by (auto simp: mbuf_add_def mqueue_def upd_simp payloads_def counts_def fun_eq_iff)
  next
    case 3
    with q a show ?thesis
      by (auto simp: mbuf_add_def mqueue_def upd_simp payloads_def counts_def fun_eq_iff chain_frame)
  qed
qed

lemma release_ext_ok:
  assumes "releasable s a" "nodes s a = Some n"
    and "mem_type n' = mem_type n" "ext_buf n' = ext_buf n" "free_cb n' = free_cb n"
    and "blocks s' = blocks s" "released s' = released s"
  shows "release_ext s' n' = Some (s'\<lparr>blocks := blocks_after s a, released := released s @ frees s a\<rparr>)"
proof -
  have "s' = s'\<lparr>blocks := blocks s, released := released s\<rparr>" using assms(6,7) by simp
  then show ?thesis
    using assms by (auto simp: release_ext_def releasable_def blocks_after_def frees_def payloads_def)
qed

lemma mbuf_del_ok:
  assumes q: "mqueue s (first ys (Some a)) (ys @ a # zs)" and r: "releasable s a"
  shows "\<exists>s'. mbuf_del s (first ys (Some a)) (Some a) = Some (0, first (ys @ zs) None, s')
    \<and> mqueue s' (first (ys @ zs) None) (ys @ zs)
    \<and> payloads s' = (payloads s)(a := None) \<and> blocks s' = blocks_after s a
    \<and> counts s' = (case ys @ zs of [] \<Rightarrow> (counts s)(a := None)
        | b # _ \<Rightarrow> (counts s)(a := None, b := map_option (\<lambda>c. c - 1) (counts s b)))
    \<and> released s' = released s @ frees s a"
proof -
  obtain n where n: "nodes s a = Some n" using r by (auto simp: releasable_def payloads_def split: option.splits)
  note defs = mbuf_del_def mqueue_def upd_simp payloads_def counts_def fun_eq_iff chain_frame Let_def
    release_ext_ok [OF r n]
  consider (c1) "ys = []" "zs = []" | (c2) b where "ys = [b]" "zs = []" | (c3) b ys' l where "ys = b # ys' @ [l]" "zs = []"
    | (c4) z where "ys = []" "zs = [z]" | (c5) z zs' l where "ys = []" "zs = z # zs' @ [l]"
    | (c6) b z where "ys = [b]" "zs = [z]" | (c7) b ys' l z where "ys = b # ys' @ [l]" "zs = [z]"
    | (c8) b z zs' k where "ys = [b]" "zs = z # zs' @ [k]"
    | (c9) b ys' l z zs' k where "ys = b # ys' @ [l]" "zs = z # zs' @ [k]"
    using list_ends [of ys] list_ends [of zs] by metis
  then show ?thesis
  proof cases
    case c1
    then show ?thesis using q n by (auto simp: defs)
  next
    case c2
    then show ?thesis using q n by (auto simp: defs)
  next
    case c3
    then show ?thesis using q n by (auto simp: defs)
  next
    case c4
    then show ?thesis using q n by (auto simp: defs)
  next
    case c5
    then show ?thesis using q n by (auto simp: defs)
  next
    case c6
    then show ?thesis using q n by (auto simp: defs)
  next
    case c7
    then show ?thesis using q n by (auto simp: defs)
  next
    case c8
    then show ?thesis using q n by (auto simp: defs)
  next
    case c9
    then show ?thesis using q n by (auto simp: defs)
  qed
qed

lemma remove1_mid: "distinct (ys @ a # zs) \<Longrightarrow> remove1 a (ys @ a # zs) = ys @ zs"
  by (simp add: remove1_append)

lemma mqueue_hd: "mqueue s h (a # xs) \<Longrightarrow> h = Some a"
  by (simp add: mqueue_def)

lemma mqueue_empty [simp]: "mqueue s None xs \<longleftrightarrow> xs = []" "mqueue s h [] \<longleftrightarrow> h = None"
  by (auto simp: mqueue_def first_def split: list.splits)

section \<open>Ownership of the buffers\<close>

definition owned_block :: "mstore \<Rightarrow> addr \<Rightarrow> addr list" where
  "owned_block s a = (case payloads s a of None \<Rightarrow> [] | Some (ty, b, _, _) \<Rightarrow> if ty = MBUF_BYVAL then [b] else [])"

text \<open>Every node of the queue can be released, and no two share a buffer.\<close>

definition owned :: "mstore \<Rightarrow> addr list \<Rightarrow> bool" where
  "owned s xs \<longleftrightarrow> (\<forall>a\<in>set xs. releasable s a) \<and> distinct (concat (map (owned_block s) xs))"

lemma owned_tail:
  assumes "owned s (a # xs)" "a \<notin> set xs" "payloads s' = (payloads s)(a := None)"
    "blocks s' = blocks_after s a"
  shows "owned s' xs"
proof -
  have p: "payloads s' x = payloads s x" if "x \<in> set xs" for x
    using that assms(2,3) by auto
  then have ob: "map (owned_block s') xs = map (owned_block s) xs"
    by (simp add: owned_block_def)
  have "releasable s' x" if x: "x \<in> set xs" for x
  proof -
    have "releasable s x" using assms(1) x by (simp add: owned_def)
    moreover have "set (owned_block s a) \<inter> set (owned_block s x) = {}"
      using assms(1) x by (auto simp: owned_def)
    ultimately show ?thesis
      using p [OF x] assms(4)
      by (auto simp: releasable_def owned_block_def blocks_after_def split: option.splits if_splits prod.splits)
  qed
  with assms(1) show ?thesis by (simp add: owned_def ob)
qed

lemma mbuf_free_ok:
  "mqueue s h xs \<Longrightarrow> owned s xs \<Longrightarrow>
   \<exists>s'. mbuf_free s h = Some (None, s') \<and> payloads s' = (payloads s) |` (- set xs)
     \<and> released s' = released s @ concat (map (frees s) xs)"
proof (induction xs arbitrary: s h)
  case Nil
  then show ?case by (subst mbuf_free.simps) (simp add: restrict_map_def)
next
  case (Cons a xs)
  then have h: "h = Some a" and dist: "a \<notin> set xs" by (auto simp: mqueue_def)
  have "releasable s a" using Cons.prems(2) by (simp add: owned_def)
  then obtain s1 where s1: "mbuf_del s (Some a) (Some a) = Some (0, first xs None, s1)"
    "mqueue s1 (first xs None) xs" "payloads s1 = (payloads s)(a := None)"
    "blocks s1 = blocks_after s a" "released s1 = released s @ frees s a"
    using mbuf_del_ok [of s "[]" a xs] Cons.prems(1) h by auto
  have "owned s1 xs" by (rule owned_tail [OF Cons.prems(2) dist s1(3,4)])
  from Cons.IH [OF s1(2) this] obtain s2 where s2: "mbuf_free s1 (first xs None) = Some (None, s2)"
    "payloads s2 = (payloads s1) |` (- set xs)" "released s2 = released s1 @ concat (map (frees s1) xs)"
    by blast
  have "concat (map (frees s1) xs) = concat (map (frees s) xs)"
    using dist s1(3) by (intro arg_cong [of _ _ concat] map_cong) (auto simp: frees_def)
  moreover have "payloads s2 = (payloads s) |` (- set (a # xs))"
    by (auto simp: s2(2) s1(3) restrict_map_def fun_eq_iff)
  moreover have "mbuf_free s h = mbuf_free s1 (first xs None)"
    using s1(1) h by (subst mbuf_free.simps) simp
  ultimately show ?case using s2 s1(5) by simp
qed

text \<open>A queue built by two \<open>mbuf_add\<close> calls, for the witnesses.\<close>

definition demo :: mstore where
  "demo = \<lparr>nodes = [1 \<mapsto> \<lparr>mnext = Some 2, mprev = Some 2, count = 2, mem_type = 1, ext_buf = 11,
                           ext_size = 0, free_cb = 0\<rparr>,
                    2 \<mapsto> \<lparr>mnext = None, mprev = Some 1, count = 0, mem_type = 2, ext_buf = 12,
                           ext_size = 0, free_cb = 7\<rparr>,
                    3 \<mapsto> \<lparr>mnext = None, mprev = None, count = 0, mem_type = 2, ext_buf = 13,
                           ext_size = 0, free_cb = 7\<rparr>],
           blocks = [11 \<mapsto> []], released = []\<rparr>"

lemma demo_queue: "mqueue demo (Some 1) [1, 2]"
  by (simp add: demo_def mqueue_def)

lemma demo_owned: "owned demo [1, 2]"
  by (simp add: demo_def owned_def releasable_def payloads_def owned_block_def)

section \<open>Properties\<close>

text \<open>\<open>mbuf_add\<close> appends the node to the queue: on a well-formed queue and a node not in it
  the call does not fault, the pointer structure then is that of the list with the node at its
  end, the head's count grows by one, and no buffer is touched.\<close>

theorem mbuf_add_correct:
  assumes "mqueue s h xs" "nodes s a = Some n" "a \<notin> set xs"
  shows "\<exists>h' s'. mbuf_add s h a = Some (0, h', s') \<and> mqueue s' h' (xs @ [a])
    \<and> payloads s' = payloads s \<and> blocks s' = blocks s \<and> released s' = released s
    \<and> (\<forall>c. xs = [] \<and> c = 1 \<or> xs \<noteq> [] \<and> counts s (hd xs) = Some (c - 1) \<longrightarrow>
           counts s' (hd (xs @ [a])) = Some c)"
  using mbuf_add_ok [OF assms] by (cases xs) auto

theorem mbuf_add_correct_witness:
  "\<exists>h' s'. mbuf_add demo (Some 1) 3 = Some (0, h', s') \<and> mqueue s' h' [1, 2, 3]"
proof -
  have "nodes demo 3 = Some \<lparr>mnext = None, mprev = None, count = 0, mem_type = 2, ext_buf = 13,
      ext_size = 0, free_cb = 7\<rparr>" by (simp add: demo_def)
  then show ?thesis using mbuf_add_correct [OF demo_queue, of 3] by fastforce
qed

text \<open>\<open>mbuf_del\<close> unlinks a node wherever it stands in the queue: the pointer structure then
  is that of the list without it, its node is freed, its buffer is released exactly once by the
  means its memory type calls for, and no other node or buffer is touched.\<close>

theorem mbuf_del_correct:
  assumes "mqueue s h xs" "a \<in> set xs" "releasable s a"
  shows "\<exists>h' s'. mbuf_del s h (Some a) = Some (0, h', s') \<and> mqueue s' h' (remove1 a xs)
    \<and> payloads s' = (payloads s)(a := None) \<and> blocks s' = blocks_after s a
    \<and> released s' = released s @ frees s a"
proof -
  obtain ys zs where xs: "xs = ys @ a # zs" using assms(2) by (meson split_list)
  then have "distinct (ys @ a # zs)" "h = first ys (Some a)"
    using assms(1) by (auto simp: mqueue_def)
  then show ?thesis
    using mbuf_del_ok [of s ys a zs] assms xs by (auto simp: remove1_mid)
qed

theorem mbuf_del_correct_witness:
  "\<exists>h' s'. mbuf_del demo (Some 1) (Some 2) = Some (0, h', s') \<and> mqueue s' h' [1]
    \<and> released s' = [Callback 7 12]"
proof -
  have "releasable demo 2" and fr: "frees demo 2 = [Callback 7 12]" and rel: "released demo = []"
    by (simp_all add: demo_def releasable_def payloads_def frees_def)
  with mbuf_del_correct [OF demo_queue, of 2] show ?thesis by fastforce
qed

text \<open>\<open>mbuf_free\<close> ends on every well-formed queue whose nodes own different buffers, leaves
  the caller's pointer null, frees every node of the queue and no other, and releases the
  buffers once each, in the order of the queue.\<close>

theorem mbuf_free_releases_all:
  assumes "mqueue s h xs" "owned s xs"
  shows "\<exists>s'. mbuf_free s h = Some (None, s') \<and> payloads s' = (payloads s) |` (- set xs)
    \<and> released s' = released s @ concat (map (frees s) xs)"
  using assms by (rule mbuf_free_ok)

theorem mbuf_free_releases_all_witness:
  "\<exists>s'. mbuf_free demo (Some 1) = Some (None, s') \<and> released s' = [Free 11, Callback 7 12]"
  using mbuf_free_releases_all [OF demo_queue demo_owned]
  by (auto simp: demo_def frees_def payloads_def)

text \<open>The count is kept in the head alone and does not follow it: when the head of a queue
  of at least two buffers is deleted and the next node has the count 0 it was created with,
  \<open>mbuf_count\<close> of what is left is -1, whatever its length.\<close>

theorem mbuf_count_lost_with_head:
  assumes "mqueue s h (a # b # xs)" "releasable s a" "counts s b = Some 0"
  shows "\<exists>h' s'. mbuf_del s h (Some a) = Some (0, h', s') \<and> mqueue s' h' (b # xs)
    \<and> mbuf_count s' h' = Some (- 1)"
proof -
  have h: "h = Some a" and ab: "a \<noteq> b" using assms(1) by (auto simp: mqueue_def)
  then obtain s' where s': "mbuf_del s h (Some a) = Some (0, Some b, s')" "mqueue s' (Some b) (b # xs)"
    "counts s' = (counts s)(a := None, b := map_option (\<lambda>c. c - 1) (counts s b))"
    using mbuf_del_ok [of s "[]" a "b # xs"] assms by auto
  then have "counts s' b = Some (- 1)" using assms(3) ab by simp
  moreover have "ucast (- 1 :: u64) = (- 1 :: u32)"
    by (rule bit_word_eqI) (simp add: bit_simps)
  ultimately have "mbuf_count s' (Some b) = Some (- 1)"
    by (auto simp: counts_def mbuf_count_def)
  with s' show ?thesis by blast
qed

theorem mbuf_count_lost_with_head_witness:
  "\<exists>h' s'. mbuf_del demo (Some 1) (Some 1) = Some (0, h', s') \<and> mqueue s' h' [2]
    \<and> mbuf_count s' h' = Some (- 1)"
  by (rule mbuf_count_lost_with_head [OF demo_queue])
    (simp_all add: demo_def releasable_def payloads_def counts_def)

end
