(* ===== verification/Dnds_Types.thy ===== *)
theory Dnds_Types
  imports Tables Cert
begin

text \<open>
  The in-memory form of a DNDS message: the structures \<open>asn1c\<close> generates from
  \<open>protocol/dnds.asn1\<close>, as \<open>libnvcore/src/dnds.c\<close> uses them.  A message is a value; a null
  pointer is \<^const>\<open>None\<close>.  The unions are datatypes with one constructor per member and one for
  the freshly zeroed union, which reads as zero through any member; reading a member other
  than the one last written is the fault \<^const>\<open>None\<close>.  Enumerations that the protocol may
  extend are kept as the C \<open>long\<close> that holds them.
\<close>

section \<open>Strings and scalars\<close>

datatype DNDS_retcode =
    DNDS_success | DNDS_alloc_failed | DNDS_invalid_param | DNDS_invalid_pdu | DNDS_invalid_op
  | DNDS_invalid_object_type | DNDS_value_not_present | DNDS_conversion_failed

text \<open>\<open>OCTET_STRING_t\<close> and the types that share its layout: a buffer that may be null and an
  \<open>int\<close> size.\<close>

record octets =
  obuf :: "u8 list option"
  osize :: int

definition octets_zero :: octets where
  "octets_zero = \<lparr>obuf = None, osize = 0\<rparr>"

text \<open>A \<open>size_t\<close> stored in an \<open>int\<close>, and an \<open>int\<close> read back into a \<open>size_t\<close>.\<close>

definition int_of_size :: "u64 \<Rightarrow> int" where
  "int_of_size n = sint (ucast n :: u32)"

definition size_of_int :: "int \<Rightarrow> u64" where
  "size_of_int i = word_of_int i"

text \<open>\<open>strdup\<close>: the argument tells whether the allocation succeeds; its result is not checked by
  the code.\<close>

definition strdup :: "bool \<Rightarrow> u8 list \<Rightarrow> u8 list option option" where
  "strdup ok s = do {
     n \<leftarrow> strlen s;
     Some (if ok then Some (take (n + 1) s) else None) }"

text \<open>A C string as text.\<close>

definition cstr :: "u8 list \<Rightarrow> string option" where
  "cstr s = do { n \<leftarrow> strlen s; Some (map (\<lambda>c. char_of (unat c)) (take n s)) }"

text \<open>\<open>inet_ntop(AF_INET, buf, dst, INET_ADDRSTRLEN)\<close>: \<^const>\<open>None\<close> when the text does not fit.\<close>

definition inet_ntop :: "u8 list \<Rightarrow> nat \<Rightarrow> string option option" where
  "inet_ntop buf n =
     (case buf of
        b0 # b1 # b2 # b3 # _ \<Rightarrow>
          Some (let s = dotted b0 b1 b2 b3 in if length s < n then Some s else None)
      | _ \<Rightarrow> None)"

section \<open>The structures\<close>

datatype pdu_PR = pdu_PR_NOTHING | pdu_PR_dnm | pdu_PR_dsm | pdu_PR_ethernet

datatype dnop_PR =
    dnop_PR_NOTHING | dnop_PR_authRequest | dnop_PR_authResponse | dnop_PR_netinfoRequest
  | dnop_PR_netinfoResponse | dnop_PR_provRequest | dnop_PR_provResponse | dnop_PR_p2pRequest
  | dnop_PR_p2pResponse | dnop_PR_terminateRequest

datatype dsop_PR =
    dsop_PR_NOTHING | dsop_PR_addRequest | dsop_PR_addResponse | dsop_PR_delRequest
  | dsop_PR_delResponse | dsop_PR_modifyRequest | dsop_PR_modifyResponse | dsop_PR_nodeConnInfo
  | dsop_PR_searchRequest | dsop_PR_searchResponse | dsop_PR_terminateRequest

datatype DNDSObject_PR =
  DNDSObject_PR_NOTHING | DNDSObject_PR_client | DNDSObject_PR_context | DNDSObject_PR_node

abbreviation (input) DNDSResult_success :: int where "DNDSResult_success \<equiv> 1"
abbreviation (input) DNDSResult_operationError :: int where "DNDSResult_operationError \<equiv> 2"
abbreviation (input) DNDSResult_protocolError :: int where "DNDSResult_protocolError \<equiv> 3"
abbreviation (input) DNDSResult_noSuchObject :: int where "DNDSResult_noSuchObject \<equiv> 4"
abbreviation (input) DNDSResult_duplicate :: int where "DNDSResult_duplicate \<equiv> 5"
abbreviation (input) DNDSResult_secureStepUp :: int where "DNDSResult_secureStepUp \<equiv> 6"
abbreviation (input) DNDSResult_noRight :: int where "DNDSResult_noRight \<equiv> 7"
abbreviation (input) DNDSResult_moreData :: int where "DNDSResult_moreData \<equiv> 8"

abbreviation (input) P2pSide_client :: int where "P2pSide_client \<equiv> 1"
abbreviation (input) P2pSide_server :: int where "P2pSide_server \<equiv> 2"

record AuthRequest =
  authRequest_certName :: octets

record NetinfoRequest =
  netinfoRequest_ipLocal :: octets
  netinfoRequest_macAddr :: octets

record NetinfoResponse =
  netinfoResponse_ipAddress :: octets
  netinfoResponse_netmask :: octets
  netinfoResponse_result :: int

record ProvRequest =
  provRequest_provCode :: "octets option"

record ProvResponse =
  provResponse_certificate :: "octets option"
  provResponse_certificateKey :: "octets option"
  provResponse_trustedCert :: "octets option"
  provResponse_ipAddress :: "octets option"

record P2pRequest =
  p2pRequest_macAddrDst :: octets
  p2pRequest_ipAddrDst :: octets
  p2pRequest_port :: u64
  p2pRequest_side :: int

record P2pResponse =
  p2pResponse_macAddrDst :: octets
  p2pResponse_result :: int

datatype dnop_choice =
    DnopZero | AuthRequest AuthRequest | AuthResponse int | NetinfoRequest NetinfoRequest
  | NetinfoResponse NetinfoResponse | ProvRequest ProvRequest | ProvResponse ProvResponse
  | P2pRequest P2pRequest | P2pResponse P2pResponse

record DNMessage =
  dnm_seqNumber :: u64
  dnm_ackNumber :: u64
  dnop_present :: dnop_PR
  dnop_choice :: dnop_choice

record Client =
  client_id :: "u64 option"
  client_email :: "octets option"
  client_password :: "octets option"
  client_apikey :: "octets option"
  client_status :: "int option"

record Context =
  context_id :: "u64 option"
  context_clientId :: "u64 option"
  context_description :: "octets option"
  context_network :: "octets option"
  context_netmask :: "octets option"
  context_serverCert :: "octets option"
  context_serverPrivkey :: "octets option"
  context_trustedCert :: "octets option"

record Node =
  node_contextId :: "u64 option"
  node_contextName :: "octets option"
  node_description :: "octets option"
  node_uuid :: "octets option"
  node_provCode :: "octets option"
  node_certificate :: "octets option"
  node_certificateKey :: "octets option"
  node_trustedCert :: "octets option"
  node_ipAddress :: "octets option"
  node_status :: "int option"

datatype object_choice = ObjectZero | Client Client | Context Context | Node Node

record DNDSObject =
  object_present :: DNDSObject_PR
  object_choice :: object_choice

record NodeConnInfo =
  nodeConnInfo_certName :: octets
  nodeConnInfo_ipAddr :: octets
  nodeConnInfo_state :: int

text \<open>The object lists of the search messages hold pointers.\<close>

record SearchRequest =
  searchRequest_searchtype :: int
  searchRequest_objectname :: "int option"
  searchRequest_object :: "addr option"
  searchRequest_objects :: "addr list option"

record SearchResponse =
  searchResponse_searchtype :: int
  searchResponse_dndsResult :: int
  searchResponse_objects :: "addr list"

datatype dsop_choice =
    DsopZero | AddRequest DNDSObject | AddResponse int | DelRequest DNDSObject | DelResponse int
  | ModifyRequest DNDSObject | ModifyResponse int | NodeConnInfo NodeConnInfo
  | SearchRequest SearchRequest | SearchResponse SearchResponse

record DSMessage =
  dsm_seqNumber :: u64
  dsm_ackNumber :: u64
  dsm_apikey :: "octets option"
  dsm_action :: int
  dsop_present :: dsop_PR
  dsop_choice :: dsop_choice

datatype pdu_choice = PduZero | Dnm DNMessage | Dsm DSMessage | Ethernet octets

record DNDSMessage =
  msg_version :: u64
  msg_channel :: int
  pdu_present :: pdu_PR
  pdu_choice :: pdu_choice

section \<open>Zeroed structures\<close>

definition dnm_zero :: DNMessage where
  "dnm_zero = \<lparr>dnm_seqNumber = 0, dnm_ackNumber = 0, dnop_present = dnop_PR_NOTHING, dnop_choice = DnopZero\<rparr>"

definition dsm_zero :: DSMessage where
  "dsm_zero = \<lparr>dsm_seqNumber = 0, dsm_ackNumber = 0, dsm_apikey = None, dsm_action = 0,
     dsop_present = dsop_PR_NOTHING, dsop_choice = DsopZero\<rparr>"

definition authRequest_zero :: AuthRequest where
  "authRequest_zero = \<lparr>authRequest_certName = octets_zero\<rparr>"

definition netinfoRequest_zero :: NetinfoRequest where
  "netinfoRequest_zero = \<lparr>netinfoRequest_ipLocal = octets_zero, netinfoRequest_macAddr = octets_zero\<rparr>"

definition netinfoResponse_zero :: NetinfoResponse where
  "netinfoResponse_zero = \<lparr>netinfoResponse_ipAddress = octets_zero,
     netinfoResponse_netmask = octets_zero, netinfoResponse_result = 0\<rparr>"

definition provRequest_zero :: ProvRequest where
  "provRequest_zero = \<lparr>provRequest_provCode = None\<rparr>"

definition provResponse_zero :: ProvResponse where
  "provResponse_zero = \<lparr>provResponse_certificate = None, provResponse_certificateKey = None,
     provResponse_trustedCert = None, provResponse_ipAddress = None\<rparr>"

definition p2pRequest_zero :: P2pRequest where
  "p2pRequest_zero = \<lparr>p2pRequest_macAddrDst = octets_zero, p2pRequest_ipAddrDst = octets_zero,
     p2pRequest_port = 0, p2pRequest_side = 0\<rparr>"

definition p2pResponse_zero :: P2pResponse where
  "p2pResponse_zero = \<lparr>p2pResponse_macAddrDst = octets_zero, p2pResponse_result = 0\<rparr>"

definition client_zero :: Client where
  "client_zero = \<lparr>client_id = None, client_email = None, client_password = None,
     client_apikey = None, client_status = None\<rparr>"

definition context_zero :: Context where
  "context_zero = \<lparr>context_id = None, context_clientId = None, context_description = None,
     context_network = None, context_netmask = None, context_serverCert = None,
     context_serverPrivkey = None, context_trustedCert = None\<rparr>"

definition node_zero :: Node where
  "node_zero = \<lparr>node_contextId = None, node_contextName = None, node_description = None,
     node_uuid = None, node_provCode = None, node_certificate = None, node_certificateKey = None,
     node_trustedCert = None, node_ipAddress = None, node_status = None\<rparr>"

definition object_zero :: DNDSObject where
  "object_zero = \<lparr>object_present = DNDSObject_PR_NOTHING, object_choice = ObjectZero\<rparr>"

definition nodeConnInfo_zero :: NodeConnInfo where
  "nodeConnInfo_zero = \<lparr>nodeConnInfo_certName = octets_zero, nodeConnInfo_ipAddr = octets_zero,
     nodeConnInfo_state = 0\<rparr>"

definition searchRequest_zero :: SearchRequest where
  "searchRequest_zero = \<lparr>searchRequest_searchtype = 0, searchRequest_objectname = None,
     searchRequest_object = None, searchRequest_objects = None\<rparr>"

definition searchResponse_zero :: SearchResponse where
  "searchResponse_zero = \<lparr>searchResponse_searchtype = 0, searchResponse_dndsResult = 0,
     searchResponse_objects = []\<rparr>"

section \<open>Union members\<close>

named_theorems union_defs \<open>access to the members of the message unions\<close>

definition dnm_of :: "DNDSMessage \<Rightarrow> DNMessage option" where [union_defs]:
  "dnm_of m = (case pdu_choice m of PduZero \<Rightarrow> Some dnm_zero | Dnm d \<Rightarrow> Some d | _ \<Rightarrow> None)"

definition dnm_put :: "DNDSMessage \<Rightarrow> DNMessage \<Rightarrow> DNDSMessage option" where [union_defs]:
  "dnm_put m d = Some (m\<lparr>pdu_choice := Dnm d\<rparr>)"

definition dsm_of :: "DNDSMessage \<Rightarrow> DSMessage option" where [union_defs]:
  "dsm_of m = (case pdu_choice m of PduZero \<Rightarrow> Some dsm_zero | Dsm d \<Rightarrow> Some d | _ \<Rightarrow> None)"

definition dsm_put :: "DNDSMessage \<Rightarrow> DSMessage \<Rightarrow> DNDSMessage option" where [union_defs]:
  "dsm_put m d = Some (m\<lparr>pdu_choice := Dsm d\<rparr>)"

definition put_dnop :: "DNDSMessage \<Rightarrow> dnop_choice \<Rightarrow> DNDSMessage option" where [union_defs]:
  "put_dnop m c = do { d \<leftarrow> dnm_of m; dnm_put m (d\<lparr>dnop_choice := c\<rparr>) }"

definition put_dsop :: "DNDSMessage \<Rightarrow> dsop_choice \<Rightarrow> DNDSMessage option" where [union_defs]:
  "put_dsop m c = do { d \<leftarrow> dsm_of m; dsm_put m (d\<lparr>dsop_choice := c\<rparr>) }"

definition authRequest_of :: "DNDSMessage \<Rightarrow> AuthRequest option" where [union_defs]:
  "authRequest_of m = do {
     d \<leftarrow> dnm_of m;
     case dnop_choice d of DnopZero \<Rightarrow> Some authRequest_zero | AuthRequest r \<Rightarrow> Some r | _ \<Rightarrow> None }"

abbreviation authRequest_put :: "DNDSMessage \<Rightarrow> AuthRequest \<Rightarrow> DNDSMessage option" where
  "authRequest_put m r \<equiv> put_dnop m (AuthRequest r)"

definition netinfoRequest_of :: "DNDSMessage \<Rightarrow> NetinfoRequest option" where [union_defs]:
  "netinfoRequest_of m = do {
     d \<leftarrow> dnm_of m;
     case dnop_choice d of DnopZero \<Rightarrow> Some netinfoRequest_zero | NetinfoRequest r \<Rightarrow> Some r | _ \<Rightarrow> None }"

abbreviation netinfoRequest_put :: "DNDSMessage \<Rightarrow> NetinfoRequest \<Rightarrow> DNDSMessage option" where
  "netinfoRequest_put m r \<equiv> put_dnop m (NetinfoRequest r)"

definition netinfoResponse_of :: "DNDSMessage \<Rightarrow> NetinfoResponse option" where [union_defs]:
  "netinfoResponse_of m = do {
     d \<leftarrow> dnm_of m;
     case dnop_choice d of DnopZero \<Rightarrow> Some netinfoResponse_zero | NetinfoResponse r \<Rightarrow> Some r | _ \<Rightarrow> None }"

abbreviation netinfoResponse_put :: "DNDSMessage \<Rightarrow> NetinfoResponse \<Rightarrow> DNDSMessage option" where
  "netinfoResponse_put m r \<equiv> put_dnop m (NetinfoResponse r)"

definition provRequest_of :: "DNDSMessage \<Rightarrow> ProvRequest option" where [union_defs]:
  "provRequest_of m = do {
     d \<leftarrow> dnm_of m;
     case dnop_choice d of DnopZero \<Rightarrow> Some provRequest_zero | ProvRequest r \<Rightarrow> Some r | _ \<Rightarrow> None }"

abbreviation provRequest_put :: "DNDSMessage \<Rightarrow> ProvRequest \<Rightarrow> DNDSMessage option" where
  "provRequest_put m r \<equiv> put_dnop m (ProvRequest r)"

definition provResponse_of :: "DNDSMessage \<Rightarrow> ProvResponse option" where [union_defs]:
  "provResponse_of m = do {
     d \<leftarrow> dnm_of m;
     case dnop_choice d of DnopZero \<Rightarrow> Some provResponse_zero | ProvResponse r \<Rightarrow> Some r | _ \<Rightarrow> None }"

abbreviation provResponse_put :: "DNDSMessage \<Rightarrow> ProvResponse \<Rightarrow> DNDSMessage option" where
  "provResponse_put m r \<equiv> put_dnop m (ProvResponse r)"

definition p2pRequest_of :: "DNDSMessage \<Rightarrow> P2pRequest option" where [union_defs]:
  "p2pRequest_of m = do {
     d \<leftarrow> dnm_of m;
     case dnop_choice d of DnopZero \<Rightarrow> Some p2pRequest_zero | P2pRequest r \<Rightarrow> Some r | _ \<Rightarrow> None }"

abbreviation p2pRequest_put :: "DNDSMessage \<Rightarrow> P2pRequest \<Rightarrow> DNDSMessage option" where
  "p2pRequest_put m r \<equiv> put_dnop m (P2pRequest r)"

definition p2pResponse_of :: "DNDSMessage \<Rightarrow> P2pResponse option" where [union_defs]:
  "p2pResponse_of m = do {
     d \<leftarrow> dnm_of m;
     case dnop_choice d of DnopZero \<Rightarrow> Some p2pResponse_zero | P2pResponse r \<Rightarrow> Some r | _ \<Rightarrow> None }"

abbreviation p2pResponse_put :: "DNDSMessage \<Rightarrow> P2pResponse \<Rightarrow> DNDSMessage option" where
  "p2pResponse_put m r \<equiv> put_dnop m (P2pResponse r)"

definition authResponse_of :: "DNDSMessage \<Rightarrow> int option" where [union_defs]:
  "authResponse_of m = do {
     d \<leftarrow> dnm_of m;
     case dnop_choice d of DnopZero \<Rightarrow> Some 0 | AuthResponse r \<Rightarrow> Some r | _ \<Rightarrow> None }"

abbreviation authResponse_put :: "DNDSMessage \<Rightarrow> int \<Rightarrow> DNDSMessage option" where
  "authResponse_put m r \<equiv> put_dnop m (AuthResponse r)"

definition addRequest_of :: "DNDSMessage \<Rightarrow> DNDSObject option" where [union_defs]:
  "addRequest_of m = do {
     d \<leftarrow> dsm_of m;
     case dsop_choice d of DsopZero \<Rightarrow> Some object_zero | AddRequest r \<Rightarrow> Some r | _ \<Rightarrow> None }"

abbreviation addRequest_put :: "DNDSMessage \<Rightarrow> DNDSObject \<Rightarrow> DNDSMessage option" where
  "addRequest_put m r \<equiv> put_dsop m (AddRequest r)"

definition addResponse_of :: "DNDSMessage \<Rightarrow> int option" where [union_defs]:
  "addResponse_of m = do {
     d \<leftarrow> dsm_of m;
     case dsop_choice d of DsopZero \<Rightarrow> Some 0 | AddResponse r \<Rightarrow> Some r | _ \<Rightarrow> None }"

abbreviation addResponse_put :: "DNDSMessage \<Rightarrow> int \<Rightarrow> DNDSMessage option" where
  "addResponse_put m r \<equiv> put_dsop m (AddResponse r)"

definition delRequest_of :: "DNDSMessage \<Rightarrow> DNDSObject option" where [union_defs]:
  "delRequest_of m = do {
     d \<leftarrow> dsm_of m;
     case dsop_choice d of DsopZero \<Rightarrow> Some object_zero | DelRequest r \<Rightarrow> Some r | _ \<Rightarrow> None }"

abbreviation delRequest_put :: "DNDSMessage \<Rightarrow> DNDSObject \<Rightarrow> DNDSMessage option" where
  "delRequest_put m r \<equiv> put_dsop m (DelRequest r)"

definition delResponse_of :: "DNDSMessage \<Rightarrow> int option" where [union_defs]:
  "delResponse_of m = do {
     d \<leftarrow> dsm_of m;
     case dsop_choice d of DsopZero \<Rightarrow> Some 0 | DelResponse r \<Rightarrow> Some r | _ \<Rightarrow> None }"

abbreviation delResponse_put :: "DNDSMessage \<Rightarrow> int \<Rightarrow> DNDSMessage option" where
  "delResponse_put m r \<equiv> put_dsop m (DelResponse r)"

definition modifyRequest_of :: "DNDSMessage \<Rightarrow> DNDSObject option" where [union_defs]:
  "modifyRequest_of m = do {
     d \<leftarrow> dsm_of m;
     case dsop_choice d of DsopZero \<Rightarrow> Some object_zero | ModifyRequest r \<Rightarrow> Some r | _ \<Rightarrow> None }"

abbreviation modifyRequest_put :: "DNDSMessage \<Rightarrow> DNDSObject \<Rightarrow> DNDSMessage option" where
  "modifyRequest_put m r \<equiv> put_dsop m (ModifyRequest r)"

definition modifyResponse_of :: "DNDSMessage \<Rightarrow> int option" where [union_defs]:
  "modifyResponse_of m = do {
     d \<leftarrow> dsm_of m;
     case dsop_choice d of DsopZero \<Rightarrow> Some 0 | ModifyResponse r \<Rightarrow> Some r | _ \<Rightarrow> None }"

abbreviation modifyResponse_put :: "DNDSMessage \<Rightarrow> int \<Rightarrow> DNDSMessage option" where
  "modifyResponse_put m r \<equiv> put_dsop m (ModifyResponse r)"

definition nodeConnInfo_of :: "DNDSMessage \<Rightarrow> NodeConnInfo option" where [union_defs]:
  "nodeConnInfo_of m = do {
     d \<leftarrow> dsm_of m;
     case dsop_choice d of DsopZero \<Rightarrow> Some nodeConnInfo_zero | NodeConnInfo r \<Rightarrow> Some r | _ \<Rightarrow> None }"

abbreviation nodeConnInfo_put :: "DNDSMessage \<Rightarrow> NodeConnInfo \<Rightarrow> DNDSMessage option" where
  "nodeConnInfo_put m r \<equiv> put_dsop m (NodeConnInfo r)"

definition searchRequest_of :: "DNDSMessage \<Rightarrow> SearchRequest option" where [union_defs]:
  "searchRequest_of m = do {
     d \<leftarrow> dsm_of m;
     case dsop_choice d of DsopZero \<Rightarrow> Some searchRequest_zero | SearchRequest r \<Rightarrow> Some r | _ \<Rightarrow> None }"

abbreviation searchRequest_put :: "DNDSMessage \<Rightarrow> SearchRequest \<Rightarrow> DNDSMessage option" where
  "searchRequest_put m r \<equiv> put_dsop m (SearchRequest r)"

definition searchResponse_of :: "DNDSMessage \<Rightarrow> SearchResponse option" where [union_defs]:
  "searchResponse_of m = do {
     d \<leftarrow> dsm_of m;
     case dsop_choice d of DsopZero \<Rightarrow> Some searchResponse_zero | SearchResponse r \<Rightarrow> Some r | _ \<Rightarrow> None }"

abbreviation searchResponse_put :: "DNDSMessage \<Rightarrow> SearchResponse \<Rightarrow> DNDSMessage option" where
  "searchResponse_put m r \<equiv> put_dsop m (SearchResponse r)"

definition client_of :: "DNDSObject \<Rightarrow> Client option" where [union_defs]:
  "client_of obj = (case object_choice obj of ObjectZero \<Rightarrow> Some client_zero | Client r \<Rightarrow> Some r | _ \<Rightarrow> None)"

definition client_put :: "DNDSObject \<Rightarrow> Client \<Rightarrow> DNDSObject option" where [union_defs]:
  "client_put obj r = Some (obj\<lparr>object_choice := Client r\<rparr>)"

definition context_of :: "DNDSObject \<Rightarrow> Context option" where [union_defs]:
  "context_of obj = (case object_choice obj of ObjectZero \<Rightarrow> Some context_zero | Context r \<Rightarrow> Some r | _ \<Rightarrow> None)"

definition context_put :: "DNDSObject \<Rightarrow> Context \<Rightarrow> DNDSObject option" where [union_defs]:
  "context_put obj r = Some (obj\<lparr>object_choice := Context r\<rparr>)"

definition node_of :: "DNDSObject \<Rightarrow> Node option" where [union_defs]:
  "node_of obj = (case object_choice obj of ObjectZero \<Rightarrow> Some node_zero | Node r \<Rightarrow> Some r | _ \<Rightarrow> None)"

definition node_put :: "DNDSObject \<Rightarrow> Node \<Rightarrow> DNDSObject option" where [union_defs]:
  "node_put obj r = Some (obj\<lparr>object_choice := Node r\<rparr>)"

section \<open>The guards every accessor starts with\<close>

text \<open>The pointer parameters, the kind of PDU and the operation are checked in this order; the
  last argument of the result is what the caller is left with on an error.\<close>

definition for_msg :: "DNDSMessage option \<Rightarrow> bool \<Rightarrow> 'r \<Rightarrow> (DNDSMessage \<Rightarrow> (DNDS_retcode \<times> 'r) option)
    \<Rightarrow> (DNDS_retcode \<times> 'r) option" where
  "for_msg msg ptrs r f =
     (case msg of
        None \<Rightarrow> Some (DNDS_invalid_param, r)
      | Some m \<Rightarrow> if \<not> ptrs then Some (DNDS_invalid_param, r) else f m)"

definition for_dnm :: "DNDSMessage option \<Rightarrow> bool \<Rightarrow> 'r \<Rightarrow> (DNDSMessage \<Rightarrow> (DNDS_retcode \<times> 'r) option)
    \<Rightarrow> (DNDS_retcode \<times> 'r) option" where
  "for_dnm msg ptrs r f = for_msg msg ptrs r (\<lambda>m.
     if pdu_present m \<noteq> pdu_PR_dnm then Some (DNDS_invalid_pdu, r) else f m)"

definition for_dsm :: "DNDSMessage option \<Rightarrow> bool \<Rightarrow> 'r \<Rightarrow> (DNDSMessage \<Rightarrow> (DNDS_retcode \<times> 'r) option)
    \<Rightarrow> (DNDS_retcode \<times> 'r) option" where
  "for_dsm msg ptrs r f = for_msg msg ptrs r (\<lambda>m.
     if pdu_present m \<noteq> pdu_PR_dsm then Some (DNDS_invalid_pdu, r) else f m)"

text \<open>The accessors of the provisioning messages check the operation without the PDU.\<close>

definition for_prov :: "DNDSMessage option \<Rightarrow> bool \<Rightarrow> dnop_PR \<Rightarrow> 'r
    \<Rightarrow> (DNDSMessage \<Rightarrow> (DNDS_retcode \<times> 'r) option) \<Rightarrow> (DNDS_retcode \<times> 'r) option" where
  "for_prov msg ptrs op r f = for_msg msg ptrs r (\<lambda>m. do {
     d \<leftarrow> dnm_of m;
     if dnop_present d \<noteq> op then Some (DNDS_invalid_op, r) else f m })"

definition for_dnop :: "DNDSMessage option \<Rightarrow> bool \<Rightarrow> dnop_PR \<Rightarrow> 'r
    \<Rightarrow> (DNDSMessage \<Rightarrow> (DNDS_retcode \<times> 'r) option) \<Rightarrow> (DNDS_retcode \<times> 'r) option" where
  "for_dnop msg ptrs op r f = for_dnm msg ptrs r (\<lambda>m. do {
     d \<leftarrow> dnm_of m;
     if dnop_present d \<noteq> op then Some (DNDS_invalid_op, r) else f m })"

definition for_dsop :: "DNDSMessage option \<Rightarrow> bool \<Rightarrow> dsop_PR \<Rightarrow> 'r
    \<Rightarrow> (DNDSMessage \<Rightarrow> (DNDS_retcode \<times> 'r) option) \<Rightarrow> (DNDS_retcode \<times> 'r) option" where
  "for_dsop msg ptrs op r f = for_dsm msg ptrs r (\<lambda>m. do {
     d \<leftarrow> dsm_of m;
     if dsop_present d \<noteq> op then Some (DNDS_invalid_op, r) else f m })"

definition for_object :: "DNDSObject option \<Rightarrow> bool \<Rightarrow> DNDSObject_PR \<Rightarrow> DNDS_retcode \<Rightarrow> 'r
    \<Rightarrow> (DNDSObject \<Rightarrow> (DNDS_retcode \<times> 'r) option) \<Rightarrow> (DNDS_retcode \<times> 'r) option" where
  "for_object object ptrs ty err r f =
     (case object of
        None \<Rightarrow> Some (DNDS_invalid_param, r)
      | Some obj \<Rightarrow>
          if \<not> ptrs then Some (DNDS_invalid_param, r)
          else if object_present obj \<noteq> ty then Some (err, r) else f obj)"

lemmas guard_defs = for_msg_def for_dnm_def for_dsm_def for_prov_def for_dnop_def for_dsop_def for_object_def

section \<open>The bodies the accessors share\<close>

text \<open>An address in text form into an embedded octet string: the buffer is allocated first, the
  size is set last.\<close>

definition octets_set_inet :: "bool \<Rightarrow> octets \<Rightarrow> u8 list \<Rightarrow> (DNDS_retcode \<times> octets) option" where
  "octets_set_inet ok oct s =
     (if \<not> ok then Some (DNDS_alloc_failed, oct\<lparr>obuf := None\<rparr>)
      else do {
        t \<leftarrow> cstr s;
        case inet_pton t of
          None \<Rightarrow> Some (DNDS_conversion_failed, oct\<lparr>obuf := Some [0, 0, 0, 0]\<rparr>)
        | Some b \<Rightarrow> Some (DNDS_success, oct\<lparr>obuf := Some b, osize := 4\<rparr>) })"

definition octets_get_inet :: "octets \<Rightarrow> (DNDS_retcode \<times> string option) option" where
  "octets_get_inet oct = do {
     b \<leftarrow> obuf oct;
     ret \<leftarrow> inet_ntop b 16;
     Some (case ret of None \<Rightarrow> (DNDS_conversion_failed, None) | Some s \<Rightarrow> (DNDS_success, Some s)) }"

definition octets_set_mac :: "bool \<Rightarrow> octets \<Rightarrow> u8 list \<Rightarrow> (DNDS_retcode \<times> octets) option" where
  "octets_set_mac ok oct s =
     (if \<not> ok then Some (DNDS_alloc_failed, oct\<lparr>obuf := None\<rparr>)
      else do { b \<leftarrow> memcpy s ETHER_ADDR_LEN; Some (DNDS_success, oct\<lparr>obuf := Some b, osize := 6\<rparr>) })"

text \<open>Optional fields are pointers to structures allocated on demand.\<close>

definition optional_set_string ::
  "(nat \<Rightarrow> bool) \<Rightarrow> u8 list \<Rightarrow> u64 \<Rightarrow> (DNDS_retcode \<times> octets option) option" where
  "optional_set_string al s len =
     (if \<not> al 0 then Some (DNDS_alloc_failed, None)
      else do {
        b \<leftarrow> strdup (al 1) s;
        Some (DNDS_success, Some \<lparr>obuf = b, osize = int_of_size len\<rparr>) })"

definition optional_get_string :: "octets option \<Rightarrow> (DNDS_retcode \<times> (u8 list option \<times> u64) option) option" where
  "optional_get_string f =
     (case f of
        None \<Rightarrow> Some (DNDS_value_not_present, None)
      | Some oct \<Rightarrow> Some (DNDS_success, Some (obuf oct, size_of_int (osize oct))))"

definition optional_set_block ::
  "(nat \<Rightarrow> bool) \<Rightarrow> u8 list \<Rightarrow> u64 \<Rightarrow> (DNDS_retcode \<times> octets option) option" where
  "optional_set_block al s len =
     (if \<not> al 0 then Some (DNDS_alloc_failed, None)
      else if \<not> al 1 then Some (DNDS_alloc_failed, Some octets_zero)
      else do {
        b \<leftarrow> memcpy s (unat len);
        Some (DNDS_success, Some \<lparr>obuf = Some b, osize = int_of_size len\<rparr>) })"

definition optional_set_inet ::
  "(nat \<Rightarrow> bool) \<Rightarrow> u8 list \<Rightarrow> (DNDS_retcode \<times> octets option) option" where
  "optional_set_inet al s =
     (if \<not> al 0 then Some (DNDS_alloc_failed, None)
      else do { (rc, oct) \<leftarrow> octets_set_inet (al 1) octets_zero s; Some (rc, Some oct) })"

text \<open>An optional integer of \<open>need\<close> bytes written into a block of \<open>bytes\<close> bytes.\<close>

definition optional_set_scalar ::
  "bool \<Rightarrow> nat \<Rightarrow> nat \<Rightarrow> 'a \<Rightarrow> (DNDS_retcode \<times> 'a option) option" where
  "optional_set_scalar ok bytes need v =
     (if \<not> ok then Some (DNDS_alloc_failed, None)
      else if need \<le> bytes then Some (DNDS_success, Some v) else None)"

end
