(* ===== verification/Dnds.thy ===== *)
theory Dnds
  imports Dnds_Types
begin

text \<open>
  \<open>libnvcore/src/dnds.c\<close>, the message header and the Dynamic Network messages: the accessors
  with which the agents and the switch build and read a message.  A setter returns its code and
  the message (updated in place); a getter returns its code and, on success, what it stored
  through its output pointers; a boolean argument stands for an output pointer the code
  checks, true when it is not null.  The argument \<open>al\<close> tells which of the allocations of the call succeed.
\<close>

section \<open>Messages\<close>

definition DNDSMessage_new :: "bool \<Rightarrow> DNDS_retcode \<times> DNDSMessage option" where
  "DNDSMessage_new ok =
     (if ok then (DNDS_success, Some \<lparr>msg_version = 1, msg_channel = 0, pdu_present = pdu_PR_NOTHING,
                                      pdu_choice = PduZero\<rparr>)
      else (DNDS_alloc_failed, None))"

definition DNDSMessage_set_channel ::
  "DNDSMessage option \<Rightarrow> u8 \<Rightarrow> (DNDS_retcode \<times> DNDSMessage option) option" where
  "DNDSMessage_set_channel msg channel =
     for_msg msg True msg (\<lambda>m. Some (DNDS_success, Some (m\<lparr>msg_channel := uint channel\<rparr>)))"

definition DNDSMessage_get_channel :: "DNDSMessage option \<Rightarrow> (DNDS_retcode \<times> u8 option) option" where
  "DNDSMessage_get_channel msg =
     for_msg msg True None (\<lambda>m. Some (DNDS_success, Some (word_of_int (msg_channel m))))"

definition DNDSMessage_set_pdu ::
  "DNDSMessage option \<Rightarrow> pdu_PR \<Rightarrow> (DNDS_retcode \<times> DNDSMessage option) option" where
  "DNDSMessage_set_pdu msg pdu =
     for_msg msg True msg (\<lambda>m. Some (DNDS_success, Some (m\<lparr>pdu_present := pdu\<rparr>)))"

definition DNDSMessage_get_pdu :: "DNDSMessage option \<Rightarrow> (DNDS_retcode \<times> pdu_PR option) option" where
  "DNDSMessage_get_pdu msg = for_msg msg True None (\<lambda>m. Some (DNDS_success, Some (pdu_present m)))"

text \<open>The frame accessors check nothing and return 0; a frame is the buffer the pointer designates.\<close>

definition DNDSMessage_set_ethernet ::
  "DNDSMessage option \<Rightarrow> u8 list option \<Rightarrow> u64 \<Rightarrow> (int \<times> DNDSMessage option) option" where
  "DNDSMessage_set_ethernet msg frame len = do {
     m \<leftarrow> msg;
     Some (0, Some (m\<lparr>pdu_choice := Ethernet \<lparr>obuf = frame, osize = int_of_size len\<rparr>\<rparr>)) }"

definition DNDSMessage_get_ethernet ::
  "DNDSMessage option \<Rightarrow> (int \<times> u8 list option \<times> u64) option" where
  "DNDSMessage_get_ethernet msg = do {
     m \<leftarrow> msg;
     e \<leftarrow> (case pdu_choice m of PduZero \<Rightarrow> Some octets_zero | Ethernet e \<Rightarrow> Some e | _ \<Rightarrow> None);
     Some (0, obuf e, size_of_int (osize e)) }"

section \<open>DNMessage\<close>

definition DNMessage_set_seqNumber ::
  "DNDSMessage option \<Rightarrow> u32 \<Rightarrow> (DNDS_retcode \<times> DNDSMessage option) option" where
  "DNMessage_set_seqNumber msg seqNumber =
     for_dnm msg True msg (\<lambda>m. do {
       r \<leftarrow> dnm_of m;
       m' \<leftarrow> dnm_put m (r\<lparr>dnm_seqNumber := ucast seqNumber\<rparr>);
       Some (DNDS_success, Some m') })"

definition DNMessage_get_seqNumber ::
  "DNDSMessage option \<Rightarrow>  (DNDS_retcode \<times> u32 option) option" where
  "DNMessage_get_seqNumber msg =
     for_dnm msg True None (\<lambda>m. do {
       r \<leftarrow> dnm_of m;
       Some (DNDS_success, Some (ucast (dnm_seqNumber r))) })"

definition DNMessage_set_ackNumber ::
  "DNDSMessage option \<Rightarrow> u32 \<Rightarrow> (DNDS_retcode \<times> DNDSMessage option) option" where
  "DNMessage_set_ackNumber msg ackNumber =
     for_dnm msg True msg (\<lambda>m. do {
       r \<leftarrow> dnm_of m;
       m' \<leftarrow> dnm_put m (r\<lparr>dnm_ackNumber := ucast ackNumber\<rparr>);
       Some (DNDS_success, Some m') })"

definition DNMessage_get_ackNumber ::
  "DNDSMessage option \<Rightarrow>  (DNDS_retcode \<times> u32 option) option" where
  "DNMessage_get_ackNumber msg =
     for_dnm msg True None (\<lambda>m. do {
       r \<leftarrow> dnm_of m;
       Some (DNDS_success, Some (ucast (dnm_ackNumber r))) })"

definition DNMessage_set_operation ::
  "DNDSMessage option \<Rightarrow> dnop_PR \<Rightarrow> (DNDS_retcode \<times> DNDSMessage option) option" where
  "DNMessage_set_operation msg operation =
     for_dnm msg True msg (\<lambda>m. do {
       r \<leftarrow> dnm_of m;
       m' \<leftarrow> dnm_put m (r\<lparr>dnop_present := operation\<rparr>);
       Some (DNDS_success, Some m') })"

definition DNMessage_get_operation ::
  "DNDSMessage option \<Rightarrow>  (DNDS_retcode \<times> dnop_PR option) option" where
  "DNMessage_get_operation msg =
     for_dnm msg True None (\<lambda>m. do {
       r \<leftarrow> dnm_of m;
       Some (DNDS_success, Some (dnop_present r)) })"

section \<open>AuthRequest\<close>

definition AuthRequest_set_certName ::
  "(nat \<Rightarrow> bool) \<Rightarrow> DNDSMessage option \<Rightarrow> u8 list option \<Rightarrow> u64 \<Rightarrow> (DNDS_retcode \<times> DNDSMessage option) option" where
  "AuthRequest_set_certName al msg certName len =
     for_dnop msg (certName \<noteq> None) dnop_PR_authRequest msg (\<lambda>m. do {
       s \<leftarrow> certName;
       s \<leftarrow> strdup (al 0) s;
       r \<leftarrow> authRequest_of m;
       m' \<leftarrow> authRequest_put m (r\<lparr>authRequest_certName := \<lparr>obuf = s, osize = int_of_size len\<rparr>\<rparr>);
       Some (DNDS_success, Some m') })"

definition AuthRequest_get_certName ::
  "DNDSMessage option \<Rightarrow> bool \<Rightarrow> bool \<Rightarrow> (DNDS_retcode \<times> (u8 list option \<times> u64) option) option" where
  "AuthRequest_get_certName msg certName len =
     for_dnop msg (certName \<and> len) dnop_PR_authRequest None (\<lambda>m. do {
       r \<leftarrow> authRequest_of m;
       Some (DNDS_success, Some (obuf (authRequest_certName r), size_of_int (osize (authRequest_certName r)))) })"

section \<open>AuthResponse\<close>

definition AuthResponse_set_result ::
  "DNDSMessage option \<Rightarrow> int \<Rightarrow> (DNDS_retcode \<times> DNDSMessage option) option" where
  "AuthResponse_set_result msg result =
     for_dnop msg True dnop_PR_authResponse msg (\<lambda>m. do {
       m' \<leftarrow> authResponse_put m result;
       Some (DNDS_success, Some m') })"

definition AuthResponse_get_result ::
  "DNDSMessage option \<Rightarrow> bool \<Rightarrow> (DNDS_retcode \<times> int option) option" where
  "AuthResponse_get_result msg result =
     for_dnop msg (result) dnop_PR_authResponse None (\<lambda>m. do {
       r \<leftarrow> authResponse_of m;
       Some (DNDS_success, Some r) })"

section \<open>NetinfoRequest\<close>

definition NetinfoRequest_set_ipLocal ::
  "(nat \<Rightarrow> bool) \<Rightarrow> DNDSMessage option \<Rightarrow> u8 list option \<Rightarrow> (DNDS_retcode \<times> DNDSMessage option) option" where
  "NetinfoRequest_set_ipLocal al msg ipLocal =
     for_dnop msg (ipLocal \<noteq> None) dnop_PR_netinfoRequest msg (\<lambda>m. do {
       r \<leftarrow> netinfoRequest_of m;
       s \<leftarrow> ipLocal;
       (rc, oct) \<leftarrow> octets_set_inet (al 0) (netinfoRequest_ipLocal r) s;
       m' \<leftarrow> netinfoRequest_put m (r\<lparr>netinfoRequest_ipLocal := oct\<rparr>);
       Some (rc, Some m') })"

definition NetinfoRequest_get_ipLocal ::
  "DNDSMessage option \<Rightarrow> bool \<Rightarrow> (DNDS_retcode \<times> string option) option" where
  "NetinfoRequest_get_ipLocal msg ipLocal =
     for_dnop msg (ipLocal) dnop_PR_netinfoRequest None (\<lambda>m. do {
       r \<leftarrow> netinfoRequest_of m;
       octets_get_inet (netinfoRequest_ipLocal r) })"

definition NetinfoRequest_set_macAddr ::
  "(nat \<Rightarrow> bool) \<Rightarrow> DNDSMessage option \<Rightarrow> u8 list option \<Rightarrow> (DNDS_retcode \<times> DNDSMessage option) option" where
  "NetinfoRequest_set_macAddr al msg macAddr =
     for_dnop msg (macAddr \<noteq> None) dnop_PR_netinfoRequest msg (\<lambda>m. do {
       r \<leftarrow> netinfoRequest_of m;
       s \<leftarrow> macAddr;
       (rc, oct) \<leftarrow> octets_set_mac (al 0) (netinfoRequest_macAddr r) s;
       m' \<leftarrow> netinfoRequest_put m (r\<lparr>netinfoRequest_macAddr := oct\<rparr>);
       Some (rc, Some m') })"

definition NetinfoRequest_get_macAddr ::
  "DNDSMessage option \<Rightarrow> bool \<Rightarrow> (DNDS_retcode \<times> u8 list option) option" where
  "NetinfoRequest_get_macAddr msg macAddr =
     for_dnop msg (macAddr) dnop_PR_netinfoRequest None (\<lambda>m. do {
       r \<leftarrow> netinfoRequest_of m;
       b \<leftarrow> obuf (netinfoRequest_macAddr r);
       b \<leftarrow> memcpy b ETHER_ADDR_LEN;
       Some (DNDS_success, Some b) })"

section \<open>NetinfoResponse\<close>

definition NetinfoResponse_set_ipAddress ::
  "(nat \<Rightarrow> bool) \<Rightarrow> DNDSMessage option \<Rightarrow> u8 list option \<Rightarrow> (DNDS_retcode \<times> DNDSMessage option) option" where
  "NetinfoResponse_set_ipAddress al msg ipAddress =
     for_dnop msg (ipAddress \<noteq> None) dnop_PR_netinfoResponse msg (\<lambda>m. do {
       r \<leftarrow> netinfoResponse_of m;
       s \<leftarrow> ipAddress;
       (rc, oct) \<leftarrow> octets_set_inet (al 0) (netinfoResponse_ipAddress r) s;
       m' \<leftarrow> netinfoResponse_put m (r\<lparr>netinfoResponse_ipAddress := oct\<rparr>);
       Some (rc, Some m') })"

definition NetinfoResponse_get_ipAddress ::
  "DNDSMessage option \<Rightarrow> bool \<Rightarrow> (DNDS_retcode \<times> string option) option" where
  "NetinfoResponse_get_ipAddress msg ipAddress =
     for_dnop msg (ipAddress) dnop_PR_netinfoResponse None (\<lambda>m. do {
       r \<leftarrow> netinfoResponse_of m;
       octets_get_inet (netinfoResponse_ipAddress r) })"

definition NetinfoResponse_set_netmask ::
  "(nat \<Rightarrow> bool) \<Rightarrow> DNDSMessage option \<Rightarrow> u8 list option \<Rightarrow> (DNDS_retcode \<times> DNDSMessage option) option" where
  "NetinfoResponse_set_netmask al msg netmask =
     for_dnop msg (netmask \<noteq> None) dnop_PR_netinfoResponse msg (\<lambda>m. do {
       r \<leftarrow> netinfoResponse_of m;
       s \<leftarrow> netmask;
       (rc, oct) \<leftarrow> octets_set_inet (al 0) (netinfoResponse_netmask r) s;
       m' \<leftarrow> netinfoResponse_put m (r\<lparr>netinfoResponse_netmask := oct\<rparr>);
       Some (rc, Some m') })"

definition NetinfoResponse_get_netmask ::
  "DNDSMessage option \<Rightarrow> bool \<Rightarrow> (DNDS_retcode \<times> string option) option" where
  "NetinfoResponse_get_netmask msg netmask =
     for_dnop msg (netmask) dnop_PR_netinfoResponse None (\<lambda>m. do {
       r \<leftarrow> netinfoResponse_of m;
       octets_get_inet (netinfoResponse_netmask r) })"

definition NetinfoResponse_set_result ::
  "DNDSMessage option \<Rightarrow> int \<Rightarrow> (DNDS_retcode \<times> DNDSMessage option) option" where
  "NetinfoResponse_set_result msg result =
     for_dnop msg True dnop_PR_netinfoResponse msg (\<lambda>m. do {
       r \<leftarrow> netinfoResponse_of m;
       m' \<leftarrow> netinfoResponse_put m (r\<lparr>netinfoResponse_result := result\<rparr>);
       Some (DNDS_success, Some m') })"

definition NetinfoResponse_get_result ::
  "DNDSMessage option \<Rightarrow> bool \<Rightarrow> (DNDS_retcode \<times> int option) option" where
  "NetinfoResponse_get_result msg result =
     for_dnop msg (result) dnop_PR_netinfoResponse None (\<lambda>m. do {
       r \<leftarrow> netinfoResponse_of m;
       Some (DNDS_success, Some (netinfoResponse_result r)) })"

section \<open>ProvRequest\<close>

definition ProvRequest_set_provCode ::
  "(nat \<Rightarrow> bool) \<Rightarrow> DNDSMessage option \<Rightarrow> u8 list option \<Rightarrow> u64 \<Rightarrow> (DNDS_retcode \<times> DNDSMessage option) option" where
  "ProvRequest_set_provCode al msg provCode len =
     for_prov msg (provCode \<noteq> None) dnop_PR_provRequest msg (\<lambda>m. do {
       r \<leftarrow> provRequest_of m;
       s \<leftarrow> provCode;
       (rc, oct) \<leftarrow> optional_set_string al s len;
       m' \<leftarrow> provRequest_put m (r\<lparr>provRequest_provCode := oct\<rparr>);
       Some (rc, Some m') })"

definition ProvRequest_get_provCode ::
  "DNDSMessage option \<Rightarrow> bool \<Rightarrow> bool \<Rightarrow> (DNDS_retcode \<times> (u8 list option \<times> u64) option) option" where
  "ProvRequest_get_provCode msg provCode len =
     for_prov msg (provCode \<and> len) dnop_PR_provRequest None (\<lambda>m. do {
       r \<leftarrow> provRequest_of m;
       optional_get_string (provRequest_provCode r) })"

section \<open>ProvResponse\<close>

definition ProvResponse_set_certificate ::
  "(nat \<Rightarrow> bool) \<Rightarrow> DNDSMessage option \<Rightarrow> u8 list option \<Rightarrow> u64 \<Rightarrow> (DNDS_retcode \<times> DNDSMessage option) option" where
  "ProvResponse_set_certificate al msg certificate len =
     for_prov msg (certificate \<noteq> None) dnop_PR_provResponse msg (\<lambda>m. do {
       r \<leftarrow> provResponse_of m;
       s \<leftarrow> certificate;
       (rc, oct) \<leftarrow> optional_set_string al s len;
       m' \<leftarrow> provResponse_put m (r\<lparr>provResponse_certificate := oct\<rparr>);
       Some (rc, Some m') })"

definition ProvResponse_get_certificate ::
  "DNDSMessage option \<Rightarrow> bool \<Rightarrow> bool \<Rightarrow> (DNDS_retcode \<times> (u8 list option \<times> u64) option) option" where
  "ProvResponse_get_certificate msg certificate len =
     for_prov msg (certificate \<and> len) dnop_PR_provResponse None (\<lambda>m. do {
       r \<leftarrow> provResponse_of m;
       optional_get_string (provResponse_certificate r) })"

definition ProvResponse_set_certificateKey ::
  "(nat \<Rightarrow> bool) \<Rightarrow> DNDSMessage option \<Rightarrow> u8 list option \<Rightarrow> u64 \<Rightarrow> (DNDS_retcode \<times> DNDSMessage option) option" where
  "ProvResponse_set_certificateKey al msg certificateKey len =
     for_prov msg (certificateKey \<noteq> None) dnop_PR_provResponse msg (\<lambda>m. do {
       r \<leftarrow> provResponse_of m;
       s \<leftarrow> certificateKey;
       (rc, oct) \<leftarrow> optional_set_string al s len;
       m' \<leftarrow> provResponse_put m (r\<lparr>provResponse_certificateKey := oct\<rparr>);
       Some (rc, Some m') })"

definition ProvResponse_get_certificateKey ::
  "DNDSMessage option \<Rightarrow> bool \<Rightarrow> bool \<Rightarrow> (DNDS_retcode \<times> (u8 list option \<times> u64) option) option" where
  "ProvResponse_get_certificateKey msg certificateKey len =
     for_prov msg (certificateKey \<and> len) dnop_PR_provResponse None (\<lambda>m. do {
       r \<leftarrow> provResponse_of m;
       optional_get_string (provResponse_certificateKey r) })"

definition ProvResponse_set_trustedCert ::
  "(nat \<Rightarrow> bool) \<Rightarrow> DNDSMessage option \<Rightarrow> u8 list option \<Rightarrow> u64 \<Rightarrow> (DNDS_retcode \<times> DNDSMessage option) option" where
  "ProvResponse_set_trustedCert al msg trustedCert len =
     for_prov msg (trustedCert \<noteq> None) dnop_PR_provResponse msg (\<lambda>m. do {
       r \<leftarrow> provResponse_of m;
       s \<leftarrow> trustedCert;
       (rc, oct) \<leftarrow> optional_set_string al s len;
       m' \<leftarrow> provResponse_put m (r\<lparr>provResponse_trustedCert := oct\<rparr>);
       Some (rc, Some m') })"

definition ProvResponse_get_trustedCert ::
  "DNDSMessage option \<Rightarrow> bool \<Rightarrow> bool \<Rightarrow> (DNDS_retcode \<times> (u8 list option \<times> u64) option) option" where
  "ProvResponse_get_trustedCert msg trustedCert len =
     for_prov msg (trustedCert \<and> len) dnop_PR_provResponse None (\<lambda>m. do {
       r \<leftarrow> provResponse_of m;
       optional_get_string (provResponse_trustedCert r) })"

definition ProvResponse_get_ipAddress ::
  "DNDSMessage option \<Rightarrow> bool \<Rightarrow> (DNDS_retcode \<times> string option) option" where
  "ProvResponse_get_ipAddress msg ipAddress =
     for_prov msg (ipAddress) dnop_PR_provResponse None (\<lambda>m. do {
       r \<leftarrow> provResponse_of m;
       case provResponse_ipAddress r of
         None \<Rightarrow> Some (DNDS_value_not_present, None)
       | Some oct \<Rightarrow> octets_get_inet oct })"

definition ProvResponse_set_ipAddress ::
  "(nat \<Rightarrow> bool) \<Rightarrow> DNDSMessage option \<Rightarrow> u8 list option \<Rightarrow> (DNDS_retcode \<times> DNDSMessage option) option" where
  "ProvResponse_set_ipAddress al msg ipAddress =
     for_prov msg (ipAddress \<noteq> None) dnop_PR_provResponse msg (\<lambda>m. do {
       r \<leftarrow> provResponse_of m;
       s \<leftarrow> ipAddress;
       (rc, oct) \<leftarrow> optional_set_inet al s;
       m' \<leftarrow> provResponse_put m (r\<lparr>provResponse_ipAddress := oct\<rparr>);
       Some (rc, Some m') })"

section \<open>P2pRequest\<close>

definition P2pRequest_set_macAddrDst ::
  "(nat \<Rightarrow> bool) \<Rightarrow> DNDSMessage option \<Rightarrow> u8 list option \<Rightarrow> (DNDS_retcode \<times> DNDSMessage option) option" where
  "P2pRequest_set_macAddrDst al msg macAddrDst =
     for_dnop msg (macAddrDst \<noteq> None) dnop_PR_p2pRequest msg (\<lambda>m. do {
       r \<leftarrow> p2pRequest_of m;
       s \<leftarrow> macAddrDst;
       (rc, oct) \<leftarrow> octets_set_mac (al 0) (p2pRequest_macAddrDst r) s;
       m' \<leftarrow> p2pRequest_put m (r\<lparr>p2pRequest_macAddrDst := oct\<rparr>);
       Some (rc, Some m') })"

definition P2pRequest_get_macAddrDst ::
  "DNDSMessage option \<Rightarrow>  (DNDS_retcode \<times> u8 list option) option" where
  "P2pRequest_get_macAddrDst msg =
     for_dnop msg True dnop_PR_p2pRequest None (\<lambda>m. do {
       r \<leftarrow> p2pRequest_of m;
       b \<leftarrow> obuf (p2pRequest_macAddrDst r);
       b \<leftarrow> memcpy b ETHER_ADDR_LEN;
       Some (DNDS_success, Some b) })"

definition P2pRequest_set_ipAddrDst ::
  "(nat \<Rightarrow> bool) \<Rightarrow> DNDSMessage option \<Rightarrow> u8 list option \<Rightarrow> (DNDS_retcode \<times> DNDSMessage option) option" where
  "P2pRequest_set_ipAddrDst al msg ipAddrDst =
     for_dnop msg (ipAddrDst \<noteq> None) dnop_PR_p2pRequest msg (\<lambda>m. do {
       r \<leftarrow> p2pRequest_of m;
       s \<leftarrow> ipAddrDst;
       (rc, oct) \<leftarrow> octets_set_inet (al 0) (p2pRequest_ipAddrDst r) s;
       m' \<leftarrow> p2pRequest_put m (r\<lparr>p2pRequest_ipAddrDst := oct\<rparr>);
       Some (rc, Some m') })"

definition P2pRequest_get_ipAddrDst ::
  "DNDSMessage option \<Rightarrow> bool \<Rightarrow> (DNDS_retcode \<times> string option) option" where
  "P2pRequest_get_ipAddrDst msg ipAddrDst =
     for_dnop msg (ipAddrDst) dnop_PR_p2pRequest None (\<lambda>m. do {
       r \<leftarrow> p2pRequest_of m;
       octets_get_inet (p2pRequest_ipAddrDst r) })"

definition P2pRequest_set_port ::
  "DNDSMessage option \<Rightarrow> u32 \<Rightarrow> (DNDS_retcode \<times> DNDSMessage option) option" where
  "P2pRequest_set_port msg port =
     for_dnop msg True dnop_PR_p2pRequest msg (\<lambda>m. do {
       r \<leftarrow> p2pRequest_of m;
       m' \<leftarrow> p2pRequest_put m (r\<lparr>p2pRequest_port := ucast port\<rparr>);
       Some (DNDS_success, Some m') })"

definition P2pRequest_get_port ::
  "DNDSMessage option \<Rightarrow> bool \<Rightarrow> (DNDS_retcode \<times> u32 option) option" where
  "P2pRequest_get_port msg port =
     for_msg msg port None (\<lambda>m. do {
       r \<leftarrow> p2pRequest_of m;
       Some (DNDS_success, Some (ucast (p2pRequest_port r))) })"

definition P2pRequest_set_side ::
  "DNDSMessage option \<Rightarrow> int \<Rightarrow> (DNDS_retcode \<times> DNDSMessage option) option" where
  "P2pRequest_set_side msg side =
     for_dnop msg True dnop_PR_p2pRequest msg (\<lambda>m. do {
       r \<leftarrow> p2pRequest_of m;
       m' \<leftarrow> p2pRequest_put m (r\<lparr>p2pRequest_side := side\<rparr>);
       Some (DNDS_success, Some m') })"

definition P2pRequest_get_side ::
  "DNDSMessage option \<Rightarrow> bool \<Rightarrow> (DNDS_retcode \<times> int option) option" where
  "P2pRequest_get_side msg side =
     for_dnop msg (side) dnop_PR_p2pRequest None (\<lambda>m. do {
       r \<leftarrow> p2pRequest_of m;
       Some (DNDS_success, Some (p2pRequest_side r)) })"

section \<open>P2pResponse\<close>

definition P2pResponse_set_macAddrDst ::
  "(nat \<Rightarrow> bool) \<Rightarrow> DNDSMessage option \<Rightarrow> u8 list option \<Rightarrow> (DNDS_retcode \<times> DNDSMessage option) option" where
  "P2pResponse_set_macAddrDst al msg macAddrDst =
     for_dnop msg (macAddrDst \<noteq> None) dnop_PR_p2pResponse msg (\<lambda>m. do {
       r \<leftarrow> p2pResponse_of m;
       s \<leftarrow> macAddrDst;
       (rc, oct) \<leftarrow> octets_set_mac (al 0) (p2pResponse_macAddrDst r) s;
       m' \<leftarrow> p2pResponse_put m (r\<lparr>p2pResponse_macAddrDst := oct\<rparr>);
       Some (rc, Some m') })"

definition P2pResponse_get_macAddrDst ::
  "DNDSMessage option \<Rightarrow> bool \<Rightarrow> (DNDS_retcode \<times> u8 list option) option" where
  "P2pResponse_get_macAddrDst msg macAddrDst =
     for_dnop msg (macAddrDst) dnop_PR_p2pResponse None (\<lambda>m. do {
       r \<leftarrow> p2pResponse_of m;
       b \<leftarrow> obuf (p2pResponse_macAddrDst r);
       b \<leftarrow> memcpy b ETHER_ADDR_LEN;
       Some (DNDS_success, Some b) })"

definition P2pResponse_set_result ::
  "DNDSMessage option \<Rightarrow> int \<Rightarrow> (DNDS_retcode \<times> DNDSMessage option) option" where
  "P2pResponse_set_result msg result =
     for_dnop msg True dnop_PR_p2pResponse msg (\<lambda>m. do {
       r \<leftarrow> p2pResponse_of m;
       m' \<leftarrow> p2pResponse_put m (r\<lparr>p2pResponse_result := result\<rparr>);
       Some (DNDS_success, Some m') })"

definition P2pResponse_get_result ::
  "DNDSMessage option \<Rightarrow> bool \<Rightarrow> (DNDS_retcode \<times> int option) option" where
  "P2pResponse_get_result msg result =
     for_dnop msg (result) dnop_PR_p2pResponse None (\<lambda>m. do {
       r \<leftarrow> p2pResponse_of m;
       Some (DNDS_success, Some (p2pResponse_result r)) })"

end
