(* ===== verification/Dnds_Ds.thy ===== *)
theory Dnds_Ds
  imports Dnds
begin

text \<open>
  \<open>libnvcore/src/dnds.c\<close>, the Directory Service messages and the objects they carry.  The same
  conventions as in \<open>Dnds\<close>; an object is a value, its optional fields are pointers to what the
  setters allocate.
\<close>

section \<open>Objects\<close>

definition DNDSObject_new :: "bool \<Rightarrow> bool \<Rightarrow> DNDS_retcode \<times> DNDSObject option" where
  "DNDSObject_new object ok =
     (if \<not> object then (DNDS_invalid_param, None)
      else if ok then (DNDS_success, Some object_zero) else (DNDS_alloc_failed, None))"

definition DNDSObject_set_objectType ::
  "DNDSObject option \<Rightarrow> DNDSObject_PR \<Rightarrow> (DNDS_retcode \<times> DNDSObject option) option" where
  "DNDSObject_set_objectType object ty =
     (case object of
        None \<Rightarrow> Some (DNDS_invalid_param, object)
      | Some obj \<Rightarrow> Some (DNDS_success, Some (obj\<lparr>object_present := ty\<rparr>)))"

definition DNDSObject_get_objectType ::
  "DNDSObject option \<Rightarrow> bool \<Rightarrow> (DNDS_retcode \<times> DNDSObject_PR option) option" where
  "DNDSObject_get_objectType object ty =
     (case object of
        None \<Rightarrow> Some (DNDS_invalid_param, None)
      | Some obj \<Rightarrow> if \<not> ty then Some (DNDS_invalid_param, None)
                     else Some (DNDS_success, Some (object_present obj)))"

text \<open>The two functions name the \<open>context\<close> member for their null check; the field is the first
  of either structure, so it is the same pointer.\<close>

definition Client_set_id ::
  "(nat \<Rightarrow> bool) \<Rightarrow> DNDSObject option \<Rightarrow> u32 \<Rightarrow> (DNDS_retcode \<times> DNDSObject option) option" where
  "Client_set_id al object ident =
     for_object object (True) DNDSObject_PR_client DNDS_invalid_object_type object (\<lambda>obj. do {
       r \<leftarrow> client_of obj;
       (rc, oct) \<leftarrow> optional_set_scalar (al 0) 4 8 (ucast ident);
       obj' \<leftarrow> client_put obj (r\<lparr>client_id := oct\<rparr>);
       Some (rc, Some obj') })"

definition Client_get_id ::
  "DNDSObject option \<Rightarrow> bool \<Rightarrow> (DNDS_retcode \<times> u32 option) option" where
  "Client_get_id object ident =
     for_object object (ident) DNDSObject_PR_client DNDS_invalid_object_type None (\<lambda>obj. do {
       r \<leftarrow> client_of obj;
       case client_id r of
         None \<Rightarrow> Some (DNDS_value_not_present, None)
       | Some x \<Rightarrow> Some (DNDS_success, Some (ucast x)) })"

text \<open>The type of the object a request carries; the setters also hand out a pointer to it.\<close>

datatype object_ref = InAddRequest | InDelRequest | InModifyRequest

definition AddRequest_set_objectType ::
  "DNDSMessage option \<Rightarrow> DNDSObject_PR \<Rightarrow> bool \<Rightarrow> (DNDS_retcode \<times> DNDSMessage option \<times> object_ref option) option" where
  "AddRequest_set_objectType msg objType object =
     for_dsop msg (object) dsop_PR_addRequest (msg, None) (\<lambda>m. do {
       r \<leftarrow> addRequest_of m;
       m' \<leftarrow> addRequest_put m (r\<lparr>object_present := objType\<rparr>);
       Some (DNDS_success, Some m', Some InAddRequest) })"

definition AddRequest_get_objectType ::
  "DNDSMessage option \<Rightarrow> bool \<Rightarrow> (DNDS_retcode \<times> DNDSObject_PR option) option" where
  "AddRequest_get_objectType msg objType =
     for_dsop msg (objType) dsop_PR_addRequest None (\<lambda>m. do {
       r \<leftarrow> addRequest_of m;
       Some (DNDS_success, Some (object_present r)) })"

definition DelRequest_set_objectType ::
  "DNDSMessage option \<Rightarrow> DNDSObject_PR \<Rightarrow> bool \<Rightarrow> (DNDS_retcode \<times> DNDSMessage option \<times> object_ref option) option" where
  "DelRequest_set_objectType msg objType object =
     for_dsop msg (object) dsop_PR_delRequest (msg, None) (\<lambda>m. do {
       r \<leftarrow> delRequest_of m;
       m' \<leftarrow> delRequest_put m (r\<lparr>object_present := objType\<rparr>);
       Some (DNDS_success, Some m', Some InDelRequest) })"

definition DelRequest_get_objectType ::
  "DNDSMessage option \<Rightarrow> bool \<Rightarrow> (DNDS_retcode \<times> DNDSObject_PR option) option" where
  "DelRequest_get_objectType msg objType =
     for_dsop msg (objType) dsop_PR_delRequest None (\<lambda>m. do {
       r \<leftarrow> delRequest_of m;
       Some (DNDS_success, Some (object_present r)) })"

definition ModifyRequest_set_objectType ::
  "DNDSMessage option \<Rightarrow> DNDSObject_PR \<Rightarrow> bool \<Rightarrow> (DNDS_retcode \<times> DNDSMessage option \<times> object_ref option) option" where
  "ModifyRequest_set_objectType msg objType object =
     for_dsop msg (object) dsop_PR_modifyRequest (msg, None) (\<lambda>m. do {
       r \<leftarrow> modifyRequest_of m;
       m' \<leftarrow> modifyRequest_put m (r\<lparr>object_present := objType\<rparr>);
       Some (DNDS_success, Some m', Some InModifyRequest) })"

definition ModifyRequest_get_objectType ::
  "DNDSMessage option \<Rightarrow> bool \<Rightarrow> (DNDS_retcode \<times> DNDSObject_PR option) option" where
  "ModifyRequest_get_objectType msg objType =
     for_dsop msg (objType) dsop_PR_modifyRequest None (\<lambda>m. do {
       r \<leftarrow> modifyRequest_of m;
       Some (DNDS_success, Some (object_present r)) })"

definition AddRequest_get_object ::
  "DNDSMessage option \<Rightarrow> bool \<Rightarrow> (DNDS_retcode \<times> object_ref option) option" where
  "AddRequest_get_object msg object =
     for_dsop msg (object) dsop_PR_addRequest None (\<lambda>m. Some (DNDS_success, Some InAddRequest))"

definition DelRequest_get_object ::
  "DNDSMessage option \<Rightarrow> bool \<Rightarrow> (DNDS_retcode \<times> object_ref option) option" where
  "DelRequest_get_object msg object =
     for_dsop msg (object) dsop_PR_delRequest None (\<lambda>m. Some (DNDS_success, Some InAddRequest))"

definition ModifyRequest_get_object ::
  "DNDSMessage option \<Rightarrow> bool \<Rightarrow> (DNDS_retcode \<times> object_ref option) option" where
  "ModifyRequest_get_object msg object =
     for_dsop msg (object) dsop_PR_modifyRequest None (\<lambda>m. Some (DNDS_success, Some InModifyRequest))"

section \<open>DSMessage\<close>

definition DSMessage_set_seqNumber ::
  "DNDSMessage option \<Rightarrow> u32 \<Rightarrow> (DNDS_retcode \<times> DNDSMessage option) option" where
  "DSMessage_set_seqNumber msg seqNumber =
     for_dsm msg True msg (\<lambda>m. do {
       r \<leftarrow> dsm_of m;
       m' \<leftarrow> dsm_put m (r\<lparr>dsm_seqNumber := ucast seqNumber\<rparr>);
       Some (DNDS_success, Some m') })"

definition DSMessage_get_seqNumber ::
  "DNDSMessage option \<Rightarrow>  (DNDS_retcode \<times> u32 option) option" where
  "DSMessage_get_seqNumber msg =
     for_dsm msg True None (\<lambda>m. do {
       r \<leftarrow> dsm_of m;
       Some (DNDS_success, Some (ucast (dsm_seqNumber r))) })"

definition DSMessage_set_ackNumber ::
  "DNDSMessage option \<Rightarrow> u32 \<Rightarrow> (DNDS_retcode \<times> DNDSMessage option) option" where
  "DSMessage_set_ackNumber msg ackNumber =
     for_dsm msg True msg (\<lambda>m. do {
       r \<leftarrow> dsm_of m;
       m' \<leftarrow> dsm_put m (r\<lparr>dsm_ackNumber := ucast ackNumber\<rparr>);
       Some (DNDS_success, Some m') })"

definition DSMessage_get_ackNumber ::
  "DNDSMessage option \<Rightarrow>  (DNDS_retcode \<times> u32 option) option" where
  "DSMessage_get_ackNumber msg =
     for_dsm msg True None (\<lambda>m. do {
       r \<leftarrow> dsm_of m;
       Some (DNDS_success, Some (ucast (dsm_ackNumber r))) })"

definition DSMessage_set_action ::
  "DNDSMessage option \<Rightarrow> int \<Rightarrow> (DNDS_retcode \<times> DNDSMessage option) option" where
  "DSMessage_set_action msg action =
     for_dsm msg True msg (\<lambda>m. do {
       r \<leftarrow> dsm_of m;
       m' \<leftarrow> dsm_put m (r\<lparr>dsm_action := action\<rparr>);
       Some (DNDS_success, Some m') })"

definition DSMessage_get_action ::
  "DNDSMessage option \<Rightarrow>  (DNDS_retcode \<times> int option) option" where
  "DSMessage_get_action msg =
     for_dsm msg True None (\<lambda>m. do {
       r \<leftarrow> dsm_of m;
       Some (DNDS_success, Some (dsm_action r)) })"

definition DSMessage_set_operation ::
  "DNDSMessage option \<Rightarrow> dsop_PR \<Rightarrow> (DNDS_retcode \<times> DNDSMessage option) option" where
  "DSMessage_set_operation msg operation =
     for_dsm msg True msg (\<lambda>m. do {
       r \<leftarrow> dsm_of m;
       m' \<leftarrow> dsm_put m (r\<lparr>dsop_present := operation\<rparr>);
       Some (DNDS_success, Some m') })"

definition DSMessage_get_operation ::
  "DNDSMessage option \<Rightarrow>  (DNDS_retcode \<times> dsop_PR option) option" where
  "DSMessage_get_operation msg =
     for_dsm msg True None (\<lambda>m. do {
       r \<leftarrow> dsm_of m;
       Some (DNDS_success, Some (dsop_present r)) })"

definition DSMessage_get_apikey ::
  "DNDSMessage option \<Rightarrow> bool \<Rightarrow> bool \<Rightarrow> (DNDS_retcode \<times> (u8 list option \<times> u64) option) option" where
  "DSMessage_get_apikey msg apikey len =
     for_dsm msg (apikey \<and> len) None (\<lambda>m. do {
       r \<leftarrow> dsm_of m;
       optional_get_string (dsm_apikey r) })"

section \<open>NodeConnInfo\<close>

definition NodeConnInfo_set_certName ::
  "(nat \<Rightarrow> bool) \<Rightarrow> DNDSMessage option \<Rightarrow> u8 list option \<Rightarrow> u64 \<Rightarrow> (DNDS_retcode \<times> DNDSMessage option) option" where
  "NodeConnInfo_set_certName al msg name len =
     for_dsop msg (name \<noteq> None) dsop_PR_nodeConnInfo msg (\<lambda>m. do {
       s \<leftarrow> name;
       s \<leftarrow> strdup (al 0) s;
       r \<leftarrow> nodeConnInfo_of m;
       m' \<leftarrow> nodeConnInfo_put m (r\<lparr>nodeConnInfo_certName := \<lparr>obuf = s, osize = int_of_size len\<rparr>\<rparr>);
       Some (DNDS_success, Some m') })"

definition NodeConnInfo_get_certName ::
  "DNDSMessage option \<Rightarrow> bool \<Rightarrow> bool \<Rightarrow> (DNDS_retcode \<times> (u8 list option \<times> u64) option) option" where
  "NodeConnInfo_get_certName msg name len =
     for_dsop msg (name \<and> len) dsop_PR_nodeConnInfo None (\<lambda>m. do {
       r \<leftarrow> nodeConnInfo_of m;
       Some (DNDS_success, Some (obuf (nodeConnInfo_certName r), size_of_int (osize (nodeConnInfo_certName r)))) })"

definition NodeConnInfo_set_ipAddr ::
  "(nat \<Rightarrow> bool) \<Rightarrow> DNDSMessage option \<Rightarrow> u8 list option \<Rightarrow> (DNDS_retcode \<times> DNDSMessage option) option" where
  "NodeConnInfo_set_ipAddr al msg ipAddress =
     for_dsop msg (ipAddress \<noteq> None) dsop_PR_nodeConnInfo msg (\<lambda>m. do {
       r \<leftarrow> nodeConnInfo_of m;
       s \<leftarrow> ipAddress;
       (rc, oct) \<leftarrow> octets_set_inet (al 0) (nodeConnInfo_ipAddr r) s;
       m' \<leftarrow> nodeConnInfo_put m (r\<lparr>nodeConnInfo_ipAddr := oct\<rparr>);
       Some (rc, Some m') })"

definition NodeConnInfo_get_ipAddr ::
  "DNDSMessage option \<Rightarrow> bool \<Rightarrow> (DNDS_retcode \<times> string option) option" where
  "NodeConnInfo_get_ipAddr msg ipAddress =
     for_dsop msg (ipAddress) dsop_PR_nodeConnInfo None (\<lambda>m. do {
       r \<leftarrow> nodeConnInfo_of m;
       octets_get_inet (nodeConnInfo_ipAddr r) })"

definition NodeConnInfo_set_state ::
  "DNDSMessage option \<Rightarrow> int \<Rightarrow> (DNDS_retcode \<times> DNDSMessage option) option" where
  "NodeConnInfo_set_state msg state =
     for_dsop msg True dsop_PR_nodeConnInfo msg (\<lambda>m. do {
       r \<leftarrow> nodeConnInfo_of m;
       m' \<leftarrow> nodeConnInfo_put m (r\<lparr>nodeConnInfo_state := state\<rparr>);
       Some (DNDS_success, Some m') })"

definition NodeConnInfo_get_state ::
  "DNDSMessage option \<Rightarrow> bool \<Rightarrow> (DNDS_retcode \<times> int option) option" where
  "NodeConnInfo_get_state msg state =
     for_dsop msg (state) dsop_PR_nodeConnInfo None (\<lambda>m. do {
       r \<leftarrow> nodeConnInfo_of m;
       Some (DNDS_success, Some (nodeConnInfo_state r)) })"

section \<open>AddResponse\<close>

definition AddResponse_set_result ::
  "DNDSMessage option \<Rightarrow> int \<Rightarrow> (DNDS_retcode \<times> DNDSMessage option) option" where
  "AddResponse_set_result msg result =
     for_dsop msg True dsop_PR_addResponse msg (\<lambda>m. do {
       m' \<leftarrow> addResponse_put m result;
       Some (DNDS_success, Some m') })"

definition AddResponse_get_result ::
  "DNDSMessage option \<Rightarrow> bool \<Rightarrow> (DNDS_retcode \<times> int option) option" where
  "AddResponse_get_result msg result =
     for_dsop msg (result) dsop_PR_addResponse None (\<lambda>m. do {
       r \<leftarrow> addResponse_of m;
       Some (DNDS_success, Some r) })"

section \<open>DelResponse\<close>

definition DelResponse_set_result ::
  "DNDSMessage option \<Rightarrow> int \<Rightarrow> (DNDS_retcode \<times> DNDSMessage option) option" where
  "DelResponse_set_result msg result =
     for_dsop msg True dsop_PR_delResponse msg (\<lambda>m. do {
       m' \<leftarrow> delResponse_put m result;
       Some (DNDS_success, Some m') })"

definition DelResponse_get_result ::
  "DNDSMessage option \<Rightarrow> bool \<Rightarrow> (DNDS_retcode \<times> int option) option" where
  "DelResponse_get_result msg result =
     for_dsop msg (result) dsop_PR_delResponse None (\<lambda>m. do {
       r \<leftarrow> delResponse_of m;
       Some (DNDS_success, Some r) })"

section \<open>ModifyResponse\<close>

definition ModifyResponse_set_result ::
  "DNDSMessage option \<Rightarrow> int \<Rightarrow> (DNDS_retcode \<times> DNDSMessage option) option" where
  "ModifyResponse_set_result msg result =
     for_dsop msg True dsop_PR_modifyResponse msg (\<lambda>m. do {
       m' \<leftarrow> modifyResponse_put m result;
       Some (DNDS_success, Some m') })"

definition ModifyResponse_get_result ::
  "DNDSMessage option \<Rightarrow> bool \<Rightarrow> (DNDS_retcode \<times> int option) option" where
  "ModifyResponse_get_result msg result =
     for_dsop msg (result) dsop_PR_modifyResponse None (\<lambda>m. do {
       r \<leftarrow> modifyResponse_of m;
       Some (DNDS_success, Some r) })"

section \<open>SearchRequest\<close>

definition SearchRequest_set_searchType ::
  "DNDSMessage option \<Rightarrow> int \<Rightarrow> (DNDS_retcode \<times> DNDSMessage option) option" where
  "SearchRequest_set_searchType msg SearchType =
     for_dsop msg True dsop_PR_searchRequest msg (\<lambda>m. do {
       r \<leftarrow> searchRequest_of m;
       m' \<leftarrow> searchRequest_put m (r\<lparr>searchRequest_searchtype := SearchType\<rparr>);
       Some (DNDS_success, Some m') })"

definition SearchRequest_get_searchType ::
  "DNDSMessage option \<Rightarrow> bool \<Rightarrow> (DNDS_retcode \<times> int option) option" where
  "SearchRequest_get_searchType msg SearchType =
     for_dsop msg (SearchType) dsop_PR_searchRequest None (\<lambda>m. do {
       r \<leftarrow> searchRequest_of m;
       Some (DNDS_success, Some (searchRequest_searchtype r)) })"

definition SearchRequest_set_objectName ::
  "(nat \<Rightarrow> bool) \<Rightarrow> DNDSMessage option \<Rightarrow> int \<Rightarrow> (DNDS_retcode \<times> DNDSMessage option) option" where
  "SearchRequest_set_objectName al msg ObjectName =
     for_dsop msg True dsop_PR_searchRequest msg (\<lambda>m. do {
       r \<leftarrow> searchRequest_of m;
       (rc, oct) \<leftarrow> optional_set_scalar (al 0) 8 8 (ObjectName);
       m' \<leftarrow> searchRequest_put m (r\<lparr>searchRequest_objectname := oct\<rparr>);
       Some (rc, Some m') })"

definition SearchRequest_get_object ::
  "DNDSMessage option \<Rightarrow> bool \<Rightarrow> (DNDS_retcode \<times> addr option option) option" where
  "SearchRequest_get_object msg object =
     for_dsop msg (object) dsop_PR_searchRequest None (\<lambda>m. do {
       r \<leftarrow> searchRequest_of m;
       Some (DNDS_success, Some (searchRequest_object r)) })"

section \<open>SearchResponse\<close>

definition SearchResponse_set_searchType ::
  "DNDSMessage option \<Rightarrow> int \<Rightarrow> (DNDS_retcode \<times> DNDSMessage option) option" where
  "SearchResponse_set_searchType msg SearchType =
     for_dsop msg True dsop_PR_searchResponse msg (\<lambda>m. do {
       r \<leftarrow> searchResponse_of m;
       m' \<leftarrow> searchResponse_put m (r\<lparr>searchResponse_searchtype := SearchType\<rparr>);
       Some (DNDS_success, Some m') })"

definition SearchResponse_get_searchType ::
  "DNDSMessage option \<Rightarrow> bool \<Rightarrow> (DNDS_retcode \<times> int option) option" where
  "SearchResponse_get_searchType msg SearchType =
     for_dsop msg (SearchType) dsop_PR_searchResponse None (\<lambda>m. do {
       r \<leftarrow> searchResponse_of m;
       Some (DNDS_success, Some (searchResponse_searchtype r)) })"

definition SearchResponse_set_result ::
  "DNDSMessage option \<Rightarrow> int \<Rightarrow> (DNDS_retcode \<times> DNDSMessage option) option" where
  "SearchResponse_set_result msg result =
     for_dsop msg True dsop_PR_searchResponse msg (\<lambda>m. do {
       r \<leftarrow> searchResponse_of m;
       m' \<leftarrow> searchResponse_put m (r\<lparr>searchResponse_dndsResult := result\<rparr>);
       Some (DNDS_success, Some m') })"

definition SearchResponse_get_result ::
  "DNDSMessage option \<Rightarrow> bool \<Rightarrow> (DNDS_retcode \<times> int option) option" where
  "SearchResponse_get_result msg result =
     for_dsop msg (result) dsop_PR_searchResponse None (\<lambda>m. do {
       r \<leftarrow> searchResponse_of m;
       Some (DNDS_success, Some (searchResponse_dndsResult r)) })"

section \<open>Context\<close>

definition Context_set_id ::
  "(nat \<Rightarrow> bool) \<Rightarrow> DNDSObject option \<Rightarrow> u32 \<Rightarrow> (DNDS_retcode \<times> DNDSObject option) option" where
  "Context_set_id al object ident =
     for_object object True DNDSObject_PR_context DNDS_invalid_object_type object (\<lambda>obj. do {
       r \<leftarrow> context_of obj;
       (rc, oct) \<leftarrow> optional_set_scalar (al 0) 4 8 (ucast ident);
       obj' \<leftarrow> context_put obj (r\<lparr>context_id := oct\<rparr>);
       Some (rc, Some obj') })"

definition Context_get_id ::
  "DNDSObject option \<Rightarrow> bool \<Rightarrow> (DNDS_retcode \<times> u32 option) option" where
  "Context_get_id object ident =
     for_object object (ident) DNDSObject_PR_context DNDS_invalid_object_type None (\<lambda>obj. do {
       r \<leftarrow> context_of obj;
       case context_id r of
         None \<Rightarrow> Some (DNDS_value_not_present, None)
       | Some x \<Rightarrow> Some (DNDS_success, Some (ucast x)) })"

definition Context_set_clientId ::
  "(nat \<Rightarrow> bool) \<Rightarrow> DNDSObject option \<Rightarrow> u32 \<Rightarrow> (DNDS_retcode \<times> DNDSObject option) option" where
  "Context_set_clientId al object clientId =
     for_object object True DNDSObject_PR_context DNDS_alloc_failed object (\<lambda>obj. do {
       r \<leftarrow> context_of obj;
       (rc, oct) \<leftarrow> optional_set_scalar (al 0) 4 8 (ucast clientId);
       obj' \<leftarrow> context_put obj (r\<lparr>context_clientId := oct\<rparr>);
       Some (rc, Some obj') })"

definition Context_get_clientId ::
  "DNDSObject option \<Rightarrow> bool \<Rightarrow> (DNDS_retcode \<times> u32 option) option" where
  "Context_get_clientId object clientId =
     for_object object (clientId) DNDSObject_PR_context DNDS_invalid_object_type None (\<lambda>obj. do {
       r \<leftarrow> context_of obj;
       case context_clientId r of
         None \<Rightarrow> Some (DNDS_value_not_present, None)
       | Some x \<Rightarrow> Some (DNDS_success, Some (ucast x)) })"

definition Context_set_description ::
  "(nat \<Rightarrow> bool) \<Rightarrow> DNDSObject option \<Rightarrow> u8 list option \<Rightarrow> u64 \<Rightarrow> (DNDS_retcode \<times> DNDSObject option) option" where
  "Context_set_description al object description len =
     for_object object (description \<noteq> None) DNDSObject_PR_context DNDS_invalid_object_type object (\<lambda>obj. do {
       r \<leftarrow> context_of obj;
       s \<leftarrow> description;
       (rc, oct) \<leftarrow> optional_set_string al s len;
       obj' \<leftarrow> context_put obj (r\<lparr>context_description := oct\<rparr>);
       Some (rc, Some obj') })"

definition Context_get_description ::
  "DNDSObject option \<Rightarrow> bool \<Rightarrow> bool \<Rightarrow> (DNDS_retcode \<times> (u8 list option \<times> u64) option) option" where
  "Context_get_description object description len =
     for_object object (description \<and> len) DNDSObject_PR_context DNDS_invalid_object_type None (\<lambda>obj. do {
       r \<leftarrow> context_of obj;
       optional_get_string (context_description r) })"

definition Context_set_network ::
  "(nat \<Rightarrow> bool) \<Rightarrow> DNDSObject option \<Rightarrow> u8 list option \<Rightarrow> (DNDS_retcode \<times> DNDSObject option) option" where
  "Context_set_network al object network =
     for_object object (network \<noteq> None) DNDSObject_PR_context DNDS_invalid_object_type object (\<lambda>obj. do {
       r \<leftarrow> context_of obj;
       s \<leftarrow> network;
       (rc, oct) \<leftarrow> optional_set_inet al s;
       obj' \<leftarrow> context_put obj (r\<lparr>context_network := oct\<rparr>);
       Some (rc, Some obj') })"

definition Context_get_network ::
  "DNDSObject option \<Rightarrow> bool \<Rightarrow> (DNDS_retcode \<times> string option) option" where
  "Context_get_network object network =
     for_object object (network) DNDSObject_PR_context DNDS_invalid_object_type None (\<lambda>obj. do {
       r \<leftarrow> context_of obj;
       case context_network r of
         None \<Rightarrow> Some (DNDS_value_not_present, None)
       | Some oct \<Rightarrow> if obuf oct = None then Some (DNDS_value_not_present, None) else octets_get_inet oct })"

definition Context_set_netmask ::
  "(nat \<Rightarrow> bool) \<Rightarrow> DNDSObject option \<Rightarrow> u8 list option \<Rightarrow> (DNDS_retcode \<times> DNDSObject option) option" where
  "Context_set_netmask al object netmask =
     for_object object (netmask \<noteq> None) DNDSObject_PR_context DNDS_invalid_object_type object (\<lambda>obj. do {
       r \<leftarrow> context_of obj;
       s \<leftarrow> netmask;
       (rc, oct) \<leftarrow> optional_set_inet al s;
       obj' \<leftarrow> context_put obj (r\<lparr>context_netmask := oct\<rparr>);
       Some (rc, Some obj') })"

definition Context_get_netmask ::
  "DNDSObject option \<Rightarrow> bool \<Rightarrow> (DNDS_retcode \<times> string option) option" where
  "Context_get_netmask object netmask =
     for_object object (netmask) DNDSObject_PR_context DNDS_invalid_object_type None (\<lambda>obj. do {
       r \<leftarrow> context_of obj;
       case context_netmask r of
         None \<Rightarrow> Some (DNDS_value_not_present, None)
       | Some oct \<Rightarrow> if obuf oct = None then Some (DNDS_value_not_present, None) else octets_get_inet oct })"

definition Context_set_serverCert ::
  "(nat \<Rightarrow> bool) \<Rightarrow> DNDSObject option \<Rightarrow> u8 list option \<Rightarrow> u64 \<Rightarrow> (DNDS_retcode \<times> DNDSObject option) option" where
  "Context_set_serverCert al object serverCert len =
     for_object object (serverCert \<noteq> None) DNDSObject_PR_context DNDS_invalid_object_type object (\<lambda>obj. do {
       r \<leftarrow> context_of obj;
       s \<leftarrow> serverCert;
       (rc, oct) \<leftarrow> optional_set_string al s len;
       obj' \<leftarrow> context_put obj (r\<lparr>context_serverCert := oct\<rparr>);
       Some (rc, Some obj') })"

definition Context_get_serverCert ::
  "DNDSObject option \<Rightarrow> bool \<Rightarrow> bool \<Rightarrow> (DNDS_retcode \<times> (u8 list option \<times> u64) option) option" where
  "Context_get_serverCert object serverCert len =
     for_object object (serverCert \<and> len) DNDSObject_PR_context DNDS_invalid_object_type None (\<lambda>obj. do {
       r \<leftarrow> context_of obj;
       optional_get_string (context_serverCert r) })"

definition Context_set_serverPrivkey ::
  "(nat \<Rightarrow> bool) \<Rightarrow> DNDSObject option \<Rightarrow> u8 list option \<Rightarrow> u64 \<Rightarrow> (DNDS_retcode \<times> DNDSObject option) option" where
  "Context_set_serverPrivkey al object serverPrivkey len =
     for_object object (serverPrivkey \<noteq> None) DNDSObject_PR_context DNDS_invalid_object_type object (\<lambda>obj. do {
       r \<leftarrow> context_of obj;
       s \<leftarrow> serverPrivkey;
       (rc, oct) \<leftarrow> optional_set_string al s len;
       obj' \<leftarrow> context_put obj (r\<lparr>context_serverPrivkey := oct\<rparr>);
       Some (rc, Some obj') })"

definition Context_get_serverPrivkey ::
  "DNDSObject option \<Rightarrow> bool \<Rightarrow> bool \<Rightarrow> (DNDS_retcode \<times> (u8 list option \<times> u64) option) option" where
  "Context_get_serverPrivkey object serverPrivkey len =
     for_object object (serverPrivkey \<and> len) DNDSObject_PR_context DNDS_invalid_object_type None (\<lambda>obj. do {
       r \<leftarrow> context_of obj;
       optional_get_string (context_serverPrivkey r) })"

definition Context_set_trustedCert ::
  "(nat \<Rightarrow> bool) \<Rightarrow> DNDSObject option \<Rightarrow> u8 list option \<Rightarrow> u64 \<Rightarrow> (DNDS_retcode \<times> DNDSObject option) option" where
  "Context_set_trustedCert al object trustedCert len =
     for_object object (trustedCert \<noteq> None) DNDSObject_PR_context DNDS_invalid_object_type object (\<lambda>obj. do {
       r \<leftarrow> context_of obj;
       s \<leftarrow> trustedCert;
       (rc, oct) \<leftarrow> optional_set_string al s len;
       obj' \<leftarrow> context_put obj (r\<lparr>context_trustedCert := oct\<rparr>);
       Some (rc, Some obj') })"

definition Context_get_trustedCert ::
  "DNDSObject option \<Rightarrow> bool \<Rightarrow> bool \<Rightarrow> (DNDS_retcode \<times> (u8 list option \<times> u64) option) option" where
  "Context_get_trustedCert object trustedCert len =
     for_object object (trustedCert \<and> len) DNDSObject_PR_context DNDS_invalid_object_type None (\<lambda>obj. do {
       r \<leftarrow> context_of obj;
       optional_get_string (context_trustedCert r) })"

section \<open>Node\<close>

definition Node_set_contextId ::
  "(nat \<Rightarrow> bool) \<Rightarrow> DNDSObject option \<Rightarrow> u32 \<Rightarrow> (DNDS_retcode \<times> DNDSObject option) option" where
  "Node_set_contextId al object contextId =
     for_object object True DNDSObject_PR_node DNDS_invalid_object_type object (\<lambda>obj. do {
       r \<leftarrow> node_of obj;
       (rc, oct) \<leftarrow> optional_set_scalar (al 0) 4 8 (ucast contextId);
       obj' \<leftarrow> node_put obj (r\<lparr>node_contextId := oct\<rparr>);
       Some (rc, Some obj') })"

definition Node_get_contextId ::
  "DNDSObject option \<Rightarrow> bool \<Rightarrow> (DNDS_retcode \<times> u32 option) option" where
  "Node_get_contextId object contextId =
     for_object object (contextId) DNDSObject_PR_node DNDS_invalid_object_type None (\<lambda>obj. do {
       r \<leftarrow> node_of obj;
       case node_contextId r of
         None \<Rightarrow> Some (DNDS_value_not_present, None)
       | Some x \<Rightarrow> Some (DNDS_success, Some (ucast x)) })"

definition Node_set_contextName ::
  "(nat \<Rightarrow> bool) \<Rightarrow> DNDSObject option \<Rightarrow> u8 list option \<Rightarrow> u64 \<Rightarrow> (DNDS_retcode \<times> DNDSObject option) option" where
  "Node_set_contextName al object contextName len =
     for_object object (contextName \<noteq> None) DNDSObject_PR_node DNDS_invalid_object_type object (\<lambda>obj. do {
       r \<leftarrow> node_of obj;
       s \<leftarrow> contextName;
       (rc, oct) \<leftarrow> optional_set_string al s len;
       obj' \<leftarrow> node_put obj (r\<lparr>node_contextName := oct\<rparr>);
       Some (rc, Some obj') })"

definition Node_get_contextName ::
  "DNDSObject option \<Rightarrow> bool \<Rightarrow> bool \<Rightarrow> (DNDS_retcode \<times> (u8 list option \<times> u64) option) option" where
  "Node_get_contextName object contextName len =
     for_object object (contextName \<and> len) DNDSObject_PR_node DNDS_invalid_object_type None (\<lambda>obj. do {
       r \<leftarrow> node_of obj;
       optional_get_string (node_contextName r) })"

definition Node_set_description ::
  "(nat \<Rightarrow> bool) \<Rightarrow> DNDSObject option \<Rightarrow> u8 list option \<Rightarrow> u64 \<Rightarrow> (DNDS_retcode \<times> DNDSObject option) option" where
  "Node_set_description al object description len =
     for_object object (description \<noteq> None) DNDSObject_PR_node DNDS_invalid_object_type object (\<lambda>obj. do {
       r \<leftarrow> node_of obj;
       s \<leftarrow> description;
       (rc, oct) \<leftarrow> optional_set_string al s len;
       obj' \<leftarrow> node_put obj (r\<lparr>node_description := oct\<rparr>);
       Some (rc, Some obj') })"

definition Node_get_description ::
  "DNDSObject option \<Rightarrow> bool \<Rightarrow> bool \<Rightarrow> (DNDS_retcode \<times> (u8 list option \<times> u64) option) option" where
  "Node_get_description object description len =
     for_object object (description \<and> len) DNDSObject_PR_node DNDS_invalid_object_type None (\<lambda>obj. do {
       r \<leftarrow> node_of obj;
       optional_get_string (node_description r) })"

definition Node_set_uuid ::
  "(nat \<Rightarrow> bool) \<Rightarrow> DNDSObject option \<Rightarrow> u8 list option \<Rightarrow> u64 \<Rightarrow> (DNDS_retcode \<times> DNDSObject option) option" where
  "Node_set_uuid al object uuid len =
     for_object object (uuid \<noteq> None) DNDSObject_PR_node DNDS_invalid_object_type object (\<lambda>obj. do {
       r \<leftarrow> node_of obj;
       s \<leftarrow> uuid;
       (rc, oct) \<leftarrow> optional_set_string al s len;
       obj' \<leftarrow> node_put obj (r\<lparr>node_uuid := oct\<rparr>);
       Some (rc, Some obj') })"

definition Node_get_uuid ::
  "DNDSObject option \<Rightarrow> bool \<Rightarrow> bool \<Rightarrow> (DNDS_retcode \<times> (u8 list option \<times> u64) option) option" where
  "Node_get_uuid object uuid len =
     for_object object (uuid \<and> len) DNDSObject_PR_node DNDS_invalid_object_type None (\<lambda>obj. do {
       r \<leftarrow> node_of obj;
       optional_get_string (node_uuid r) })"

definition Node_set_provCode ::
  "(nat \<Rightarrow> bool) \<Rightarrow> DNDSObject option \<Rightarrow> u8 list option \<Rightarrow> u64 \<Rightarrow> (DNDS_retcode \<times> DNDSObject option) option" where
  "Node_set_provCode al object provCode len =
     for_object object (provCode \<noteq> None) DNDSObject_PR_node DNDS_invalid_object_type object (\<lambda>obj. do {
       r \<leftarrow> node_of obj;
       s \<leftarrow> provCode;
       (rc, oct) \<leftarrow> optional_set_string al s len;
       obj' \<leftarrow> node_put obj (r\<lparr>node_provCode := oct\<rparr>);
       Some (rc, Some obj') })"

definition Node_get_provCode ::
  "DNDSObject option \<Rightarrow> bool \<Rightarrow> bool \<Rightarrow> (DNDS_retcode \<times> (u8 list option \<times> u64) option) option" where
  "Node_get_provCode object provCode len =
     for_object object (provCode \<and> len) DNDSObject_PR_node DNDS_invalid_object_type None (\<lambda>obj. do {
       r \<leftarrow> node_of obj;
       optional_get_string (node_provCode r) })"

definition Node_set_certificate ::
  "(nat \<Rightarrow> bool) \<Rightarrow> DNDSObject option \<Rightarrow> u8 list option \<Rightarrow> u64 \<Rightarrow> (DNDS_retcode \<times> DNDSObject option) option" where
  "Node_set_certificate al object certificate len =
     for_object object (certificate \<noteq> None) DNDSObject_PR_node DNDS_invalid_object_type object (\<lambda>obj. do {
       r \<leftarrow> node_of obj;
       s \<leftarrow> certificate;
       (rc, oct) \<leftarrow> optional_set_string al s len;
       obj' \<leftarrow> node_put obj (r\<lparr>node_certificate := oct\<rparr>);
       Some (rc, Some obj') })"

definition Node_get_certificate ::
  "DNDSObject option \<Rightarrow> bool \<Rightarrow> bool \<Rightarrow> (DNDS_retcode \<times> (u8 list option \<times> u64) option) option" where
  "Node_get_certificate object certificate len =
     for_object object (certificate \<and> len) DNDSObject_PR_node DNDS_invalid_object_type None (\<lambda>obj. do {
       r \<leftarrow> node_of obj;
       optional_get_string (node_certificate r) })"

definition Node_set_certificateKey ::
  "(nat \<Rightarrow> bool) \<Rightarrow> DNDSObject option \<Rightarrow> u8 list option \<Rightarrow> u64 \<Rightarrow> (DNDS_retcode \<times> DNDSObject option) option" where
  "Node_set_certificateKey al object certificateKey len =
     for_object object (certificateKey \<noteq> None) DNDSObject_PR_node DNDS_invalid_object_type object (\<lambda>obj. do {
       r \<leftarrow> node_of obj;
       s \<leftarrow> certificateKey;
       (rc, oct) \<leftarrow> optional_set_block al s len;
       obj' \<leftarrow> node_put obj (r\<lparr>node_certificateKey := oct\<rparr>);
       Some (rc, Some obj') })"

definition Node_get_certificateKey ::
  "DNDSObject option \<Rightarrow> bool \<Rightarrow> bool \<Rightarrow> (DNDS_retcode \<times> (u8 list option \<times> u64) option) option" where
  "Node_get_certificateKey object certificateKey len =
     for_object object (certificateKey \<and> len) DNDSObject_PR_node DNDS_invalid_object_type None (\<lambda>obj. do {
       r \<leftarrow> node_of obj;
       optional_get_string (node_certificateKey r) })"

definition Node_set_trustedCert ::
  "(nat \<Rightarrow> bool) \<Rightarrow> DNDSObject option \<Rightarrow> u8 list option \<Rightarrow> u64 \<Rightarrow> (DNDS_retcode \<times> DNDSObject option) option" where
  "Node_set_trustedCert al object trustedCert len =
     for_object object (trustedCert \<noteq> None) DNDSObject_PR_node DNDS_invalid_object_type object (\<lambda>obj. do {
       r \<leftarrow> node_of obj;
       s \<leftarrow> trustedCert;
       (rc, oct) \<leftarrow> optional_set_block al s len;
       obj' \<leftarrow> node_put obj (r\<lparr>node_trustedCert := oct\<rparr>);
       Some (rc, Some obj') })"

definition Node_get_trustedCert ::
  "DNDSObject option \<Rightarrow> bool \<Rightarrow> bool \<Rightarrow> (DNDS_retcode \<times> (u8 list option \<times> u64) option) option" where
  "Node_get_trustedCert object trustedCert len =
     for_object object (trustedCert \<and> len) DNDSObject_PR_node DNDS_invalid_object_type None (\<lambda>obj. do {
       r \<leftarrow> node_of obj;
       optional_get_string (node_trustedCert r) })"

definition Node_set_ipAddress ::
  "(nat \<Rightarrow> bool) \<Rightarrow> DNDSObject option \<Rightarrow> u8 list option \<Rightarrow> (DNDS_retcode \<times> DNDSObject option) option" where
  "Node_set_ipAddress al object ipAddress =
     for_object object (ipAddress \<noteq> None) DNDSObject_PR_node DNDS_invalid_object_type object (\<lambda>obj. do {
       r \<leftarrow> node_of obj;
       s \<leftarrow> ipAddress;
       (rc, oct) \<leftarrow> optional_set_inet al s;
       obj' \<leftarrow> node_put obj (r\<lparr>node_ipAddress := oct\<rparr>);
       Some (rc, Some obj') })"

definition Node_get_ipAddress ::
  "DNDSObject option \<Rightarrow> bool \<Rightarrow> (DNDS_retcode \<times> string option) option" where
  "Node_get_ipAddress object ipAddress =
     for_object object (ipAddress) DNDSObject_PR_node DNDS_invalid_object_type None (\<lambda>obj. do {
       r \<leftarrow> node_of obj;
       case node_ipAddress r of
         None \<Rightarrow> Some (DNDS_value_not_present, None)
       | Some oct \<Rightarrow> if obuf oct = None then Some (DNDS_value_not_present, None) else octets_get_inet oct })"

definition Node_set_status ::
  "(nat \<Rightarrow> bool) \<Rightarrow> DNDSObject option \<Rightarrow> u8 \<Rightarrow> (DNDS_retcode \<times> DNDSObject option) option" where
  "Node_set_status al object status =
     for_object object True DNDSObject_PR_node DNDS_invalid_object_type object (\<lambda>obj. do {
       r \<leftarrow> node_of obj;
       (rc, oct) \<leftarrow> optional_set_scalar (al 0) 8 8 (uint status);
       obj' \<leftarrow> node_put obj (r\<lparr>node_status := oct\<rparr>);
       Some (rc, Some obj') })"

definition Node_get_status ::
  "DNDSObject option \<Rightarrow> bool \<Rightarrow> (DNDS_retcode \<times> u8 option) option" where
  "Node_get_status object status =
     for_object object (status) DNDSObject_PR_node DNDS_invalid_object_type None (\<lambda>obj. do {
       r \<leftarrow> node_of obj;
       case node_status r of
         None \<Rightarrow> Some (DNDS_value_not_present, None)
       | Some x \<Rightarrow> Some (DNDS_success, Some (word_of_int x)) })"

section \<open>Client\<close>

definition Client_set_password ::
  "(nat \<Rightarrow> bool) \<Rightarrow> DNDSObject option \<Rightarrow> u8 list option \<Rightarrow> u64 \<Rightarrow> (DNDS_retcode \<times> DNDSObject option) option" where
  "Client_set_password al object password len =
     for_object object (password \<noteq> None) DNDSObject_PR_client DNDS_invalid_object_type object (\<lambda>obj. do {
       r \<leftarrow> client_of obj;
       s \<leftarrow> password;
       (rc, oct) \<leftarrow> optional_set_string al s len;
       obj' \<leftarrow> client_put obj (r\<lparr>client_password := oct\<rparr>);
       Some (rc, Some obj') })"

definition Client_get_apikey ::
  "DNDSObject option \<Rightarrow> bool \<Rightarrow> bool \<Rightarrow> (DNDS_retcode \<times> (u8 list option \<times> u64) option) option" where
  "Client_get_apikey object apikey len =
     for_object object (apikey \<and> len) DNDSObject_PR_client DNDS_invalid_object_type None (\<lambda>obj. do {
       r \<leftarrow> client_of obj;
       optional_get_string (client_apikey r) })"

definition Client_set_apikey ::
  "(nat \<Rightarrow> bool) \<Rightarrow> DNDSObject option \<Rightarrow> u8 list option \<Rightarrow> u64 \<Rightarrow> (DNDS_retcode \<times> DNDSObject option) option" where
  "Client_set_apikey al object apikey len =
     for_object object (apikey \<noteq> None) DNDSObject_PR_client DNDS_invalid_object_type object (\<lambda>obj. do {
       r \<leftarrow> client_of obj;
       s \<leftarrow> apikey;
       (rc, oct) \<leftarrow> optional_set_string al s len;
       obj' \<leftarrow> client_put obj (r\<lparr>client_apikey := oct\<rparr>);
       Some (rc, Some obj') })"

definition Client_get_password ::
  "DNDSObject option \<Rightarrow> bool \<Rightarrow> bool \<Rightarrow> (DNDS_retcode \<times> (u8 list option \<times> u64) option) option" where
  "Client_get_password object password len =
     for_object object (password \<and> len) DNDSObject_PR_client DNDS_invalid_object_type None (\<lambda>obj. do {
       r \<leftarrow> client_of obj;
       optional_get_string (client_password r) })"

definition Client_set_email ::
  "(nat \<Rightarrow> bool) \<Rightarrow> DNDSObject option \<Rightarrow> u8 list option \<Rightarrow> u64 \<Rightarrow> (DNDS_retcode \<times> DNDSObject option) option" where
  "Client_set_email al object email len =
     for_object object (email \<noteq> None) DNDSObject_PR_client DNDS_invalid_object_type object (\<lambda>obj. do {
       r \<leftarrow> client_of obj;
       s \<leftarrow> email;
       (rc, oct) \<leftarrow> optional_set_string al s len;
       obj' \<leftarrow> client_put obj (r\<lparr>client_email := oct\<rparr>);
       Some (rc, Some obj') })"

definition Client_get_email ::
  "DNDSObject option \<Rightarrow> bool \<Rightarrow> bool \<Rightarrow> (DNDS_retcode \<times> (u8 list option \<times> u64) option) option" where
  "Client_get_email object email len =
     for_object object (email \<and> len) DNDSObject_PR_client DNDS_invalid_object_type None (\<lambda>obj. do {
       r \<leftarrow> client_of obj;
       optional_get_string (client_email r) })"

definition Client_set_status ::
  "(nat \<Rightarrow> bool) \<Rightarrow> DNDSObject option \<Rightarrow> u8 \<Rightarrow> (DNDS_retcode \<times> DNDSObject option) option" where
  "Client_set_status al object status =
     for_object object True DNDSObject_PR_client DNDS_invalid_object_type object (\<lambda>obj. do {
       r \<leftarrow> client_of obj;
       (rc, oct) \<leftarrow> optional_set_scalar (al 0) 8 8 (uint status);
       obj' \<leftarrow> client_put obj (r\<lparr>client_status := oct\<rparr>);
       Some (rc, Some obj') })"

definition Client_get_status ::
  "DNDSObject option \<Rightarrow> bool \<Rightarrow> (DNDS_retcode \<times> u8 option) option" where
  "Client_get_status object status =
     for_object object (status) DNDSObject_PR_client DNDS_invalid_object_type None (\<lambda>obj. do {
       r \<leftarrow> client_of obj;
       case client_status r of
         None \<Rightarrow> Some (DNDS_value_not_present, None)
       | Some x \<Rightarrow> Some (DNDS_success, Some (word_of_int x)) })"

section \<open>Names\<close>

definition ObjectName_str :: "int \<Rightarrow> string" where
  "ObjectName_str objectname =
     (if objectname = 2 then ''context''
      else if objectname = 3 then ''node''
      else if objectname = 1 then ''client''
      else ''Unknown'')"

definition SearchType_str :: "int \<Rightarrow> string" where
  "SearchType_str searchtype =
     (if searchtype = 1 then ''all''
      else if searchtype = 2 then ''by sequence''
      else if searchtype = 3 then ''by object''
      else ''Unknown'')"

definition ConnectState_str :: "int \<Rightarrow> string" where
  "ConnectState_str state =
     (if state = 1 then ''Connected''
      else if state = 2 then ''Disconnected''
      else ''Unknown'')"

definition P2pSide_str :: "int \<Rightarrow> string" where
  "P2pSide_str side =
     (if side = 1 then ''Client''
      else if side = 2 then ''Server''
      else ''Unknown'')"

definition DNDSResult_str :: "int \<Rightarrow> string" where
  "DNDSResult_str result =
     (if result = 1 then ''Success''
      else if result = 2 then ''Operation error''
      else if result = 3 then ''Protocol error''
      else if result = 4 then ''No such object''
      else if result = 5 then ''Duplicate''
      else if result = 6 then ''Secure step up''
      else if result = 7 then ''Insufficient access rights''
      else if result = 8 then ''More data expected''
      else ''unknown'')"

definition DNDS_strerror :: "DNDS_retcode \<Rightarrow> string" where
  "DNDS_strerror retcode =
     (case retcode of
        DNDS_success \<Rightarrow> ''Success''
      | DNDS_alloc_failed \<Rightarrow> ''Memory allocation failed''
      | DNDS_invalid_param \<Rightarrow> ''A parameter passed to the function is invalid''
      | DNDS_invalid_pdu \<Rightarrow> ''The PDU type is not set''
      | DNDS_invalid_op \<Rightarrow> ''The operation type is not set''
      | DNDS_invalid_object_type \<Rightarrow> ''The object type is not set''
      | DNDS_value_not_present \<Rightarrow> ''The value is not present''
      | DNDS_conversion_failed \<Rightarrow> ''Internal conversion failed'')"

end
