(* ===== verification/Switch_State.thy ===== *)
theory Switch_State
  imports Dnds_Ds Linkst Bitv
begin

text \<open>
  The state of the switch (\<open>nvswitch/src\<close>): its heap of sessions, connections and virtual
  networks, the two trees that index the networks, and what it has handed to the network layer
  and to the control channel.  A \<open>struct\<close> that other objects point to lives at an address; an
  access through a null or dangling pointer is the fault \<^const>\<open>None\<close>.  Addresses are never
  reused, so a dangling pointer stays dangling.  Buffers owned by one object are values of its
  fields; a character pointer is the memory from the pointer on.

  The library calls whose outcome the switch does not control are inputs: \<open>env\<close> gives the
  values of \<open>rand\<close> and \<open>time\<close> in the order of the calls, and a \<open>jansson\<close> record stands for the
  JSON library.  Calls into the network layer are recorded in \<open>events\<close>.
\<close>

section \<open>Objects\<close>

text \<open>A pointer to an object nothing else points to: null, freed, or the object.\<close>

datatype 'a owned = Null | Dangling | Own 'a

fun deref :: "'a owned \<Rightarrow> 'a option" where
  "deref (Own x) = Some x"
| "deref Null = None"
| "deref Dangling = None"

abbreviation (input) SESSION_STATE_AUTHED :: u8 where "SESSION_STATE_AUTHED \<equiv> 1"
abbreviation (input) SESSION_STATE_NOT_AUTHED :: u8 where "SESSION_STATE_NOT_AUTHED \<equiv> 2"
abbreviation (input) SESSION_STATE_WAIT_STEPUP :: u8 where "SESSION_STATE_WAIT_STEPUP \<equiv> 4"
abbreviation (input) SESSION_STATE_PURGE :: u8 where "SESSION_STATE_PURGE \<equiv> 8"

record session =
  s_state :: u8
  s_ip :: "u8 list option"
  s_cert_name :: "u8 list option"
  s_node_info :: "node_info owned"
  s_id :: u32
  s_ip_local :: "u8 list"
  s_tun_mac_addr :: "u8 list"
  s_netc :: "addr option"
  s_vnetwork :: "addr option"
  s_mac_addr :: "u8 list"
  s_mac_list :: "u8 list list"
  s_next :: "addr option"
  s_prev :: "addr option"

abbreviation (input) NET_UNSECURE :: u8 where "NET_UNSECURE \<equiv> 1"
abbreviation (input) NET_SECURE_ADH :: u8 where "NET_SECURE_ADH \<equiv> 2"
abbreviation (input) NET_SECURE_RSA :: u8 where "NET_SECURE_RSA \<equiv> 4"

text \<open>What the switch uses of a connection; the queue of decoded messages is the list of the
  messages its nodes carry.\<close>

record netc =
  n_host :: "u8 list"
  n_security_level :: u8
  n_ext_ptr :: "addr option"
  n_queue_msg :: "DNDSMessage list"

text \<open>A passport is identified by the certificate, key and trusted certificate it is loaded
  from.\<close>

type_synonym passport = "u8 list \<times> u8 list \<times> u8 list"

abbreviation (input) MAX_NODE :: nat where "MAX_NODE \<equiv> 1024"
abbreviation (input) TIMEOUT_SEC :: u16 where "TIMEOUT_SEC \<equiv> 300"

record vnetwork =
  v_id :: "u8 list"
  v_uuid :: "u8 list"
  v_ftable :: "(u8 list, addr) jsw_hash option"
  v_ctable :: "(u8 list, addr) jsw_hash option"
  v_atable :: "(u8 list, addr) jsw_hash option"
  v_active_node :: u32
  v_linkst :: "linkst option"
  v_bitpool :: "u8 list"
  v_session_list :: "addr option"
  v_access_session :: "addr option"
  v_passport :: passport

datatype event =
    Send addr DNDSMessage
  | AddPassport addr passport
  | StepUp addr
  | Disconnect addr

text \<open>A JSON text under construction: the object and string nodes the code builds.\<close>

datatype jout = JStr "u8 list option" | JObj "(string \<times> jout) list"

record 'j jansson =
  object_get :: "'j \<Rightarrow> string \<Rightarrow> 'j option"
  unpack_s :: "'j \<Rightarrow> string \<Rightarrow> u8 list option"
  array_size :: "'j \<Rightarrow> nat"
  array_get :: "'j \<Rightarrow> nat \<Rightarrow> 'j option"
  json_text :: "(string \<times> jout) list \<Rightarrow> u8 list option"

abbreviation (input) MAX_SESSION :: nat where "MAX_SESSION \<equiv> 4096"

record switch =
  sessions :: "addr \<rightharpoonup> session"
  netcs :: "addr \<rightharpoonup> netc"
  vnets :: "addr \<rightharpoonup> vnetwork"
  vnetworks :: "u8 list \<rightharpoonup> addr"
  vnetworks_id :: "u8 list \<rightharpoonup> addr"
  brk :: addr
  env :: "nat \<Rightarrow> int"
  env_pos :: nat
  tracking_table :: "addr option list"
  tracking_id :: u32
  pipe :: "u8 list"
  ctrl_sock :: "u8 list"
  ctrl_initialized :: bool
  events :: "event list"

text \<open>The switch before anything has happened: the static data, and an empty heap.\<close>

definition switch_start :: "(nat \<Rightarrow> int) \<Rightarrow> switch" where
  "switch_start inputs = \<lparr>sessions = Map.empty, netcs = Map.empty, vnets = Map.empty,
     vnetworks = Map.empty, vnetworks_id = Map.empty, brk = 0, env = inputs, env_pos = 0,
     tracking_table = replicate MAX_SESSION None, tracking_id = 0, pipe = [], ctrl_sock = [],
     ctrl_initialized = False, events = []\<rparr>"

section \<open>Access through pointers\<close>

definition get_sess :: "switch \<Rightarrow> addr option \<Rightarrow> session option" where
  "get_sess sw p = do { a \<leftarrow> p; sessions sw a }"

definition upd_sess :: "switch \<Rightarrow> addr option \<Rightarrow> (session \<Rightarrow> session) \<Rightarrow> switch option" where
  "upd_sess sw p f = do {
     a \<leftarrow> p; x \<leftarrow> sessions sw a;
     Some (sw\<lparr>sessions := (sessions sw)(a \<mapsto> f x)\<rparr>) }"

definition get_vnet :: "switch \<Rightarrow> addr option \<Rightarrow> vnetwork option" where
  "get_vnet sw p = do { a \<leftarrow> p; vnets sw a }"

definition upd_vnet :: "switch \<Rightarrow> addr option \<Rightarrow> (vnetwork \<Rightarrow> vnetwork) \<Rightarrow> switch option" where
  "upd_vnet sw p f = do {
     a \<leftarrow> p; x \<leftarrow> vnets sw a;
     Some (sw\<lparr>vnets := (vnets sw)(a \<mapsto> f x)\<rparr>) }"

definition get_netc :: "switch \<Rightarrow> addr option \<Rightarrow> netc option" where
  "get_netc sw p = do { a \<leftarrow> p; netcs sw a }"

definition upd_netc :: "switch \<Rightarrow> addr option \<Rightarrow> (netc \<Rightarrow> netc) \<Rightarrow> switch option" where
  "upd_netc sw p f = do {
     a \<leftarrow> p; x \<leftarrow> netcs sw a;
     Some (sw\<lparr>netcs := (netcs sw)(a \<mapsto> f x)\<rparr>) }"

text \<open>An early return when a call yields nothing.\<close>

definition or_return :: "'a option \<Rightarrow> 'r \<Rightarrow> ('a \<Rightarrow> 'r option) \<Rightarrow> 'r option" where
  "or_return x r k = (case x of None \<Rightarrow> Some r | Some y \<Rightarrow> k y)"

text \<open>The next value the environment returns.\<close>

definition next_env :: "switch \<Rightarrow> int \<times> switch" where
  "next_env sw = (env sw (env_pos sw), sw\<lparr>env_pos := Suc (env_pos sw)\<rparr>)"

text \<open>The calls into the network layer that leave the connection alive.\<close>

definition net_call :: "switch \<Rightarrow> addr option \<Rightarrow> (addr \<Rightarrow> event) \<Rightarrow> switch option" where
  "net_call sw p ev = do {
     a \<leftarrow> p; _ \<leftarrow> netcs sw a;
     Some (sw\<lparr>events := events sw @ [ev a]\<rparr>) }"

abbreviation net_send_msg :: "switch \<Rightarrow> addr option \<Rightarrow> DNDSMessage \<Rightarrow> switch option" where
  "net_send_msg sw netc msg \<equiv> net_call sw netc (\<lambda>a. Send a msg)"

section \<open>Rewriting\<close>

named_theorems sw_simps \<open>rewrites that run accesses through valid pointers\<close>

lemma get_sess_Some [simp, sw_simps]: "get_sess sw (Some a) = sessions sw a"
  by (simp add: get_sess_def)

lemma get_sess_None [simp, sw_simps]: "get_sess sw None = None"
  by (simp add: get_sess_def)

lemma get_vnet_Some [simp, sw_simps]: "get_vnet sw (Some a) = vnets sw a"
  by (simp add: get_vnet_def)

lemma get_vnet_None [simp, sw_simps]: "get_vnet sw None = None"
  by (simp add: get_vnet_def)

lemma get_netc_Some [simp, sw_simps]: "get_netc sw (Some a) = netcs sw a"
  by (simp add: get_netc_def)

lemma get_netc_None [simp, sw_simps]: "get_netc sw None = None"
  by (simp add: get_netc_def)

lemma upd_sess_Some [simp, sw_simps]:
  "sessions sw a = Some x \<Longrightarrow> upd_sess sw (Some a) f = Some (sw\<lparr>sessions := (sessions sw)(a \<mapsto> f x)\<rparr>)"
  by (simp add: upd_sess_def)

lemma upd_vnet_Some [simp, sw_simps]:
  "vnets sw a = Some x \<Longrightarrow> upd_vnet sw (Some a) f = Some (sw\<lparr>vnets := (vnets sw)(a \<mapsto> f x)\<rparr>)"
  by (simp add: upd_vnet_def)

lemma upd_netc_Some [simp, sw_simps]:
  "netcs sw a = Some x \<Longrightarrow> upd_netc sw (Some a) f = Some (sw\<lparr>netcs := (netcs sw)(a \<mapsto> f x)\<rparr>)"
  by (simp add: upd_netc_def)

lemma net_call_Some [simp, sw_simps]:
  "netcs sw a = Some x \<Longrightarrow> net_call sw (Some a) ev = Some (sw\<lparr>events := events sw @ [ev a]\<rparr>)"
  by (simp add: net_call_def)

lemma or_return_simps [simp, sw_simps]: "or_return None r k = Some r" "or_return (Some y) r k = k y"
  by (simp_all add: or_return_def)

end
