(* ===== verification/Session.thy ===== *)
theory Session
  imports Switch_State
begin

text \<open>
  \<open>nvswitch/src/session.c\<close>: the life of a session.  \<open>session_terminate\<close>, which goes through
  the network layer back into the switch, is in \<open>Conn\<close>.
\<close>

section \<open>The code\<close>

definition session_zero :: session where
  "session_zero = \<lparr>s_state = 0, s_ip = None, s_cert_name = None, s_node_info = Null, s_id = 0,
     s_ip_local = replicate 16 0, s_tun_mac_addr = replicate 6 0, s_netc = None, s_vnetwork = None,
     s_mac_addr = replicate 6 0, s_mac_list = [], s_next = None, s_prev = None\<rparr>"

text \<open>\<open>calloc\<close> takes the next address of the heap; the argument tells whether it succeeds.\<close>

definition session_new :: "bool \<Rightarrow> switch \<Rightarrow> addr option \<times> switch" where
  "session_new ok sw =
     (if \<not> ok then (None, sw)
      else let a = brk sw in
        (Some a, sw\<lparr>sessions := (sessions sw)(a \<mapsto> session_zero\<lparr>s_state := SESSION_STATE_NOT_AUTHED\<rparr>),
                   brk := Suc a\<rparr>))"

text \<open>The buffers a session owns go with it; a node info already released is a second \<open>free\<close>.\<close>

definition session_free :: "switch \<Rightarrow> addr option \<Rightarrow> switch option" where
  "session_free sw session =
     (case session of
        None \<Rightarrow> Some sw
      | Some a \<Rightarrow> do {
          x \<leftarrow> sessions sw a;
          if s_node_info x = Dangling then None
          else Some (sw\<lparr>sessions := (sessions sw)(a := None)\<rparr>) })"

definition session_add_mac :: "switch \<Rightarrow> addr option \<Rightarrow> u8 list \<Rightarrow> switch option" where
  "session_add_mac sw session mac_addr = do {
     m \<leftarrow> memcpy mac_addr ETHER_ADDR_LEN;
     upd_sess sw session (\<lambda>x. x\<lparr>s_mac_list := m # s_mac_list x\<rparr>) }"

definition session_itemdup :: "addr option \<Rightarrow> addr option" where
  "session_itemdup item = item"

section \<open>Rewriting\<close>

lemma session_new_True [simp]: "session_new True sw = (Some (brk sw),
    sw\<lparr>sessions := (sessions sw)(brk sw \<mapsto> session_zero\<lparr>s_state := SESSION_STATE_NOT_AUTHED\<rparr>),
       brk := Suc (brk sw)\<rparr>)"
  by (simp add: session_new_def Let_def)

lemma session_free_Some [simp, sw_simps]:
  "sessions sw a = Some x \<Longrightarrow> s_node_info x \<noteq> Dangling \<Longrightarrow>
   session_free sw (Some a) = Some (sw\<lparr>sessions := (sessions sw)(a := None)\<rparr>)"
  by (simp add: session_free_def)

lemma session_free_dead: "sessions sw a = None \<Longrightarrow> session_free sw (Some a) = None"
  by (simp add: session_free_def)

lemma session_add_mac_Some [simp, sw_simps]:
  "sessions sw a = Some x \<Longrightarrow> 6 \<le> length mac \<Longrightarrow>
   session_add_mac sw (Some a) mac =
     Some (sw\<lparr>sessions := (sessions sw)(a \<mapsto> x\<lparr>s_mac_list := take 6 mac # s_mac_list x\<rparr>)\<rparr>)"
  by (simp add: session_add_mac_def memcpy_def)

end
