(* ===== verification/Vnetwork.thy ===== *)
theory Vnetwork
  imports Session Chain
begin

text \<open>
  \<open>nvswitch/src/vnetwork.c\<close>: the virtual networks, the trees that find them by UUID and by id,
  and the doubly linked list of the sessions that are open in one.  The red-black trees of
  \<open>tree.h\<close> are the finite maps they implement: an insertion whose key is present leaves the
  tree as it is.
\<close>

section \<open>The code\<close>

definition vnetwork_del_session :: "switch \<Rightarrow> addr option \<Rightarrow> addr option \<Rightarrow> switch option" where
  "vnetwork_del_session sw vnet session = do {
     x \<leftarrow> get_sess sw session;
     sw \<leftarrow> (if s_next x = None then
              (if s_prev x = None then upd_vnet sw vnet (v_session_list_update (\<lambda>_. None))
               else upd_sess sw (s_prev x) (s_next_update (\<lambda>_. None)))
            else
              (if s_prev x = None then do {
                 sw \<leftarrow> upd_vnet sw vnet (v_session_list_update (\<lambda>_. s_next x));
                 upd_sess sw (s_next x) (s_prev_update (\<lambda>_. None)) }
               else do {
                 sw \<leftarrow> upd_sess sw (s_prev x) (s_next_update (\<lambda>_. s_next x));
                 x \<leftarrow> get_sess sw session;
                 upd_sess sw (s_next x) (s_prev_update (\<lambda>_. s_prev x)) }));
     x \<leftarrow> get_sess sw session;
     v \<leftarrow> get_vnet sw vnet;
     (_, pool) \<leftarrow> bitpool_release_bit (v_bitpool v) MAX_NODE (unat (s_id x - 1));
     upd_vnet sw vnet (\<lambda>v. v\<lparr>v_bitpool := pool, v_active_node := v_active_node v - 1\<rparr>) }"

text \<open>A pool without a free bit leaves \<open>session->id\<close> as it is; the code adds one all the same.\<close>

definition vnetwork_add_session :: "switch \<Rightarrow> addr option \<Rightarrow> addr option \<Rightarrow> switch option" where
  "vnetwork_add_session sw vnet session = do {
     v \<leftarrow> get_vnet sw vnet;
     sw \<leftarrow> (if v_session_list v = None then do {
              sw \<leftarrow> upd_vnet sw vnet (v_session_list_update (\<lambda>_. session));
              sw \<leftarrow> upd_sess sw session (s_next_update (\<lambda>_. None));
              upd_sess sw session (s_prev_update (\<lambda>_. None)) }
            else do {
              sw \<leftarrow> upd_sess sw session (s_next_update (\<lambda>_. v_session_list v));
              sw \<leftarrow> upd_sess sw (v_session_list v) (s_prev_update (\<lambda>_. session));
              upd_vnet sw vnet (v_session_list_update (\<lambda>_. session)) });
     v \<leftarrow> get_vnet sw vnet;
     r \<leftarrow> bitpool_allocate_bit (v_bitpool v) MAX_NODE;
     sw \<leftarrow> (case r of
              Inl _ \<Rightarrow> Some sw
            | Inr (b, pool) \<Rightarrow> do {
                sw \<leftarrow> upd_vnet sw vnet (v_bitpool_update (\<lambda>_. pool));
                upd_sess sw session (s_id_update (\<lambda>_. of_nat b)) });
     sw \<leftarrow> upd_sess sw session (\<lambda>x. x\<lparr>s_id := s_id x + 1\<rparr>);
     upd_vnet sw vnet (\<lambda>v. v\<lparr>v_active_node := v_active_node v + 1\<rparr>) }"

text \<open>The addresses the list runs through; a list that does not end, or that runs into freed
  memory, is \<^const>\<open>None\<close>.\<close>

partial_function (option) vnetwork_show_session_list :: "switch \<Rightarrow> addr option \<Rightarrow> addr list option" where
  "vnetwork_show_session_list sw itr =
     (case itr of
        None \<Rightarrow> Some []
      | Some a \<Rightarrow> do {
          x \<leftarrow> sessions sw a;
          l \<leftarrow> vnetwork_show_session_list sw (s_next x);
          Some (a # l) })"

definition vnetwork_lookup :: "switch \<Rightarrow> u8 list \<Rightarrow> addr option option" where
  "vnetwork_lookup sw uuid = do { k \<leftarrow> cbytes uuid; Some (vnetworks sw k) }"

definition vnetwork_lookup_id :: "switch \<Rightarrow> u8 list \<Rightarrow> addr option option" where
  "vnetwork_lookup_id sw vid = do { k \<leftarrow> cbytes vid; Some (vnetworks_id sw k) }"

definition vnetwork_free :: "switch \<Rightarrow> addr option \<Rightarrow> switch option" where
  "vnetwork_free sw vnet =
     (case vnet of
        None \<Rightarrow> Some sw
      | Some v \<Rightarrow> do {
          vn \<leftarrow> vnets sw v;
          _ \<leftarrow> linkst_free (v_linkst vn);
          ft \<leftarrow> v_ftable vn;
          _ \<leftarrow> ftable_delete ft;
          _ \<leftarrow> ctable_delete (v_ctable vn);
          _ \<leftarrow> ctable_delete (v_atable vn);
          sw \<leftarrow> session_free sw (v_access_session vn);
          Some (sw\<lparr>vnets := (vnets sw)(v := None)\<rparr>) })"

text \<open>The network that leaves the tree of UUIDs takes with it the network that the tree of ids
  holds under its id, which need not be itself.\<close>

definition vnetwork_disable :: "switch \<Rightarrow> u8 list \<Rightarrow> (addr option \<times> switch) option" where
  "vnetwork_disable sw uuid = do {
     vnet \<leftarrow> vnetwork_lookup sw uuid;
     case vnet of
       None \<Rightarrow> Some (None, sw)
     | Some v \<Rightarrow> do {
         vn \<leftarrow> vnets sw v;
         ku \<leftarrow> cbytes (v_uuid vn);
         let sw = sw\<lparr>vnetworks := (vnetworks sw)(ku := None)\<rparr>;
         vnet_id \<leftarrow> vnetwork_lookup_id sw (v_id vn);
         sw \<leftarrow> (case vnet_id of
                  None \<Rightarrow> Some sw
                | Some i \<Rightarrow> do {
                    vi \<leftarrow> vnets sw i;
                    ki \<leftarrow> cbytes (v_id vi);
                    Some (sw\<lparr>vnetworks_id := (vnetworks_id sw)(ki := None)\<rparr>) });
         Some (Some v, sw) } }"

definition rb_insert :: "('k \<rightharpoonup> 'v) \<Rightarrow> 'k \<Rightarrow> 'v \<Rightarrow> ('k \<rightharpoonup> 'v)" where
  "rb_insert t k v = (case t k of None \<Rightarrow> t(k \<mapsto> v) | Some _ \<Rightarrow> t)"

definition vnetwork_create ::
  "switch \<Rightarrow> u8 list \<Rightarrow> u8 list \<Rightarrow> u8 list \<Rightarrow> u8 list \<Rightarrow> u8 list \<Rightarrow> u8 list \<Rightarrow> u8 list
   \<Rightarrow> (int \<times> switch) option" where
  "vnetwork_create sw vid uuid address netmask serverCert serverPrivkey trustedCert = do {
     let v = brk sw;
     let sw = sw\<lparr>brk := Suc v\<rparr>;
     u \<leftarrow> strdup True uuid;
     u \<leftarrow> u;
     i \<leftarrow> strdup True vid;
     i \<leftarrow> i;
     let (acc, sw) = session_new True sw;
     let vn = \<lparr>v_id = i, v_uuid = u,
               v_ftable = ftable_new MAX_NODE session_itemdup,
               v_ctable = ctable_new MAX_NODE session_itemdup,
               v_atable = ctable_new MAX_NODE session_itemdup,
               v_active_node = 0,
               v_linkst = Some (linkst_new (of_nat MAX_NODE) TIMEOUT_SEC),
               v_bitpool = bitpool_new MAX_NODE,
               v_session_list = None,
               v_access_session = acc,
               v_passport = (serverCert, serverPrivkey, trustedCert)\<rparr>;
     ku \<leftarrow> cbytes u;
     ki \<leftarrow> cbytes i;
     Some (0, sw\<lparr>vnets := (vnets sw)(v \<mapsto> vn),
                 vnetworks := rb_insert (vnetworks sw) ku v,
                 vnetworks_id := rb_insert (vnetworks_id sw) ki v\<rparr>) }"

section \<open>The session list\<close>

text \<open>The sessions of a network are those of a doubly linked list.\<close>

interpretation sl: dlist s_next s_prev "\<lambda>q x. x\<lparr>s_next := q\<rparr>" "\<lambda>q x. x\<lparr>s_prev := q\<rparr>"
  by unfold_locales simp_all

text \<open>The open sessions of a network, in the order of its list.\<close>

definition open_sessions :: "switch \<Rightarrow> addr \<Rightarrow> addr list \<Rightarrow> bool" where
  "open_sessions sw v xs \<longleftrightarrow> distinct xs \<and> sl.chain (sessions sw) None xs None
     \<and> (\<exists>vn. vnets sw v = Some vn \<and> v_session_list vn = first xs None)"

lemma show_session_list_ok:
  "sl.chain (sessions sw) p xs None \<Longrightarrow> vnetwork_show_session_list sw (first xs None) = Some xs"
proof (induction xs arbitrary: p)
  case Nil
  then show ?case by (subst vnetwork_show_session_list.simps) simp
next
  case (Cons a xs)
  then obtain x where x: "sessions sw a = Some x" "s_next x = first xs None"
    "sl.chain (sessions sw) (Some a) xs None"
    by auto
  show ?case
    by (subst vnetwork_show_session_list.simps) (simp add: x Cons.IH [OF x(3)])
qed

section \<open>Adding and deleting a session\<close>

text \<open>The identifier and the pool after an allocation, which may have failed.\<close>

definition taken_id :: "session \<Rightarrow> int + (nat \<times> u8 list) \<Rightarrow> u32" where
  "taken_id x r = (case r of Inl _ \<Rightarrow> s_id x + 1 | Inr (b, _) \<Rightarrow> of_nat b + 1)"

definition taken_pool :: "vnetwork \<Rightarrow> int + (nat \<times> u8 list) \<Rightarrow> u8 list" where
  "taken_pool vn r = (case r of Inl _ \<Rightarrow> v_bitpool vn | Inr (_, pool) \<Rightarrow> pool)"

text \<open>The sessions after the links have been set.\<close>

definition link_in :: "(addr \<rightharpoonup> session) \<Rightarrow> addr option \<Rightarrow> addr \<Rightarrow> session \<Rightarrow> (addr \<rightharpoonup> session)" where
  "link_in S h s x =
     (case h of None \<Rightarrow> S(s \<mapsto> x\<lparr>s_next := None, s_prev := None\<rparr>)
      | Some a \<Rightarrow> S(s \<mapsto> x\<lparr>s_next := Some a\<rparr>, a \<mapsto> (the (S a))\<lparr>s_prev := Some s\<rparr>))"

lemma add_session_eq:
  assumes v: "vnets sw v = Some vn" and s: "sessions sw s = Some x"
    and h: "\<forall>h. v_session_list vn = Some h \<longrightarrow> h \<noteq> s \<and> sessions sw h \<noteq> None"
    and r: "bitpool_allocate_bit (v_bitpool vn) 1024 = Some r"
  shows "vnetwork_add_session sw (Some v) (Some s) = Some (sw\<lparr>
      sessions := link_in (sessions sw) (v_session_list vn) s (x\<lparr>s_id := taken_id x r\<rparr>),
      vnets := (vnets sw)(v \<mapsto> vn\<lparr>v_session_list := Some s, v_bitpool := taken_pool vn r,
                                   v_active_node := v_active_node vn + 1\<rparr>)\<rparr>)"
proof (cases "v_session_list vn")
  case None
  with v s r show ?thesis
    by (cases x; cases vn; cases r)
      (auto simp: vnetwork_add_session_def link_in_def taken_id_def taken_pool_def)
next
  case (Some a)
  with h obtain y where y: "sessions sw a = Some y" "a \<noteq> s" by auto
  with Some v s r show ?thesis
    by (cases x; cases vn; cases r)
      (auto simp: vnetwork_add_session_def link_in_def taken_id_def taken_pool_def fun_upd_twist)
qed

lemma del_session_eq:
  assumes v: "vnets sw v = Some vn" and s: "sessions sw s = Some x"
    and p: "\<forall>p. s_prev x = Some p \<longrightarrow> p \<noteq> s \<and> sessions sw p \<noteq> None"
    and n: "\<forall>n. s_next x = Some n \<longrightarrow> n \<noteq> s \<and> sessions sw n \<noteq> None"
    and pool: "bitpool_release_bit (v_bitpool vn) 1024 (unat (s_id x - 1)) = Some (r, pool)"
  shows "vnetwork_del_session sw (Some v) (Some s) = Some (sw\<lparr>
      sessions := sl.bypass (sessions sw) x,
      vnets := (vnets sw)(v \<mapsto> vn\<lparr>v_session_list := if s_prev x = None then s_next x else v_session_list vn,
                                   v_bitpool := pool, v_active_node := v_active_node vn - 1\<rparr>)\<rparr>)"
proof (cases "s_next x"; cases "s_prev x")
  assume "s_next x = None" "s_prev x = None"
  with v s pool show ?thesis by (simp add: vnetwork_del_session_def sl.bypass_def)
next
  fix a assume a: "s_next x = None" "s_prev x = Some a"
  with p obtain y where "sessions sw a = Some y" "a \<noteq> s" by auto
  with a v s pool show ?thesis by (simp add: vnetwork_del_session_def sl.bypass_def)
next
  fix a assume a: "s_next x = Some a" "s_prev x = None"
  with n obtain y where "sessions sw a = Some y" "a \<noteq> s" by auto
  with a v s pool show ?thesis by (simp add: vnetwork_del_session_def sl.bypass_def)
next
  fix a b assume a: "s_next x = Some a" "s_prev x = Some b"
  with n p obtain y z where y: "sessions sw a = Some y" "a \<noteq> s" "sessions sw b = Some z" "b \<noteq> s" by auto
  then show ?thesis
    using a v s pool by (cases "a = b") (simp_all add: vnetwork_del_session_def sl.bypass_def)
qed

lemma pool_allocate:
  assumes "length pool = 128"
  shows "(bits_set pool = {..<1024} \<and> bitpool_allocate_bit pool 1024 = Some (Inl (- 1)))
    \<or> (\<exists>b pool'. bitpool_allocate_bit pool 1024 = Some (Inr (b, pool')) \<and> b < 1024 \<and> b \<notin> bits_set pool
         \<and> bits_set pool' = insert b (bits_set pool) \<and> length pool' = 128)"
proof (cases "{..<1024} \<subseteq> bits_set pool")
  case True
  then have "bits_set pool = {..<1024}" using bits_set_bound [of pool] assms by auto
  with True assms show ?thesis using bitpool_allocate_full [of 1024 pool] by simp
next
  case False
  with assms show ?thesis using bitpool_allocate_least [of 1024 pool] by auto
qed

lemma pool_release:
  assumes "length pool = 128"
  shows "\<exists>r pool'. bitpool_release_bit pool 1024 b = Some (r, pool') \<and> length pool' = 128
    \<and> bits_set pool' = bits_set pool - {b}"
proof (cases "b < 1024")
  case True
  with assms show ?thesis using bitpool_release_in [of b 1024 pool] by auto
next
  case False
  then have "b \<notin> bits_set pool" using bits_set_bound [of pool] assms by auto
  with False assms show ?thesis by (simp add: bitpool_release_out)
qed

lemma session_list_add:
  assumes l: "open_sessions sw v xs" and s: "sessions sw s = Some x" "s \<notin> set xs" "s_prev x = None"
    and pool: "\<forall>vn. vnets sw v = Some vn \<longrightarrow> length (v_bitpool vn) = 128"
  shows "\<exists>sw'. vnetwork_add_session sw (Some v) (Some s) = Some sw' \<and> open_sessions sw' v (s # xs)"
proof -
  obtain vn where vn: "vnets sw v = Some vn" "v_session_list vn = first xs None"
    and c: "distinct xs" "sl.chain (sessions sw) None xs None"
    using l by (auto simp: open_sessions_def)
  obtain r where r: "bitpool_allocate_bit (v_bitpool vn) 1024 = Some r"
    using pool_allocate [of "v_bitpool vn"] pool vn by auto
  have h: "\<forall>h. v_session_list vn = Some h \<longrightarrow> h \<noteq> s \<and> sessions sw h \<noteq> None"
    using vn(2) c(2) s(2) by (cases xs) auto
  have "sl.chain (link_in (sessions sw) (v_session_list vn) s (x\<lparr>s_id := taken_id x r\<rparr>)) None (s # xs) None"
    using sl.chain_push [OF c(2) s(2) c(1), of "x\<lparr>s_id := taken_id x r, s_next := first xs None\<rparr>"] s(3) vn(2)
    by (cases xs; cases x) (auto simp: link_in_def)
  then show ?thesis
    using add_session_eq [OF vn(1) s(1) h r] c(1) s(2) by (simp add: open_sessions_def)
qed

lemma session_list_del:
  assumes l: "open_sessions sw v (xs @ s # ys)"
    and pool: "\<forall>vn. vnets sw v = Some vn \<longrightarrow> length (v_bitpool vn) = 128"
  shows "\<exists>sw'. vnetwork_del_session sw (Some v) (Some s) = Some sw' \<and> open_sessions sw' v (xs @ ys)"
proof -
  obtain vn where vn: "vnets sw v = Some vn" "v_session_list vn = first (xs @ s # ys) None"
    and c: "distinct (xs @ s # ys)" "sl.chain (sessions sw) None (xs @ s # ys) None"
    using l unfolding open_sessions_def by blast
  obtain x where x: "sessions sw s = Some x" "s_prev x = last_or xs None" "s_next x = first ys None"
    using c(2) by auto
  obtain r pl where r: "bitpool_release_bit (v_bitpool vn) 1024 (unat (s_id x - 1)) = Some (r, pl)"
    using pool_release [of "v_bitpool vn" "unat (s_id x - 1)"] pool vn(1) by auto
  have p: "\<forall>p. s_prev x = Some p \<longrightarrow> p \<noteq> s \<and> sessions sw p \<noteq> None"
    using c x(2) by (cases xs rule: rev_cases) auto
  have n: "\<forall>n. s_next x = Some n \<longrightarrow> n \<noteq> s \<and> sessions sw n \<noteq> None"
    using c x(3) by (cases ys) auto
  have "sl.chain (sl.bypass (sessions sw) x) None (xs @ ys) None"
    using sl.chain_bypass [OF c(2,1) x(1)] .
  moreover have "(if s_prev x = None then s_next x else v_session_list vn) = first (xs @ ys) None"
    using vn(2) x(2,3) by (cases xs) (auto simp: last_or_def)
  ultimately show ?thesis
    using del_session_eq [OF vn(1) x(1) p n r] c(1) by (simp add: open_sessions_def)
qed

text \<open>C12. Opening a session puts it at the head of its network's session list, closing one takes
  exactly that session out; the order of the others is kept, the list stays well linked in both
  directions, and neither operation touches memory it should not, even when no node identifier
  is left.\<close>

theorem vnetwork_session_list:
  assumes l: "open_sessions sw v xs" and vn: "vnets sw v = Some vn" "length (v_bitpool vn) = 128"
  shows "(\<forall>s x. s \<notin> set xs \<and> sessions sw s = Some x \<and> s_prev x = None \<longrightarrow>
           (\<exists>sw'. vnetwork_add_session sw (Some v) (Some s) = Some sw' \<and> open_sessions sw' v (s # xs)))
       \<and> (\<forall>s \<in> set xs. \<exists>sw'. vnetwork_del_session sw (Some v) (Some s) = Some sw'
            \<and> open_sessions sw' v (remove1 s xs))"
proof (intro conjI allI impI ballI)
  fix s x assume "s \<notin> set xs \<and> sessions sw s = Some x \<and> s_prev x = None"
  then show "\<exists>sw'. vnetwork_add_session sw (Some v) (Some s) = Some sw' \<and> open_sessions sw' v (s # xs)"
    using session_list_add [OF l] vn by auto
next
  fix s assume "s \<in> set xs"
  then obtain as bs where s: "xs = as @ s # bs" "s \<notin> set as" using split_list_first by metis
  then show "\<exists>sw'. vnetwork_del_session sw (Some v) (Some s) = Some sw' \<and> open_sessions sw' v (remove1 s xs)"
    using session_list_del [of sw v as s bs] l vn by (simp add: remove1_append)
qed

definition demo_vnet :: vnetwork where
  "demo_vnet = \<lparr>v_id = cmem ''1'', v_uuid = cmem ''u'', v_ftable = ftable_new 1024 session_itemdup,
     v_ctable = ctable_new 1024 session_itemdup, v_atable = ctable_new 1024 session_itemdup,
     v_active_node = 0, v_linkst = Some (linkst_new 1024 300), v_bitpool = bitpool_new 1024,
     v_session_list = None, v_access_session = None, v_passport = ([], [], [])\<rparr>"

definition demo_vnet_switch :: switch where
  "demo_vnet_switch = (switch_start (\<lambda>_. 0))\<lparr>
     sessions := [1 \<mapsto> session_zero, 2 \<mapsto> session_zero\<lparr>s_prev := Some 3\<rparr>,
                  3 \<mapsto> session_zero\<lparr>s_next := Some 2\<rparr>],
     vnets := [9 \<mapsto> demo_vnet\<lparr>v_session_list := Some 3\<rparr>]\<rparr>"

theorem vnetwork_session_list_witness:
  "(\<exists>sw'. vnetwork_add_session demo_vnet_switch (Some 9) (Some 1) = Some sw' \<and> open_sessions sw' 9 [1, 3, 2])
    \<and> (\<exists>sw'. vnetwork_del_session demo_vnet_switch (Some 9) (Some 2) = Some sw' \<and> open_sessions sw' 9 [3])"
proof -
  have f: "sessions demo_vnet_switch = [1 \<mapsto> session_zero, 2 \<mapsto> session_zero\<lparr>s_prev := Some 3\<rparr>,
      3 \<mapsto> session_zero\<lparr>s_next := Some 2\<rparr>]"
    "vnets demo_vnet_switch = [9 \<mapsto> demo_vnet\<lparr>v_session_list := Some 3\<rparr>]"
    by (simp_all add: demo_vnet_switch_def)
  have "open_sessions demo_vnet_switch 9 [3, 2]" by (simp add: open_sessions_def session_zero_def f)
  note t = vnetwork_session_list [OF this, of "demo_vnet\<lparr>v_session_list := Some 3\<rparr>"]
  have "length (bitpool_new 1024) = 128" by (simp add: bitpool_new_def)
  then show ?thesis using t by (simp add: f demo_vnet_def session_zero_def)
qed

end
