(* ===== verification/Control.thy ===== *)
theory Control
  imports Vnetwork
begin

text \<open>
  \<open>nvswitch/src/control.c\<close>: the dialogue with the controller.  Queries are JSON texts; those of
  the switching thread go through a pipe (\<open>pipe\<close>), whose other end copies them to the
  controller's socket (\<open>ctrl_sock\<close>).  A message of the controller is a value of the JSON
  library, \<open>J\<close>.  Every function returns the code's \<open>int\<close>; the event loop, the sockets and the TLS
  setup are not modelled.
\<close>

section \<open>Queries\<close>

text \<open>\<open>write(pipefd[1], query_str, strlen(query_str))\<close>, when the text could be built.\<close>

definition pipe_query :: "'j jansson \<Rightarrow> switch \<Rightarrow> (string \<times> jout) list \<Rightarrow> int \<times> switch" where
  "pipe_query J sw q =
     (case json_text J q of None \<Rightarrow> (- 1, sw) | Some t \<Rightarrow> (0, sw\<lparr>pipe := pipe sw @ t\<rparr>))"

text \<open>The same over the socket, with the newline that ends a message.\<close>

definition sock_query :: "'j jansson \<Rightarrow> switch \<Rightarrow> (string \<times> jout) list \<Rightarrow> int \<times> switch" where
  "sock_query J sw q =
     (case json_text J q of None \<Rightarrow> (- 1, sw) | Some t \<Rightarrow> (0, sw\<lparr>ctrl_sock := ctrl_sock sw @ t @ [10]\<rparr>))"

definition str :: "string \<Rightarrow> jout" where
  "str s = JStr (Some (map of_char s))"

definition update_node_status ::
  "'j jansson \<Rightarrow> switch \<Rightarrow> u8 list \<Rightarrow> u8 list option \<Rightarrow> u8 list \<Rightarrow> u8 list \<Rightarrow> (int \<times> switch) option" where
  "update_node_status J sw status local_ipaddr uuid network_uuid = do {
     status \<leftarrow> cbytes status;
     local_ipaddr \<leftarrow> cbytes_opt local_ipaddr;
     uuid \<leftarrow> cbytes uuid;
     network_uuid \<leftarrow> cbytes network_uuid;
     Some (pipe_query J sw
       [(''action'', str ''update-node-status''),
        (''node'', JObj [(''status'', JStr (Some status)), (''local-ipaddr'', JStr local_ipaddr),
                         (''uuid'', JStr (Some uuid)), (''networkuuid'', JStr (Some network_uuid))])]) }"

text \<open>\<open>sprintf(tid, "%d", tracking_id)\<close> into ten characters; \<open>tracking_id\<close>, read as an \<open>int\<close>, is
  written with its sign.  The session is remembered under the identifier.\<close>

definition query_provisioning ::
  "'j jansson \<Rightarrow> switch \<Rightarrow> addr option \<Rightarrow> u8 list option \<Rightarrow> (int \<times> switch) option" where
  "query_provisioning J sw session provcode = do {
     let tid = int_text (sint (tracking_id sw));
     if 10 < length tid + 1 then None else do {
     table \<leftarrow> store (tracking_table sw) (unat (tracking_id sw) mod MAX_SESSION) session;
     let sw = sw\<lparr>tracking_table := table\<rparr>;
     provcode \<leftarrow> cbytes_opt provcode;
     Some (pipe_query J sw
       [(''tid'', str tid), (''action'', str ''provisioning''),
        (''node'', JObj [(''provcode'', JStr provcode)])]) } }"

definition query_list_node :: "'j jansson \<Rightarrow> switch \<Rightarrow> int \<times> switch" where
  "query_list_node J sw = sock_query J sw [(''tid'', str ''tid''), (''action'', str ''listall-node'')]"

definition query_list_network :: "'j jansson \<Rightarrow> switch \<Rightarrow> int \<times> switch" where
  "query_list_network J sw = sock_query J sw [(''action'', str ''listall-network'')]"

text \<open>The reading end of the pipe: at most 1024 bytes into a zeroed buffer of 1024, copied as a
  C string.\<close>

definition pipe_read_cb :: "switch \<Rightarrow> switch option" where
  "pipe_read_cb sw = do {
     let query_str = take 1024 (pipe sw) @ replicate (1024 - length (pipe sw)) 0;
     let sw = sw\<lparr>pipe := drop 1024 (pipe sw)\<rparr>;
     n \<leftarrow> strlen query_str;
     Some (sw\<lparr>ctrl_sock := ctrl_sock sw @ take n query_str @ [10]\<rparr>) }"

section \<open>Messages of the controller\<close>

definition del_node :: "'j jansson \<Rightarrow> switch \<Rightarrow> 'j \<Rightarrow> (int \<times> switch) option" where
  "del_node J sw jmsg =
     or_return (object_get J jmsg ''node'') (- 1, sw) (\<lambda>node.
     or_return (unpack_s J node ''uuid'') (- 1, sw) (\<lambda>uuid.
     or_return (unpack_s J node ''networkuuid'') (- 1, sw) (\<lambda>network_uuid. do {
       vnet \<leftarrow> vnetwork_lookup sw network_uuid;
       or_return vnet (- 1, sw) (\<lambda>v. do {
         vn \<leftarrow> vnets sw v;
         (_, _, atable) \<leftarrow> ctable_erase (v_atable vn) uuid;
         sw \<leftarrow> upd_vnet sw (Some v) (v_atable_update (\<lambda>_. atable));
         vn \<leftarrow> vnets sw v;
         session \<leftarrow> ctable_find (v_ctable vn) uuid;
         sw \<leftarrow> (if session \<noteq> None then upd_sess sw session (s_state_update (\<lambda>_. SESSION_STATE_PURGE))
               else Some sw);
         Some (0, sw) }) })))"

text \<open>The loop of \<open>del_network\<close> over the open sessions.\<close>

partial_function (option) purge_loop :: "switch \<Rightarrow> addr option \<Rightarrow> switch option" where
  "purge_loop sw session_list =
     (if session_list \<noteq> None then do {
        sw \<leftarrow> upd_sess sw session_list (s_state_update (\<lambda>_. SESSION_STATE_PURGE));
        sw \<leftarrow> upd_sess sw session_list (s_vnetwork_update (\<lambda>_. None));
        x \<leftarrow> get_sess sw session_list;
        purge_loop sw (s_next x) }
      else Some sw)"

definition del_network :: "'j jansson \<Rightarrow> switch \<Rightarrow> 'j \<Rightarrow> (int \<times> switch) option" where
  "del_network J sw jmsg =
     or_return (object_get J jmsg ''network'') (- 1, sw) (\<lambda>network.
     or_return (unpack_s J network ''networkuuid'') (- 1, sw) (\<lambda>network_uuid. do {
       (vnet, sw) \<leftarrow> vnetwork_disable sw network_uuid;
       or_return vnet (- 1, sw) (\<lambda>v. do {
         vn \<leftarrow> vnets sw v;
         sw \<leftarrow> purge_loop sw (v_session_list vn);
         sw \<leftarrow> vnetwork_free sw (Some v);
         Some (0, sw) }) }))"

text \<open>\<open>atoi\<close>: optional white space and sign, then digits; a value outside \<open>int\<close> is undefined.\<close>

definition is_blank :: "u8 \<Rightarrow> bool" where
  "is_blank c \<longleftrightarrow> c = 32 \<or> (9 \<le> c \<and> c \<le> 13)"

fun digits_value :: "nat \<Rightarrow> u8 list \<Rightarrow> nat" where
  "digits_value n [] = n"
| "digits_value n (c # cs) =
     (if 48 \<le> c \<and> c \<le> 57 then digits_value (10 * n + unat (c - 48)) cs else n)"

definition atoi :: "u8 list \<Rightarrow> int option" where
  "atoi s = do {
     b \<leftarrow> cbytes s;
     let b = dropWhile is_blank b;
     let v = (case b of
                [] \<Rightarrow> 0
              | c # r \<Rightarrow> if c = 45 then - int (digits_value 0 r)
                        else if c = 43 then int (digits_value 0 r)
                        else int (digits_value 0 b));
     if - (2 ^ 31) \<le> v \<and> v < 2 ^ 31 then Some v else None }"

text \<open>The response that carries the certificates to the agent.\<close>

definition prov_response :: "u8 list \<Rightarrow> u8 list \<Rightarrow> u8 list \<Rightarrow> u8 list \<Rightarrow> DNDSMessage option option" where
  "prov_response cert pkey tcert ipaddr = do {
     let ok = (\<lambda>_. True);
     let (_, msg) = DNDSMessage_new True;
     (_, msg) \<leftarrow> DNDSMessage_set_channel msg 0;
     (_, msg) \<leftarrow> DNDSMessage_set_pdu msg pdu_PR_dnm;
     (_, msg) \<leftarrow> DNMessage_set_operation msg dnop_PR_provResponse;
     n \<leftarrow> strlen cert;
     (_, msg) \<leftarrow> ProvResponse_set_certificate ok msg (Some cert) (of_nat n);
     n \<leftarrow> strlen pkey;
     (_, msg) \<leftarrow> ProvResponse_set_certificateKey ok msg (Some pkey) (of_nat n);
     n \<leftarrow> strlen tcert;
     (_, msg) \<leftarrow> ProvResponse_set_trustedCert ok msg (Some tcert) (of_nat n);
     (_, msg) \<leftarrow> ProvResponse_set_ipAddress ok msg (Some ipaddr);
     Some msg }"

text \<open>\<open>atoi(tid) % MAX_SESSION\<close>: the remainder has the sign of the dividend, and a negative index
  is outside the table.\<close>

definition provisioning :: "'j jansson \<Rightarrow> switch \<Rightarrow> 'j \<Rightarrow> (int \<times> switch) option" where
  "provisioning J sw jmsg =
     or_return (unpack_s J jmsg ''response'') (- 1, sw) (\<lambda>response. do {
     eq \<leftarrow> strneq response (cmem ''success'') 8;
     if \<not> eq then Some (- 1, sw) else
     or_return (unpack_s J jmsg ''tid'') (- 1, sw) (\<lambda>tid.
     or_return (object_get J jmsg ''node'') (- 1, sw) (\<lambda>node.
     or_return (unpack_s J node ''cert'') (- 1, sw) (\<lambda>cert.
     or_return (unpack_s J node ''pkey'') (- 1, sw) (\<lambda>pkey.
     or_return (unpack_s J node ''tcert'') (- 1, sw) (\<lambda>tcert.
     or_return (unpack_s J node ''ipaddr'') (- 1, sw) (\<lambda>ipaddr. do {
       msg \<leftarrow> prov_response cert pkey tcert ipaddr;
       t \<leftarrow> atoi tid;
       if t < 0 \<and> t mod int MAX_SESSION \<noteq> 0 then None else do {
       let i = nat (t mod int MAX_SESSION);
       session \<leftarrow> fetch (tracking_table sw) i;
       table \<leftarrow> store (tracking_table sw) i None;
       let sw = sw\<lparr>tracking_table := table\<rparr>;
       sw \<leftarrow> (if session \<noteq> None then do {
                x \<leftarrow> get_sess sw session;
                m \<leftarrow> msg;
                net_send_msg sw (s_netc x) m }
              else Some sw);
       Some (0, sw) } })))))) })"

text \<open>The loops over a JSON array, from element \<open>i\<close> on; \<open>n\<close> elements remain.\<close>

fun listall_node_loop :: "'j jansson \<Rightarrow> switch \<Rightarrow> 'j \<Rightarrow> nat \<Rightarrow> nat \<Rightarrow> (int option \<times> switch) option" where
  "listall_node_loop J sw js i 0 = Some (None, sw)"
| "listall_node_loop J sw js i (Suc n) =
     or_return (array_get J js i) (Some (- 1), sw) (\<lambda>node.
     or_return (unpack_s J node ''uuid'') (Some (- 1), sw) (\<lambda>uuid.
     or_return (unpack_s J node ''networkuuid'') (Some (- 1), sw) (\<lambda>network_uuid. do {
       vnet \<leftarrow> vnetwork_lookup sw network_uuid;
       sw \<leftarrow> (case vnet of
                None \<Rightarrow> Some sw
              | Some v \<Rightarrow> do {
                  vn \<leftarrow> vnets sw v;
                  (_, atable) \<leftarrow> ctable_insert (v_atable vn) uuid (v_access_session vn);
                  upd_vnet sw (Some v) (v_atable_update (\<lambda>_. atable)) });
       listall_node_loop J sw js (Suc i) n })))"

definition listall_node :: "'j jansson \<Rightarrow> switch \<Rightarrow> 'j \<Rightarrow> (int \<times> switch) option" where
  "listall_node J sw jmsg =
     or_return (object_get J jmsg ''nodes'') (- 1, sw) (\<lambda>js_nodes.
     if array_size J js_nodes = 0 then Some (- 1, sw) else do {
       (err, sw) \<leftarrow> listall_node_loop J sw js_nodes 0 (array_size J js_nodes);
       case err of
         Some e \<Rightarrow> Some (e, sw)
       | None \<Rightarrow>
           or_return (unpack_s J jmsg ''response'') (- 1, sw) (\<lambda>response. do {
             eq \<leftarrow> strneq response (cmem ''success'') 8;
             Some (if eq then 0 else 1, sw) }) })"

text \<open>The pointer \<open>network_id\<close> keeps the value of the previous element when an element has no
  \<open>id\<close>; it starts uninitialised, and reading it then is a fault.  The outer \<^typ>\<open>'a option\<close> of
  the argument is whether it has been set.\<close>

fun listall_network_loop ::
  "'j jansson \<Rightarrow> switch \<Rightarrow> 'j \<Rightarrow> nat \<Rightarrow> nat \<Rightarrow> u8 list option \<Rightarrow> (int option \<times> switch) option" where
  "listall_network_loop J sw js i 0 network_id = Some (None, sw)"
| "listall_network_loop J sw js i (Suc n) network_id =
     or_return (array_get J js i) (Some (- 1), sw) (\<lambda>elm.
     let network_id = (case unpack_s J elm ''id'' of None \<Rightarrow> network_id | Some s \<Rightarrow> Some s) in
     or_return (unpack_s J elm ''uuid'') (Some (- 1), sw) (\<lambda>network_uuid.
     or_return (unpack_s J elm ''network'') (Some (- 1), sw) (\<lambda>subnet.
     or_return (unpack_s J elm ''netmask'') (Some (- 1), sw) (\<lambda>netmask.
     or_return (unpack_s J elm ''cert'') (Some (- 1), sw) (\<lambda>cert.
     or_return (unpack_s J elm ''pkey'') (Some (- 1), sw) (\<lambda>pkey.
     or_return (unpack_s J elm ''tcert'') (Some (- 1), sw) (\<lambda>tcert. do {
       vid \<leftarrow> network_id;
       (_, sw) \<leftarrow> vnetwork_create sw vid network_uuid subnet netmask cert pkey tcert;
       listall_network_loop J sw js (Suc i) n network_id })))))))"

definition listall_network :: "'j jansson \<Rightarrow> switch \<Rightarrow> 'j \<Rightarrow> (int \<times> switch) option" where
  "listall_network J sw jmsg =
     or_return (unpack_s J jmsg ''response'') (- 1, sw) (\<lambda>response.
     or_return (object_get J jmsg ''networks'') (- 1, sw) (\<lambda>js_networks.
     if array_size J js_networks = 0 then Some (- 1, sw) else do {
       (err, sw) \<leftarrow> listall_network_loop J sw js_networks 0 (array_size J js_networks) None;
       case err of
         Some e \<Rightarrow> Some (e, sw)
       | None \<Rightarrow> do {
           eq \<leftarrow> strneq response (cmem ''success'') 8;
           Some (if eq then 0 else 1, sw) } }))"

definition streq :: "u8 list \<Rightarrow> string \<Rightarrow> bool option" where
  "streq s t = strneq s (cmem t) (Suc (length t))"

definition dispatch_op :: "'j jansson \<Rightarrow> switch \<Rightarrow> 'j \<Rightarrow> (int \<times> switch) option" where
  "dispatch_op J sw jmsg =
     or_return (unpack_s J jmsg ''action'') (- 1, sw) (\<lambda>action. do {
       eq \<leftarrow> streq action ''listall-network'';
       if eq then do {
         (ret, sw) \<leftarrow> listall_network J sw jmsg;
         if ret = 0 \<and> \<not> ctrl_initialized sw then Some (query_list_node J sw) else Some (ret, sw) }
       else do {
       eq \<leftarrow> streq action ''listall-node'';
       if eq then do {
         (ret, sw) \<leftarrow> listall_node J sw jmsg;
         Some (ret, if ret = 0 \<and> \<not> ctrl_initialized sw then sw\<lparr>ctrl_initialized := True\<rparr> else sw) }
       else do {
       eq \<leftarrow> streq action ''provisioning'';
       if eq then provisioning J sw jmsg
       else do {
       eq \<leftarrow> streq action ''del-network'';
       if eq then del_network J sw jmsg
       else do {
       eq \<leftarrow> streq action ''del-node'';
       if eq then del_node J sw jmsg
       else Some (0, sw) } } } } })"

text \<open>The connection to the controller comes up.\<close>

definition on_connected :: "'j jansson \<Rightarrow> switch \<Rightarrow> switch" where
  "on_connected J sw = snd (query_list_network J (sw\<lparr>ctrl_initialized := False\<rparr>))"

end
