(* ===== verification/Conn.thy ===== *)
theory Conn
  imports Control
begin

text \<open>
  The connection handlers of \<open>nvswitch/src/switch.c\<close>, and the two functions that close a
  connection through them: \<open>net_disconnect\<close> of \<open>libnvcore/src/netbus.c\<close> and
  \<open>session_terminate\<close> of \<open>nvswitch/src/session.c\<close>.  The names a peer certificate carries,
  which OpenSSL extracts, are arguments of \<open>on_secure\<close>.
\<close>

section \<open>The code\<close>

text \<open>The acknowledgement both \<open>authRequest\<close> and \<open>on_secure\<close> build.\<close>

definition auth_response :: "int \<Rightarrow> DNDSMessage option" where
  "auth_response result = do {
     let (_, msg) = DNDSMessage_new True;
     (_, msg) \<leftarrow> DNDSMessage_set_channel msg 0;
     (_, msg) \<leftarrow> DNDSMessage_set_pdu msg pdu_PR_dnm;
     (_, msg) \<leftarrow> DNMessage_set_seqNumber msg 1;
     (_, msg) \<leftarrow> DNMessage_set_ackNumber msg 0;
     (_, msg) \<leftarrow> DNMessage_set_operation msg dnop_PR_authResponse;
     (_, msg) \<leftarrow> AuthResponse_set_result msg result;
     msg }"

fun erase_macs :: "(u8 list, addr) jsw_hash \<Rightarrow> u8 list list \<Rightarrow> (u8 list, addr) jsw_hash option" where
  "erase_macs ft [] = Some ft"
| "erase_macs ft (m # ms) = do { (_, _, ft) \<leftarrow> ftable_erase ft m; erase_macs ft ms }"

definition on_disconnect :: "'j jansson \<Rightarrow> switch \<Rightarrow> addr \<Rightarrow> switch option" where
  "on_disconnect J sw netc = do {
     c \<leftarrow> netcs sw netc;
     let session = n_ext_ptr c;
     if session = None then Some sw
     else do {
       x \<leftarrow> get_sess sw session;
       if s_state x = SESSION_STATE_NOT_AUTHED then session_free sw session
       else do {
         sw \<leftarrow> (if s_vnetwork x \<noteq> None then do {
                  v \<leftarrow> get_vnet sw (s_vnetwork x);
                  (_, linkst) \<leftarrow> linkst_disjoin (v_linkst v) (s_id x);
                  ft \<leftarrow> v_ftable v;
                  ft \<leftarrow> erase_macs ft (s_mac_list x);
                  ni \<leftarrow> deref (s_node_info x);
                  (_, _, ct) \<leftarrow> ctable_erase (v_ctable v) (ni_uuid ni);
                  sw \<leftarrow> upd_vnet sw (s_vnetwork x)
                         (\<lambda>v. v\<lparr>v_linkst := linkst, v_ftable := Some ft, v_ctable := ct\<rparr>);
                  sw \<leftarrow> upd_sess sw session (s_mac_list_update (\<lambda>_. []));
                  vnetwork_del_session sw (s_vnetwork x) session }
                else Some sw);
         x \<leftarrow> get_sess sw session;
         ni \<leftarrow> deref (s_node_info x);
         (_, sw) \<leftarrow> update_node_status J sw (cmem ''0'') (s_ip x) (ni_uuid ni) (ni_network_uuid ni);
         session_free sw session } } }"

definition net_disconnect :: "'j jansson \<Rightarrow> switch \<Rightarrow> addr option \<Rightarrow> switch option" where
  "net_disconnect J sw netc =
     (case netc of
        None \<Rightarrow> Some sw
      | Some n \<Rightarrow> do {
          sw \<leftarrow> on_disconnect J sw n;
          Some (sw\<lparr>netcs := (netcs sw)(n := None), events := events sw @ [Disconnect n]\<rparr>) })"

definition on_connect :: "'j jansson \<Rightarrow> bool \<Rightarrow> switch \<Rightarrow> addr \<Rightarrow> switch option" where
  "on_connect J ok sw netc = do {
     let (session, sw) = session_new ok sw;
     if session = None then net_disconnect J sw (Some netc)
     else do {
       c \<leftarrow> netcs sw netc;
       ip \<leftarrow> strdup True (n_host c);
       sw \<leftarrow> upd_sess sw session (\<lambda>x. x\<lparr>s_ip := ip, s_netc := Some netc\<rparr>);
       upd_netc sw (Some netc) (n_ext_ptr_update (\<lambda>_. session)) } }"

definition session_terminate :: "'j jansson \<Rightarrow> switch \<Rightarrow> addr option \<Rightarrow> switch option" where
  "session_terminate J sw session = do {
     x \<leftarrow> get_sess sw session;
     sw \<leftarrow> net_disconnect J sw (s_netc x);
     session_free sw session }"

text \<open>The node a peer certificate names: by its alternative name if it has one, else by its common
  name.\<close>

definition cert_node :: "u8 list option \<Rightarrow> u8 list option \<Rightarrow> node_info option option" where
  "cert_node altname cn =
     (if altname = None then cn2node_info cn
      else do { ni \<leftarrow> altname2node_info altname; Some (Some ni) })"

text \<open>``reWrite network_uuid, it has been destroyed.''\<close>

definition fill_network_uuid :: "vnetwork \<Rightarrow> node_info \<Rightarrow> node_info option" where
  "fill_network_uuid vn ni =
     (if ni_v ni = 1 then do {
        n \<leftarrow> strncpy (ni_network_uuid ni) (v_uuid vn) 36;
        n \<leftarrow> store n 36 0;
        Some (ni\<lparr>ni_network_uuid := n\<rparr>) }
      else Some ni)"

definition on_secure ::
  "'j jansson \<Rightarrow> switch \<Rightarrow> addr \<Rightarrow> u8 list option \<Rightarrow> u8 list option \<Rightarrow> switch option" where
  "on_secure J sw netc altname cn = do {
     c \<leftarrow> netcs sw netc;
     let session = n_ext_ptr c;
     x \<leftarrow> get_sess sw session;
     if s_state x \<noteq> SESSION_STATE_WAIT_STEPUP then Some sw
     else if s_node_info x = Dangling then None
     else do {
       sw \<leftarrow> upd_sess sw session
              (\<lambda>x. x\<lparr>s_node_info := if s_node_info x = Null then Null else Dangling\<rparr>);
       if altname = None \<and> cn = None then Some sw
       else do {
         p \<leftarrow> cert_node altname cn;
         sw \<leftarrow> upd_sess sw session
                (s_node_info_update (\<lambda>_. case p of None \<Rightarrow> Null | Some ni \<Rightarrow> Own ni));
         v \<leftarrow> get_vnet sw (s_vnetwork x);
         ni \<leftarrow> p;
         known \<leftarrow> ctable_find (v_atable v) (ni_uuid ni);
         if known = None then do {
           msg \<leftarrow> auth_response DNDSResult_noRight;
           net_send_msg sw (s_netc x) msg }
         else do {
           msg \<leftarrow> auth_response DNDSResult_success;
           ni \<leftarrow> fill_network_uuid v ni;
           sw \<leftarrow> upd_sess sw session (\<lambda>x. x\<lparr>s_node_info := Own ni, s_state := SESSION_STATE_AUTHED\<rparr>);
           sw \<leftarrow> vnetwork_add_session sw (s_vnetwork x) session;
           (_, sw) \<leftarrow> update_node_status J sw (cmem ''1'') (s_ip x) (ni_uuid ni) (ni_network_uuid ni);
           net_send_msg sw (s_netc x) msg } } } }"

text \<open>\<open>net_on_connect\<close> of \<open>netbus.c\<close>: the new connection inherits the security level of the
  listening one; on an unsecured listener the connection counts as secure at once, and no
  certificate is there to be read.\<close>

definition net_on_connect :: "'j jansson \<Rightarrow> bool \<Rightarrow> switch \<Rightarrow> u8 \<Rightarrow> u8 list \<Rightarrow> switch option" where
  "net_on_connect J ok sw security_level host = do {
     let n = brk sw;
     let sw = sw\<lparr>netcs := (netcs sw)(n \<mapsto> \<lparr>n_host = host, n_security_level = security_level,
                  n_ext_ptr = None, n_queue_msg = []\<rparr>), brk := Suc n\<rparr>;
     sw \<leftarrow> on_connect J ok sw n;
     if security_level = NET_UNSECURE then on_secure J sw n None None else Some sw }"

end
