(* ===== verification/Request.thy ===== *)
theory Request
  imports Conn
begin

text \<open>
  \<open>nvswitch/src/request.c\<close>: provisioning and authentication requests of the agents, and the
  introduction of two agents to each other.
\<close>

section \<open>The code\<close>

text \<open>\<open>provcode\<close> stays null when the message has none.\<close>

definition provRequest :: "'j jansson \<Rightarrow> switch \<Rightarrow> addr option \<Rightarrow> DNDSMessage \<Rightarrow> switch option" where
  "provRequest J sw session req_msg = do {
     (_, r) \<leftarrow> ProvRequest_get_provCode (Some req_msg) True True;
     let provcode = Option.bind r fst;
     (_, sw) \<leftarrow> query_provisioning J sw session provcode;
     Some sw }"

text \<open>The network a certificate name designates: by id, with the UUID then filled in, or by UUID.\<close>

definition resolve_network :: "switch \<Rightarrow> node_info \<Rightarrow> (addr option \<times> node_info) option" where
  "resolve_network sw ni =
     (if ni_v ni = 1 then do {
        vnet \<leftarrow> vnetwork_lookup_id sw (ni_network_id ni);
        case vnet of
          None \<Rightarrow> Some (None, ni)
        | Some v \<Rightarrow> do {
            vn \<leftarrow> vnets sw v;
            ni \<leftarrow> fill_network_uuid vn ni;
            Some (vnet, ni) } }
      else do {
        vnet \<leftarrow> vnetwork_lookup sw (ni_network_uuid ni);
        Some (vnet, ni) })"

definition authRequest ::
  "'j jansson \<Rightarrow> switch \<Rightarrow> addr option \<Rightarrow> DNDSMessage \<Rightarrow> (int \<times> switch) option" where
  "authRequest J sw session req_msg = do {
     x \<leftarrow> get_sess sw session;
     if s_state x \<noteq> SESSION_STATE_NOT_AUTHED then Some (- 1, sw)
     else do {
       (_, r) \<leftarrow> AuthRequest_get_certName (Some req_msg) True True;
       let certName = Option.bind r fst;
       p \<leftarrow> cn2node_info certName;
       sw \<leftarrow> upd_sess sw session
              (s_node_info_update (\<lambda>_. case p of None \<Rightarrow> Null | Some ni \<Rightarrow> Own ni));
       case p of
         None \<Rightarrow> Some (- 1, sw)
       | Some ni \<Rightarrow> do {
           (vnet, ni) \<leftarrow> resolve_network sw ni;
           sw \<leftarrow> upd_sess sw session (\<lambda>x. x\<lparr>s_node_info := Own ni, s_vnetwork := vnet\<rparr>);
           if vnet = None then do {
             msg \<leftarrow> auth_response DNDSResult_noRight;
             sw \<leftarrow> net_send_msg sw (s_netc x) msg;
             Some (- 1, sw) }
           else do {
             v \<leftarrow> get_vnet sw vnet;
             old_session \<leftarrow> ctable_find (v_ctable v) (ni_uuid ni);
             (_, ct) \<leftarrow> ctable_insert (v_ctable v) (ni_uuid ni) session;
             sw \<leftarrow> upd_vnet sw vnet (v_ctable_update (\<lambda>_. ct));
             certName \<leftarrow> certName;
             cert_name \<leftarrow> strdup True certName;
             sw \<leftarrow> upd_sess sw session (s_cert_name_update (\<lambda>_. cert_name));
             c \<leftarrow> get_netc sw (s_netc x);
             if n_security_level c = NET_UNSECURE then do {
               msg \<leftarrow> auth_response DNDSResult_success;
               sw \<leftarrow> net_send_msg sw (s_netc x) msg;
               sw \<leftarrow> upd_sess sw session (s_state_update (\<lambda>_. SESSION_STATE_AUTHED));
               netc \<leftarrow> s_netc x;
               sw \<leftarrow> on_secure J sw netc None None;
               Some (0, sw) }
             else do {
               msg \<leftarrow> auth_response DNDSResult_secureStepUp;
               sw \<leftarrow> net_send_msg sw (s_netc x) msg;
               sw \<leftarrow> net_call sw (s_netc x) (\<lambda>n. AddPassport n (v_passport v));
               sw \<leftarrow> upd_sess sw session (s_state_update (\<lambda>_. SESSION_STATE_WAIT_STEPUP));
               sw \<leftarrow> net_call sw (s_netc x) StepUp;
               Some (0, sw) } } } } }"

definition p2p_request :: "u8 list \<Rightarrow> u8 list \<Rightarrow> u32 \<Rightarrow> int \<Rightarrow> DNDSMessage option" where
  "p2p_request mac ip port side = do {
     let ok = (\<lambda>_. True);
     let (_, msg) = DNDSMessage_new True;
     (_, msg) \<leftarrow> DNDSMessage_set_pdu msg pdu_PR_dnm;
     (_, msg) \<leftarrow> DNMessage_set_operation msg dnop_PR_p2pRequest;
     (_, msg) \<leftarrow> P2pRequest_set_macAddrDst ok msg (Some mac);
     (_, msg) \<leftarrow> P2pRequest_set_ipAddrDst ok msg (Some ip);
     (_, msg) \<leftarrow> P2pRequest_set_port msg port;
     (_, msg) \<leftarrow> P2pRequest_set_side msg side;
     msg }"

text \<open>\<open>rand() % (65535-49152+1)+49152\<close>.\<close>

definition p2p_port :: "int \<Rightarrow> u32" where
  "p2p_port r = word_of_int (r mod (65535 - 49152 + 1) + 49152)"

definition p2pRequest :: "switch \<Rightarrow> addr option \<Rightarrow> addr option \<Rightarrow> switch option" where
  "p2pRequest sw session_a session_b = do {
     a \<leftarrow> get_sess sw session_a;
     b \<leftarrow> get_sess sw session_b;
     if s_netc a = None \<or> s_netc b = None then Some sw
     else do {
       ca \<leftarrow> get_netc sw (s_netc a);
       cb \<leftarrow> get_netc sw (s_netc b);
       ha \<leftarrow> cbytes (n_host ca);
       hb \<leftarrow> cbytes (n_host cb);
       let (ip_a, ip_b) = (if ha = hb then (s_ip_local a, s_ip_local b) else (n_host ca, n_host cb));
       let (r, sw) = next_env sw;
       let port = p2p_port r;
       msg \<leftarrow> p2p_request (s_tun_mac_addr b) ip_b port P2pSide_client;
       sw \<leftarrow> net_send_msg sw (s_netc a) msg;
       msg \<leftarrow> p2p_request (s_tun_mac_addr a) ip_a port P2pSide_server;
       net_send_msg sw (s_netc b) msg } }"

end
