(* ===== verification/Switch.thy ===== *)
theory Switch
  imports Request Inet
begin

text \<open>
  \<open>nvswitch/src/switch.c\<close>: the Ethernet switch proper and the dispatch of the messages of a
  connection.
\<close>

section \<open>The code\<close>

text \<open>The flooding loop; a list that does not end is \<^const>\<open>None\<close>.\<close>

partial_function (option) flood :: "switch \<Rightarrow> DNDSMessage \<Rightarrow> addr option \<Rightarrow> switch option" where
  "flood sw msg session_list =
     (if session_list \<noteq> None then do {
        x \<leftarrow> get_sess sw session_list;
        sw \<leftarrow> net_send_msg sw (s_netc x) msg;
        x \<leftarrow> get_sess sw session_list;
        flood sw msg (s_next x) }
      else Some sw)"

text \<open>``New mac address ? Add it to the lookup table.''  The result is \<open>session_src\<close>.\<close>

definition learn_src :: "switch \<Rightarrow> addr option \<Rightarrow> u8 list \<Rightarrow> (addr option \<times> switch) option" where
  "learn_src sw session macaddr_src = do {
     x \<leftarrow> get_sess sw session;
     v \<leftarrow> get_vnet sw (s_vnetwork x);
     ft \<leftarrow> v_ftable v;
     session_src \<leftarrow> ftable_find ft macaddr_src;
     if session_src = None then do {
       sw \<leftarrow> upd_sess sw session (\<lambda>x. x\<lparr>s_mac_addr := macaddr_src\<rparr>);
       (_, ft) \<leftarrow> ftable_insert ft macaddr_src session;
       sw \<leftarrow> upd_vnet sw (s_vnetwork x) (\<lambda>v. v\<lparr>v_ftable := Some ft\<rparr>);
       sw \<leftarrow> session_add_mac sw session macaddr_src;
       Some (session, sw) }
     else Some (session_src, sw) }"

text \<open>The two ends of a unicast are introduced to each other, once.\<close>

definition introduce :: "switch \<Rightarrow> addr option \<Rightarrow> addr option \<Rightarrow> switch option" where
  "introduce sw session_src session_dst = do {
     a \<leftarrow> get_sess sw session_src;
     b \<leftarrow> get_sess sw session_dst;
     v \<leftarrow> get_vnet sw (s_vnetwork a);
     lnk_state \<leftarrow> linkst_joined (v_linkst v) (s_id a) (s_id b);
     if lnk_state \<noteq> 1 then do {
       sw \<leftarrow> p2pRequest sw session_src session_dst;
       let (now, sw) = next_env sw;
       (_, linkst) \<leftarrow> linkst_join (v_linkst v) (s_id a) (s_id b) now;
       upd_vnet sw (s_vnetwork a) (\<lambda>v. v\<lparr>v_linkst := linkst\<rparr>) }
     else Some sw }"

definition forward_ethernet :: "switch \<Rightarrow> addr option \<Rightarrow> DNDSMessage \<Rightarrow> switch option" where
  "forward_ethernet sw session msg = do {
     x \<leftarrow> get_sess sw session;
     if s_state x \<noteq> SESSION_STATE_AUTHED then Some sw
     else do {
       (_, frame, _) \<leftarrow> DNDSMessage_get_ethernet (Some msg);
       frame \<leftarrow> frame;
       macaddr_src \<leftarrow> inet_get_mac_addr_src frame;
       (session_src, sw) \<leftarrow> learn_src sw session macaddr_src;
       macaddr_dst \<leftarrow> inet_get_mac_addr_dst frame;
       macaddr_dst_type \<leftarrow> inet_get_mac_addr_type macaddr_dst;
       v \<leftarrow> get_vnet sw (s_vnetwork x);
       ft \<leftarrow> v_ftable v;
       session_dst \<leftarrow> ftable_find ft macaddr_dst;
       if session_src \<noteq> None \<and> session_dst \<noteq> None \<and> session_src = session_dst then Some sw
       else do {
         dst_netc \<leftarrow> (if session_dst = None then Some None
                     else do { d \<leftarrow> get_sess sw session_dst; Some (s_netc d) });
         if macaddr_dst_type = ADDR_UNICAST \<and> session_dst \<noteq> None \<and> dst_netc \<noteq> None then do {
           sw \<leftarrow> net_send_msg sw dst_netc msg;
           introduce sw session_src session_dst }
         else if macaddr_dst_type = ADDR_BROADCAST \<or> macaddr_dst_type = ADDR_MULTICAST
                 \<or> session_dst = None then do {
           v \<leftarrow> get_vnet sw (s_vnetwork x);
           flood sw msg (v_session_list v) }
         else Some sw } } }"

definition netinfo_response :: "DNDSMessage option" where
  "netinfo_response = do {
     let (_, msg) = DNDSMessage_new True;
     (_, msg) \<leftarrow> DNDSMessage_set_channel msg 0;
     (_, msg) \<leftarrow> DNDSMessage_set_pdu msg pdu_PR_dnm;
     (_, msg) \<leftarrow> DNMessage_set_seqNumber msg 1;
     (_, msg) \<leftarrow> DNMessage_set_ackNumber msg 0;
     (_, msg) \<leftarrow> DNMessage_set_operation msg dnop_PR_netinfoResponse;
     msg }"

definition transmit_netinfo_response :: "switch \<Rightarrow> addr option \<Rightarrow> switch option" where
  "transmit_netinfo_response sw netc = do {
     c \<leftarrow> get_netc sw netc;
     msg \<leftarrow> netinfo_response;
     x \<leftarrow> get_sess sw (n_ext_ptr c);
     net_send_msg sw (s_netc x) msg }"

text \<open>Text copied into a buffer, terminator included.\<close>

definition write_text :: "u8 list \<Rightarrow> string \<Rightarrow> u8 list" where
  "write_text buf s = cmem s @ drop (length (cmem s)) buf"

definition handle_netinfo_request :: "switch \<Rightarrow> addr option \<Rightarrow> DNDSMessage \<Rightarrow> switch option" where
  "handle_netinfo_request sw session msg = do {
     (_, ip) \<leftarrow> NetinfoRequest_get_ipLocal (Some msg) True;
     sw \<leftarrow> upd_sess sw session
            (\<lambda>x. x\<lparr>s_ip_local := case ip of None \<Rightarrow> s_ip_local x | Some s \<Rightarrow> write_text (s_ip_local x) s\<rparr>);
     (_, mac) \<leftarrow> NetinfoRequest_get_macAddr (Some msg) True;
     sw \<leftarrow> upd_sess sw session
            (\<lambda>x. x\<lparr>s_tun_mac_addr := case mac of None \<Rightarrow> s_tun_mac_addr x | Some m \<Rightarrow> m\<rparr>);
     x \<leftarrow> get_sess sw session;
     transmit_netinfo_response sw (s_netc x) }"

definition dispatch_operation ::
  "'j jansson \<Rightarrow> switch \<Rightarrow> addr option \<Rightarrow> DNDSMessage \<Rightarrow> switch option" where
  "dispatch_operation J sw session msg = do {
     (_, operation) \<leftarrow> DNMessage_get_operation (Some msg);
     operation \<leftarrow> operation;
     case operation of
       dnop_PR_provRequest \<Rightarrow> provRequest J sw session msg
     | dnop_PR_authRequest \<Rightarrow> do { (_, sw) \<leftarrow> authRequest J sw session msg; Some sw }
     | dnop_PR_netinfoRequest \<Rightarrow> handle_netinfo_request sw session msg
     | _ \<Rightarrow> session_terminate J sw session }"

definition handle_msg :: "'j jansson \<Rightarrow> switch \<Rightarrow> addr option \<Rightarrow> DNDSMessage \<Rightarrow> switch option" where
  "handle_msg J sw session msg = do {
     (_, pdu) \<leftarrow> DNDSMessage_get_pdu (Some msg);
     pdu \<leftarrow> pdu;
     case pdu of
       pdu_PR_dnm \<Rightarrow> dispatch_operation J sw session msg
     | pdu_PR_ethernet \<Rightarrow> forward_ethernet sw session msg
     | _ \<Rightarrow> Some sw }"

text \<open>The loop of \<open>on_input\<close>: the head of the connection's queue is handled, then deleted.  The
  session pointer is read once, before the loop.\<close>

partial_function (option) input_loop :: "'j jansson \<Rightarrow> switch \<Rightarrow> addr option \<Rightarrow> addr \<Rightarrow> switch option" where
  "input_loop J sw session netc = do {
     c \<leftarrow> netcs sw netc;
     (if n_queue_msg c \<noteq> [] then do {
        sw \<leftarrow> handle_msg J sw session (hd (n_queue_msg c));
        sw \<leftarrow> upd_netc sw (Some netc) (\<lambda>c. c\<lparr>n_queue_msg := tl (n_queue_msg c)\<rparr>);
        input_loop J sw session netc }
      else Some sw) }"

definition on_input :: "'j jansson \<Rightarrow> switch \<Rightarrow> addr \<Rightarrow> switch option" where
  "on_input J sw netc = do {
     c \<leftarrow> netcs sw netc;
     let session = n_ext_ptr c;
     x \<leftarrow> get_sess sw session;
     if s_state x = SESSION_STATE_PURGE then net_disconnect J sw (Some netc)
     else input_loop J sw session netc }"

end
