(* ===== verification/Switch_Inv.thy ===== *)
theory Switch_Inv
  imports Switch
begin

text \<open>
  What holds of the switch between two events: every pointer that may still be followed leads to
  a live object, the tables of a network hold sessions of that network only, the links of the
  sessions form lists, and the node identifiers in use are distinct.  The definitions speak of the
  three heaps, so that what an operation leaves alone needs no proof.
\<close>

section \<open>The objects\<close>

definition node_info_ok :: "node_info \<Rightarrow> bool" where
  "node_info_ok ni \<longleftrightarrow> length (ni_uuid ni) = 37 \<and> terminated (ni_uuid ni)
     \<and> length (ni_network_uuid ni) = 37 \<and> terminated (ni_network_uuid ni)
     \<and> terminated (ni_network_id ni)"

definition session_ok :: "(addr \<rightharpoonup> netc) \<Rightarrow> (addr \<rightharpoonup> vnetwork) \<Rightarrow> addr \<Rightarrow> session \<Rightarrow> bool" where
  "session_ok N V s x \<longleftrightarrow>
     s_node_info x \<noteq> Dangling
     \<and> (\<forall>n. s_netc x = Some n \<longrightarrow> (\<exists>c. N n = Some c \<and> n_ext_ptr c = Some s))
     \<and> (\<forall>v. s_vnetwork x = Some v \<longrightarrow> V v \<noteq> None)
     \<and> (s_state x = SESSION_STATE_NOT_AUTHED \<longrightarrow> s_vnetwork x = None)
     \<and> (s_state x \<in> {SESSION_STATE_NOT_AUTHED, SESSION_STATE_WAIT_STEPUP} \<longrightarrow>
          s_next x = None \<and> s_prev x = None \<and> s_id x = 0 \<and> s_mac_list x = [])
     \<and> (s_state x \<noteq> SESSION_STATE_NOT_AUTHED \<longrightarrow>
          s_netc x \<noteq> None \<and> (\<exists>ni. s_node_info x = Own ni \<and> node_info_ok ni))
     \<and> (s_state x \<in> {SESSION_STATE_AUTHED, SESSION_STATE_WAIT_STEPUP} \<longrightarrow> s_vnetwork x \<noteq> None)
     \<and> (s_state x = SESSION_STATE_AUTHED \<longrightarrow> s_id x \<noteq> 0)
     \<and> (\<forall>p. s_ip x = Some p \<longrightarrow> terminated p)
     \<and> length (s_ip_local x) = 16 \<and> terminated (s_ip_local x)
     \<and> length (s_tun_mac_addr x) = 6 \<and> (\<forall>m \<in> set (s_mac_list x). length m = 6)"

text \<open>A message the handlers take: its union is the one its tags say, and its buffers are as long
  as the handlers assume.\<close>

definition certname_ok :: "u8 list option \<Rightarrow> bool" where
  "certname_ok p \<longleftrightarrow> cn2node_info p \<noteq> None \<and> (\<forall>s. p = Some s \<longrightarrow> terminated s)"

definition request_ok :: "DNMessage \<Rightarrow> bool" where
  "request_ok d \<longleftrightarrow> (case dnop_present d of
       dnop_PR_provRequest \<Rightarrow> (\<exists>r. dnop_choice d = ProvRequest r
         \<and> (\<forall>oct b. provRequest_provCode r = Some oct \<longrightarrow> obuf oct = Some b \<longrightarrow> terminated b))
     | dnop_PR_authRequest \<Rightarrow> (\<exists>r. dnop_choice d = AuthRequest r \<and> certname_ok (obuf (authRequest_certName r)))
     | dnop_PR_netinfoRequest \<Rightarrow> (\<exists>r ip mac. dnop_choice d = NetinfoRequest r
         \<and> obuf (netinfoRequest_ipLocal r) = Some ip \<and> 4 \<le> length ip
         \<and> obuf (netinfoRequest_macAddr r) = Some mac \<and> 6 \<le> length mac)
     | _ \<Rightarrow> False)"

definition msg_ok :: "DNDSMessage \<Rightarrow> bool" where
  "msg_ok m \<longleftrightarrow> (case pdu_present m of
       pdu_PR_ethernet \<Rightarrow> (\<exists>e fr. pdu_choice m = Ethernet e \<and> obuf e = Some fr \<and> 12 \<le> length fr)
     | pdu_PR_dnm \<Rightarrow> (\<exists>d. pdu_choice m = Dnm d \<and> request_ok d)
     | _ \<Rightarrow> True)"

definition netc_ok :: "(addr \<rightharpoonup> session) \<Rightarrow> addr \<Rightarrow> netc \<Rightarrow> bool" where
  "netc_ok S n c \<longleftrightarrow>
     terminated (n_host c) \<and> n_security_level c \<noteq> NET_UNSECURE
     \<and> (\<exists>s x. n_ext_ptr c = Some s \<and> S s = Some x \<and> s_netc x = Some n)"

definition ftable_ok :: "(addr \<rightharpoonup> session) \<Rightarrow> addr \<Rightarrow> vnetwork \<Rightarrow> bool" where
  "ftable_ok S v vn \<longleftrightarrow> (\<exists>ft. v_ftable vn = Some ft \<and> ft.invar ft \<and>
     (\<forall>m s. ft.absm ft m = Some s \<longrightarrow>
       (\<exists>x. S s = Some x \<and> s_vnetwork x = Some v \<and> m \<in> set (s_mac_list x))))"

definition ctable_ok :: "(addr \<rightharpoonup> session) \<Rightarrow> addr \<Rightarrow> vnetwork \<Rightarrow> bool" where
  "ctable_ok S v vn \<longleftrightarrow> (\<exists>ct. v_ctable vn = Some ct \<and> ct.invar ct \<and>
     (\<forall>u s. ct.absm ct u = Some s \<longrightarrow>
       (\<exists>x ni. S s = Some x \<and> s_vnetwork x = Some v \<and> s_node_info x = Own ni \<and> uuid_value (ni_uuid ni) = u)))"

definition vnet_ok :: "(addr \<rightharpoonup> session) \<Rightarrow> addr \<Rightarrow> vnetwork \<Rightarrow> bool" where
  "vnet_ok S v vn \<longleftrightarrow>
     terminated (v_id vn) \<and> terminated (v_uuid vn) \<and> ftable_ok S v vn \<and> ctable_ok S v vn
     \<and> (\<exists>at. v_atable vn = Some at \<and> ct.invar at)
     \<and> (\<exists>l. v_linkst vn = Some l \<and> linkst_wf l \<and> upper_limit l = 1024)
     \<and> length (v_bitpool vn) = 128
     \<and> (\<forall>h. v_session_list vn = Some h \<longrightarrow> (\<exists>x. S h = Some x \<and> s_vnetwork x = Some v \<and> s_prev x = None
          \<and> s_state x \<noteq> SESSION_STATE_WAIT_STEPUP))
     \<and> (\<exists>a x. v_access_session vn = Some a \<and> S a = Some x \<and> s_netc x = None)"

text \<open>The links of the open sessions stay in the network, mirror each other, and descend along
  some rank, so that they never run in a circle.\<close>

definition lview :: "(addr \<rightharpoonup> session) \<Rightarrow> addr \<rightharpoonup> addr option \<times> addr option \<times> addr option" where
  "lview S s = map_option (\<lambda>x. (s_vnetwork x, s_next x, s_prev x)) (S s)"

definition links_ok :: "(addr \<rightharpoonup> session) \<Rightarrow> (addr \<Rightarrow> nat) \<Rightarrow> bool" where
  "links_ok S r \<longleftrightarrow> (\<forall>s v n p. lview S s = Some (Some v, n, p) \<longrightarrow>
     (\<forall>t. n = Some t \<longrightarrow> r t < r s \<and> (\<exists>m. lview S t = Some (Some v, m, Some s)))
     \<and> (\<forall>t. p = Some t \<longrightarrow> (\<exists>q. lview S t = Some (Some v, Some s, q))))"

definition iview :: "(addr \<rightharpoonup> session) \<Rightarrow> addr \<rightharpoonup> addr option \<times> u32" where
  "iview S s = map_option (\<lambda>x. (s_vnetwork x, s_id x)) (S s)"

definition ids_ok :: "(addr \<rightharpoonup> session) \<Rightarrow> (addr \<rightharpoonup> vnetwork) \<Rightarrow> bool" where
  "ids_ok S V \<longleftrightarrow> (\<forall>s v i vn. iview S s = Some (Some v, i) \<longrightarrow> V v = Some vn \<longrightarrow> i \<noteq> 0 \<longrightarrow>
     unat (i - 1) \<in> bits_set (v_bitpool vn) \<and> (\<forall>t. iview S t = Some (Some v, i) \<longrightarrow> t = s))"

lemma lview_upd: "lview (S(s \<mapsto> x)) = (lview S)(s \<mapsto> (s_vnetwork x, s_next x, s_prev x))"
  by (simp add: lview_def fun_eq_iff)

lemma iview_upd: "iview (S(s \<mapsto> x)) = (iview S)(s \<mapsto> (s_vnetwork x, s_id x))"
  by (simp add: iview_def fun_eq_iff)

lemma lview_same: "S s = Some x \<Longrightarrow> s_vnetwork x' = s_vnetwork x \<Longrightarrow> s_next x' = s_next x \<Longrightarrow>
    s_prev x' = s_prev x \<Longrightarrow> lview (S(s \<mapsto> x')) = lview S"
  by (simp add: lview_def fun_eq_iff)

lemma iview_same: "S s = Some x \<Longrightarrow> s_vnetwork x' = s_vnetwork x \<Longrightarrow> s_id x' = s_id x \<Longrightarrow>
    iview (S(s \<mapsto> x')) = iview S"
  by (simp add: iview_def fun_eq_iff)

definition access_ok :: "(addr \<rightharpoonup> vnetwork) \<Rightarrow> bool" where
  "access_ok V \<longleftrightarrow> (\<forall>v v' vn vn'. V v = Some vn \<longrightarrow> V v' = Some vn' \<longrightarrow>
     v_access_session vn = v_access_session vn' \<longrightarrow> v = v')"

definition trees_ok :: "switch \<Rightarrow> bool" where
  "trees_ok sw \<longleftrightarrow>
     (\<forall>u v. vnetworks sw u = Some v \<longrightarrow> (\<exists>vn. vnets sw v = Some vn \<and> cbytes (v_uuid vn) = Some u))
     \<and> (\<forall>i v. vnetworks_id sw i = Some v \<longrightarrow> (\<exists>vn. vnets sw v = Some vn \<and> cbytes (v_id vn) = Some i))"

definition heap_ok :: "switch \<Rightarrow> bool" where
  "heap_ok sw \<longleftrightarrow> (\<forall>a. a \<in> dom (sessions sw) \<union> dom (netcs sw) \<union> dom (vnets sw) \<longrightarrow> a < brk sw)"

definition switch_ok :: "switch \<Rightarrow> bool" where
  "switch_ok sw \<longleftrightarrow>
     heap_ok sw
     \<and> (\<forall>s x. sessions sw s = Some x \<longrightarrow> session_ok (netcs sw) (vnets sw) s x)
     \<and> (\<forall>n c. netcs sw n = Some c \<longrightarrow> netc_ok (sessions sw) n c)
     \<and> (\<forall>v vn. vnets sw v = Some vn \<longrightarrow> vnet_ok (sessions sw) v vn)
     \<and> (\<exists>r. links_ok (sessions sw) r) \<and> ids_ok (sessions sw) (vnets sw)
     \<and> access_ok (vnets sw) \<and> trees_ok sw \<and> length (tracking_table sw) = MAX_SESSION
     \<and> tracking_id sw = 0"

lemma switch_start_ok: "switch_ok (switch_start inputs)"
  by (simp add: switch_ok_def switch_start_def heap_ok_def links_ok_def lview_def ids_ok_def iview_def
      access_ok_def trees_ok_def)

section \<open>What the invariant does not look at\<close>

lemma switch_ok_frame [simp]:
  "switch_ok (sw\<lparr>events := e\<rparr>) = switch_ok sw"
  "switch_ok (sw\<lparr>env_pos := k\<rparr>) = switch_ok sw"
  "switch_ok (sw\<lparr>pipe := p\<rparr>) = switch_ok sw"
  "switch_ok (sw\<lparr>ctrl_sock := p\<rparr>) = switch_ok sw"
  "switch_ok (sw\<lparr>ctrl_initialized := b\<rparr>) = switch_ok sw"
  by (simp_all add: switch_ok_def heap_ok_def trees_ok_def)

section \<open>Reading it\<close>

lemma session_okD: "switch_ok sw \<Longrightarrow> sessions sw s = Some x \<Longrightarrow> session_ok (netcs sw) (vnets sw) s x"
  by (simp add: switch_ok_def)

lemma netc_okD: "switch_ok sw \<Longrightarrow> netcs sw n = Some c \<Longrightarrow> netc_ok (sessions sw) n c"
  by (simp add: switch_ok_def)

lemma vnet_okD: "switch_ok sw \<Longrightarrow> vnets sw v = Some vn \<Longrightarrow> vnet_ok (sessions sw) v vn"
  by (simp add: switch_ok_def)

lemma netc_session:
  assumes "switch_ok sw" "netcs sw n = Some c"
  shows "\<exists>s x. n_ext_ptr c = Some s \<and> sessions sw s = Some x \<and> s_netc x = Some n"
  using netc_okD [OF assms] by (auto simp: netc_ok_def)

lemma session_netc:
  assumes "switch_ok sw" "sessions sw s = Some x" "s_netc x = Some n"
  shows "\<exists>c. netcs sw n = Some c \<and> n_ext_ptr c = Some s"
  using session_okD [OF assms(1,2)] assms(3) by (auto simp: session_ok_def)

lemma session_vnet:
  assumes "switch_ok sw" "sessions sw s = Some x" "s_vnetwork x = Some v"
  shows "\<exists>vn. vnets sw v = Some vn \<and> vnet_ok (sessions sw) v vn"
  using session_okD [OF assms(1,2)] assms(3) vnet_okD [OF assms(1)] by (auto simp: session_ok_def)

section \<open>Heaps that extend each other\<close>

text \<open>Outside \<open>D\<close>, every session keeps what the tables and the connections rely on.\<close>

definition sess_le :: "session \<Rightarrow> session \<Rightarrow> bool" where
  "sess_le x x' \<longleftrightarrow> s_netc x' = s_netc x \<and> set (s_mac_list x) \<subseteq> set (s_mac_list x')
     \<and> (s_vnetwork x \<noteq> None \<longrightarrow> s_vnetwork x' = s_vnetwork x
          \<and> (\<forall>ni. s_node_info x = Own ni \<longrightarrow>
               (\<exists>ni'. s_node_info x' = Own ni' \<and> uuid_value (ni_uuid ni') = uuid_value (ni_uuid ni))))"

definition heap_le :: "addr set \<Rightarrow> (addr \<rightharpoonup> session) \<Rightarrow> (addr \<rightharpoonup> session) \<Rightarrow> bool" where
  "heap_le D S S' \<longleftrightarrow> (\<forall>t x. S t = Some x \<longrightarrow> t \<notin> D \<longrightarrow> (\<exists>x'. S' t = Some x' \<and> sess_le x x'))"

lemma sess_le_refl [simp]: "sess_le x x"
  by (auto simp: sess_le_def)

lemma sess_le_links [simp]: "sess_le x (x\<lparr>s_next := p\<rparr>)" "sess_le x (x\<lparr>s_prev := p\<rparr>)"
  by (auto simp: sess_le_def)

lemma heap_leD: "heap_le D S S' \<Longrightarrow> S t = Some x \<Longrightarrow> t \<notin> D \<Longrightarrow> \<exists>x'. S' t = Some x' \<and> sess_le x x'"
  by (simp add: heap_le_def)

lemma heap_le_upd: "S s = Some x \<Longrightarrow> sess_le x x' \<Longrightarrow> heap_le {} S (S(s \<mapsto> x'))"
  by (simp add: heap_le_def)

lemma netc_le:
  assumes "netc_ok S n c" "heap_le D S S'" "\<And>s x. s \<in> D \<Longrightarrow> S s = Some x \<Longrightarrow> s_netc x \<noteq> Some n"
  shows "netc_ok S' n c"
proof -
  obtain s x where s: "n_ext_ptr c = Some s" "S s = Some x" "s_netc x = Some n"
    using assms(1) by (auto simp: netc_ok_def)
  then obtain x' where "S' s = Some x'" "sess_le x x'" using heap_leD [OF assms(2) s(2)] assms(3) by blast
  with s assms(1) show ?thesis by (simp add: netc_ok_def sess_le_def)
qed

lemma ftable_le:
  assumes f: "ftable_ok S v vn" and le: "heap_le D S S'"
    and ft: "v_ftable vn = Some ft" "v_ftable vn' = Some ft'" "ft.invar ft'" "ft.absm ft' \<subseteq>\<^sub>m ft.absm ft"
    and d: "\<And>m s. ft.absm ft' m = Some s \<Longrightarrow> s \<notin> D"
  shows "ftable_ok S' v vn'"
  unfolding ftable_ok_def
proof (intro exI [of _ ft'] conjI allI impI)
  fix m s assume e: "ft.absm ft' m = Some s"
  then have "ft.absm ft m = Some s" using ft(4) by (auto simp: map_le_def dom_def)
  then obtain x where x: "S s = Some x" "s_vnetwork x = Some v" "m \<in> set (s_mac_list x)"
    using f ft(1) by (auto simp: ftable_ok_def)
  then obtain x' where "S' s = Some x'" "sess_le x x'" using heap_leD [OF le x(1)] d [OF e] by blast
  with x show "\<exists>x. S' s = Some x \<and> s_vnetwork x = Some v \<and> m \<in> set (s_mac_list x)"
    by (auto simp: sess_le_def)
qed (use ft in simp_all)

lemma ctable_le:
  assumes f: "ctable_ok S v vn" and le: "heap_le D S S'"
    and ct: "v_ctable vn = Some ct" "v_ctable vn' = Some ct'" "ct.invar ct'" "ct.absm ct' \<subseteq>\<^sub>m ct.absm ct"
    and d: "\<And>u s. ct.absm ct' u = Some s \<Longrightarrow> s \<notin> D"
  shows "ctable_ok S' v vn'"
  unfolding ctable_ok_def
proof (intro exI [of _ ct'] conjI allI impI)
  fix u s assume e: "ct.absm ct' u = Some s"
  then have "ct.absm ct u = Some s" using ct(4) by (auto simp: map_le_def dom_def)
  then obtain x ni where x: "S s = Some x" "s_vnetwork x = Some v" "s_node_info x = Own ni"
    "uuid_value (ni_uuid ni) = u"
    using f ct(1) unfolding ctable_ok_def by (metis option.inject)
  then obtain x' where "S' s = Some x'" "sess_le x x'" using heap_leD [OF le x(1)] d [OF e] by blast
  with x show "\<exists>x ni. S' s = Some x \<and> s_vnetwork x = Some v \<and> s_node_info x = Own ni \<and> uuid_value (ni_uuid ni) = u"
    by (auto simp: sess_le_def)
qed (use ct in simp_all)

definition head_ok :: "(addr \<rightharpoonup> session) \<Rightarrow> addr \<Rightarrow> vnetwork \<Rightarrow> bool" where
  "head_ok S v vn \<longleftrightarrow> (\<forall>h. v_session_list vn = Some h \<longrightarrow>
     (\<exists>x. S h = Some x \<and> s_vnetwork x = Some v \<and> s_prev x = None \<and> s_state x \<noteq> SESSION_STATE_WAIT_STEPUP))"

lemma vnet_le:
  assumes vn: "vnet_ok S v vn" and le: "heap_le D S S'"
    and d: "\<And>s x. s \<in> D \<Longrightarrow> S s = Some x \<Longrightarrow>
      s_vnetwork x \<noteq> Some v \<and> (s_netc x \<noteq> None \<or> v_access_session vn \<noteq> Some s)"
    and h: "head_ok S' v vn"
  shows "vnet_ok S' v vn"
proof -
  obtain ft ct a x where t: "v_ftable vn = Some ft" "ft.invar ft" "v_ctable vn = Some ct" "ct.invar ct"
    "v_access_session vn = Some a" "S a = Some x" "s_netc x = None"
    using vn by (auto simp: vnet_ok_def ftable_ok_def ctable_ok_def)
  have "ftable_ok S' v vn"
    by (rule ftable_le [OF _ le t(1) t(1) t(2)]) (use vn d t in \<open>fastforce simp: vnet_ok_def ftable_ok_def\<close>)+
  moreover have "ctable_ok S' v vn"
    by (rule ctable_le [OF _ le t(3) t(3) t(4)]) (use vn d t in \<open>fastforce simp: vnet_ok_def ctable_ok_def\<close>)+
  moreover obtain x' where "S' a = Some x'" "s_netc x' = None"
    using heap_leD [OF le t(6)] d [of a x] t(5-7) by (auto simp: sess_le_def)
  ultimately show ?thesis using vn h t(5) by (simp add: vnet_ok_def head_ok_def)
qed

lemma vnet_relist:
  assumes "vnet_ok S v (vn\<lparr>v_session_list := None\<rparr>)" "length pool = 128"
    "head_ok S v (vn\<lparr>v_session_list := q, v_bitpool := pool, v_active_node := k\<rparr>)"
  shows "vnet_ok S v (vn\<lparr>v_session_list := q, v_bitpool := pool, v_active_node := k\<rparr>)"
  using assms by (simp add: vnet_ok_def head_ok_def ftable_ok_def ctable_ok_def)

section \<open>Updates\<close>

text \<open>A session that stays where it is in the structure.\<close>

lemma session_update_ok:
  assumes inv: "switch_ok sw" and s: "sessions sw s = Some x" and le: "sess_le x x'"
    and same: "s_vnetwork x' = s_vnetwork x" "s_next x' = s_next x"
      "s_prev x' = s_prev x" "s_id x' = s_id x"
      "s_state x' = SESSION_STATE_WAIT_STEPUP \<Longrightarrow> s_state x = SESSION_STATE_WAIT_STEPUP"
    and ok: "session_ok (netcs sw) (vnets sw) s x'"
  shows "switch_ok (sw\<lparr>sessions := (sessions sw)(s \<mapsto> x')\<rparr>)"
proof -
  let ?S = "(sessions sw)(s \<mapsto> x')"
  have hle: "heap_le {} (sessions sw) ?S" using s le by (rule heap_le_upd)
  have heap: "heap_ok (sw\<lparr>sessions := ?S\<rparr>)"
    using inv s by (auto simp: switch_ok_def heap_ok_def)
  have sess: "\<forall>t y. ?S t = Some y \<longrightarrow> session_ok (netcs sw) (vnets sw) t y"
    using inv ok by (auto simp: switch_ok_def)
  have nets: "\<forall>n c. netcs sw n = Some c \<longrightarrow> netc_ok ?S n c"
    using netc_le [OF netc_okD [OF inv] hle] by blast
  have vn: "\<forall>v vn. vnets sw v = Some vn \<longrightarrow> vnet_ok ?S v vn"
  proof (intro allI impI)
    fix v vn assume v: "vnets sw v = Some vn"
    note ok = vnet_okD [OF inv v]
    have "head_ok ?S v vn" using ok s same by (fastforce simp: head_ok_def vnet_ok_def)
    with vnet_le [OF ok hle] show "vnet_ok ?S v vn" by simp
  qed
  have l: "\<exists>r. links_ok ?S r"
    using inv by (simp add: switch_ok_def links_ok_def lview_same [where S = "sessions sw", OF s same(1,2,3)])
  have i: "ids_ok ?S (vnets sw)"
    using inv by (simp add: switch_ok_def ids_ok_def iview_same [where S = "sessions sw", OF s same(1,4)])
  show ?thesis
    using heap sess nets vn l i inv by (simp add: switch_ok_def trees_ok_def)
qed

lemma vnet_update_ok:
  assumes inv: "switch_ok sw" and v: "vnets sw v = Some vn"
    and same: "v_id vn' = v_id vn" "v_uuid vn' = v_uuid vn" "v_access_session vn' = v_access_session vn"
      "v_bitpool vn' = v_bitpool vn"
    and ok: "vnet_ok (sessions sw) v vn'"
  shows "switch_ok (sw\<lparr>vnets := (vnets sw)(v \<mapsto> vn')\<rparr>)"
proof -
  let ?V = "(vnets sw)(v \<mapsto> vn')"
  have "heap_ok (sw\<lparr>vnets := ?V\<rparr>)" using inv v by (auto simp: switch_ok_def heap_ok_def)
  moreover have "\<forall>t y. sessions sw t = Some y \<longrightarrow> session_ok (netcs sw) ?V t y"
    using inv by (simp add: switch_ok_def session_ok_def)
  moreover have "\<forall>w wn. ?V w = Some wn \<longrightarrow> vnet_ok (sessions sw) w wn"
    using inv ok by (simp add: switch_ok_def)
  moreover have "ids_ok (sessions sw) ?V"
  proof -
    have "ids_ok (sessions sw) (vnets sw)" using inv by (simp add: switch_ok_def)
    then show ?thesis using v same(4) by (auto simp: ids_ok_def)
  qed
  moreover have "access_ok ?V"
  proof -
    have "access_ok (vnets sw)" using inv by (simp add: switch_ok_def)
    then show ?thesis using v same(3) by (auto simp: access_ok_def)
  qed
  moreover have "trees_ok (sw\<lparr>vnets := ?V\<rparr>)"
  proof -
    have "\<exists>wn. ?V w = Some wn \<and> cbytes (f wn) = k"
      if "\<exists>wn. vnets sw w = Some wn \<and> cbytes (f wn) = k" "f vn' = f vn" for f w k
      using that v by auto
    with inv same(1,2) show ?thesis by (simp add: switch_ok_def trees_ok_def)
  qed
  ultimately show ?thesis using inv by (simp add: switch_ok_def)
qed

section \<open>Links\<close>

lemma links_okD:
  assumes "links_ok S r" "lview S s = Some (Some v, n, p)"
  shows "n = Some t \<Longrightarrow> r t < r s \<and> (\<exists>m. lview S t = Some (Some v, m, Some s))"
    and "p = Some t \<Longrightarrow> r s < r t \<and> (\<exists>q. lview S t = Some (Some v, Some s, q))"
proof -
  show "n = Some t \<Longrightarrow> r t < r s \<and> (\<exists>m. lview S t = Some (Some v, m, Some s))"
    using assms unfolding links_ok_def by blast
  assume "p = Some t"
  then obtain q where "lview S t = Some (Some v, Some s, q)" using assms unfolding links_ok_def by blast
  then show "r s < r t \<and> (\<exists>q. lview S t = Some (Some v, Some s, q))"
    using assms(1) unfolding links_ok_def by blast
qed

lemma links_push:
  assumes l: "links_ok S r" and s: "lview S s = Some (Some v, None, None)"
    and a: "lview S a = Some (Some v, n, None)" "a \<noteq> s"
    and S': "lview S' = (lview S)(s \<mapsto> (Some v, Some a, None), a \<mapsto> (Some v, n, Some s))"
  shows "links_ok S' (r(s := Suc (r a)))"
  unfolding links_ok_def
proof (intro allI impI conjI)
  fix t w m q u assume t: "lview S' t = Some (Some w, m, q)"
  have other: "lview S t = Some (Some w, m, q)" if "t \<noteq> s" "t \<noteq> a" using t that by (simp add: S')
  {
    assume u: "m = Some u"
    have "(r(s := Suc (r a))) u < (r(s := Suc (r a))) t \<and> (\<exists>k. lview S' u = Some (Some w, k, Some t))"
    proof (cases "t = s")
      case True
      with t u a show ?thesis by (simp add: S')
    next
      case False
      then have e: "lview S t = Some (Some w, m, if t = a then None else q)" using t a by (auto simp: S')
      obtain k where k: "r u < r t" "lview S u = Some (Some w, k, Some t)"
        using links_okD(1) [OF l e u] by blast
      then have "u \<noteq> s" "u \<noteq> a" using s a by auto
      then show ?thesis using k False by (simp add: S')
    qed
    then show "(r(s := Suc (r a))) u < (r(s := Suc (r a))) t"
      and "\<exists>k. lview S' u = Some (Some w, k, Some t)" by blast+
  }
  assume u: "q = Some u"
  show "\<exists>k. lview S' u = Some (Some w, Some t, k)"
  proof (cases "t = s \<or> t = a")
    case True
    with t u a show ?thesis by (auto simp: S')
  next
    case False
    then have e: "lview S t = Some (Some w, m, q)" using other by simp
    obtain k where k: "lview S u = Some (Some w, Some t, k)" using links_okD(2) [OF l e u] by blast
    then have "u \<noteq> s" using s by auto
    then show ?thesis using k a by (cases "u = a") (simp_all add: S')
  qed
qed

text \<open>A session taken out and gone.\<close>

definition lbypass :: "(addr \<rightharpoonup> addr option \<times> addr option \<times> addr option) \<Rightarrow> addr \<Rightarrow> addr option \<Rightarrow> addr option
    \<Rightarrow> (addr \<rightharpoonup> addr option \<times> addr option \<times> addr option)" where
  "lbypass L s n p t =
     (if t = s then None
      else case L t of None \<Rightarrow> None
        | Some (v, m, q) \<Rightarrow> Some (v, if p = Some t then n else m, if n = Some t then p else q))"

lemma links_bypass:
  assumes l: "links_ok S r" and s: "lview S s = Some (Some v, n, p)" and S': "lview S' = lbypass (lview S) s n p"
  shows "links_ok S' r"
proof -
  have n: "\<exists>m. lview S t = Some (Some v, m, Some s)" "r t < r s" if "n = Some t" for t
    using links_okD(1) [OF l s that] by simp_all
  have p: "\<exists>q. lview S t = Some (Some v, Some s, q)" "r s < r t" if "p = Some t" for t
    using links_okD(2) [OF l s that] by simp_all
  have next_s: "p = Some t \<and> w = v" if "lview S t = Some (Some w, Some s, q)" for t w q
    using links_okD(1) [OF l that, of s] s by auto
  have prev_s: "n = Some t \<and> w = v" if "lview S t = Some (Some w, m, Some s)" for t w m
    using links_okD(2) [OF l that, of s] s by auto
  show ?thesis
    unfolding links_ok_def
  proof (intro allI impI conjI)
    fix t w m q u assume t: "lview S' t = Some (Some w, m, q)"
    obtain m0 q0 where t0: "t \<noteq> s" "lview S t = Some (Some w, m0, q0)"
      "m = (if p = Some t then n else m0)" "q = (if n = Some t then p else q0)"
      using t by (auto simp: S' lbypass_def split: if_splits option.splits)
    {
      assume u: "m = Some u"
      show "r u < r t" "\<exists>k. lview S' u = Some (Some w, k, Some t)"
      proof -
        show "r u < r t" "\<exists>k. lview S' u = Some (Some w, k, Some t)"
        proof (atomize (full), cases "p = Some t")
          case True
          with u t0 have nu: "n = Some u" by simp
          obtain k where k: "lview S u = Some (Some v, k, Some s)" using n(1) [OF nu] by blast
          have "w = v" using p(1) [OF True] t0(2) by auto
          moreover have "u \<noteq> s" "r u < r t" using n(2) [OF nu] p(2) [OF True] by auto
          ultimately show "r u < r t \<and> (\<exists>k. lview S' u = Some (Some w, k, Some t))"
            using k nu True by (simp add: S' lbypass_def)
        next
          case False
          with u t0 have m0: "m0 = Some u" by simp
          obtain k where k: "lview S u = Some (Some w, k, Some t)" "r u < r t"
            using links_okD(1) [OF l t0(2) m0] by blast
          have "u \<noteq> s" using False next_s [of t w q0] t0(2) m0 by auto
          moreover have "n \<noteq> Some u" using n(1) [of u] k t0(1) by auto
          ultimately show "r u < r t \<and> (\<exists>k. lview S' u = Some (Some w, k, Some t))"
            using k by (simp add: S' lbypass_def)
        qed
      qed
    }
    assume u: "q = Some u"
    show "\<exists>k. lview S' u = Some (Some w, Some t, k)"
    proof (cases "n = Some t")
      case True
      with u t0 have pu: "p = Some u" by simp
      obtain k where k: "lview S u = Some (Some v, Some s, k)" using p(1) [OF pu] by blast
      have "w = v" using n(1) [OF True] t0(2) by auto
      moreover have "u \<noteq> s" using p(2) [OF pu] by auto
      ultimately show ?thesis using k pu True by (simp add: S' lbypass_def)
    next
      case False
      with u t0 have q0: "q0 = Some u" by simp
      obtain k where k: "lview S u = Some (Some w, Some t, k)"
        using links_okD(2) [OF l t0(2) q0] by blast
      have "u \<noteq> s" using False prev_s [of t w m0] t0(2) q0 by auto
      moreover have "p \<noteq> Some u" using p(1) [of u] k t0(1) by auto
      ultimately show ?thesis using k by (simp add: S' lbypass_def)
    qed
  qed
qed

section \<open>Identifiers\<close>

lemma ids_okD:
  "ids_ok S V \<Longrightarrow> iview S s = Some (Some v, i) \<Longrightarrow> V v = Some vn \<Longrightarrow> i \<noteq> 0 \<Longrightarrow>
     unat (i - 1) \<in> bits_set (v_bitpool vn) \<and> (\<forall>t. iview S t = Some (Some v, i) \<longrightarrow> t = s)"
  unfolding ids_ok_def by blast

lemma ids_take:
  assumes i: "ids_ok S V" and s: "iview S s = Some (Some v, 0)" and vn: "V v = Some vn"
    and b: "b < 1024" "b \<notin> bits_set (v_bitpool vn)" "bits_set (v_bitpool vn') = insert b (bits_set (v_bitpool vn))"
    and S': "iview S' = (iview S)(s \<mapsto> (Some v, of_nat b + 1))"
  shows "ids_ok S' (V(v \<mapsto> vn'))"
proof -
  have nb: "unat (of_nat b :: u32) = b" using b(1) by (simp add: unat_of_nat)
  have old: "i \<noteq> of_nat b + 1" if "iview S t = Some (Some v, i)" "i \<noteq> 0" for t i
    using ids_okD [OF i that(1) vn that(2)] b(2) nb by auto
  show ?thesis
    unfolding ids_ok_def S'
  proof (intro allI impI conjI)
    fix t w i wn assume t: "((iview S)(s \<mapsto> (Some v, of_nat b + 1))) t = Some (Some w, i)"
      and w: "(V(v \<mapsto> vn')) w = Some wn" and nz: "i \<noteq> 0"
    show "unat (i - 1) \<in> bits_set (v_bitpool wn)"
    proof (cases "t = s")
      case True
      with t have e: "w = v" "i = of_nat b + 1" by simp_all
      then have "unat (i - 1) = b" using nb by simp
      with e w b(3) show ?thesis by simp
    next
      case False
      then have e: "iview S t = Some (Some w, i)" using t by simp
      show ?thesis
      proof (cases "w = v")
        case True
        with ids_okD [OF i e] vn nz b(3) w show ?thesis by simp
      next
        case False
        with ids_okD [OF i e] nz w show ?thesis by simp
      qed
    qed
    fix u assume u: "((iview S)(s \<mapsto> (Some v, of_nat b + 1))) u = Some (Some w, i)"
    show "u = t"
    proof (cases "t = s \<or> u = s")
      case True
      with t u old nz show ?thesis by (auto split: if_splits)
    next
      case False
      then have "iview S t = Some (Some w, i)" "iview S u = Some (Some w, i)" using t u by simp_all
      moreover obtain wo where "V w = Some wo" using w vn by (auto split: if_splits)
      ultimately show ?thesis using ids_okD [OF i _ _ nz] by blast
    qed
  qed
qed

lemma ids_release:
  assumes i: "ids_ok S V" and s: "iview S s = Some (Some v, k)" and vn: "V v = Some vn"
    and b: "bits_set (v_bitpool vn') = bits_set (v_bitpool vn) - {unat (k - 1)}"
    and S': "iview S' = (iview S)(s := None)"
  shows "ids_ok S' (V(v \<mapsto> vn'))"
  unfolding ids_ok_def S'
proof (intro allI impI conjI)
  fix t w i wn assume t: "((iview S)(s := None)) t = Some (Some w, i)"
    and w: "(V(v \<mapsto> vn')) w = Some wn" and nz: "i \<noteq> 0"
  have e: "t \<noteq> s" "iview S t = Some (Some w, i)" using t by (auto split: if_splits)
  show "unat (i - 1) \<in> bits_set (v_bitpool wn)"
  proof (cases "w = v")
    case True
    have "i \<noteq> k" using ids_okD [OF i e(2)] e(1) s vn nz True by blast
    then have "unat (i - 1) \<noteq> unat (k - 1)" by (metis diff_add_cancel word_unat_eq_iff)
    with True ids_okD [OF i e(2)] vn nz w b show ?thesis by simp
  next
    case False
    with ids_okD [OF i e(2)] nz w show ?thesis by simp
  qed
  fix u assume u: "((iview S)(s := None)) u = Some (Some w, i)"
  then have "iview S u = Some (Some w, i)" by (auto split: if_splits)
  moreover obtain wo where "V w = Some wo" using w vn by (auto split: if_splits)
  ultimately show "u = t" using ids_okD [OF i e(2) _ nz] by blast
qed

section \<open>Joining, opening, leaving\<close>

text \<open>A session that has asked for a network, but is not in its list.\<close>

lemma session_join_ok:
  assumes inv: "switch_ok sw" and s: "sessions sw s = Some x" "s_vnetwork x = None" and le: "sess_le x x'"
    and new: "s_next x' = None" "s_prev x' = None" "s_id x' = 0"
    and ok: "session_ok (netcs sw) (vnets sw) s x'"
  shows "switch_ok (sw\<lparr>sessions := (sessions sw)(s \<mapsto> x')\<rparr>)"
proof -
  let ?S = "(sessions sw)(s \<mapsto> x')"
  have hle: "heap_le {} (sessions sw) ?S" using s(1) le by (rule heap_le_upd)
  have vn: "\<forall>v vn. vnets sw v = Some vn \<longrightarrow> vnet_ok ?S v vn"
  proof (intro allI impI)
    fix v vn assume v: "vnets sw v = Some vn"
    note ok = vnet_okD [OF inv v]
    have "head_ok ?S v vn" using ok s by (fastforce simp: head_ok_def vnet_ok_def)
    with vnet_le [OF ok hle] show "vnet_ok ?S v vn" by simp
  qed
  have "links_ok ?S r" if l: "links_ok (sessions sw) r" for r
  proof -
    have out: "lview (sessions sw) s = Some (None, s_next x, s_prev x)" using s by (simp add: lview_def)
    have "t \<noteq> s" if "lview (sessions sw) t = Some (Some v, n, p)" for t v n p using that out by auto
    then show ?thesis
      using l out unfolding links_ok_def lview_upd by (fastforce simp: new split: if_splits)
  qed
  then have "\<exists>r. links_ok ?S r" using inv by (auto simp: switch_ok_def)
  moreover have "ids_ok ?S (vnets sw)"
    using inv by (auto simp: switch_ok_def ids_ok_def iview_upd new split: if_splits)
  moreover have "\<forall>t y. ?S t = Some y \<longrightarrow> session_ok (netcs sw) (vnets sw) t y"
    using inv ok by (auto simp: switch_ok_def)
  moreover have "\<forall>n c. netcs sw n = Some c \<longrightarrow> netc_ok ?S n c"
    using netc_le [OF netc_okD [OF inv] hle] by blast
  moreover have "heap_ok (sw\<lparr>sessions := ?S\<rparr>)"
    using inv s by (auto simp: switch_ok_def heap_ok_def)
  ultimately show ?thesis using inv vn by (simp add: switch_ok_def trees_ok_def)
qed

text \<open>A session entering the list of its network.\<close>

lemma head_facts:
  assumes inv: "switch_ok sw" and v: "vnets sw v = Some vn" "v_session_list vn = Some h"
  shows "\<exists>y. sessions sw h = Some y \<and> s_vnetwork y = Some v \<and> s_prev y = None
    \<and> s_state y \<noteq> SESSION_STATE_WAIT_STEPUP \<and> s_state y \<noteq> SESSION_STATE_NOT_AUTHED"
proof -
  obtain y where y: "sessions sw h = Some y" "s_vnetwork y = Some v" "s_prev y = None"
    "s_state y \<noteq> SESSION_STATE_WAIT_STEPUP"
    using vnet_okD [OF inv v(1)] v(2) by (auto simp: vnet_ok_def)
  then show ?thesis using session_okD [OF inv y(1)] by (auto simp: session_ok_def)
qed

lemma link_in_at:
  assumes "\<forall>h. q = Some h \<longrightarrow> h \<noteq> s"
  shows "link_in S q s x t =
    (if t = s then Some (x\<lparr>s_next := q, s_prev := if q = None then None else s_prev x\<rparr>)
     else if q = Some t then Some ((the (S t))\<lparr>s_prev := Some s\<rparr>) else S t)"
  using assms by (cases q) (auto simp: link_in_def)

lemma open_ok:
  assumes inv: "switch_ok sw" and s: "sessions sw s = Some x" "s_vnetwork x = Some v"
      "s_state x = SESSION_STATE_WAIT_STEPUP"
    and vn: "vnets sw v = Some vn"
    and b: "b < 1024" "b \<notin> bits_set (v_bitpool vn)" "bits_set pool = insert b (bits_set (v_bitpool vn))"
      "length pool = 128"
    and le: "sess_le x x1"
    and new: "s_next x1 = None" "s_prev x1 = None" "s_id x1 = of_nat b + 1" "s_state x1 = SESSION_STATE_AUTHED"
    and ok: "session_ok (netcs sw) (vnets sw) s x1"
  shows "switch_ok (sw\<lparr>sessions := link_in (sessions sw) (v_session_list vn) s x1,
      vnets := (vnets sw)(v \<mapsto> vn\<lparr>v_session_list := Some s, v_bitpool := pool, v_active_node := k\<rparr>)\<rparr>)"
proof -
  let ?q = "v_session_list vn"
  define S1 where "S1 = link_in (sessions sw) ?q s x1"
  let ?vn = "vn\<lparr>v_session_list := Some s, v_bitpool := pool, v_active_node := k\<rparr>"
  let ?V = "(vnets sw)(v \<mapsto> ?vn)"
  have x1: "s_vnetwork x1 = Some v" using le s(2) by (simp add: sess_le_def)
  have free: "s_next x = None" "s_prev x = None" "s_id x = 0"
    using session_okD [OF inv s(1)] s(3) by (simp_all add: session_ok_def)
  have h: "\<exists>y. sessions sw h = Some y \<and> s_vnetwork y = Some v \<and> s_prev y = None
    \<and> s_state y \<noteq> SESSION_STATE_WAIT_STEPUP \<and> s_state y \<noteq> SESSION_STATE_NOT_AUTHED \<and> h \<noteq> s" if "?q = Some h" for h
    using head_facts [OF inv vn that] s(1,3) by auto
  have at: "S1 t = (if t = s then Some (x1\<lparr>s_next := ?q\<rparr>)
      else if ?q = Some t then Some ((the (sessions sw t))\<lparr>s_prev := Some s\<rparr>) else sessions sw t)" for t
  proof -
    have hs: "\<forall>h. ?q = Some h \<longrightarrow> h \<noteq> s" using h by blast
    show ?thesis using new(2) by (cases x1) (simp add: S1_def link_in_at [OF hs])
  qed
  have hle: "heap_le {} (sessions sw) S1"
    unfolding heap_le_def
  proof (intro allI impI)
    fix t y assume t: "sessions sw t = Some y"
    have "sess_le x (x1\<lparr>s_next := ?q\<rparr>)" using le by (simp add: sess_le_def)
    then show "\<exists>y'. S1 t = Some y' \<and> sess_le y y'" using t s(1) by (cases "t = s") (simp_all add: at)
  qed
  have "heap_ok (sw\<lparr>sessions := S1, vnets := ?V\<rparr>)"
  proof -
    have "t < brk sw" if "S1 t \<noteq> None" for t
      using that inv s(1) h [of t] by (auto simp: at switch_ok_def heap_ok_def split: if_splits)
    then show ?thesis using inv vn by (auto simp: switch_ok_def heap_ok_def)
  qed
  moreover have "\<forall>t y. S1 t = Some y \<longrightarrow> session_ok (netcs sw) ?V t y"
  proof (intro allI impI)
    fix t y assume t: "S1 t = Some y"
    have V: "session_ok (netcs sw) ?V u z" if "session_ok (netcs sw) (vnets sw) u z" for u z
      using that by (simp add: session_ok_def)
    have "session_ok (netcs sw) (vnets sw) t y"
    proof (cases "t = s")
      case True
      then have "y = x1\<lparr>s_next := ?q\<rparr>" using t by (simp add: at)
      then show ?thesis using ok new True by (simp add: session_ok_def)
    next
      case False
      show ?thesis
      proof (cases "?q = Some t")
        case True
        then obtain z where z: "sessions sw t = Some z" "s_state z \<noteq> SESSION_STATE_WAIT_STEPUP"
          "s_state z \<noteq> SESSION_STATE_NOT_AUTHED" using h by blast
        then have "y = z\<lparr>s_prev := Some s\<rparr>" using t unfolding at using False True by simp
        then show ?thesis using session_okD [OF inv z(1)] z by (simp add: session_ok_def)
      qed (use t False session_okD [OF inv] in \<open>simp add: at\<close>)
    qed
    then show "session_ok (netcs sw) ?V t y" by (rule V)
  qed
  moreover have "\<forall>n c. netcs sw n = Some c \<longrightarrow> netc_ok S1 n c"
    using netc_le [OF netc_okD [OF inv] hle] by blast
  moreover have "\<forall>w wn. ?V w = Some wn \<longrightarrow> vnet_ok S1 w wn"
  proof (intro allI impI)
    fix w wn assume w: "?V w = Some wn"
    show "vnet_ok S1 w wn"
    proof (cases "w = v")
      case True
      have "vnet_ok (sessions sw) v (vn\<lparr>v_session_list := None\<rparr>)"
        using vnet_okD [OF inv vn] by (simp add: vnet_ok_def ftable_ok_def ctable_ok_def)
      then have "vnet_ok S1 v (vn\<lparr>v_session_list := None\<rparr>)"
        by (rule vnet_le [OF _ hle]) (simp_all add: head_ok_def)
      moreover have "head_ok S1 v ?vn" using new x1 by (simp add: head_ok_def at)
      ultimately have "vnet_ok S1 v ?vn" using b(4) by (intro vnet_relist)
      then show ?thesis using True w by simp
    next
      case False
      then have ok: "vnet_ok (sessions sw) w wn" and wn: "vnets sw w = Some wn"
        using w vnet_okD [OF inv] by simp_all
      have "head_ok S1 w wn"
        unfolding head_ok_def
      proof (intro allI impI)
        fix g assume "v_session_list wn = Some g"
        from head_facts [OF inv wn this] obtain y where y: "sessions sw g = Some y" "s_vnetwork y = Some w"
          "s_prev y = None" "s_state y \<noteq> SESSION_STATE_WAIT_STEPUP" by blast
        moreover have "g \<noteq> s" "?q \<noteq> Some g" using y s(1,2) h [of g] False by auto
        ultimately show "\<exists>x. S1 g = Some x \<and> s_vnetwork x = Some w \<and> s_prev x = None
          \<and> s_state x \<noteq> SESSION_STATE_WAIT_STEPUP" by (simp add: at)
      qed
      with vnet_le [OF ok hle] show ?thesis by simp
    qed
  qed
  moreover have "\<exists>r. links_ok S1 r"
  proof -
    obtain r where r: "links_ok (sessions sw) r" using inv by (auto simp: switch_ok_def)
    have ls: "lview (sessions sw) s = Some (Some v, None, None)" using s free by (simp add: lview_def)
    show ?thesis
    proof (cases ?q)
      case None
      then have "lview S1 = lview (sessions sw)"
        using s free x1 new by (simp add: lview_def fun_eq_iff at)
      with r have "links_ok S1 r" by (simp add: links_ok_def)
      then show ?thesis by blast
    next
      case (Some a)
      then obtain y where y: "sessions sw a = Some y" "s_vnetwork y = Some v" "s_prev y = None" "a \<noteq> s"
        using h by blast
      have "links_ok S1 (r(s := Suc (r a)))"
      proof (rule links_push [OF r ls])
        show "lview (sessions sw) a = Some (Some v, s_next y, None)" "a \<noteq> s" using y by (simp_all add: lview_def)
        show "lview S1 = (lview (sessions sw))(s \<mapsto> (Some v, Some a, None), a \<mapsto> (Some v, s_next y, Some s))"
          using Some y x1 new by (auto simp: lview_def fun_eq_iff at)
      qed
      then show ?thesis by blast
    qed
  qed
  moreover have "ids_ok S1 ?V"
  proof (rule ids_take [where V = "vnets sw", OF _ _ vn b(1,2)])
    show "ids_ok (sessions sw) (vnets sw)" using inv by (simp add: switch_ok_def)
    show "iview (sessions sw) s = Some (Some v, 0)" using s free by (simp add: iview_def)
    show "bits_set (v_bitpool ?vn) = insert b (bits_set (v_bitpool vn))" using b(3) by simp
    show "iview S1 = (iview (sessions sw))(s \<mapsto> (Some v, of_nat b + 1))"
    proof
      fix t
      show "iview S1 t = ((iview (sessions sw))(s \<mapsto> (Some v, of_nat b + 1))) t"
        using x1 new(3) h [of t] by (auto simp: iview_def at)
    qed
  qed
  moreover have "access_ok ?V"
  proof -
    have "access_ok (vnets sw)" using inv by (simp add: switch_ok_def)
    then show ?thesis using vn by (auto simp: access_ok_def)
  qed
  moreover have "trees_ok (sw\<lparr>sessions := S1, vnets := ?V\<rparr>)"
  proof -
    have "\<exists>wn. ?V w = Some wn \<and> cbytes (f wn) = k"
      if "\<exists>wn. vnets sw w = Some wn \<and> cbytes (f wn) = k" "f ?vn = f vn" for f w k
      using that vn by auto
    with inv show ?thesis by (simp add: switch_ok_def trees_ok_def)
  qed
  ultimately have "switch_ok (sw\<lparr>sessions := S1, vnets := ?V\<rparr>)" using inv by (simp add: switch_ok_def)
  then show ?thesis by (simp only: S1_def)
qed

text \<open>A session leaving its network and the heap, with its connection.\<close>

lemma bypass_at:
  assumes "\<And>a. s_next x = Some a \<Longrightarrow> s_prev x \<noteq> Some a"
  shows "sl.bypass S x t =
    (if s_next x = Some t then Some ((the (S t))\<lparr>s_prev := s_prev x\<rparr>)
     else if s_prev x = Some t then Some ((the (S t))\<lparr>s_next := s_next x\<rparr>) else S t)"
  using assms by (cases "s_next x"; cases "s_prev x") (auto simp: sl.bypass_def)

lemma conn_gone:
  assumes inv: "switch_ok sw" and s: "sessions sw s = Some x" "s_netc x = Some n"
    and t: "sessions sw t = Some y" "s_netc y = Some n"
  shows "t = s"
  using session_netc [OF inv s] session_netc [OF inv t] by auto

lemma session_ok_drop:
  "session_ok N V t z \<Longrightarrow> s_netc z \<noteq> Some n \<Longrightarrow> session_ok (N(n := None)) V t z"
  by (simp add: session_ok_def)

lemma session_ok_vnet: "session_ok N V t z \<Longrightarrow> session_ok N (V(v \<mapsto> vn)) t z"
  by (simp add: session_ok_def)

lemma session_ok_relink:
  "session_ok N V t z \<Longrightarrow> s_prev z = Some s \<Longrightarrow> session_ok N V t (z\<lparr>s_prev := p\<rparr>)"
  "session_ok N V t z \<Longrightarrow> s_next z = Some s \<Longrightarrow> session_ok N V t (z\<lparr>s_next := p\<rparr>)"
  by (simp_all add: session_ok_def)

lemma leave_ok:
  assumes inv: "switch_ok sw" and s: "sessions sw s = Some x" "s_vnetwork x = Some v" "s_netc x = Some n"
    and vn: "vnets sw v = Some vn"
    and same: "v_id vn' = v_id vn" "v_uuid vn' = v_uuid vn" "v_atable vn' = v_atable vn"
      "v_access_session vn' = v_access_session vn"
    and ft: "v_ftable vn = Some ft" "v_ftable vn' = Some ft'" "ft.invar ft'" "ft.absm ft' \<subseteq>\<^sub>m ft.absm ft"
      "\<And>m. ft.absm ft' m \<noteq> Some s"
    and ct: "v_ctable vn = Some ct" "v_ctable vn' = Some ct'" "ct.invar ct'" "ct.absm ct' \<subseteq>\<^sub>m ct.absm ct"
      "\<And>u. ct.absm ct' u \<noteq> Some s"
    and lk: "v_linkst vn' = Some l" "linkst_wf l" "upper_limit l = 1024"
    and pool: "length (v_bitpool vn') = 128"
      "bits_set (v_bitpool vn') = bits_set (v_bitpool vn) - {unat (s_id x - 1)}"
    and list: "v_session_list vn' = (if s_prev x = None then s_next x else v_session_list vn)"
  shows "switch_ok (sw\<lparr>sessions := (sl.bypass (sessions sw) x)(s := None), netcs := (netcs sw)(n := None),
      vnets := (vnets sw)(v \<mapsto> vn')\<rparr>)"
proof -
  define S1 where "S1 = (sl.bypass (sessions sw) x)(s := None)"
  let ?N = "(netcs sw)(n := None)"
  let ?V = "(vnets sw)(v \<mapsto> vn')"
  obtain r where r: "links_ok (sessions sw) r" using inv by (auto simp: switch_ok_def)
  have ls: "lview (sessions sw) s = Some (Some v, s_next x, s_prev x)" using s by (simp add: lview_def)
  have nxt: "\<exists>y. sessions sw t = Some y \<and> s_vnetwork y = Some v \<and> s_prev y = Some s \<and> r t < r s" if "s_next x = Some t" for t
    using links_okD(1) [OF r ls that] by (auto simp: lview_def)
  have prv: "\<exists>y. sessions sw t = Some y \<and> s_vnetwork y = Some v \<and> s_next y = Some s \<and> r s < r t" if "s_prev x = Some t" for t
    using links_okD(2) [OF r ls that] by (auto simp: lview_def)
  have dist: "s_prev x \<noteq> Some a" if "s_next x = Some a" for a
    using nxt [OF that] prv [of a] by auto
  have at: "S1 t = (if t = s then None
     else if s_next x = Some t then Some ((the (sessions sw t))\<lparr>s_prev := s_prev x\<rparr>)
     else if s_prev x = Some t then Some ((the (sessions sw t))\<lparr>s_next := s_next x\<rparr>) else sessions sw t)" for t
    using bypass_at [of x, OF dist] by (simp add: S1_def)
  have hle: "heap_le {s} (sessions sw) S1"
    unfolding heap_le_def by (auto simp: at)
  have "heap_ok (sw\<lparr>sessions := S1, netcs := ?N, vnets := ?V\<rparr>)"
  proof -
    have "t < brk sw" if "S1 t \<noteq> None" for t
    proof -
      have "sessions sw t \<noteq> None"
        using that nxt [of t] prv [of t] by (auto simp: at split: if_splits)
      then show ?thesis using inv by (simp add: switch_ok_def heap_ok_def dom_def)
    qed
    then show ?thesis using inv vn by (auto simp: switch_ok_def heap_ok_def)
  qed
  moreover have "\<forall>t y. S1 t = Some y \<longrightarrow> session_ok ?N ?V t y"
  proof (intro allI impI)
    fix t y assume t: "S1 t = Some y"
    then have ts: "t \<noteq> s" by (auto simp: at)
    obtain z where z: "sessions sw t = Some z"
      using t ts nxt [of t] prv [of t] by (auto simp: at split: if_splits)
    note zok = session_okD [OF inv z]
    have nc: "s_netc z \<noteq> Some n" using conn_gone [OF inv s(1,3) z] ts by blast
    have "y = z \<or> y = z\<lparr>s_prev := s_prev x\<rparr> \<and> s_prev z = Some s \<or> y = z\<lparr>s_next := s_next x\<rparr> \<and> s_next z = Some s"
      using t ts z nxt [of t] prv [of t] by (auto simp: at split: if_splits)
    then have "session_ok (netcs sw) (vnets sw) t y" "s_netc y = s_netc z"
      using session_ok_relink [OF zok] zok by auto
    with nc show "session_ok ?N ?V t y" by (intro session_ok_vnet session_ok_drop) simp_all
  qed
  moreover have "\<forall>m c. ?N m = Some c \<longrightarrow> netc_ok S1 m c"
  proof (intro allI impI)
    fix m c assume m: "?N m = Some c"
    then have mc: "netcs sw m = Some c" and mn: "m \<noteq> n" by (auto split: if_splits)
    show "netc_ok S1 m c"
      by (rule netc_le [OF netc_okD [OF inv mc] hle]) (use s mn in auto)
  qed
  moreover have "\<forall>w wn. ?V w = Some wn \<longrightarrow> vnet_ok S1 w wn"
  proof (intro allI impI)
    fix w wn assume w: "?V w = Some wn"
    show "vnet_ok S1 w wn"
    proof (cases "w = v")
      case True
      have ok: "vnet_ok (sessions sw) v vn" using vnet_okD [OF inv vn] .
      have "ftable_ok S1 v vn'"
        by (rule ftable_le [OF _ hle ft(1-4)]) (use ok ft(5) in \<open>auto simp: vnet_ok_def\<close>)
      moreover have "ctable_ok S1 v vn'"
        by (rule ctable_le [OF _ hle ct(1-4)]) (use ok ct(5) in \<open>auto simp: vnet_ok_def\<close>)
      moreover have "\<exists>a x. v_access_session vn' = Some a \<and> S1 a = Some x \<and> s_netc x = None"
      proof -
        obtain a y where a: "v_access_session vn = Some a" "sessions sw a = Some y" "s_netc y = None"
          using ok by (auto simp: vnet_ok_def)
        then have "a \<notin> {s}" using s by auto
        from heap_leD [OF hle a(2) this] a same(4) show ?thesis by (auto simp: sess_le_def)
      qed
      moreover have "head_ok S1 v vn'"
        unfolding head_ok_def
      proof (intro allI impI)
        fix h assume h: "v_session_list vn' = Some h"
        show "\<exists>y. S1 h = Some y \<and> s_vnetwork y = Some v \<and> s_prev y = None \<and> s_state y \<noteq> SESSION_STATE_WAIT_STEPUP"
        proof (cases "s_prev x")
          case None
          then have hn: "s_next x = Some h" using h list by simp
          then obtain y where y: "sessions sw h = Some y" "s_vnetwork y = Some v" "s_prev y = Some s" "r h < r s"
            using nxt by blast
          have "s_state y \<noteq> SESSION_STATE_WAIT_STEPUP" using session_okD [OF inv y(1)] y(3) by (auto simp: session_ok_def)
          moreover have "h \<noteq> s" using y(4) by auto
          ultimately show ?thesis using y None hn by (simp add: at)
        next
          case (Some p)
          then have "v_session_list vn = Some h" using h list by simp
          from head_facts [OF inv vn this] obtain y where y: "sessions sw h = Some y" "s_vnetwork y = Some v"
            "s_prev y = None" "s_state y \<noteq> SESSION_STATE_WAIT_STEPUP" by blast
          have "h \<noteq> s" using y s Some by auto
          moreover have "s_next x \<noteq> Some h" using nxt [of h] y by auto
          ultimately show ?thesis using y by (simp add: at)
        qed
      qed
      ultimately show ?thesis using ok same lk pool(1) True w by (simp add: vnet_ok_def head_ok_def)
    next
      case False
      then have wn: "vnets sw w = Some wn" using w by simp
      note ok = vnet_okD [OF inv wn]
      have "head_ok S1 w wn"
        unfolding head_ok_def
      proof (intro allI impI)
        fix g assume "v_session_list wn = Some g"
        from head_facts [OF inv wn this] obtain y where y: "sessions sw g = Some y" "s_vnetwork y = Some w"
          "s_prev y = None" "s_state y \<noteq> SESSION_STATE_WAIT_STEPUP" by blast
        moreover have "g \<noteq> s" "s_next x \<noteq> Some g" "s_prev x \<noteq> Some g"
          using y s(1,2) nxt [of g] prv [of g] False by auto
        ultimately show "\<exists>x. S1 g = Some x \<and> s_vnetwork x = Some w \<and> s_prev x = None
          \<and> s_state x \<noteq> SESSION_STATE_WAIT_STEPUP" by (simp add: at)
      qed
      then show ?thesis by (rule vnet_le [OF ok hle, rotated]) (use s False in auto)
    qed
  qed
  moreover have "links_ok S1 r"
  proof (rule links_bypass [OF r ls])
    show "lview S1 = lbypass (lview (sessions sw)) s (s_next x) (s_prev x)"
    proof
      fix t
      show "lview S1 t = lbypass (lview (sessions sw)) s (s_next x) (s_prev x) t"
        using nxt [of t] prv [of t] dist [of t]
        by (auto simp: lview_def lbypass_def at split: option.splits)
    qed
  qed
  moreover have "ids_ok S1 ?V"
  proof (rule ids_release [where S = "sessions sw" and V = "vnets sw", OF _ _ vn pool(2)])
    show "ids_ok (sessions sw) (vnets sw)" using inv by (simp add: switch_ok_def)
    show "iview (sessions sw) s = Some (Some v, s_id x)" using s by (simp add: iview_def)
    show "iview S1 = (iview (sessions sw))(s := None)"
    proof
      fix t
      show "iview S1 t = ((iview (sessions sw))(s := None)) t"
        using nxt [of t] prv [of t] by (auto simp: iview_def at)
    qed
  qed
  moreover have "access_ok ?V"
  proof -
    have "access_ok (vnets sw)" using inv by (simp add: switch_ok_def)
    then show ?thesis using vn same(4) by (auto simp: access_ok_def)
  qed
  moreover have "trees_ok (sw\<lparr>sessions := S1, netcs := ?N, vnets := ?V\<rparr>)"
  proof -
    have "\<exists>wn. ?V w = Some wn \<and> cbytes (f wn) = k"
      if "\<exists>wn. vnets sw w = Some wn \<and> cbytes (f wn) = k" "f vn' = f vn" for f w k
      using that vn by auto
    with inv same(1,2) show ?thesis by (simp add: switch_ok_def trees_ok_def)
  qed
  ultimately have "switch_ok (sw\<lparr>sessions := S1, netcs := ?N, vnets := ?V\<rparr>)"
    using inv unfolding switch_ok_def by auto
  then show ?thesis by (simp only: S1_def)
qed

text \<open>A session outside every network leaving the heap, with its connection.\<close>

lemma links_outside:
  assumes "links_ok S r" "lview S s = Some (None, n, p)"
  shows "lview S t \<noteq> Some (Some v, Some s, q)" "lview S t \<noteq> Some (Some v, m, Some s)"
  using links_okD [OF assms(1)] assms(2) by fastforce+

lemma drop_ok:
  assumes inv: "switch_ok sw" and s: "sessions sw s = Some x" "s_vnetwork x = None" "s_netc x = Some n"
  shows "switch_ok (sw\<lparr>sessions := (sessions sw)(s := None), netcs := (netcs sw)(n := None)\<rparr>)"
proof -
  let ?S = "(sessions sw)(s := None)" and ?N = "(netcs sw)(n := None)"
  have hle: "heap_le {s} (sessions sw) ?S" by (simp add: heap_le_def)
  have "\<forall>t y. ?S t = Some y \<longrightarrow> session_ok ?N (vnets sw) t y"
  proof (intro allI impI)
    fix t y assume "?S t = Some y"
    then have t: "sessions sw t = Some y" "t \<noteq> s" by (auto split: if_splits)
    then have "s_netc y \<noteq> Some n" using conn_gone [OF inv s(1,3) t(1)] by blast
    then show "session_ok ?N (vnets sw) t y" using session_okD [OF inv t(1)] by (intro session_ok_drop)
  qed
  moreover have "\<forall>m c. ?N m = Some c \<longrightarrow> netc_ok ?S m c"
  proof (intro allI impI)
    fix m c assume "?N m = Some c"
    then have m: "netcs sw m = Some c" "m \<noteq> n" by (auto split: if_splits)
    show "netc_ok ?S m c" by (rule netc_le [OF netc_okD [OF inv m(1)] hle]) (use s m in auto)
  qed
  moreover have "\<forall>v vn. vnets sw v = Some vn \<longrightarrow> vnet_ok ?S v vn"
  proof (intro allI impI)
    fix v vn assume v: "vnets sw v = Some vn"
    note ok = vnet_okD [OF inv v]
    have "head_ok ?S v vn" using head_facts [OF inv v] s by (auto simp: head_ok_def)
    then show "vnet_ok ?S v vn" by (rule vnet_le [OF ok hle, rotated]) (use s in auto)
  qed
  moreover have "\<exists>r. links_ok ?S r"
  proof -
    obtain r where r: "links_ok (sessions sw) r" using inv by (auto simp: switch_ok_def)
    have ls: "lview (sessions sw) s = Some (None, s_next x, s_prev x)" using s by (simp add: lview_def)
    have S: "lview ?S = (lview (sessions sw))(s := None)" by (simp add: lview_def fun_eq_iff)
    have "links_ok ?S r"
      unfolding links_ok_def S
      using r links_outside [OF r ls] unfolding links_ok_def by (auto split: if_splits)
    then show ?thesis by blast
  qed
  moreover have "ids_ok ?S (vnets sw)"
  proof -
    have "iview ?S = (iview (sessions sw))(s := None)" by (simp add: iview_def fun_eq_iff)
    moreover have "ids_ok (sessions sw) (vnets sw)" using inv by (simp add: switch_ok_def)
    ultimately show ?thesis by (auto simp: ids_ok_def split: if_splits)
  qed
  ultimately show ?thesis using inv by (simp add: switch_ok_def heap_ok_def trees_ok_def dom_def)
qed

text \<open>A new session with its connection.\<close>

lemma connect_ok:
  assumes inv: "switch_ok sw" and n: "n = brk sw" "s = Suc (brk sw)"
    and ip: "\<forall>p. ip = Some p \<longrightarrow> terminated p"
    and c: "terminated (n_host c)" "n_security_level c \<noteq> NET_UNSECURE" "n_ext_ptr c = Some s"
    and x: "x = session_zero\<lparr>s_state := SESSION_STATE_NOT_AUTHED, s_ip := ip, s_netc := Some n\<rparr>"
  shows "switch_ok (sw\<lparr>sessions := (sessions sw)(s \<mapsto> x), netcs := (netcs sw)(n \<mapsto> c), brk := Suc (Suc (brk sw))\<rparr>)"
proof -
  let ?S = "(sessions sw)(s \<mapsto> x)" and ?N = "(netcs sw)(n \<mapsto> c)"
  have heap: "a < brk sw" if "a \<in> dom (sessions sw) \<union> dom (netcs sw) \<union> dom (vnets sw)" for a
    using inv that unfolding switch_ok_def heap_ok_def by blast
  have new: "sessions sw s = None" "netcs sw n = None"
    using heap [of s] heap [of n] n by auto
  have hle: "heap_le {} (sessions sw) ?S" using new by (auto simp: heap_le_def)
  have "heap_ok (sw\<lparr>sessions := ?S, netcs := ?N, brk := Suc (Suc (brk sw))\<rparr>)"
    using heap n by (auto simp: heap_ok_def less_Suc_eq)
  moreover have "\<forall>t y. ?S t = Some y \<longrightarrow> session_ok ?N (vnets sw) t y"
  proof (intro allI impI)
    fix t y assume t: "?S t = Some y"
    show "session_ok ?N (vnets sw) t y"
    proof (cases "t = s")
      case True
      with t have "y = x" by simp
      with True c(3) ip show ?thesis by (simp add: session_ok_def x session_zero_def)
    next
      case False
      with t have y: "sessions sw t = Some y" by simp
      have "s_netc y \<noteq> Some n" using session_netc [OF inv y, of n] new by auto
      with session_okD [OF inv y] show ?thesis by (simp add: session_ok_def)
    qed
  qed
  moreover have "\<forall>m d. ?N m = Some d \<longrightarrow> netc_ok ?S m d"
  proof (intro allI impI)
    fix m d assume m: "?N m = Some d"
    show "netc_ok ?S m d"
    proof (cases "m = n")
      case True
      with m c show ?thesis by (simp add: netc_ok_def x)
    next
      case False
      with m have "netcs sw m = Some d" by simp
      from netc_le [OF netc_okD [OF inv this] hle] show ?thesis by simp
    qed
  qed
  moreover have "\<forall>v vn. vnets sw v = Some vn \<longrightarrow> vnet_ok ?S v vn"
  proof (intro allI impI)
    fix v vn assume v: "vnets sw v = Some vn"
    have "head_ok ?S v vn" using head_facts [OF inv v] new by (fastforce simp: head_ok_def)
    with vnet_le [OF vnet_okD [OF inv v] hle] show "vnet_ok ?S v vn" by simp
  qed
  moreover have "\<exists>r. links_ok ?S r"
  proof -
    obtain r where r: "links_ok (sessions sw) r" using inv by (auto simp: switch_ok_def)
    have "t \<noteq> s" if "lview (sessions sw) t = Some z" for t z using that new by (auto simp: lview_def)
    then have "links_ok ?S r"
      using r unfolding links_ok_def lview_upd by (fastforce simp: x session_zero_def split: if_splits)
    then show ?thesis by blast
  qed
  moreover have "ids_ok ?S (vnets sw)"
    using inv by (auto simp: switch_ok_def ids_ok_def iview_upd x session_zero_def split: if_splits)
  ultimately show ?thesis using inv by (simp add: switch_ok_def trees_ok_def)
qed

end
