(* ===== verification/Forwarding.thy ===== *)
theory Forwarding
  imports Switch_Inv
begin

text \<open>
  What the Ethernet switch does with a frame: the table it learns, the connections the frame goes
  out on, the introductions it makes, stated on the abstract table (\<open>fib\<close>), the session list and
  the link relation of the network, for a switch that satisfies \<open>switch_ok\<close>.
\<close>

section \<open>The session list of a network\<close>

definition conn_of :: "switch \<Rightarrow> addr \<Rightarrow> addr" where
  "conn_of sw a = the (s_netc (the (sessions sw a)))"

lemma links_chain:
  assumes l: "links_ok S r" and h: "lview S h = Some (Some v, n, p)"
  shows "\<exists>xs. sl.chain S p (h # xs) None \<and> distinct (h # xs) \<and> (\<forall>a \<in> set xs. r a < r h)
    \<and> (\<forall>a \<in> set (h # xs). \<exists>x. S a = Some x \<and> s_vnetwork x = Some v)"
  using h
proof (induction "r h" arbitrary: h n p rule: less_induct)
  case less
  obtain x where x: "S h = Some x" "s_vnetwork x = Some v" "s_next x = n" "s_prev x = p"
    using less.prems by (auto simp: lview_def)
  show ?case
  proof (cases n)
    case None
    with x show ?thesis by (intro exI [of _ "[]"]) simp
  next
    case (Some t)
    with links_okD(1) [OF l less.prems] obtain m where t: "r t < r h" "lview S t = Some (Some v, m, Some h)"
      by blast
    from less.hyps [OF this] obtain xs where xs: "sl.chain S (Some h) (t # xs) None" "distinct (t # xs)"
      "\<forall>a \<in> set xs. r a < r t" "\<forall>a \<in> set (t # xs). \<exists>x. S a = Some x \<and> s_vnetwork x = Some v" by blast
    have "\<forall>a \<in> set (t # xs). r a < r h" using t(1) xs(3) by auto
    with xs x Some show ?thesis by (intro exI [of _ "t # xs"]) auto
  qed
qed

lemma open_sessions_exist:
  assumes inv: "switch_ok sw" and v: "vnets sw v = Some vn"
  shows "\<exists>xs. open_sessions sw v xs"
proof (cases "v_session_list vn")
  case None
  with v show ?thesis by (intro exI [of _ "[]"]) (simp add: open_sessions_def)
next
  case (Some h)
  from head_facts [OF inv v this] obtain y where "sessions sw h = Some y" "s_vnetwork y = Some v" "s_prev y = None"
    by blast
  then have "lview (sessions sw) h = Some (Some v, s_next y, None)" by (simp add: lview_def)
  moreover obtain r where "links_ok (sessions sw) r" using inv by (auto simp: switch_ok_def)
  ultimately obtain xs where "sl.chain (sessions sw) None (h # xs) None" "distinct (h # xs)"
    using links_chain by blast
  with v Some show ?thesis by (intro exI [of _ "h # xs"]) (simp add: open_sessions_def)
qed

lemma chain_unique: "sl.chain S p xs None \<Longrightarrow> sl.chain S p' ys None \<Longrightarrow> first xs None = first ys None \<Longrightarrow> xs = ys"
proof (induction xs arbitrary: p p' ys)
  case Nil
  then show ?case by (cases ys) simp_all
next
  case (Cons a xs)
  then obtain zs where ys: "ys = a # zs" by (cases ys) auto
  with Cons.prems have "first xs None = first zs None" by auto
  with Cons.IH [of "Some a" "Some a" zs] Cons.prems ys show ?case by auto
qed

lemma open_sessions_members:
  assumes inv: "switch_ok sw" and o: "open_sessions sw v xs" and a: "a \<in> set xs"
  shows "\<exists>x n c. sessions sw a = Some x \<and> s_vnetwork x = Some v \<and> s_netc x = Some n \<and> netcs sw n = Some c
    \<and> n_ext_ptr c = Some a"
proof -
  obtain vn where vn: "vnets sw v = Some vn" "v_session_list vn = first xs None"
    and c: "sl.chain (sessions sw) None xs None" using o by (auto simp: open_sessions_def)
  obtain h ys where xs: "xs = h # ys" using a by (cases xs) auto
  from head_facts [OF inv vn(1)] vn(2) xs obtain y where
    y: "sessions sw h = Some y" "s_vnetwork y = Some v" "s_prev y = None" by auto
  then have "lview (sessions sw) h = Some (Some v, s_next y, None)" by (simp add: lview_def)
  moreover obtain r where "links_ok (sessions sw) r" using inv by (auto simp: switch_ok_def)
  ultimately obtain zs where zs: "sl.chain (sessions sw) None (h # zs) None"
    "\<forall>a \<in> set (h # zs). \<exists>x. sessions sw a = Some x \<and> s_vnetwork x = Some v" using links_chain by blast
  have "h # zs = xs" using chain_unique [OF zs(1) c] xs by simp
  with zs(2) a obtain x where x: "sessions sw a = Some x" "s_vnetwork x = Some v" by blast
  have "s_netc x \<noteq> None" using session_okD [OF inv x(1)] x(2) by (auto simp: session_ok_def)
  then obtain n where n: "s_netc x = Some n" by auto
  with session_netc [OF inv x(1) n] x show ?thesis by auto
qed

section \<open>Flooding\<close>

lemma flood_run:
  "sl.chain (sessions sw) p xs None \<Longrightarrow>
   (\<And>a. a \<in> set xs \<Longrightarrow> \<exists>x n. sessions sw a = Some x \<and> s_netc x = Some n \<and> netcs sw n \<noteq> None) \<Longrightarrow>
   flood sw msg (first xs None) =
     Some (sw\<lparr>events := events sw @ map (\<lambda>a. Send (conn_of sw a) msg) xs\<rparr>)"
proof (induction xs arbitrary: sw p)
  case Nil
  then show ?case by (subst flood.simps) simp
next
  case (Cons a xs)
  obtain x n where x: "sessions sw a = Some x" "s_netc x = Some n" "netcs sw n \<noteq> None"
    using Cons.prems(2) [of a] by auto
  have nx: "s_next x = first xs None" "sl.chain (sessions sw) (Some a) xs None" using Cons.prems(1) x by auto
  define sw1 where "sw1 = sw\<lparr>events := events sw @ [Send n msg]\<rparr>"
  have f: "sessions sw1 = sessions sw" "netcs sw1 = netcs sw" by (simp_all add: sw1_def)
  have IH: "flood sw1 msg (first xs None) =
      Some (sw1\<lparr>events := events sw1 @ map (\<lambda>a. Send (conn_of sw1 a) msg) xs\<rparr>)"
    by (rule Cons.IH [of _ "Some a"]) (use nx Cons.prems(2) in \<open>simp_all add: f\<close>)
  have "conn_of sw a = n" "conn_of sw1 = conn_of sw" using x by (simp_all add: conn_of_def f fun_eq_iff)
  with IH x nx show ?case
    by (subst flood.simps) (auto simp: sw1_def)
qed

lemma flood_ok:
  assumes inv: "switch_ok sw" and o: "open_sessions sw v xs" and vn: "vnets sw v = Some vn"
  shows "flood sw msg (v_session_list vn) =
     Some (sw\<lparr>events := events sw @ map (\<lambda>a. Send (conn_of sw a) msg) xs\<rparr>)"
proof -
  have l: "v_session_list vn = first xs None" and c: "sl.chain (sessions sw) None xs None"
    using o vn by (auto simp: open_sessions_def)
  show ?thesis
    unfolding l by (rule flood_run [OF c]) (use open_sessions_members [OF inv o] in blast)
qed

section \<open>Learning\<close>

text \<open>The forwarding table of a network.\<close>

definition fib :: "switch \<Rightarrow> addr \<Rightarrow> u8 list \<rightharpoonup> addr" where
  "fib sw v = (case vnets sw v of None \<Rightarrow> Map.empty | Some vn \<Rightarrow>
     (case v_ftable vn of None \<Rightarrow> Map.empty | Some ft \<Rightarrow> ft.absm ft))"

text \<open>What an operation that only learns leaves alone.\<close>

definition same_nets :: "switch \<Rightarrow> switch \<Rightarrow> bool" where
  "same_nets sw sw' \<longleftrightarrow> netcs sw' = netcs sw \<and> lview (sessions sw') = lview (sessions sw)
     \<and> (\<forall>t. map_option (\<lambda>x. (s_netc x, s_id x, s_state x)) (sessions sw' t)
            = map_option (\<lambda>x. (s_netc x, s_id x, s_state x)) (sessions sw t))
     \<and> (\<forall>v. map_option v_session_list (vnets sw' v) = map_option v_session_list (vnets sw v))"

lemma same_nets_refl [simp]: "same_nets sw sw"
  by (simp add: same_nets_def)

lemma same_nets_trans: "same_nets sw sw1 \<Longrightarrow> same_nets sw1 sw2 \<Longrightarrow> same_nets sw sw2"
  by (simp add: same_nets_def)

lemma same_nets_session:
  assumes "same_nets sw sw'" "sessions sw s = Some x"
  shows "\<exists>x'. sessions sw' s = Some x' \<and> s_netc x' = s_netc x \<and> s_vnetwork x' = s_vnetwork x
    \<and> s_next x' = s_next x \<and> s_prev x' = s_prev x \<and> s_id x' = s_id x \<and> s_state x' = s_state x"
proof -
  have "lview (sessions sw') s = lview (sessions sw) s"
    "map_option (\<lambda>x. (s_netc x, s_id x, s_state x)) (sessions sw' s)
            = map_option (\<lambda>x. (s_netc x, s_id x, s_state x)) (sessions sw s)"
    using assms(1) by (simp_all add: same_nets_def)
  then show ?thesis using assms(2) by (auto simp: lview_def)
qed

lemma same_nets_open:
  assumes s: "same_nets sw sw'" and o: "open_sessions sw v xs"
  shows "open_sessions sw' v xs"
proof -
  obtain vn where vn: "vnets sw v = Some vn" "v_session_list vn = first xs None"
    and c: "distinct xs" "sl.chain (sessions sw) None xs None" using o by (auto simp: open_sessions_def)
  have "sl.chain (sessions sw') p ys None" if "sl.chain (sessions sw) p ys None" for p ys
    using that
  proof (induction ys arbitrary: p)
    case (Cons a ys)
    then obtain x where x: "sessions sw a = Some x" "s_prev x = p" "s_next x = first ys None"
      "sl.chain (sessions sw) (Some a) ys None" by auto
    with same_nets_session [OF s x(1)] Cons.IH [OF x(4)] show ?case by auto
  qed simp
  moreover have "map_option v_session_list (vnets sw' v) = map_option v_session_list (vnets sw v)"
    using s by (simp add: same_nets_def)
  ultimately show ?thesis using vn c by (auto simp: open_sessions_def)
qed

lemma mac_value_6: "length m = 6 \<Longrightarrow> mac_value m = m"
  by (simp add: mac_value_def)

lemma learn_src_ok:
  assumes inv: "switch_ok sw" and s: "sessions sw s = Some x" "s_state x = SESSION_STATE_AUTHED"
      "s_vnetwork x = Some v" and m: "length mac = 6"
  shows "\<exists>s0 sw1. learn_src sw (Some s) mac = Some (Some s0, sw1) \<and> switch_ok sw1 \<and> same_nets sw sw1
    \<and> events sw1 = events sw \<and> env sw1 = env sw \<and> env_pos sw1 = env_pos sw
    \<and> fib sw1 v = (if fib sw v mac = None then (fib sw v)(mac \<mapsto> s) else fib sw v)
    \<and> fib sw1 v mac = Some s0 \<and> (\<forall>w. w \<noteq> v \<longrightarrow> vnets sw1 w = vnets sw w)
    \<and> map_option v_linkst (vnets sw1 v) = map_option v_linkst (vnets sw v)"
proof -
  obtain vn where vn: "vnets sw v = Some vn" "vnet_ok (sessions sw) v vn"
    using session_vnet [OF inv s(1,3)] by blast
  obtain ft where ft: "v_ftable vn = Some ft" "ft.invar ft" "ftable_ok (sessions sw) v vn"
    using vn(2) by (auto simp: vnet_ok_def ftable_ok_def)
  have fib: "fib sw v = ft.absm ft" by (simp add: fib_def vn ft)
  have find: "ftable_find ft mac = Some (ft.absm ft mac)"
    using ft.hfind_ok [OF ft(2), of mac] m by (simp add: ftable_find_def mac_value_6)
  show ?thesis
  proof (cases "ft.absm ft mac")
    case (Some s0)
    have "learn_src sw (Some s) mac = Some (Some s0, sw)"
      using s vn(1) ft(1) find Some by (simp add: learn_src_def)
    with Some inv fib show ?thesis by auto
  next
    case None
    obtain ft1 where ft1: "ftable_insert ft mac (Some s) = Some (1, ft1)" "ft.invar ft1"
      "ft.absm ft1 = (ft.absm ft)(mac \<mapsto> s)"
      using ft.hinsert_ok [OF ft(2), of mac s] m None by (auto simp: ftable_insert_def mac_value_6)
    define x1 where "x1 = x\<lparr>s_mac_addr := mac, s_mac_list := mac # s_mac_list x\<rparr>"
    define vn1 where "vn1 = vn\<lparr>v_ftable := Some ft1\<rparr>"
    define swa where "swa = sw\<lparr>sessions := (sessions sw)(s \<mapsto> x1)\<rparr>"
    define sw1 where "sw1 = swa\<lparr>vnets := (vnets swa)(v \<mapsto> vn1)\<rparr>"
    have f: "sessions swa = (sessions sw)(s \<mapsto> x1)" "vnets swa = vnets sw" "netcs swa = netcs sw"
      "events swa = events sw" "env swa = env sw" "env_pos swa = env_pos sw"
      by (simp_all add: swa_def)
    have run: "learn_src sw (Some s) mac = Some (Some s, sw1)"
      using s vn(1) ft(1) find None ft1(1) m
      by (simp add: learn_src_def sw1_def swa_def x1_def vn1_def)
    have oka: "switch_ok swa"
      unfolding swa_def
    proof (rule session_update_ok [OF inv s(1)])
      show "sess_le x x1" by (auto simp: sess_le_def x1_def)
      show "session_ok (netcs sw) (vnets sw) s x1"
        using session_okD [OF inv s(1)] s(2) m by (simp add: session_ok_def x1_def)
    qed (simp_all add: x1_def)
    have "ftable_ok (sessions swa) v vn1"
      unfolding ftable_ok_def
    proof (intro exI [of _ ft1] conjI allI impI)
      fix k t assume e: "ft.absm ft1 k = Some t"
      show "\<exists>y. sessions swa t = Some y \<and> s_vnetwork y = Some v \<and> k \<in> set (s_mac_list y)"
      proof (cases "k = mac")
        case True
        with e ft1(3) have "t = s" by simp
        with True s show ?thesis by (simp add: f x1_def)
      next
        case False
        with e ft1(3) have "ft.absm ft k = Some t" by simp
        then have "\<exists>y. sessions sw t = Some y \<and> s_vnetwork y = Some v \<and> k \<in> set (s_mac_list y)"
          using ft(1,3) unfolding ftable_ok_def by (metis option.inject)
        then show ?thesis using s by (cases "t = s") (auto simp: f x1_def)
      qed
    qed (use ft1 in \<open>simp_all add: vn1_def\<close>)
    then have "vnet_ok (sessions swa) v vn1"
      using vnet_okD [OF oka, of v vn] vn(1) by (simp add: f vnet_ok_def vn1_def ctable_ok_def)
    with vnet_update_ok [OF oka, of v vn vn1] vn(1) have ok1: "switch_ok sw1"
      by (simp add: f vn1_def sw1_def)
    have "same_nets sw sw1"
      using s(1) vn(1) by (simp add: same_nets_def sw1_def f lview_same x1_def vn1_def)
    moreover have "fib sw1 v = (ft.absm ft)(mac \<mapsto> s)" by (simp add: fib_def sw1_def vn1_def ft1(3))
    ultimately show ?thesis
      using run ok1 fib None vn(1) by (simp add: sw1_def f vn1_def)
  qed
qed

section \<open>Introductions\<close>

definition p2p_msg :: "u8 list \<Rightarrow> octets \<Rightarrow> u32 \<Rightarrow> int \<Rightarrow> DNDSMessage" where
  "p2p_msg mac ipo port side = \<lparr>msg_version = 1, msg_channel = 0, pdu_present = pdu_PR_dnm,
     pdu_choice = Dnm (dnm_zero\<lparr>dnop_present := dnop_PR_p2pRequest,
       dnop_choice := P2pRequest \<lparr>p2pRequest_macAddrDst = \<lparr>obuf = Some (take 6 mac), osize = 6\<rparr>,
         p2pRequest_ipAddrDst = ipo, p2pRequest_port = ucast port, p2pRequest_side = side\<rparr>\<rparr>)\<rparr>"

text \<open>The address of a peer as the message carries it; text that is no address leaves zeros behind.\<close>

definition peer_addr :: "u8 list \<Rightarrow> octets" where
  "peer_addr ip = (case inet_pton (map (\<lambda>c. char_of (unat c)) (the (cbytes ip))) of
       None \<Rightarrow> octets_zero\<lparr>obuf := Some [0, 0, 0, 0]\<rparr> | Some b \<Rightarrow> \<lparr>obuf = Some b, osize = 4\<rparr>)"

lemma octets_set_inet_ok:
  assumes "terminated ip"
  shows "\<exists>rc. octets_set_inet True octets_zero ip = Some (rc, peer_addr ip)"
proof -
  obtain n where "strlen ip = Some n" using assms strlen_Some_iff [of ip] by blast
  then show ?thesis
    by (auto simp: octets_set_inet_def cstr_def peer_addr_def cbytes_def octets_zero_def split: option.splits)
qed

lemma p2p_request_ok:
  assumes "6 \<le> length mac" "terminated ip"
  shows "p2p_request mac ip port side = Some (p2p_msg mac (peer_addr ip) port side)"
proof -
  obtain rc where rc: "octets_set_inet True octets_zero ip = Some (rc, peer_addr ip)"
    using octets_set_inet_ok [OF assms(2)] by blast
  show ?thesis
    using assms(1) rc
    by (simp add: p2p_request_def DNDSMessage_new_def DNDSMessage_set_pdu_def DNMessage_set_operation_def
        P2pRequest_set_macAddrDst_def P2pRequest_set_ipAddrDst_def P2pRequest_set_port_def
        P2pRequest_set_side_def guard_defs union_defs octets_set_mac_def memcpy_def
        p2p_msg_def dnm_zero_def p2pRequest_zero_def octets_zero_def)
qed

definition linked_pairs :: "switch \<Rightarrow> addr \<Rightarrow> (u32 \<times> u32) set" where
  "linked_pairs sw v = (case vnets sw v of None \<Rightarrow> {} | Some vn \<Rightarrow>
     (case v_linkst vn of None \<Rightarrow> {} | Some l \<Rightarrow> Linkst.links l))"

lemma joined_some:
  assumes "linkst_wf l"
  shows "\<exists>r. linkst_joined (Some l) a b = Some r \<and> (r = 1 \<longleftrightarrow> (a, b) \<in> Linkst.links l)"
  using joined_eq [OF assms, of a b] joined_out [of a l b] assms
  by (cases "1 \<le> a \<and> a \<le> matrix_size l \<and> 1 \<le> b \<and> b \<le> matrix_size l") (auto simp: links_iff)

lemma join_some:
  assumes "linkst_wf l"
  shows "\<exists>r l'. linkst_join (Some l) a b now = Some (r, Some l') \<and> linkst_wf l' \<and> upper_limit l' = upper_limit l
    \<and> Linkst.links l' = link_spec (upper_limit l) (Join a b now) (Linkst.links l)"
  using ls.join_law [OF assms, of a b now] by (auto simp: ls_join_def split: Option.bind_splits)

text \<open>The address an agent is introduced by: its local one to an agent behind the same host.\<close>

definition host_of :: "switch \<Rightarrow> addr \<Rightarrow> u8 list" where
  "host_of sw a = n_host (the (netcs sw (conn_of sw a)))"

definition peer_ip :: "switch \<Rightarrow> addr \<Rightarrow> addr \<Rightarrow> u8 list" where
  "peer_ip sw other a =
     (if cbytes (host_of sw other) = cbytes (host_of sw a) then s_ip_local (the (sessions sw a)) else host_of sw a)"

definition p2p_events :: "switch \<Rightarrow> addr \<Rightarrow> addr \<Rightarrow> event list" where
  "p2p_events sw a b =
     (let port = p2p_port (env sw (env_pos sw)) in
      [Send (conn_of sw a) (p2p_msg (s_tun_mac_addr (the (sessions sw b))) (peer_addr (peer_ip sw a b)) port P2pSide_client),
       Send (conn_of sw b) (p2p_msg (s_tun_mac_addr (the (sessions sw a))) (peer_addr (peer_ip sw b a)) port P2pSide_server)])"

lemma p2pRequest_ok:
  assumes inv: "switch_ok sw" and a: "sessions sw a = Some xa" "s_netc xa = Some na"
    and b: "sessions sw b = Some xb" "s_netc xb = Some nb"
  shows "p2pRequest sw (Some a) (Some b) =
    Some (sw\<lparr>env_pos := Suc (env_pos sw), events := events sw @ p2p_events sw a b\<rparr>)"
proof -
  obtain ca cb where c: "netcs sw na = Some ca" "netcs sw nb = Some cb"
    using session_netc [OF inv a] session_netc [OF inv b] by blast
  have t: "terminated (n_host ca)" "terminated (n_host cb)"
    using netc_okD [OF inv c(1)] netc_okD [OF inv c(2)] by (simp_all add: netc_ok_def)
  then obtain ha hb where h: "cbytes (n_host ca) = Some ha" "cbytes (n_host cb) = Some hb"
    using cbytes_terminated by blast
  have x: "length (s_tun_mac_addr xa) = 6" "length (s_tun_mac_addr xb) = 6"
    "terminated (s_ip_local xa)" "terminated (s_ip_local xb)"
    using session_okD [OF inv a(1)] session_okD [OF inv b(1)] by (simp_all add: session_ok_def)
  have of: "host_of sw a = n_host ca" "host_of sw b = n_host cb" "conn_of sw a = na" "conn_of sw b = nb"
    using a b c by (simp_all add: host_of_def conn_of_def)
  show ?thesis
    using a b c h t x
    by (simp add: p2pRequest_def next_env_def p2p_request_ok p2p_events_def peer_ip_def of Let_def
        del: p2p_msg_def split: if_splits)
qed

lemma introduce_ok:
  assumes inv: "switch_ok sw" and a: "sessions sw a = Some xa" "s_vnetwork xa = Some v"
    and b: "sessions sw b = Some xb" "s_vnetwork xb = Some v"
  shows "\<exists>sw'. introduce sw (Some a) (Some b) = Some sw' \<and> switch_ok sw' \<and> same_nets sw sw' \<and> fib sw' v = fib sw v
    \<and> (if (s_id xa, s_id xb) \<in> linked_pairs sw v then sw' = sw
       else events sw' = events sw @ p2p_events sw a b
         \<and> linked_pairs sw' v = link_spec 1024 (Join (s_id xa) (s_id xb) 0) (linked_pairs sw v))"
proof -
  obtain vn l where vn: "vnets sw v = Some vn" "vnet_ok (sessions sw) v vn"
    and l: "v_linkst vn = Some l" "linkst_wf l" "upper_limit l = 1024"
    using session_vnet [OF inv a] by (auto simp: vnet_ok_def)
  have pairs: "linked_pairs sw v = Linkst.links l" using vn l by (simp add: linked_pairs_def)
  obtain j where j: "linkst_joined (Some l) (s_id xa) (s_id xb) = Some j"
    "j = 1 \<longleftrightarrow> (s_id xa, s_id xb) \<in> Linkst.links l" using joined_some [OF l(2)] by blast
  show ?thesis
  proof (cases "j = 1")
    case True
    then have "introduce sw (Some a) (Some b) = Some sw"
      using a b vn(1) l(1) j(1) by (simp add: introduce_def)
    with True j(2) pairs inv show ?thesis by auto
  next
    case False
    define now where "now = env sw (Suc (env_pos sw))"
    obtain r l' where l': "linkst_join (Some l) (s_id xa) (s_id xb) now = Some (r, Some l')" "linkst_wf l'"
      "upper_limit l' = 1024" "Linkst.links l' = link_spec 1024 (Join (s_id xa) (s_id xb) now) (Linkst.links l)"
      using join_some [OF l(2)] l(3) by metis
    obtain na nb where n: "s_netc xa = Some na" "s_netc xb = Some nb"
      using session_okD [OF inv a(1)] session_okD [OF inv b(1)] a(2) b(2) by (auto simp: session_ok_def)
    define sw1 where "sw1 = sw\<lparr>env_pos := Suc (Suc (env_pos sw)), events := events sw @ p2p_events sw a b\<rparr>"
    define vn' where "vn' = vn\<lparr>v_linkst := Some l'\<rparr>"
    have f: "sessions sw1 = sessions sw" "vnets sw1 = vnets sw" "netcs sw1 = netcs sw"
      "events sw1 = events sw @ p2p_events sw a b" by (simp_all add: sw1_def)
    have run: "introduce sw (Some a) (Some b) = Some (sw1\<lparr>vnets := (vnets sw1)(v \<mapsto> vn')\<rparr>)"
      using a b vn(1) l(1) j(1) False l'(1) p2pRequest_ok [OF inv a(1) n(1) b(1) n(2)]
      by (simp add: introduce_def next_env_def now_def sw1_def vn'_def)
    have "switch_ok sw1" using inv by (simp add: sw1_def)
    moreover have "vnet_ok (sessions sw1) v vn'"
      using vn(2) l' by (simp add: f vnet_ok_def vn'_def ftable_ok_def ctable_ok_def)
    ultimately have "switch_ok (sw1\<lparr>vnets := (vnets sw1)(v \<mapsto> vn')\<rparr>)"
      using vnet_update_ok [of sw1 v vn vn'] vn(1) by (simp add: f vn'_def)
    with run False j(2) pairs l' vn(1) show ?thesis
      by (auto simp: same_nets_def fib_def linked_pairs_def f vn'_def)
  qed
qed

section \<open>Forwarding\<close>

definition group_addr :: "u8 list \<Rightarrow> bool" where
  "group_addr mac \<longleftrightarrow> mac = replicate 6 0xff \<or> take 3 mac = [0x01, 0x00, 0x5e]"

lemma mac_type:
  assumes "length mac = 6"
  shows "\<exists>t. inet_get_mac_addr_type mac = Some t \<and> (t = ADDR_UNICAST \<longleftrightarrow> \<not> group_addr mac)
    \<and> (t = ADDR_BROADCAST \<or> t = ADDR_MULTICAST \<longleftrightarrow> group_addr mac)"
proof -
  obtain r where r: "memcmp mac mac_addr_broadcast 6 = Some r" "r = 0 \<longleftrightarrow> mac = replicate 6 0xff"
    using memcmp_eq_0 [of 6 mac mac_addr_broadcast] assms
    by (auto simp: mac_addr_broadcast_def numeral_eq_Suc)
  obtain q where q: "memcmp mac mac_addr_multicast 3 = Some q" "q = 0 \<longleftrightarrow> take 3 mac = [0x01, 0x00, 0x5e]"
    using memcmp_eq_0 [of 3 mac mac_addr_multicast] assms by (auto simp: mac_addr_multicast_def)
  show ?thesis using r q by (simp add: inet_get_mac_addr_type_def group_addr_def)
qed

text \<open>The table after the source of a frame has been learned.\<close>

definition fib_after :: "switch \<Rightarrow> addr \<Rightarrow> addr \<Rightarrow> u8 list \<Rightarrow> u8 list \<rightharpoonup> addr" where
  "fib_after sw v s src = (if fib sw v src = None then (fib sw v)(src \<mapsto> s) else fib sw v)"

text \<open>Where a frame goes: nowhere when source and destination are the same session, to every
  session of the network when the destination is a group or unknown, to one session otherwise.\<close>

definition targets :: "switch \<Rightarrow> addr \<Rightarrow> addr \<Rightarrow> addr list \<Rightarrow> u8 list \<Rightarrow> addr list" where
  "targets sw v s xs frame =
     (let src = take 6 (drop 6 frame); dst = take 6 frame; T = fib_after sw v s src in
      if T dst = T src then []
      else if group_addr dst \<or> T dst = None then xs else [the (T dst)])"

lemma fib_member:
  assumes inv: "switch_ok sw" and e: "fib sw v m = Some s"
  shows "\<exists>x. sessions sw s = Some x \<and> s_vnetwork x = Some v \<and> m \<in> set (s_mac_list x)"
proof -
  obtain vn ft where vn: "vnets sw v = Some vn" "v_ftable vn = Some ft" "ft.absm ft m = Some s"
    using e by (auto simp: fib_def split: option.splits)
  have "ftable_ok (sessions sw) v vn" using vnet_okD [OF inv vn(1)] by (simp add: vnet_ok_def)
  with vn show ?thesis unfolding ftable_ok_def by (metis option.inject)
qed

lemma forward_run:
  assumes inv: "switch_ok sw" and s: "sessions sw s = Some x" "s_state x = SESSION_STATE_AUTHED"
      "s_vnetwork x = Some v"
    and fr: "pdu_choice msg = Ethernet e" "obuf e = Some frame" "12 \<le> length frame"
    and o: "open_sessions sw v xs"
  shows "\<exists>sw' intro. forward_ethernet sw (Some s) msg = Some sw' \<and> switch_ok sw' \<and> same_nets sw sw'
    \<and> fib sw' v = fib_after sw v s (take 6 (drop 6 frame))
    \<and> events sw' = events sw @ map (\<lambda>a. Send (conn_of sw a) msg) (targets sw v s xs frame) @ intro
    \<and> (intro \<noteq> [] \<longrightarrow> \<not> group_addr (take 6 frame) \<and>
         (\<exists>a d m m'. fib sw' v (take 6 (drop 6 frame)) = Some a \<and> fib sw' v (take 6 frame) = Some d \<and> a \<noteq> d
            \<and> intro = [Send (conn_of sw a) m, Send (conn_of sw d) m'] \<and> pdu_present m = pdu_PR_dnm
            \<and> pdu_present m' = pdu_PR_dnm))"
proof -
  let ?src = "take 6 (drop 6 frame)" and ?dst = "take 6 frame"
  have len: "length ?src = 6" "length ?dst = 6" using fr(3) by simp_all
  obtain s0 sw1 where l: "learn_src sw (Some s) ?src = Some (Some s0, sw1)" "switch_ok sw1" "same_nets sw sw1"
    "events sw1 = events sw" "fib sw1 v = fib_after sw v s ?src" "fib sw1 v ?src = Some s0"
    using learn_src_ok [OF inv s len(1)] unfolding fib_after_def by blast
  obtain x1 where x1: "sessions sw1 s = Some x1" "s_vnetwork x1 = Some v"
    using same_nets_session [OF l(3) s(1)] s(3) by auto
  obtain vn1 ft1 where vn1: "vnets sw1 v = Some vn1" "v_ftable vn1 = Some ft1" "ft.invar ft1"
    using session_vnet [OF l(2) x1] by (auto simp: vnet_ok_def ftable_ok_def)
  have fib1: "fib sw1 v = ft.absm ft1" using vn1 by (simp add: fib_def)
  have find: "ftable_find ft1 ?dst = Some (fib sw1 v ?dst)"
    using ft.hfind_ok [OF vn1(3), of ?dst] len by (simp add: ftable_find_def mac_value_6 fib1)
  obtain t where t: "inet_get_mac_addr_type ?dst = Some t" "t = ADDR_UNICAST \<longleftrightarrow> \<not> group_addr ?dst"
    "t = ADDR_BROADCAST \<or> t = ADDR_MULTICAST \<longleftrightarrow> group_addr ?dst" using mac_type [OF len(2)] by blast
  have macs: "inet_get_mac_addr_src frame = Some ?src" "inet_get_mac_addr_dst frame = Some ?dst"
    using fr(3) by (simp_all add: inet_get_mac_addr_src_def inet_get_mac_addr_dst_def memcpy_def)
  have conn: "conn_of sw1 = conn_of sw"
  proof
    fix a
    have "map_option s_netc (sessions sw1 a) = map_option s_netc (sessions sw a)"
      using l(3) unfolding same_nets_def by (metis (mono_tags, lifting) fst_conv option.map_comp comp_apply option.map_cong)
    then show "conn_of sw1 a = conn_of sw a"
      by (cases "sessions sw a"; cases "sessions sw1 a") (simp_all add: conn_of_def)
  qed
  note sh = forward_ethernet_def DNDSMessage_get_ethernet_def fr s macs l(1) vn1(1,2) find t(1)
  show ?thesis
  proof (cases "fib sw1 v ?dst")
    case None
    have "forward_ethernet sw (Some s) msg = flood sw1 msg (v_session_list vn1)"
      using None t by (simp add: sh)
    also have "\<dots> = Some (sw1\<lparr>events := events sw1 @ map (\<lambda>a. Send (conn_of sw1 a) msg) xs\<rparr>)"
      using flood_ok [OF l(2) same_nets_open [OF l(3) o] vn1(1)] .
    finally show ?thesis
      using l None by (auto simp: conn targets_def Let_def same_nets_def fib_def)
  next
    case (Some d)
    obtain y where y: "sessions sw1 d = Some y" "s_vnetwork y = Some v"
      using fib_member [OF l(2) Some] by blast
    obtain z where z: "sessions sw1 s0 = Some z" "s_vnetwork z = Some v"
      using fib_member [OF l(2) l(6)] by blast
    have "s_netc y \<noteq> None" using session_okD [OF l(2) y(1)] y(2) by (auto simp: session_ok_def)
    then obtain n where n: "s_netc y = Some n" by auto
    obtain c where c: "netcs sw1 n = Some c" using session_netc [OF l(2) y(1) n] by blast
    have cn: "conn_of sw d = n" using y n conn by (metis conn_of_def option.sel)
    show ?thesis
    proof (cases "d = s0")
      case True
      have "forward_ethernet sw (Some s) msg = Some sw1" using True Some by (simp add: sh)
      with l Some True show ?thesis by (auto simp: targets_def Let_def)
    next
      case False
      show ?thesis
      proof (cases "group_addr ?dst")
        case True
        have "forward_ethernet sw (Some s) msg = flood sw1 msg (v_session_list vn1)"
          using True t Some False y(1) by (simp add: sh)
        also have "\<dots> = Some (sw1\<lparr>events := events sw1 @ map (\<lambda>a. Send (conn_of sw1 a) msg) xs\<rparr>)"
          using flood_ok [OF l(2) same_nets_open [OF l(3) o] vn1(1)] .
        finally show ?thesis
          using l Some False True by (auto simp: conn targets_def Let_def same_nets_def fib_def)
      next
        case uni: False
        define sw2 where "sw2 = sw1\<lparr>events := events sw1 @ [Send n msg]\<rparr>"
        have f: "sessions sw2 = sessions sw1" "vnets sw2 = vnets sw1" "switch_ok sw2" "fib sw2 = fib sw1"
          "same_nets sw1 sw2" using l(2) by (simp_all add: sw2_def fib_def same_nets_def fun_eq_iff)
        obtain sw3 where i: "introduce sw2 (Some s0) (Some d) = Some sw3" "switch_ok sw3" "same_nets sw2 sw3"
          "fib sw3 v = fib sw2 v" "sw3 = sw2 \<or> events sw3 = events sw2 @ p2p_events sw2 s0 d"
          using introduce_ok [OF f(3), of s0 z v d y] y z f by metis
        have "forward_ethernet sw (Some s) msg = introduce sw2 (Some s0) (Some d)"
          using uni t Some False y(1) n c by (simp add: sh sw2_def)
        moreover have "same_nets sw sw3" using same_nets_trans l(3) f(5) i(3) by blast
        moreover have "conn_of sw2 = conn_of sw" using conn by (simp add: conn_of_def fun_eq_iff f)
        ultimately show ?thesis
          using i l(4,5,6) Some False uni cn f(4)
          by (auto simp: targets_def Let_def sw2_def p2p_events_def p2p_msg_def)
      qed
    qed
  qed
qed

end
