(* ===== verification/Handlers.thy ===== *)
theory Handlers
  imports Forwarding
begin

text \<open>
  Every handler of the switch, on a switch that satisfies \<open>switch_ok\<close>: it does not fault and the
  invariant holds afterwards.  The premises say what the environment has to respect.
\<close>

text \<open>The part of the state the invariant speaks of.\<close>

definition same_heap :: "switch \<Rightarrow> switch \<Rightarrow> bool" where
  "same_heap sw sw' \<longleftrightarrow> sessions sw' = sessions sw \<and> netcs sw' = netcs sw \<and> vnets sw' = vnets sw
     \<and> vnetworks sw' = vnetworks sw \<and> vnetworks_id sw' = vnetworks_id sw \<and> brk sw' = brk sw
     \<and> tracking_table sw' = tracking_table sw \<and> tracking_id sw' = tracking_id sw"

lemma same_heap_ok: "same_heap sw sw' \<Longrightarrow> switch_ok sw \<Longrightarrow> switch_ok sw'"
  by (simp add: same_heap_def switch_ok_def heap_ok_def trees_ok_def)

section \<open>Controller queries\<close>

lemma pipe_query_ok [simp]:
  "switch_ok (snd (pipe_query J sw q)) = switch_ok sw"
  "netcs (snd (pipe_query J sw q)) = netcs sw" "sessions (snd (pipe_query J sw q)) = sessions sw"
  "vnets (snd (pipe_query J sw q)) = vnets sw" "events (snd (pipe_query J sw q)) = events sw"
  by (simp_all add: pipe_query_def split: option.splits)

lemma terminated_cmem [simp]: "terminated (cmem s)"
  by (simp add: cmem_def)

lemma update_node_status_ok:
  assumes "terminated st" "\<forall>p. ip = Some p \<longrightarrow> terminated p" "terminated u" "terminated n"
  shows "\<exists>q. update_node_status J sw st ip u n = Some (pipe_query J sw q)"
proof -
  obtain a where a: "cbytes_opt ip = Some a"
  proof (cases ip)
    case (Some p)
    then obtain b where "cbytes p = Some b" using assms(2) cbytes_terminated by blast
    with Some that show thesis by (simp add: cbytes_opt_def)
  qed (use that in \<open>simp add: cbytes_opt_def\<close>)
  obtain b c d where "cbytes st = Some b" "cbytes u = Some c" "cbytes n = Some d"
    using assms cbytes_terminated by metis
  with a show ?thesis by (auto simp: update_node_status_def)
qed

section \<open>Messages of the switch\<close>

lemma auth_response_ok: "\<exists>m. auth_response r = Some m"
  by (simp add: auth_response_def DNDSMessage_new_def DNDSMessage_set_channel_def DNDSMessage_set_pdu_def
      DNMessage_set_seqNumber_def DNMessage_set_ackNumber_def DNMessage_set_operation_def
      AuthResponse_set_result_def guard_defs union_defs dnm_zero_def)

definition auth_message :: "int \<Rightarrow> DNDSMessage" where
  "auth_message r = the (auth_response r)"

lemma netinfo_response_ok: "\<exists>m. netinfo_response = Some m"
  by (simp add: netinfo_response_def DNDSMessage_new_def DNDSMessage_set_channel_def DNDSMessage_set_pdu_def
      DNMessage_set_seqNumber_def DNMessage_set_ackNumber_def DNMessage_set_operation_def
      guard_defs union_defs dnm_zero_def)

section \<open>Node identities\<close>

lemma strncpy_chars_length: "strncpy_chars s n = Some cs \<Longrightarrow> length cs = n"
  by (induction s n arbitrary: cs rule: strncpy_chars.induct) (auto split: if_splits)

lemma strncpy_chars_total: "terminated s \<Longrightarrow> \<exists>cs. strncpy_chars s n = Some cs"
proof (induction s n rule: strncpy_chars.induct)
  case (3 c s n)
  then show ?case by (cases "c = 0") auto
qed simp_all

lemma strncpy_same:
  assumes "strncpy dst src n = Some d"
  shows "length d = length dst" "\<And>i. n \<le> i \<Longrightarrow> i < length dst \<Longrightarrow> d ! i = dst ! i"
proof -
  obtain cs where cs: "n \<le> length dst" "strncpy_chars src n = Some cs" "d = cs @ drop n dst"
    using assms by (auto simp: strncpy_def split: if_splits Option.bind_splits)
  then show "length d = length dst" using strncpy_chars_length by fastforce
  fix i assume "n \<le> i" "i < length dst"
  with cs strncpy_chars_length [OF cs(2)] show "d ! i = dst ! i" by (simp add: nth_append)
qed

lemma strncpy_total: "terminated src \<Longrightarrow> n \<le> length dst \<Longrightarrow> \<exists>d. strncpy dst src n = Some d"
  using strncpy_chars_total [of src n] by (auto simp: strncpy_def)

lemma terminated_at: "i < length s \<Longrightarrow> s ! i = 0 \<Longrightarrow> terminated s"
  by (metis nth_mem)

lemma terminated_store: "i < length s \<Longrightarrow> terminated (s[i := 0])"
  by (simp add: set_update_memI)

lemma terminated_zeros: "0 < n \<Longrightarrow> terminated (replicate n 0)"
  by simp

lemma strncpyD:
  "strncpy dst src n = Some d \<Longrightarrow>
   length d = length dst \<and> (\<forall>i. n \<le> i \<longrightarrow> i < length dst \<longrightarrow> d ! i = dst ! i)"
  using strncpy_same by blast

lemma node_info_zero_fields:
  "length (ni_uuid node_info_zero) = 37" "length (ni_network_uuid node_info_zero) = 37"
  "length (ni_network_id node_info_zero) = 6" "ni_network_uuid node_info_zero ! 36 = 0"
  "terminated (ni_uuid node_info_zero)" "terminated (ni_network_uuid node_info_zero)"
  "terminated (ni_network_id node_info_zero)"
  by (simp_all add: node_info_zero_def)

lemma cn2node_info_ok:
  assumes "cn2node_info cn = Some (Some ni)"
  shows "node_info_ok ni"
  using assms
  unfolding cn2node_info_def
  by (auto simp: node_info_ok_def store_Some_iff Let_def node_info_zero_fields terminated_store
      dest!: strncpyD intro: terminated_at [of 36] split: option.splits if_splits Option.bind_splits)

lemma altname2node_info_ok:
  assumes "altname2node_info altn = Some ni"
  shows "node_info_ok ni"
  using assms
  unfolding altname2node_info_def
  by (auto simp: node_info_ok_def store_Some_iff Let_def node_info_zero_fields terminated_store
      dest!: strncpyD intro: terminated_at [of 36] split: option.splits if_splits Option.bind_splits)

lemma network_uuid_ok:
  assumes "terminated (v_uuid vn)" "node_info_ok ni"
  shows "\<exists>ni'. fill_network_uuid vn ni = Some ni' \<and> node_info_ok ni' \<and> ni_uuid ni' = ni_uuid ni"
proof -
  have l: "length (ni_network_uuid ni) = 37" using assms(2) by (simp add: node_info_ok_def)
  obtain n where n: "strncpy (ni_network_uuid ni) (v_uuid vn) 36 = Some n"
    using strncpy_total [OF assms(1), of 36 "ni_network_uuid ni"] l by auto
  then have "length n = 37" using strncpyD l by fastforce
  with n assms(2) show ?thesis by (auto simp: fill_network_uuid_def node_info_ok_def terminated_store)
qed

section \<open>Requests\<close>

lemma provRequest_ok:
  assumes inv: "switch_ok sw" and m: "pdu_choice msg = Dnm d" "dnop_present d = dnop_PR_provRequest" "request_ok d"
  shows "\<exists>sw'. provRequest J sw (Some s) msg = Some sw' \<and> switch_ok sw' \<and> netcs sw' = netcs sw"
proof -
  obtain r where r: "dnop_choice d = ProvRequest r"
    and t: "\<forall>oct b. provRequest_provCode r = Some oct \<longrightarrow> obuf oct = Some b \<longrightarrow> terminated b"
    using m by (auto simp: request_ok_def)
  obtain rc p where g: "ProvRequest_get_provCode (Some msg) True True = Some (rc, p)"
    "p = map_option (\<lambda>oct. (obuf oct, size_of_int (osize oct))) (provRequest_provCode r)"
    using m r by (cases "provRequest_provCode r")
      (auto simp: ProvRequest_get_provCode_def guard_defs union_defs optional_get_string_def)
  define code where "code = Option.bind p fst"
  have "\<forall>b. code = Some b \<longrightarrow> terminated b"
    using g(2) t by (auto simp: code_def split: Option.bind_splits)
  then obtain a where a: "cbytes_opt code = Some a"
  proof (cases code)
    case (Some b)
    then obtain c where "cbytes b = Some c" using \<open>\<forall>b. code = Some b \<longrightarrow> terminated b\<close> cbytes_terminated by blast
    with Some that show thesis by (simp add: cbytes_opt_def)
  qed (use that in \<open>simp add: cbytes_opt_def\<close>)
  have tr: "length (tracking_table sw) = 4096" "tracking_id sw = 0" using inv by (simp_all add: switch_ok_def)
  have "switch_ok (sw\<lparr>tracking_table := (tracking_table sw)[0 := Some s]\<rparr>)"
    using inv by (simp add: switch_ok_def heap_ok_def trees_ok_def)
  moreover have "dec_nat 0 = ''0''" by (simp add: dec_nat.simps digit_chars)
  ultimately show ?thesis
    using g(1) a tr
    by (simp add: provRequest_def query_provisioning_def int_text_def code_def Let_def case_prod_beta)
qed

lemma certname_cases:
  assumes "certname_ok p"
  obtains (bad) "cn2node_info p = Some None"
    | (good) s ni where "p = Some s" "terminated s" "cn2node_info p = Some (Some ni)" "node_info_ok ni"
proof (cases "cn2node_info p")
  case (Some q)
  then show thesis
  proof (cases q)
    case None
    with Some bad show thesis by simp
  next
    case (Some ni)
    with \<open>cn2node_info p = Some q\<close> have c: "cn2node_info p = Some (Some ni)" by simp
    then obtain s where "p = Some s" by (cases p) (auto simp: cn2node_info_def)
    with c assms good cn2node_info_ok show thesis by (auto simp: certname_ok_def)
  qed
qed (use assms in \<open>simp add: certname_ok_def\<close>)

lemma lookup_ok:
  assumes "switch_ok sw" "terminated u"
  shows "\<exists>q. vnetwork_lookup sw u = Some q \<and> (\<forall>v. q = Some v \<longrightarrow> vnets sw v \<noteq> None)"
    and "\<exists>q. vnetwork_lookup_id sw u = Some q \<and> (\<forall>v. q = Some v \<longrightarrow> vnets sw v \<noteq> None)"
proof -
  obtain k where k: "cbytes u = Some k" using cbytes_terminated [OF assms(2)] by blast
  have t: "trees_ok sw" using assms(1) by (simp add: switch_ok_def)
  show "\<exists>q. vnetwork_lookup sw u = Some q \<and> (\<forall>v. q = Some v \<longrightarrow> vnets sw v \<noteq> None)"
    using k t by (fastforce simp: vnetwork_lookup_def trees_ok_def)
  show "\<exists>q. vnetwork_lookup_id sw u = Some q \<and> (\<forall>v. q = Some v \<longrightarrow> vnets sw v \<noteq> None)"
    using k t by (fastforce simp: vnetwork_lookup_id_def trees_ok_def)
qed

text \<open>The network an authentication request resolves to, and the node info with its UUID.\<close>

lemma resolve_ok:
  assumes inv: "switch_ok sw" and ni: "node_info_ok ni"
  shows "\<exists>vnet ni'. resolve_network sw ni = Some (vnet, ni') \<and> node_info_ok ni'
    \<and> (\<forall>v. vnet = Some v \<longrightarrow> vnets sw v \<noteq> None)"
proof (cases "ni_v ni = 1")
  case True
  obtain q where q: "vnetwork_lookup_id sw (ni_network_id ni) = Some q" "\<forall>v. q = Some v \<longrightarrow> vnets sw v \<noteq> None"
    using lookup_ok(2) [OF inv, of "ni_network_id ni"] ni by (auto simp: node_info_ok_def)
  show ?thesis
  proof (cases q)
    case None
    with True q ni show ?thesis by (simp add: resolve_network_def)
  next
    case (Some v)
    with q obtain vn where vn: "vnets sw v = Some vn" by auto
    have "terminated (v_uuid vn)" using vnet_okD [OF inv vn] by (simp add: vnet_ok_def)
    from network_uuid_ok [OF this ni] True q Some vn show ?thesis by (auto simp: resolve_network_def)
  qed
next
  case False
  obtain q where "vnetwork_lookup sw (ni_network_uuid ni) = Some q" "\<forall>v. q = Some v \<longrightarrow> vnets sw v \<noteq> None"
    using lookup_ok(1) [OF inv, of "ni_network_uuid ni"] ni by (auto simp: node_info_ok_def)
  with False ni show ?thesis by (simp add: resolve_network_def)
qed

lemma resolve_sessions [simp]: "resolve_network (sw\<lparr>sessions := S\<rparr>) ni = resolve_network sw ni"
  by (simp add: resolve_network_def vnetwork_lookup_def vnetwork_lookup_id_def cong: option.case_cong)

text \<open>A request that names a node of a network the switch knows: the node is entered in the table of
  connections unless its session is there, and the agent is asked to secure its connection.\<close>

lemma authRequest_run:
  assumes inv: "switch_ok sw" and s: "sessions sw s = Some x" "s_netc x = Some n" "s_state x = SESSION_STATE_NOT_AUTHED"
    and g: "AuthRequest_get_certName (Some msg) True True = Some (rc, Some (Some cn, len))"
    and ni: "terminated cn" "cn2node_info (Some cn) = Some (Some ni)" "resolve_network sw ni = Some (Some v, ni')" "node_info_ok ni'"
    and vn: "vnets sw v = Some vn"
  shows "\<exists>sw' cert ct. authRequest J sw (Some s) msg = Some (0, sw') \<and> switch_ok sw' \<and> netcs sw' = netcs sw
    \<and> sessions sw' = (sessions sw)(s \<mapsto> x\<lparr>s_node_info := Own ni', s_vnetwork := Some v, s_cert_name := cert, s_state := SESSION_STATE_WAIT_STEPUP\<rparr>)
    \<and> vnets sw' = (vnets sw)(v \<mapsto> vn\<lparr>v_ctable := ct\<rparr>)
    \<and> events sw' = events sw @ [Send n (auth_message DNDSResult_secureStepUp), AddPassport n (v_passport vn), StepUp n]"
proof -
  have xok: "session_ok (netcs sw) (vnets sw) s x" using session_okD [OF inv s(1)] .
  have x0: "s_vnetwork x = None" "s_next x = None" "s_prev x = None" "s_id x = 0" "s_mac_list x = []"
    using xok s(3) by (simp_all add: session_ok_def)
  obtain c where c: "netcs sw n = Some c" using session_netc [OF inv s(1,2)] by blast
  have lvl: "n_security_level c \<noteq> NET_UNSECURE" using netc_okD [OF inv c] by (simp add: netc_ok_def)
  obtain ms where ms: "auth_response DNDSResult_secureStepUp = Some ms" "auth_message DNDSResult_secureStepUp = ms"
    using auth_response_ok by (fastforce simp: auth_message_def)
  have vok: "vnet_ok (sessions sw) v vn" by (rule vnet_okD [OF inv vn])
  obtain ct where ct: "v_ctable vn = Some ct" "ct.invar ct" using vok by (auto simp: vnet_ok_def ctable_ok_def)
  have u: "37 \<le> length (ni_uuid ni')" using ni(4) by (simp add: node_info_ok_def)
  have find: "ctable_find (Some ct) (ni_uuid ni') = Some (ct.absm ct (uuid_value (ni_uuid ni')))"
    using ct.hfind_ok [OF ct(2) u] by (simp add: ctable_find_def)
  obtain k ct' where ins: "ctable_insert (Some ct) (ni_uuid ni') (Some s) = Some (k, Some ct')" "ct.invar ct'"
    "ct.absm ct' = (if ct.absm ct (uuid_value (ni_uuid ni')) = None
       then (ct.absm ct)(uuid_value (ni_uuid ni') \<mapsto> s) else ct.absm ct)"
    using ct.hinsert_ok [OF ct(2) u, of s] ct(2)
    by (cases "ct.absm ct (uuid_value (ni_uuid ni'))") (auto simp: ctable_insert_def)
  obtain cert where cert: "strdup True cn = Some cert"
    using ni(1) strlen_Some_iff [of cn] by (auto simp: strdup_def)
  define x2 where "x2 = x\<lparr>s_node_info := Own ni', s_vnetwork := Some v, s_cert_name := cert,
      s_state := SESSION_STATE_WAIT_STEPUP\<rparr>"
  define sw2 where "sw2 = sw\<lparr>sessions := (sessions sw)(s \<mapsto> x2)\<rparr>"
  define vn2 where "vn2 = vn\<lparr>v_ctable := Some ct'\<rparr>"
  define sw3 where "sw3 = sw2\<lparr>vnets := (vnets sw2)(v \<mapsto> vn2)\<rparr>"
  have ok2: "switch_ok sw2"
    unfolding sw2_def
    by (rule session_join_ok [OF inv s(1) x0(1)])
      (use x0 xok s ni(4) vn in \<open>simp_all add: x2_def sess_le_def session_ok_def\<close>)
  have "ctable_ok (sessions sw2) v vn2"
    unfolding ctable_ok_def
  proof (intro exI [of _ ct'] conjI allI impI)
    fix w t assume e: "ct.absm ct' w = Some t"
    show "\<exists>y nj. sessions sw2 t = Some y \<and> s_vnetwork y = Some v \<and> s_node_info y = Own nj \<and> uuid_value (ni_uuid nj) = w"
    proof (cases "ct.absm ct w")
      case None
      with e ins(3) have "t = s" "w = uuid_value (ni_uuid ni')" by (auto split: if_splits)
      then show ?thesis by (simp add: sw2_def x2_def)
    next
      case (Some t')
      with e ins(3) have "ct.absm ct w = Some t" by (auto split: if_splits)
      moreover have "vnet_ok (sessions sw2) v vn" using vnet_okD [OF ok2, of v vn] vn by (simp add: sw2_def)
      ultimately show ?thesis using ct(1) unfolding vnet_ok_def ctable_ok_def by (metis option.inject)
    qed
  qed (use ins vn2_def in simp_all)
  then have "vnet_ok (sessions sw2) v vn2"
    using vnet_okD [OF ok2, of v vn] vn by (simp add: sw2_def vnet_ok_def vn2_def ftable_ok_def)
  then have ok3: "switch_ok sw3"
    unfolding sw3_def using vnet_update_ok [OF ok2, of v vn vn2] vn by (simp add: sw2_def vn2_def)
  have "authRequest J sw (Some s) msg = Some (0, sw3\<lparr>events := events sw @ [Send n ms, AddPassport n (v_passport vn), StepUp n]\<rparr>)"
    using ms ni c s vn ct(1) find ins(1) cert lvl g
    by (simp add: authRequest_def) (simp add: sw3_def sw2_def x2_def vn2_def)
  with ok3 ms(2) show ?thesis
    by (intro exI [of _ "sw3\<lparr>events := events sw @ [Send n ms, AddPassport n (v_passport vn), StepUp n]\<rparr>"]
        exI [of _ cert] exI [of _ "Some ct'"]) (simp add: sw3_def sw2_def x2_def vn2_def)
qed

lemma authRequest_ok:
  assumes inv: "switch_ok sw" and s: "sessions sw s = Some x" "s_netc x = Some n"
    and m: "pdu_present msg = pdu_PR_dnm" "pdu_choice msg = Dnm d" "dnop_present d = dnop_PR_authRequest" "request_ok d"
  shows "\<exists>r sw'. authRequest J sw (Some s) msg = Some (r, sw') \<and> switch_ok sw' \<and> netcs sw' = netcs sw"
proof (cases "s_state x = SESSION_STATE_NOT_AUTHED")
  case False
  with s inv show ?thesis by (simp add: authRequest_def)
next
  case st: True
  obtain r where r: "dnop_choice d = AuthRequest r" "certname_ok (obuf (authRequest_certName r))"
    using m by (auto simp: request_ok_def)
  define p where "p = obuf (authRequest_certName r)"
  obtain rc len where g: "AuthRequest_get_certName (Some msg) True True = Some (rc, Some (p, len))"
    using m r by (auto simp: AuthRequest_get_certName_def guard_defs union_defs p_def)
  have xok: "session_ok (netcs sw) (vnets sw) s x" using session_okD [OF inv s(1)] .
  have x0: "s_vnetwork x = None" "s_next x = None" "s_prev x = None" "s_id x = 0" "s_mac_list x = []"
    using xok st by (simp_all add: session_ok_def)
  obtain c where c: "netcs sw n = Some c" using session_netc [OF inv s] by blast
  note run = authRequest_def s st g
  from r(2) [folded p_def] show ?thesis
  proof (cases rule: certname_cases)
    case bad
    have "switch_ok (sw\<lparr>sessions := (sessions sw)(s \<mapsto> x\<lparr>s_node_info := Null\<rparr>)\<rparr>)"
      by (rule session_update_ok [OF inv s(1)]) (use x0 st xok in \<open>simp_all add: sess_le_def session_ok_def\<close>)
    with bad show ?thesis by (simp add: run)
  next
    case (good cn ni)
    from resolve_ok [OF inv good(4)] obtain vnet ni' where res:
      "resolve_network sw ni = Some (vnet, ni')" "node_info_ok ni'" "\<forall>v. vnet = Some v \<longrightarrow> vnets sw v \<noteq> None" by blast
    obtain mr where mr: "auth_response DNDSResult_noRight = Some mr" using auth_response_ok by blast
    show ?thesis
    proof (cases vnet)
      case None
      have "switch_ok (sw\<lparr>sessions := (sessions sw)(s \<mapsto> x\<lparr>s_node_info := Own ni', s_vnetwork := None\<rparr>)\<rparr>)"
        by (rule session_update_ok [OF inv s(1)]) (use x0 st xok in \<open>simp_all add: sess_le_def session_ok_def\<close>)
      with None good(1,3) res mr c s show ?thesis by (simp add: run)
    next
      case (Some v)
      then obtain vn where vn: "vnets sw v = Some vn" using res(3) by auto
      from authRequest_run [OF inv s st g [unfolded good(1)] good(2) good(3) [unfolded good(1)] res(1) [unfolded Some] res(2) vn, of J]
      show ?thesis by blast
    qed
  qed
qed

lemma netinfo_request_run:
  assumes inv: "switch_ok sw" and s: "sessions sw s = Some x" "s_netc x = Some n"
    and m: "pdu_present msg = pdu_PR_dnm" "pdu_choice msg = Dnm d" "dnop_present d = dnop_PR_netinfoRequest" "request_ok d"
  shows "\<exists>sw' loc mac. handle_netinfo_request sw (Some s) msg = Some sw' \<and> switch_ok sw' \<and> netcs sw' = netcs sw
    \<and> sessions sw' = (sessions sw)(s \<mapsto> x\<lparr>s_ip_local := loc, s_tun_mac_addr := mac\<rparr>) \<and> vnets sw' = vnets sw
    \<and> events sw' = events sw @ [Send n (the netinfo_response)]"
proof -
  obtain r ip mac where r: "dnop_choice d = NetinfoRequest r" "obuf (netinfoRequest_ipLocal r) = Some ip"
    "4 \<le> length ip" "obuf (netinfoRequest_macAddr r) = Some mac" "6 \<le> length mac"
    using m by (auto simp: request_ok_def)
  obtain b0 b1 b2 b3 rest where ip: "ip = b0 # b1 # b2 # b3 # rest"
    using r(3) by (auto simp: numeral_eq_Suc Suc_le_length_iff)
  obtain rc t where g: "NetinfoRequest_get_ipLocal (Some msg) True = Some (rc, t)"
    "\<forall>u. t = Some u \<longrightarrow> length u < 16"
    using m r ip by (cases "length (dotted b0 b1 b2 b3) < 16")
      (auto simp: NetinfoRequest_get_ipLocal_def guard_defs union_defs octets_get_inet_def inet_ntop_def Let_def)
  obtain rc' where h: "NetinfoRequest_get_macAddr (Some msg) True = Some (rc', Some (take 6 mac))"
    using m r by (auto simp: NetinfoRequest_get_macAddr_def guard_defs union_defs memcpy_def)
  have xok: "session_ok (netcs sw) (vnets sw) s x" using session_okD [OF inv s(1)] .
  define loc where "loc = (case t of None \<Rightarrow> s_ip_local x | Some u \<Rightarrow> write_text (s_ip_local x) u)"
  have l: "length loc = 16" "terminated loc"
    using xok g(2) by (auto simp: loc_def session_ok_def write_text_def cmem_def split: option.splits)
  define x1 where "x1 = x\<lparr>s_ip_local := loc, s_tun_mac_addr := take 6 mac\<rparr>"
  define sw1 where "sw1 = sw\<lparr>sessions := (sessions sw)(s \<mapsto> x1)\<rparr>"
  have ok1: "switch_ok sw1"
    unfolding sw1_def
    by (rule session_update_ok [OF inv s(1)]) (use xok l r(5) in \<open>simp_all add: x1_def sess_le_def session_ok_def\<close>)
  obtain c where c: "netcs sw n = Some c" "n_ext_ptr c = Some s" using session_netc [OF inv s] by blast
  obtain mm where mm: "netinfo_response = Some mm" using netinfo_response_ok by blast
  have "\<exists>sw'. handle_netinfo_request sw (Some s) msg = Some sw' \<and> same_heap sw1 sw' \<and> events sw' = events sw @ [Send n (the netinfo_response)]"
    using g(1) h c s
    by (simp add: mm Let_def handle_netinfo_request_def transmit_netinfo_response_def same_heap_def sw1_def x1_def loc_def)
  then obtain sw' where sw': "handle_netinfo_request sw (Some s) msg = Some sw'" "same_heap sw1 sw'"
    "events sw' = events sw @ [Send n (the netinfo_response)]" by blast
  then have "switch_ok sw'" "netcs sw' = netcs sw" "sessions sw' = (sessions sw)(s \<mapsto> x1)" "vnets sw' = vnets sw"
    using same_heap_ok [OF sw'(2) ok1] by (simp_all add: sw1_def same_heap_def)
  with sw' show ?thesis unfolding x1_def by blast
qed

lemma netinfo_request_ok:
  assumes "switch_ok sw" "sessions sw s = Some x" "s_netc x = Some n"
    and "pdu_present msg = pdu_PR_dnm" "pdu_choice msg = Dnm d" "dnop_present d = dnop_PR_netinfoRequest" "request_ok d"
  shows "\<exists>sw'. handle_netinfo_request sw (Some s) msg = Some sw' \<and> switch_ok sw' \<and> netcs sw' = netcs sw"
  using netinfo_request_run [OF assms] by blast

section \<open>Secured connections\<close>

lemma cert_node_ok: "cert_node altname cn = Some (Some ni) \<Longrightarrow> node_info_ok ni"
  using cn2node_info_ok altname2node_info_ok
  by (auto simp: cert_node_def split: if_splits Option.bind_splits)

text \<open>What the switch relies on when a handshake ends: the certificate names a node, the one that
  was announced, and the network has a node identifier left.\<close>

definition secure_ok :: "switch \<Rightarrow> addr \<Rightarrow> u8 list option \<Rightarrow> u8 list option \<Rightarrow> bool" where
  "secure_ok sw n altname cn \<longleftrightarrow> (\<forall>c s x. netcs sw n = Some c \<longrightarrow> n_ext_ptr c = Some s \<longrightarrow>
     sessions sw s = Some x \<longrightarrow> s_state x = SESSION_STATE_WAIT_STEPUP \<longrightarrow>
     (altname \<noteq> None \<or> cn \<noteq> None)
     \<and> (\<exists>ni ni0. cert_node altname cn = Some (Some ni) \<and> s_node_info x = Own ni0
          \<and> uuid_value (ni_uuid ni) = uuid_value (ni_uuid ni0))
     \<and> (\<forall>v vn. s_vnetwork x = Some v \<longrightarrow> vnets sw v = Some vn \<longrightarrow> bits_set (v_bitpool vn) \<noteq> {..<1024}))"

lemma secure_okD:
  "secure_ok sw n altname cn \<Longrightarrow> netcs sw n = Some c \<Longrightarrow> n_ext_ptr c = Some s \<Longrightarrow> sessions sw s = Some x \<Longrightarrow>
   s_state x = SESSION_STATE_WAIT_STEPUP \<Longrightarrow>
   (altname \<noteq> None \<or> cn \<noteq> None)
     \<and> (\<exists>ni ni0. cert_node altname cn = Some (Some ni) \<and> s_node_info x = Own ni0
          \<and> uuid_value (ni_uuid ni) = uuid_value (ni_uuid ni0))
     \<and> (\<forall>v vn. s_vnetwork x = Some v \<longrightarrow> vnets sw v = Some vn \<longrightarrow> bits_set (v_bitpool vn) \<noteq> {..<1024})"
  unfolding secure_ok_def by blast

text \<open>The node is known to the network: its session is open now, under a new identifier, at the
  head of the list; or it is not, and only a message tells.\<close>

definition opened :: "switch \<Rightarrow> switch \<Rightarrow> addr \<Rightarrow> addr \<Rightarrow> vnetwork \<Rightarrow> bool" where
  "opened sw sw' s v vn \<longleftrightarrow> (\<exists>x' vn'. sessions sw' s = Some x' \<and> s_state x' = SESSION_STATE_AUTHED
     \<and> s_next x' = v_session_list vn \<and> s_prev x' = None \<and> vnets sw' v = Some vn' \<and> v_session_list vn' = Some s
     \<and> unat (s_id x' - 1) < 1024 \<and> unat (s_id x' - 1) \<notin> bits_set (v_bitpool vn)
     \<and> bits_set (v_bitpool vn') = insert (unat (s_id x' - 1)) (bits_set (v_bitpool vn)))"

lemma on_secure_run:
  assumes inv: "switch_ok sw" and c: "netcs sw n = Some c" and se: "secure_ok sw n altname cn"
    and s0: "n_ext_ptr c = Some s" "sessions sw s = Some x"
    and st: "s_state x = SESSION_STATE_WAIT_STEPUP" and v: "s_vnetwork x = Some v"
    and vn0: "vnets sw v = Some vn" and cert: "cert_node altname cn = Some (Some ni)"
  shows "\<exists>sw' at. on_secure J sw n altname cn = Some sw' \<and> switch_ok sw' \<and> netcs sw' = netcs sw
    \<and> v_atable vn = Some at
    \<and> (if ct.absm at (uuid_value (ni_uuid ni)) = None
       then sessions sw' s = Some (x\<lparr>s_node_info := Own ni\<rparr>) \<and> events sw' = events sw @ [Send n (auth_message DNDSResult_noRight)]
       else opened sw sw' s v vn \<and> events sw' = events sw @ [Send n (auth_message DNDSResult_success)])"
proof -
    have s: "n_ext_ptr c = Some s" "sessions sw s = Some x" "s_netc x = Some n"
      using netc_session [OF inv c] s0 by auto
    have xok: "session_ok (netcs sw) (vnets sw) s x" using session_okD [OF inv s(2)] .
    have vn: "vnets sw v = Some vn" "vnet_ok (sessions sw) v vn" using vn0 vnet_okD [OF inv vn0] by auto
    note D = secure_okD [OF se c s(1,2) st]
    obtain ni0 where ni: "cert_node altname cn = Some (Some ni)" "s_node_info x = Own ni0"
      "uuid_value (ni_uuid ni) = uuid_value (ni_uuid ni0)" "node_info_ok ni"
      using D cert cert_node_ok [OF cert] by auto
    have room: "bits_set (v_bitpool vn) \<noteq> {..<1024}" and some: "(altname = None \<and> cn = None) = False"
      using D v vn(1) by auto
    obtain at where at: "v_atable vn = Some at" "ct.invar at" using vn(2) by (auto simp: vnet_ok_def)
    have find: "ctable_find (Some at) (ni_uuid ni) = Some (ct.absm at (uuid_value (ni_uuid ni)))"
      using ct.hfind_ok [OF at(2), of "ni_uuid ni"] ni(4) by (simp add: ctable_find_def node_info_ok_def)
    note run = on_secure_def c s st ni(1,2) some v vn(1) at(1) find Let_def
    obtain mr where mr: "auth_response DNDSResult_noRight = Some mr" using auth_response_ok by blast
    obtain ms where ms: "auth_response DNDSResult_success = Some ms" using auth_response_ok by blast
    have msgs: "auth_message DNDSResult_noRight = mr" "auth_message DNDSResult_success = ms"
      using mr ms by (simp_all add: auth_message_def)
    show ?thesis
    proof (cases "ct.absm at (uuid_value (ni_uuid ni))")
      case None
      define sw1 where "sw1 = sw\<lparr>sessions := (sessions sw)(s \<mapsto> x\<lparr>s_node_info := Own ni\<rparr>)\<rparr>"
      have "switch_ok sw1"
        unfolding sw1_def
        by (rule session_update_ok [OF inv s(2)]) (use xok st ni in \<open>simp_all add: sess_le_def session_ok_def\<close>)
      moreover have "\<exists>sw'. on_secure J sw n altname cn = Some sw' \<and> same_heap sw1 sw'"
        using None mr c s by (auto simp: run same_heap_def sw1_def)
      moreover have "events sw' = events sw @ [Send n mr]" if "on_secure J sw n altname cn = Some sw'" for sw'
        using None mr c s that by (auto simp: run)
      ultimately show ?thesis using None at(1) msgs same_heap_ok by (fastforce simp: sw1_def same_heap_def)
    next
      case (Some acc)
      have "terminated (v_uuid vn)" using vn(2) by (simp add: vnet_ok_def)
      from network_uuid_ok [OF this ni(4)] obtain ni' where ni': "fill_network_uuid vn ni = Some ni'"
        "node_info_ok ni'" "ni_uuid ni' = ni_uuid ni" by blast
      have pl: "length (v_bitpool vn) = 128" using vn(2) by (simp add: vnet_ok_def)
      obtain b pool where b: "bitpool_allocate_bit (v_bitpool vn) 1024 = Some (Inr (b, pool))" "b < 1024"
        "b \<notin> bits_set (v_bitpool vn)" "bits_set pool = insert b (bits_set (v_bitpool vn))" "length pool = 128"
        using pool_allocate [OF pl] room by blast
      define x1 where "x1 = x\<lparr>s_node_info := Own ni', s_state := SESSION_STATE_AUTHED\<rparr>"
      define x2 where "x2 = x1\<lparr>s_id := of_nat b + 1\<rparr>"
      have id0: "(of_nat b :: u32) + 1 \<noteq> 0"
      proof -
        have "unat (of_nat (Suc b) :: u32) = Suc b" using b(2) by (simp add: unat_of_nat del: of_nat_Suc)
        then show ?thesis by (metis add.commute nat.distinct(1) of_nat_Suc unat_0)
      qed
      have free: "s_next x = None" "s_prev x = None" "s_id x = 0" using xok st by (simp_all add: session_ok_def)
      define sw1 where "sw1 = sw\<lparr>sessions := link_in (sessions sw) (v_session_list vn) s x2,
        vnets := (vnets sw)(v \<mapsto> vn\<lparr>v_session_list := Some s, v_bitpool := pool,
                                   v_active_node := v_active_node vn + 1\<rparr>)\<rparr>"
      have ok1: "switch_ok sw1"
        unfolding sw1_def
        by (rule open_ok [OF inv s(2) v st vn(1) b(2-5)])
          (use xok free st ni ni' id0 v in \<open>simp_all add: x1_def x2_def sess_le_def session_ok_def\<close>)
      define swa where "swa = sw\<lparr>sessions := (sessions sw)(s \<mapsto> x1)\<rparr>"
      have hh: "\<forall>h. v_session_list vn = Some h \<longrightarrow> h \<noteq> s \<and> sessions swa h \<noteq> None"
        using head_facts [OF inv vn(1)] s(2) st by (fastforce simp: swa_def)
      have add: "vnetwork_add_session swa (Some v) (Some s) = Some sw1"
        using add_session_eq [of swa v vn s x1 "Inr (b, pool)"] hh vn(1) b(1)
        by (cases "v_session_list vn")
          (auto simp: swa_def sw1_def x2_def taken_id_def taken_pool_def link_in_def fun_upd_twist)
      have sa: "\<exists>q. update_node_status J sw1 (cmem ''1'') (s_ip x) (ni_uuid ni') (ni_network_uuid ni') = Some (pipe_query J sw1 q)"
        by (rule update_node_status_ok) (use xok ni'(2) in \<open>simp_all add: session_ok_def node_info_ok_def\<close>)
      have net: "netcs sw1 n = Some c" using c by (simp add: sw1_def)
      have nl: "s_next x2 = None" "s_prev x2 = None" using free by (simp_all add: x2_def x1_def)
      have idb: "unat ((of_nat b + 1 :: u32) - 1) = b" using b(2) by (simp add: unat_of_nat)
      have st2: "s_state x2 = SESSION_STATE_AUTHED" "s_id x2 = of_nat b + 1" by (simp_all add: x2_def x1_def)
      have at_s: "\<exists>x'. sessions sw1 s = Some x' \<and> s_state x' = SESSION_STATE_AUTHED \<and> s_id x' = of_nat b + 1
          \<and> s_next x' = v_session_list vn \<and> s_prev x' = None"
        using hh st2 nl by (auto simp: sw1_def link_in_def split: option.splits)
      have op: "opened sw sw' s v vn" if "same_heap sw1 sw'" for sw'
      proof -
        have "sessions sw' = sessions sw1" "vnets sw' = vnets sw1" using that by (simp_all add: same_heap_def)
        with at_s b(2-5) idb show ?thesis unfolding opened_def by (auto simp: sw1_def)
      qed
      have "\<exists>sw'. on_secure J sw n altname cn = Some sw' \<and> same_heap sw1 sw' \<and> events sw' = events sw1 @ [Send n ms]"
        using Some ms ni'(1) add sa net s(3)
        by (auto simp: run x1_def swa_def same_heap_def pipe_query_def split: option.splits)
      then obtain sw' where sw': "on_secure J sw n altname cn = Some sw'" "same_heap sw1 sw'"
          "events sw' = events sw1 @ [Send n ms]" by blast
      have "netcs sw' = netcs sw" "events sw1 = events sw" using sw'(2) by (simp_all add: same_heap_def sw1_def)
      with sw' same_heap_ok [OF sw'(2) ok1] op [OF sw'(2)] Some at(1) msgs show ?thesis by auto
    qed
qed

lemma on_secure_ok:
  assumes inv: "switch_ok sw" and c: "netcs sw n = Some c" and se: "secure_ok sw n altname cn"
  shows "\<exists>sw'. on_secure J sw n altname cn = Some sw' \<and> switch_ok sw' \<and> netcs sw' = netcs sw"
proof -
  obtain s x where s: "n_ext_ptr c = Some s" "sessions sw s = Some x" "s_netc x = Some n"
    using netc_session [OF inv c] by blast
  show ?thesis
  proof (cases "s_state x = SESSION_STATE_WAIT_STEPUP")
    case False
    with c s inv show ?thesis by (simp add: on_secure_def)
  next
    case True
    obtain v where v: "s_vnetwork x = Some v" using session_okD [OF inv s(2)] True by (auto simp: session_ok_def)
    obtain vn where vn: "vnets sw v = Some vn" using session_vnet [OF inv s(2) v] by blast
    obtain ni where ni: "cert_node altname cn = Some (Some ni)" using secure_okD [OF se c s(1,2) True] by blast
    from on_secure_run [OF inv c se s(1,2) True v vn ni, of J] show ?thesis by blast
  qed
qed

section \<open>Closed connections\<close>

lemma erase_macs_ok:
  "ft.invar t \<Longrightarrow> \<forall>m \<in> set ms. length m = 6 \<Longrightarrow>
   \<exists>t'. erase_macs t ms = Some t' \<and> ft.invar t' \<and> ft.absm t' = ft.absm t |` (- set ms)"
proof (induction ms arbitrary: t)
  case Nil
  then show ?case by simp
next
  case (Cons m ms)
  then have m: "6 \<le> length m" "mac_value m = m" by (simp_all add: mac_value_6)
  obtain r g t1 where t1: "ftable_erase t m = Some (r, g, t1)" "ft.invar t1" "ft.absm t1 = (ft.absm t)(m := None)"
  proof (cases "ft.absm t m")
    case None
    then have "ftable_erase t m = Some (0, [], t)" "(ft.absm t)(m := None) = ft.absm t"
      using ft.herase_ok [OF Cons.prems(1) m(1)] m(2) by (auto simp: ftable_erase_def fun_upd_idem)
    with that Cons.prems(1) show thesis by simp
  next
    case (Some s)
    then show thesis
      using ft.herase_ok [OF Cons.prems(1) m(1)] m(2) that by (auto simp: ftable_erase_def)
  qed
  from Cons.IH [OF t1(2)] Cons.prems(2) obtain t' where
    "erase_macs t1 ms = Some t'" "ft.invar t'" "ft.absm t' = ft.absm t1 |` (- set ms)" by auto
  with t1 show ?case by (auto simp: restrict_map_def fun_eq_iff)
qed

lemma disjoin_some:
  assumes "linkst_wf l"
  shows "\<exists>r l'. linkst_disjoin (Some l) i = Some (r, Some l') \<and> linkst_wf l' \<and> upper_limit l' = upper_limit l
    \<and> Linkst.links l' = {(a, b) \<in> Linkst.links l. a \<noteq> i \<and> b \<noteq> i}"
  using ls.disjoin_law [OF assms, of i] by (auto simp: ls_disjoin_def split: Option.bind_splits)

lemma ctable_erase_ok:
  assumes "ct.invar t" "37 \<le> length u"
  shows "\<exists>r g t'. ctable_erase (Some t) u = Some (r, g, Some t') \<and> ct.invar t'
    \<and> ct.absm t' = (ct.absm t)(uuid_value u := None)"
proof (cases "ct.absm t (uuid_value u)")
  case None
  then have "(ct.absm t)(uuid_value u := None) = ct.absm t" by (simp add: fun_upd_idem)
  with None assms ct.herase_ok [OF assms] show ?thesis by (auto simp: ctable_erase_def)
next
  case (Some s)
  with ct.herase_ok [OF assms] show ?thesis by (auto simp: ctable_erase_def)
qed

lemma session_neighbours:
  assumes inv: "switch_ok sw" and s: "sessions sw s = Some x" "s_vnetwork x = Some v"
  shows "\<forall>p. s_prev x = Some p \<longrightarrow> p \<noteq> s \<and> sessions sw p \<noteq> None"
    and "\<forall>n. s_next x = Some n \<longrightarrow> n \<noteq> s \<and> sessions sw n \<noteq> None"
proof -
  obtain r where r: "links_ok (sessions sw) r" using inv by (auto simp: switch_ok_def)
  have ls: "lview (sessions sw) s = Some (Some v, s_next x, s_prev x)" using s by (simp add: lview_def)
  show "\<forall>p. s_prev x = Some p \<longrightarrow> p \<noteq> s \<and> sessions sw p \<noteq> None"
    using links_okD(2) [OF r ls] by (fastforce simp: lview_def)
  show "\<forall>n. s_next x = Some n \<longrightarrow> n \<noteq> s \<and> sessions sw n \<noteq> None"
    using links_okD(1) [OF r ls] by (fastforce simp: lview_def)
qed

text \<open>What a network keeps of a session that leaves it.\<close>

definition left_network :: "session \<Rightarrow> vnetwork \<Rightarrow> vnetwork \<Rightarrow> bool" where
  "left_network x vn vn' \<longleftrightarrow>
     v_session_list vn' = (if s_prev x = None then s_next x else v_session_list vn)
     \<and> v_active_node vn' = v_active_node vn - 1
     \<and> bits_set (v_bitpool vn') = bits_set (v_bitpool vn) - {unat (s_id x - 1)}
     \<and> (\<exists>l l'. v_linkst vn = Some l \<and> v_linkst vn' = Some l' \<and>
          Linkst.links l' = {(a, b) \<in> Linkst.links l. a \<noteq> s_id x \<and> b \<noteq> s_id x})
     \<and> (\<exists>ct ct' ni. v_ctable vn = Some ct \<and> v_ctable vn' = Some ct' \<and> s_node_info x = Own ni
          \<and> ct.absm ct' = (ct.absm ct)(uuid_value (ni_uuid ni) := None))"

lemma disconnect_run:
  assumes inv: "switch_ok sw" and c: "netcs sw n = Some c" and s0: "n_ext_ptr c = Some s" "sessions sw s = Some x"
  shows "\<exists>sw'. net_disconnect J sw (Some n) = Some sw' \<and> switch_ok sw' \<and> netcs sw' = (netcs sw)(n := None)
    \<and> sessions sw' s = None \<and> events sw' = events sw @ [Disconnect n] \<and> tracking_table sw' = tracking_table sw \<and> vnetworks sw' = vnetworks sw
    \<and> (\<forall>v. s_vnetwork x = Some v \<longrightarrow> (\<exists>vn vn'. vnets sw v = Some vn \<and> vnets sw' v = Some vn' \<and> left_network x vn vn'))
    \<and> (\<forall>w. s_vnetwork x \<noteq> Some w \<longrightarrow> vnets sw' w = vnets sw w)
    \<and> (\<forall>t. t \<noteq> s \<longrightarrow> map_option (\<lambda>y. (s_state y, s_netc y, s_vnetwork y)) (sessions sw' t)
          = map_option (\<lambda>y. (s_state y, s_netc y, s_vnetwork y)) (sessions sw t))"
proof -
  have s: "n_ext_ptr c = Some s" "sessions sw s = Some x" "s_netc x = Some n"
    using netc_session [OF inv c] s0 by auto
  have xok: "session_ok (netcs sw) (vnets sw) s x" using session_okD [OF inv s(2)] .
  note run = net_disconnect_def on_disconnect_def c s(1,2) Let_def
  show ?thesis
  proof (cases "s_vnetwork x")
    case None
    define sw1 where "sw1 = sw\<lparr>sessions := (sessions sw)(s := None), netcs := (netcs sw)(n := None)\<rparr>"
    have ok1: "switch_ok sw1" unfolding sw1_def using drop_ok [OF inv s(2) None s(3)] .
    have "\<exists>sw'. net_disconnect J sw (Some n) = Some sw' \<and> same_heap sw1 sw' \<and> events sw' = events sw @ [Disconnect n]"
    proof (cases "s_state x = SESSION_STATE_NOT_AUTHED")
      case True
      then show ?thesis using xok by (simp add: run session_ok_def same_heap_def sw1_def)
    next
      case False
      then obtain ni where ni: "s_node_info x = Own ni" "node_info_ok ni" using xok by (auto simp: session_ok_def)
      have "\<exists>q. update_node_status J sw (cmem ''0'') (s_ip x) (ni_uuid ni) (ni_network_uuid ni) = Some (pipe_query J sw q)"
        by (rule update_node_status_ok) (use xok ni(2) in \<open>simp_all add: session_ok_def node_info_ok_def\<close>)
      with False None ni(1) s show ?thesis
        by (auto simp: run same_heap_def sw1_def pipe_query_def split: option.splits)
    qed
    then obtain sw' where sw': "net_disconnect J sw (Some n) = Some sw'" "same_heap sw1 sw'"
      "events sw' = events sw @ [Disconnect n]" by blast
    with same_heap_ok [OF sw'(2) ok1] None show ?thesis by (auto simp: sw1_def same_heap_def)
  next
    case v: (Some v)
    obtain vn where vn: "vnets sw v = Some vn" "vnet_ok (sessions sw) v vn" using session_vnet [OF inv s(2) v] by blast
    have st: "s_state x \<noteq> SESSION_STATE_NOT_AUTHED" using xok v by (auto simp: session_ok_def)
    then obtain ni where ni: "s_node_info x = Own ni" "node_info_ok ni" using xok by (auto simp: session_ok_def)
    obtain l ft ct where t: "v_linkst vn = Some l" "linkst_wf l" "upper_limit l = 1024"
      "v_ftable vn = Some ft" "ft.invar ft" "v_ctable vn = Some ct" "ct.invar ct" "length (v_bitpool vn) = 128"
      using vn(2) by (auto simp: vnet_ok_def ftable_ok_def ctable_ok_def)
    obtain rl l' where l': "linkst_disjoin (Some l) (s_id x) = Some (rl, Some l')" "linkst_wf l'" "upper_limit l' = 1024"
      "Linkst.links l' = {(a, b) \<in> Linkst.links l. a \<noteq> s_id x \<and> b \<noteq> s_id x}"
      using disjoin_some [OF t(2)] t(3) by metis
    obtain ft' where ft': "erase_macs ft (s_mac_list x) = Some ft'" "ft.invar ft'"
      "ft.absm ft' = ft.absm ft |` (- set (s_mac_list x))"
      using erase_macs_ok [OF t(5), of "s_mac_list x"] xok by (auto simp: session_ok_def)
    obtain rc gc ct' where ct': "ctable_erase (Some ct) (ni_uuid ni) = Some (rc, gc, Some ct')" "ct.invar ct'"
      "ct.absm ct' = (ct.absm ct)(uuid_value (ni_uuid ni) := None)"
      using ctable_erase_ok [OF t(7), of "ni_uuid ni"] ni(2) by (auto simp: node_info_ok_def)
    obtain rp pool where pool: "bitpool_release_bit (v_bitpool vn) 1024 (unat (s_id x - 1)) = Some (rp, pool)"
      "length pool = 128" "bits_set pool = bits_set (v_bitpool vn) - {unat (s_id x - 1)}"
      using pool_release [OF t(8), of "unat (s_id x - 1)"] by blast
    define vn1 where "vn1 = vn\<lparr>v_linkst := Some l', v_ftable := Some ft', v_ctable := Some ct'\<rparr>"
    define x1 where "x1 = x\<lparr>s_mac_list := []\<rparr>"
    define swa where "swa = sw\<lparr>vnets := (vnets sw)(v \<mapsto> vn1), sessions := (sessions sw)(s \<mapsto> x1)\<rparr>"
    define vn2 where "vn2 = vn1\<lparr>v_session_list := if s_prev x = None then s_next x else v_session_list vn,
        v_bitpool := pool, v_active_node := v_active_node vn - 1\<rparr>"
    define swb where "swb = swa\<lparr>sessions := sl.bypass (sessions swa) x1, vnets := (vnets swa)(v \<mapsto> vn2)\<rparr>"
    note nb = session_neighbours [OF inv s(2) v]
    have del: "vnetwork_del_session swa (Some v) (Some s) = Some swb"
      using del_session_eq [of swa v vn1 s x1 rp pool] nb pool(1)
      by (simp add: swa_def swb_def x1_def vn1_def vn2_def)
    have bp: "(sl.bypass (sessions swa) x1) s = Some x1"
      "(sl.bypass (sessions swa) x1)(s := None) = (sl.bypass (sessions sw) x)(s := None)"
      using nb by (cases "s_next x"; cases "s_prev x"; auto simp: sl.bypass_def swa_def x1_def fun_eq_iff)+
    define sw1 where "sw1 = sw\<lparr>sessions := (sl.bypass (sessions sw) x)(s := None), netcs := (netcs sw)(n := None),
      vnets := (vnets sw)(v \<mapsto> vn2)\<rparr>"
    have ok1: "switch_ok sw1"
      unfolding sw1_def
    proof (rule leave_ok [where ft = ft and ft' = ft' and ct = ct and ct' = ct' and l = l', OF inv s(2) v s(3) vn(1)])
      show "ft.absm ft' m \<noteq> Some s" for m
      proof
        assume e: "ft.absm ft' m = Some s"
        then have "ft.absm ft m = Some s" "m \<notin> set (s_mac_list x)"
          using ft'(3) by (auto simp: restrict_map_def split: if_splits)
        moreover have "ftable_ok (sessions sw) v vn" using vn(2) by (simp add: vnet_ok_def)
        ultimately show False using s(2) t(4) unfolding ftable_ok_def by fastforce
      qed
      show "ct.absm ct' u \<noteq> Some s" for u
      proof
        assume e: "ct.absm ct' u = Some s"
        then have "ct.absm ct u = Some s" "u \<noteq> uuid_value (ni_uuid ni)"
          using ct'(3) by (auto split: if_splits)
        moreover have "ctable_ok (sessions sw) v vn" using vn(2) by (simp add: vnet_ok_def)
        ultimately show False using s(2) t(6) ni(1) unfolding ctable_ok_def by fastforce
      qed
      show "ft.absm ft' \<subseteq>\<^sub>m ft.absm ft" by (simp add: ft'(3) map_le_def)
      show "ct.absm ct' \<subseteq>\<^sub>m ct.absm ct" by (simp add: ct'(3) map_le_def)
    qed (use t l' ft' ct' pool in \<open>simp_all add: vn2_def vn1_def\<close>)
    have "\<exists>q. update_node_status J swb (cmem ''0'') (s_ip x) (ni_uuid ni) (ni_network_uuid ni) = Some (pipe_query J swb q)"
      by (rule update_node_status_ok) (use xok ni(2) in \<open>simp_all add: session_ok_def node_info_ok_def\<close>)
    then obtain q where q: "update_node_status J swb (cmem ''0'') (s_ip x) (ni_uuid ni) (ni_network_uuid ni) = Some (pipe_query J swb q)"
      by blast
    have fb: "sessions swb s = Some x1" using bp by (simp add: swb_def)
    have fx: "s_node_info x1 = Own ni" "s_ip x1 = s_ip x" using ni by (simp_all add: x1_def)
    define sq where "sq = snd (pipe_query J swb q)"
    have sq: "sessions sq = sessions swb" "netcs sq = netcs sw" "vnets sq = vnets swb"
        "same_heap swb sq" "events sq = events sw"
      by (auto simp: sq_def pipe_query_def same_heap_def swb_def swa_def split: option.splits)
    have "net_disconnect J sw (Some n) =
        Some (sq\<lparr>sessions := (sessions sq)(s := None), netcs := (netcs sq)(n := None),
          events := events sq @ [Disconnect n]\<rparr>)"
      using st v vn(1) t(1,4,6) l'(1) ft'(1) ct'(1) ni(1) del q fb fx sq(1)
      by (simp add: run session_free_def case_prod_beta flip: vn1_def x1_def swa_def sq_def)
    moreover have "same_heap sw1 (sq\<lparr>sessions := (sessions sq)(s := None), netcs := (netcs sq)(n := None),
          events := events sq @ [Disconnect n]\<rparr>)"
      using bp sq by (simp add: same_heap_def sw1_def swb_def swa_def)
    ultimately obtain sw' where sw': "net_disconnect J sw (Some n) = Some sw'" "same_heap sw1 sw'"
      "events sw' = events sw @ [Disconnect n]" using sq(5) by fastforce
    have others: "map_option (\<lambda>y. (s_state y, s_netc y, s_vnetwork y)) (sl.bypass (sessions sw) x t)
        = map_option (\<lambda>y. (s_state y, s_netc y, s_vnetwork y)) (sessions sw t)" for t
      using nb by (cases "s_next x"; cases "s_prev x"; auto simp: sl.bypass_def)
    have "left_network x vn vn2"
      using t l' pool ni(1) ct' by (simp add: left_network_def vn2_def vn1_def)
    with sw' same_heap_ok [OF sw'(2) ok1] v vn(1) others show ?thesis by (auto simp: sw1_def same_heap_def)
  qed
qed

lemma disconnect_ok:
  assumes inv: "switch_ok sw" and c: "netcs sw n = Some c"
  shows "\<exists>sw'. net_disconnect J sw (Some n) = Some sw' \<and> switch_ok sw' \<and> netcs sw' = (netcs sw)(n := None)"
proof -
  obtain s x where "n_ext_ptr c = Some s" "sessions sw s = Some x" using netc_session [OF inv c] by blast
  from disconnect_run [OF inv c this, of J] show ?thesis by blast
qed

end
