(* ===== verification/Input.thy ===== *)
theory Input
  imports Handlers
begin

text \<open>
  What arrives on the network side: connections (\<open>net_on_connect\<close>), and the queue of messages
  \<open>on_input\<close> works through.  Every message of the right shape is handled without a fault, whatever
  the state of the session, and leaves the switch in order.
\<close>

section \<open>Connections\<close>

lemma strdup_terminated:
  assumes "terminated s"
  shows "\<exists>p. strdup True s = Some p \<and> (\<forall>q. p = Some q \<longrightarrow> terminated q)"
proof -
  obtain n where n: "strlen s = Some n" using assms strlen_Some_iff by blast
  then have "terminated (take (Suc n) s)" by (induction s arbitrary: n) (auto split: if_splits)
  with n show ?thesis by (simp add: strdup_def)
qed

lemma drop_netc_ok:
  assumes inv: "switch_ok sw"
  shows "switch_ok (sw\<lparr>netcs := (netcs sw)(brk sw := None), brk := Suc (brk sw)\<rparr>)"
proof -
  have fresh: "netcs sw (brk sw) = None"
    using inv by (auto simp: switch_ok_def heap_ok_def)
  then have "(netcs sw)(brk sw := None) = netcs sw" by auto
  with inv show ?thesis by (auto simp: switch_ok_def heap_ok_def trees_ok_def less_Suc_eq)
qed

lemma net_on_connect_ok:
  assumes inv: "switch_ok sw" and l: "level \<noteq> NET_UNSECURE" and h: "terminated host"
  shows "\<exists>sw'. net_on_connect J ok sw level host = Some sw' \<and> switch_ok sw'
    \<and> (ok \<longrightarrow> (\<exists>x. sessions sw' (Suc (brk sw)) = Some x \<and> s_state x = SESSION_STATE_NOT_AUTHED
                \<and> s_netc x = Some (brk sw)))"
proof (cases ok)
  case False
  have "net_on_connect J ok sw level host =
      Some (sw\<lparr>netcs := (netcs sw)(brk sw := None), brk := Suc (brk sw), events := events sw @ [Disconnect (brk sw)]\<rparr>)"
    using False l by (simp add: net_on_connect_def on_connect_def session_new_def net_disconnect_def on_disconnect_def Let_def)
  with drop_netc_ok [OF inv] False show ?thesis by simp
next
  case True
  obtain p where p: "strdup True host = Some p" "\<forall>q. p = Some q \<longrightarrow> terminated q"
    using strdup_terminated [OF h] by blast
  define n where "n = brk sw"
  define s where "s = Suc (brk sw)"
  define c where "c = \<lparr>n_host = host, n_security_level = level, n_ext_ptr = Some s, n_queue_msg = []\<rparr>"
  define x where "x = session_zero\<lparr>s_state := SESSION_STATE_NOT_AUTHED, s_ip := p, s_netc := Some n\<rparr>"
  have "net_on_connect J ok sw level host =
      Some (sw\<lparr>sessions := (sessions sw)(s \<mapsto> x), netcs := (netcs sw)(n \<mapsto> c), brk := Suc (Suc (brk sw))\<rparr>)"
    using True l p by (simp add: net_on_connect_def on_connect_def session_new_def Let_def n_def s_def c_def x_def)
  moreover have "switch_ok (sw\<lparr>sessions := (sessions sw)(s \<mapsto> x), netcs := (netcs sw)(n \<mapsto> c), brk := Suc (Suc (brk sw))\<rparr>)"
    by (rule connect_ok [OF inv n_def s_def p(2) _ _ _ x_def]) (use l h in \<open>simp_all add: c_def\<close>)
  ultimately show ?thesis by (simp add: s_def n_def x_def)
qed

section \<open>Messages\<close>

lemma handle_msg_ok:
  assumes inv: "switch_ok sw" and s: "sessions sw s = Some x" "s_netc x = Some n" and m: "msg_ok msg"
  shows "\<exists>sw'. handle_msg J sw (Some s) msg = Some sw' \<and> switch_ok sw' \<and> netcs sw' = netcs sw"
proof (cases "pdu_present msg")
  case pdu_PR_ethernet
  then obtain e fr where fr: "pdu_choice msg = Ethernet e" "obuf e = Some fr" "12 \<le> length fr"
    using m by (auto simp: msg_ok_def)
  have go: "handle_msg J sw (Some s) msg = forward_ethernet sw (Some s) msg"
    using pdu_PR_ethernet by (simp add: handle_msg_def DNDSMessage_get_pdu_def for_msg_def)
  show ?thesis
  proof (cases "s_state x = SESSION_STATE_AUTHED")
    case False
    then have "forward_ethernet sw (Some s) msg = Some sw" using s by (simp add: forward_ethernet_def)
    with go inv show ?thesis by simp
  next
    case True
    then obtain v vn where v: "s_vnetwork x = Some v" "vnets sw v = Some vn"
      using session_okD [OF inv s(1)] by (auto simp: session_ok_def)
    obtain xs where "open_sessions sw v xs" using open_sessions_exist [OF inv v(2)] by blast
    from forward_run [OF inv s(1) True v(1) fr this] go show ?thesis by (auto simp: same_nets_def)
  qed
next
  case pdu_PR_dnm
  then obtain d where d: "pdu_choice msg = Dnm d" "request_ok d" using m by (auto simp: msg_ok_def)
  have go: "handle_msg J sw (Some s) msg = dispatch_operation J sw (Some s) msg"
    using pdu_PR_dnm by (simp add: handle_msg_def DNDSMessage_get_pdu_def for_msg_def)
  have op: "DNMessage_get_operation (Some msg) = Some (DNDS_success, Some (dnop_present d))"
    using pdu_PR_dnm d(1) by (simp add: DNMessage_get_operation_def for_dnm_def for_msg_def dnm_of_def)
  consider (prov) "dnop_present d = dnop_PR_provRequest" | (auth) "dnop_present d = dnop_PR_authRequest"
    | (info) "dnop_present d = dnop_PR_netinfoRequest"
    using d(2) by (auto simp: request_ok_def split: dnop_PR.splits)
  then show ?thesis
  proof cases
    case prov
    with go op provRequest_ok [OF inv d(1) prov d(2)] show ?thesis by (simp add: dispatch_operation_def)
  next
    case auth
    obtain r sw' where "authRequest J sw (Some s) msg = Some (r, sw')" "switch_ok sw'" "netcs sw' = netcs sw"
      using authRequest_ok [OF inv s pdu_PR_dnm d(1) auth d(2)] by blast
    with go op auth show ?thesis by (simp add: dispatch_operation_def)
  next
    case info
    with go op netinfo_request_ok [OF inv s pdu_PR_dnm d(1) info d(2)] show ?thesis
      by (simp add: dispatch_operation_def)
  qed
qed (use inv in \<open>simp_all add: handle_msg_def DNDSMessage_get_pdu_def for_msg_def\<close>)

section \<open>The queue\<close>

lemma queue_ok:
  assumes inv: "switch_ok sw" and c: "netcs sw n = Some c"
  shows "switch_ok (sw\<lparr>netcs := (netcs sw)(n \<mapsto> c\<lparr>n_queue_msg := q\<rparr>)\<rparr>)"
proof -
  let ?N = "(netcs sw)(n \<mapsto> c\<lparr>n_queue_msg := q\<rparr>)"
  have "session_ok ?N (vnets sw) s x" if "session_ok (netcs sw) (vnets sw) s x" for s x
    using that c by (auto simp: session_ok_def)
  moreover have "netc_ok (sessions sw) n (c\<lparr>n_queue_msg := q\<rparr>)"
    using netc_okD [OF inv c] by (simp add: netc_ok_def)
  ultimately show ?thesis
    using inv c by (simp add: switch_ok_def heap_ok_def trees_ok_def dom_def)
qed

lemma input_loop_ok:
  assumes "switch_ok sw" "netcs sw n = Some c" "n_ext_ptr c = Some s" "n_queue_msg c = msgs" "\<forall>m \<in> set msgs. msg_ok m"
  shows "\<exists>sw'. input_loop J sw (Some s) n = Some sw' \<and> switch_ok sw'
    \<and> netcs sw' = (netcs sw)(n \<mapsto> c\<lparr>n_queue_msg := []\<rparr>)"
  using assms
proof (induction msgs arbitrary: sw c)
  case Nil
  then have "(netcs sw)(n \<mapsto> c\<lparr>n_queue_msg := []\<rparr>) = netcs sw" by (cases c) auto
  with Nil show ?case by (subst input_loop.simps) simp
next
  case (Cons m msgs)
  obtain x where x: "sessions sw s = Some x" "s_netc x = Some n"
    using netc_session [OF Cons.prems(1,2)] Cons.prems(3) by auto
  obtain sw1 where h: "handle_msg J sw (Some s) m = Some sw1" "switch_ok sw1" "netcs sw1 = netcs sw"
    using handle_msg_ok [OF Cons.prems(1) x, of m J] Cons.prems(5) by auto
  let ?c = "c\<lparr>n_queue_msg := msgs\<rparr>"
  define sw2 where "sw2 = sw1\<lparr>netcs := (netcs sw1)(n \<mapsto> ?c)\<rparr>"
  have "switch_ok sw2" unfolding sw2_def by (rule queue_ok) (use h Cons.prems in auto)
  then obtain sw' where sw': "input_loop J sw2 (Some s) n = Some sw'" "switch_ok sw'"
      "netcs sw' = (netcs sw2)(n \<mapsto> ?c\<lparr>n_queue_msg := []\<rparr>)"
    using Cons.IH [of sw2 ?c] Cons.prems by (auto simp: sw2_def simp del: fun_upd_apply fun_upd_upd
        intro: fun_upd_same)
  have go: "input_loop J sw (Some s) n = input_loop J sw2 (Some s) n"
    using h Cons.prems(2,4) by (subst input_loop.simps) (simp add: sw2_def)
  have "netcs sw' = (netcs sw)(n \<mapsto> c\<lparr>n_queue_msg := []\<rparr>)"
    using sw'(3) h(3) by (auto simp: sw2_def fun_eq_iff)
  with sw'(1,2) go show ?case by metis
qed

text \<open>A session marked for purging loses its connection at the next input; any other has its
  queue emptied.\<close>

lemma on_input_ok:
  assumes inv: "switch_ok sw" and c: "netcs sw n = Some c" and m: "\<forall>m \<in> set (n_queue_msg c). msg_ok m"
  shows "\<exists>sw'. on_input J sw n = Some sw' \<and> switch_ok sw'"
proof -
  obtain s x where s: "n_ext_ptr c = Some s" "sessions sw s = Some x" "s_netc x = Some n"
    using netc_session [OF inv c] by blast
  show ?thesis
  proof (cases "s_state x = SESSION_STATE_PURGE")
    case True
    with disconnect_ok [OF inv c] s c show ?thesis by (auto simp: on_input_def)
  next
    case False
    with input_loop_ok [OF inv c s(1) refl m] s c show ?thesis by (auto simp: on_input_def)
  qed
qed

end
