(* ===== verification/Control_Inv.thy ===== *)
theory Control_Inv
  imports Input
begin

text \<open>
  What arrives from the controller: nodes and networks that come and go, and the answers to
  provisioning requests.
\<close>

text \<open>The strings of the JSON library are terminated, as its documentation promises.\<close>

definition json_strings :: "'j jansson \<Rightarrow> bool" where
  "json_strings J \<longleftrightarrow> (\<forall>j k s. unpack_s J j k = Some s \<longrightarrow> terminated s)"

lemma json_stringsD: "json_strings J \<Longrightarrow> unpack_s J j k = Some s \<Longrightarrow> terminated s"
  by (simp add: json_strings_def)

text \<open>The UUIDs of a message have the 36 characters the tables read.\<close>

definition node_msg_ok :: "'j jansson \<Rightarrow> 'j \<Rightarrow> bool" where
  "node_msg_ok J node \<longleftrightarrow> (\<forall>u. unpack_s J node ''uuid'' = Some u \<longrightarrow> 37 \<le> length u)"

section \<open>Nodes\<close>

lemma ctable_find_ok: "ct.invar t \<Longrightarrow> 37 \<le> length u \<Longrightarrow> ctable_find (Some t) u = Some (ct.absm t (uuid_value u))"
  by (simp add: ctable_find_def ct.hfind_ok)

lemma ctable_insert_ok:
  assumes "ct.invar t" "37 \<le> length u"
  shows "\<exists>r t'. ctable_insert (Some t) u (Some a) = Some (r, Some t') \<and> ct.invar t'
    \<and> ct.absm t' = (if ct.absm t (uuid_value u) = None then (ct.absm t)(uuid_value u \<mapsto> a) else ct.absm t)"
  using assms(1) ct.hinsert_ok [OF assms, of a] by (cases "ct.absm t (uuid_value u)") (auto simp: ctable_insert_def)

lemma atable_ok:
  assumes inv: "switch_ok sw" and v: "vnets sw v = Some vn" and t: "ct.invar t"
  shows "switch_ok (sw\<lparr>vnets := (vnets sw)(v \<mapsto> vn\<lparr>v_atable := Some t\<rparr>)\<rparr>)"
proof (rule vnet_update_ok [OF inv v])
  show "vnet_ok (sessions sw) v (vn\<lparr>v_atable := Some t\<rparr>)"
    using vnet_okD [OF inv v] t by (simp add: vnet_ok_def ftable_ok_def ctable_ok_def)
qed simp_all

lemma purge_ok:
  assumes inv: "switch_ok sw" and s: "sessions sw s = Some x" "s_vnetwork x = Some v"
  shows "switch_ok (sw\<lparr>sessions := (sessions sw)(s \<mapsto> x\<lparr>s_state := SESSION_STATE_PURGE\<rparr>)\<rparr>)"
proof (rule session_update_ok [OF inv s(1)])
  show "session_ok (netcs sw) (vnets sw) s (x\<lparr>s_state := SESSION_STATE_PURGE\<rparr>)"
    using session_okD [OF inv s(1)] s(2) by (auto simp: session_ok_def)
qed (simp_all add: sess_le_def)

lemma del_node_run:
  assumes inv: "switch_ok sw" and node: "object_get J jmsg ''node'' = Some node"
    and u: "unpack_s J node ''uuid'' = Some u" "unpack_s J node ''networkuuid'' = Some nu" and len: "37 \<le> length u"
    and q: "vnetwork_lookup sw nu = Some (Some v)" and v: "vnets sw v = Some vn"
    and t: "v_atable vn = Some at" "v_ctable vn = Some ct"
  shows "\<exists>at'. ct.invar at' \<and> ct.absm at' = (ct.absm at)(uuid_value u := None)
    \<and> (\<forall>s. ct.absm ct (uuid_value u) = Some s \<longrightarrow> (\<exists>x. sessions sw s = Some x \<and> s_vnetwork x = Some v))
    \<and> del_node J sw jmsg = Some (0, case ct.absm ct (uuid_value u) of
        None \<Rightarrow> sw\<lparr>vnets := (vnets sw)(v \<mapsto> vn\<lparr>v_atable := Some at'\<rparr>)\<rparr>
      | Some s \<Rightarrow> sw\<lparr>vnets := (vnets sw)(v \<mapsto> vn\<lparr>v_atable := Some at'\<rparr>),
                     sessions := (sessions sw)(s \<mapsto> (the (sessions sw s))\<lparr>s_state := SESSION_STATE_PURGE\<rparr>)\<rparr>)"
proof -
  note vok = vnet_okD [OF inv v]
  have inv_t: "ct.invar at" "ct.invar ct" using vok t by (auto simp: vnet_ok_def ctable_ok_def)
  obtain r g at' where e: "ctable_erase (Some at) u = Some (r, g, Some at')" "ct.invar at'"
      "ct.absm at' = (ct.absm at)(uuid_value u := None)"
    using ctable_erase_ok [OF inv_t(1) len] by blast
  have f: "ctable_find (Some ct) u = Some (ct.absm ct (uuid_value u))" using ctable_find_ok [OF inv_t(2) len] .
  have live: "\<exists>x. sessions sw s = Some x \<and> s_vnetwork x = Some v" if "ct.absm ct (uuid_value u) = Some s" for s
    using vok t(2) that by (fastforce simp: vnet_ok_def ctable_ok_def)
  have "del_node J sw jmsg = Some (0, case ct.absm ct (uuid_value u) of
        None \<Rightarrow> sw\<lparr>vnets := (vnets sw)(v \<mapsto> vn\<lparr>v_atable := Some at'\<rparr>)\<rparr>
      | Some s \<Rightarrow> sw\<lparr>vnets := (vnets sw)(v \<mapsto> vn\<lparr>v_atable := Some at'\<rparr>),
                     sessions := (sessions sw)(s \<mapsto> (the (sessions sw s))\<lparr>s_state := SESSION_STATE_PURGE\<rparr>)\<rparr>)"
    using live by (cases "ct.absm ct (uuid_value u)") (auto simp: del_node_def node u q v t e f)
  with e live show ?thesis by blast
qed

lemma del_node_ok:
  assumes inv: "switch_ok sw" and J: "json_strings J"
    and m: "\<And>node. object_get J jmsg ''node'' = Some node \<Longrightarrow> node_msg_ok J node"
  shows "\<exists>r sw'. del_node J sw jmsg = Some (r, sw') \<and> switch_ok sw' \<and> netcs sw' = netcs sw"
proof (cases "object_get J jmsg ''node''")
  case None
  with inv show ?thesis by (simp add: del_node_def)
next
  case node: (Some node)
  show ?thesis
  proof (cases "unpack_s J node ''uuid'' = None \<or> unpack_s J node ''networkuuid'' = None")
    case True
    with node inv show ?thesis by (auto simp: del_node_def or_return_def split: option.splits)
  next
    case False
    then obtain u nu where u: "unpack_s J node ''uuid'' = Some u" "unpack_s J node ''networkuuid'' = Some nu" by auto
    have len: "37 \<le> length u" using m [OF node] u(1) by (simp add: node_msg_ok_def)
    obtain q where q: "vnetwork_lookup sw nu = Some q" "\<forall>v. q = Some v \<longrightarrow> vnets sw v \<noteq> None"
      using lookup_ok(1) [OF inv json_stringsD [OF J u(2)]] by blast
    show ?thesis
    proof (cases q)
      case None
      with node u q inv show ?thesis by (simp add: del_node_def)
    next
      case (Some v)
      then obtain vn where v: "vnets sw v = Some vn" using q by auto
      obtain at ct where t: "v_atable vn = Some at" "v_ctable vn = Some ct"
        using vnet_okD [OF inv v] by (auto simp: vnet_ok_def ctable_ok_def)
      from del_node_run [OF inv node u len q(1) [unfolded Some] v t]
      obtain at' where r: "ct.invar at'"
        "\<forall>s. ct.absm ct (uuid_value u) = Some s \<longrightarrow> (\<exists>x. sessions sw s = Some x \<and> s_vnetwork x = Some v)"
        "del_node J sw jmsg = Some (0, case ct.absm ct (uuid_value u) of
          None \<Rightarrow> sw\<lparr>vnets := (vnets sw)(v \<mapsto> vn\<lparr>v_atable := Some at'\<rparr>)\<rparr>
        | Some s \<Rightarrow> sw\<lparr>vnets := (vnets sw)(v \<mapsto> vn\<lparr>v_atable := Some at'\<rparr>),
                       sessions := (sessions sw)(s \<mapsto> (the (sessions sw s))\<lparr>s_state := SESSION_STATE_PURGE\<rparr>)\<rparr>)"
        by blast
      have ok1: "switch_ok (sw\<lparr>vnets := (vnets sw)(v \<mapsto> vn\<lparr>v_atable := Some at'\<rparr>)\<rparr>)" using atable_ok [OF inv v r(1)] .
      show ?thesis
      proof (cases "ct.absm ct (uuid_value u)")
        case None
        with ok1 r(3) show ?thesis by simp
      next
        case (Some s)
        then obtain x where "sessions sw s = Some x" "s_vnetwork x = Some v" using r(2) by blast
        with purge_ok [OF ok1, of s x v] r(3) Some show ?thesis by simp
      qed
    qed
  qed
qed

lemma listall_node_loop_ok:
  assumes "switch_ok sw" and J: "json_strings J" and m: "\<forall>i node. array_get J js i = Some node \<longrightarrow> node_msg_ok J node"
  shows "\<exists>r sw'. listall_node_loop J sw js i n = Some (r, sw') \<and> switch_ok sw' \<and> netcs sw' = netcs sw"
  using assms(1)
proof (induction n arbitrary: sw i)
  case (Suc n)
  show ?case
  proof (cases "array_get J js i")
    case None
    with Suc show ?thesis by simp
  next
    case node: (Some node)
    show ?thesis
    proof (cases "unpack_s J node ''uuid'' = None \<or> unpack_s J node ''networkuuid'' = None")
      case True
      with node Suc.prems show ?thesis by (auto simp: or_return_def split: option.splits)
    next
      case False
      then obtain u nu where u: "unpack_s J node ''uuid'' = Some u" "unpack_s J node ''networkuuid'' = Some nu" by auto
      have len: "37 \<le> length u" using m node u(1) by (auto simp: node_msg_ok_def)
      obtain q where q: "vnetwork_lookup sw nu = Some q" "\<forall>v. q = Some v \<longrightarrow> vnets sw v \<noteq> None"
        using lookup_ok(1) [OF Suc.prems json_stringsD [OF J u(2)]] by blast
      show ?thesis
      proof (cases q)
        case None
        with Suc node u q show ?thesis by simp
      next
        case (Some v)
        then obtain vn where v: "vnets sw v = Some vn" using q by auto
        obtain at a where t: "v_atable vn = Some at" "ct.invar at" "v_access_session vn = Some a"
          using vnet_okD [OF Suc.prems v] by (auto simp: vnet_ok_def)
        obtain r at' where e: "ctable_insert (Some at) u (Some a) = Some (r, Some at')" "ct.invar at'"
          using ctable_insert_ok [OF t(2) len, of a] by blast
        define sw1 where "sw1 = sw\<lparr>vnets := (vnets sw)(v \<mapsto> vn\<lparr>v_atable := Some at'\<rparr>)\<rparr>"
        have ok1: "switch_ok sw1" unfolding sw1_def using atable_ok [OF Suc.prems v e(2)] .
        have "listall_node_loop J sw js i (Suc n) = listall_node_loop J sw1 js (Suc i) n"
          using node u q Some v t e by (simp add: sw1_def)
        with Suc.IH [OF ok1, of "Suc i"] show ?thesis by (simp add: sw1_def)
      qed
    qed
  qed
qed simp

lemma strneq_total: "terminated s \<Longrightarrow> terminated t \<Longrightarrow> \<exists>b. strneq s t n = Some b"
proof (induction s t n rule: strneq.induct)
qed (auto split: if_splits)

lemma listall_node_ok:
  assumes inv: "switch_ok sw" and J: "json_strings J"
    and m: "\<And>js i node. object_get J jmsg ''nodes'' = Some js \<Longrightarrow> array_get J js i = Some node \<Longrightarrow> node_msg_ok J node"
  shows "\<exists>r sw'. listall_node J sw jmsg = Some (r, sw') \<and> switch_ok sw' \<and> netcs sw' = netcs sw"
proof (cases "object_get J jmsg ''nodes''")
  case None
  with inv show ?thesis by (simp add: listall_node_def)
next
  case (Some js)
  obtain r sw' where l: "listall_node_loop J sw js 0 (array_size J js) = Some (r, sw')" "switch_ok sw'" "netcs sw' = netcs sw"
    using listall_node_loop_ok [OF inv J, of js 0 "array_size J js"] m [OF Some] by blast
  show ?thesis
  proof (cases "unpack_s J jmsg ''response''")
    case None
    with Some l inv show ?thesis by (cases r) (auto simp: listall_node_def)
  next
    case (Some resp)
    obtain b where "strneq resp (cmem ''success'') 8 = Some b"
      using strneq_total [OF json_stringsD [OF J Some], of "cmem ''success''"] by auto
    with Some \<open>object_get J jmsg ''nodes'' = Some js\<close> l inv show ?thesis by (cases r) (auto simp: listall_node_def)
  qed
qed

section \<open>A new network\<close>

lemma fresh_tables:
  "\<exists>t. ftable_new 1024 session_itemdup = Some t \<and> ft.invar t \<and> ft.absm t = Map.empty"
  "\<exists>t. ctable_new 1024 session_itemdup = Some t \<and> ct.invar t \<and> ct.absm t = Map.empty"
  using ft.hnew_ok [of 1024 session_itemdup] ct.hnew_ok [of 1024 session_itemdup]
  by (auto simp: ftable_new_def ctable_new_def session_itemdup_def)

lemma add_network_ok:
  assumes inv: "switch_ok sw" and v: "v = brk sw" "a = Suc (brk sw)"
    and x: "x = session_zero\<lparr>s_state := SESSION_STATE_NOT_AUTHED\<rparr>"
    and vn: "terminated (v_id vn)" "terminated (v_uuid vn)" "v_session_list vn = None" "v_access_session vn = Some a"
      "length (v_bitpool vn) = 128" "v_linkst vn = Some l" "linkst_wf l" "upper_limit l = 1024"
    and ft: "v_ftable vn = Some ft" "ft.invar ft" "ft.absm ft = Map.empty"
    and ct: "v_ctable vn = Some ct" "ct.invar ct" "ct.absm ct = Map.empty"
    and at: "v_atable vn = Some at" "ct.invar at"
    and k: "cbytes (v_uuid vn) = Some ku" "cbytes (v_id vn) = Some ki"
  shows "switch_ok (sw\<lparr>sessions := (sessions sw)(a \<mapsto> x), brk := Suc (Suc (brk sw)), vnets := (vnets sw)(v \<mapsto> vn),
      vnetworks := rb_insert (vnetworks sw) ku v, vnetworks_id := rb_insert (vnetworks_id sw) ki v\<rparr>)"
proof -
  let ?S = "(sessions sw)(a \<mapsto> x)" and ?V = "(vnets sw)(v \<mapsto> vn)"
  have heap: "b < brk sw" if "b \<in> dom (sessions sw) \<union> dom (netcs sw) \<union> dom (vnets sw)" for b
    using inv that unfolding switch_ok_def heap_ok_def by blast
  have new: "sessions sw a = None" "vnets sw v = None" using heap [of a] heap [of v] v by auto
  have hle: "heap_le {} (sessions sw) ?S" using new by (auto simp: heap_le_def)
  have "heap_ok (sw\<lparr>sessions := ?S, brk := Suc (Suc (brk sw)), vnets := ?V, vnetworks := T, vnetworks_id := T'\<rparr>)" for T T'
    using heap v by (auto simp: heap_ok_def less_Suc_eq)
  moreover have "session_ok (netcs sw) ?V t y" if "?S t = Some y" for t y
  proof (cases "t = a")
    case True
    have "session_ok (netcs sw) ?V a x" by (simp add: session_ok_def x session_zero_def)
    with True that show ?thesis by simp
  next
    case False
    with that session_ok_vnet [OF session_okD [OF inv, of t y]] show ?thesis by simp
  qed
  moreover have "netc_ok ?S n c" if "netcs sw n = Some c" for n c
    using netc_le [OF netc_okD [OF inv that] hle] by simp
  moreover have "vnet_ok ?S w wn" if "?V w = Some wn" for w wn
  proof (cases "w = v")
    case True
    with that vn ft ct at show ?thesis
      by (auto simp: vnet_ok_def ftable_ok_def ctable_ok_def x session_zero_def)
  next
    case False
    with that have w: "vnets sw w = Some wn" by simp
    have "head_ok ?S w wn" using head_facts [OF inv w] new by (fastforce simp: head_ok_def)
    with vnet_le [OF vnet_okD [OF inv w] hle] show ?thesis by simp
  qed
  moreover have "\<exists>r. links_ok ?S r"
  proof -
    obtain r where r: "links_ok (sessions sw) r" using inv by (auto simp: switch_ok_def)
    have "t \<noteq> a" if "lview (sessions sw) t = Some z" for t z using that new by (auto simp: lview_def)
    then have "links_ok ?S r"
      using r unfolding links_ok_def lview_upd by (fastforce simp: x session_zero_def split: if_splits)
    then show ?thesis by blast
  qed
  moreover have "ids_ok ?S ?V"
  proof -
    have "iview (sessions sw) t \<noteq> Some (Some v, i)" for t i
      using session_vnet [OF inv, of t _ v] new by (fastforce simp: iview_def)
    then show ?thesis
      using inv by (auto simp: switch_ok_def ids_ok_def iview_upd x session_zero_def split: if_splits)
  qed
  moreover have "access_ok ?V"
  proof -
    have "v_access_session wn \<noteq> Some a" if "vnets sw w = Some wn" for w wn
      using vnet_okD [OF inv that] new by (auto simp: vnet_ok_def)
    moreover have "access_ok (vnets sw)" using inv by (simp add: switch_ok_def)
    ultimately show ?thesis
      using vn(4) unfolding access_ok_def by (metis fun_upd_apply option.inject)
  qed
  moreover have "trees_ok (sw\<lparr>sessions := ?S, brk := Suc (Suc (brk sw)), vnets := ?V,
      vnetworks := rb_insert (vnetworks sw) ku v, vnetworks_id := rb_insert (vnetworks_id sw) ki v\<rparr>)"
    using inv k new unfolding switch_ok_def trees_ok_def
    by (fastforce simp: rb_insert_def split: if_splits option.splits)
  ultimately show ?thesis using inv by (simp add: switch_ok_def)
qed

lemma vnetwork_create_ok:
  assumes inv: "switch_ok sw" and s: "terminated vid" "terminated uuid"
  shows "\<exists>sw'. vnetwork_create sw vid uuid address netmask cert pkey tcert = Some (0, sw') \<and> switch_ok sw'
    \<and> netcs sw' = netcs sw"
proof -
  obtain u where u: "strdup True uuid = Some (Some u)" "terminated u"
    using strdup_terminated [OF s(2)] by (auto simp: strdup_def split: Option.bind_splits)
  obtain i where i: "strdup True vid = Some (Some i)" "terminated i"
    using strdup_terminated [OF s(1)] by (auto simp: strdup_def split: Option.bind_splits)
  obtain ku ki where k: "cbytes u = Some ku" "cbytes i = Some ki" using cbytes_terminated u i by metis
  obtain ft :: "(u8 list, addr) jsw_hash" where ft: "ftable_new 1024 session_itemdup = Some ft" "ft.invar ft" "ft.absm ft = Map.empty"
    using fresh_tables by blast
  obtain ct :: "(u8 list, addr) jsw_hash" where ct: "ctable_new 1024 session_itemdup = Some ct" "ct.invar ct" "ct.absm ct = Map.empty"
    using fresh_tables by blast
  have l: "linkst_wf (linkst_new 1024 TIMEOUT_SEC)" "upper_limit (linkst_new 1024 TIMEOUT_SEC) = 1024"
    by (rule linkst_new_wf) (simp_all add: linkst_new_def)
  show ?thesis
    using add_network_ok [OF inv refl refl refl, of "\<lparr>v_id = i, v_uuid = u, v_ftable = Some ft, v_ctable = Some ct,
        v_atable = Some ct, v_active_node = 0, v_linkst = Some (linkst_new 1024 TIMEOUT_SEC), v_bitpool = bitpool_new 1024,
        v_session_list = None, v_access_session = Some (Suc (brk sw)), v_passport = (cert, pkey, tcert)\<rparr>"
        "linkst_new 1024 TIMEOUT_SEC" ft ct ct ku ki] u i k ft ct l
    by (simp add: vnetwork_create_def session_new_def Let_def bitpool_new_def)
qed

text \<open>The elements of a list of networks all have an \<open>id\<close>: the code keeps the pointer of the
  element before, and an uninitialised one at the first.\<close>

lemma listall_network_loop_ok:
  assumes "switch_ok sw" and J: "json_strings J"
    and m: "\<forall>i elm. array_get J js i = Some elm \<longrightarrow> unpack_s J elm ''id'' \<noteq> None"
  shows "\<exists>r sw'. listall_network_loop J sw js i n nid = Some (r, sw') \<and> switch_ok sw' \<and> netcs sw' = netcs sw"
  using assms(1)
proof (induction n arbitrary: sw i nid)
  case (Suc n)
  show ?case
  proof (cases "array_get J js i")
    case None
    with Suc show ?thesis by simp
  next
    case (Some elm)
    then obtain vid where vid: "unpack_s J elm ''id'' = Some vid" using m by auto
    show ?thesis
    proof (cases "unpack_s J elm ''uuid'' = None \<or> unpack_s J elm ''network'' = None \<or> unpack_s J elm ''netmask'' = None
        \<or> unpack_s J elm ''cert'' = None \<or> unpack_s J elm ''pkey'' = None \<or> unpack_s J elm ''tcert'' = None")
      case True
      with Some vid Suc.prems show ?thesis by (auto simp: or_return_def Let_def split: option.splits)
    next
      case False
      then obtain u net mask cert pkey tcert where f: "unpack_s J elm ''uuid'' = Some u" "unpack_s J elm ''network'' = Some net"
        "unpack_s J elm ''netmask'' = Some mask" "unpack_s J elm ''cert'' = Some cert" "unpack_s J elm ''pkey'' = Some pkey"
        "unpack_s J elm ''tcert'' = Some tcert" by auto
      obtain sw1 where c: "vnetwork_create sw vid u net mask cert pkey tcert = Some (0, sw1)" "switch_ok sw1" "netcs sw1 = netcs sw"
        using vnetwork_create_ok [OF Suc.prems json_stringsD [OF J vid] json_stringsD [OF J f(1)]] by blast
      have "listall_network_loop J sw js i (Suc n) nid = listall_network_loop J sw1 js (Suc i) n (Some vid)"
        using Some vid f c(1) by simp
      with Suc.IH [OF c(2), of "Suc i" "Some vid"] c(3) show ?thesis by simp
    qed
  qed
qed simp

lemma listall_network_ok:
  assumes inv: "switch_ok sw" and J: "json_strings J"
    and m: "\<And>js i elm. object_get J jmsg ''networks'' = Some js \<Longrightarrow> array_get J js i = Some elm \<Longrightarrow>
      unpack_s J elm ''id'' \<noteq> None"
  shows "\<exists>r sw'. listall_network J sw jmsg = Some (r, sw') \<and> switch_ok sw' \<and> netcs sw' = netcs sw"
proof (cases "unpack_s J jmsg ''response'' = None \<or> object_get J jmsg ''networks'' = None")
  case True
  with inv show ?thesis by (auto simp: listall_network_def or_return_def split: option.splits)
next
  case False
  then obtain resp js where f: "unpack_s J jmsg ''response'' = Some resp" "object_get J jmsg ''networks'' = Some js" by auto
  obtain r sw' where l: "listall_network_loop J sw js 0 (array_size J js) None = Some (r, sw')" "switch_ok sw'" "netcs sw' = netcs sw"
    using listall_network_loop_ok [OF inv J, of js 0 "array_size J js" None] m [OF f(2)] by blast
  obtain b where "strneq resp (cmem ''success'') 8 = Some b"
    using strneq_total [OF json_stringsD [OF J f(1)], of "cmem ''success''"] by auto
  with f l inv show ?thesis by (cases r) (auto simp: listall_network_def)
qed

section \<open>A network that goes\<close>

definition purged :: "addr set \<Rightarrow> (addr \<rightharpoonup> session) \<Rightarrow> (addr \<rightharpoonup> session)" where
  "purged X S t = (if t \<in> X then map_option (\<lambda>x. x\<lparr>s_state := SESSION_STATE_PURGE, s_vnetwork := None\<rparr>) (S t) else S t)"

lemma purged_empty: "purged {} S = S"
  by (simp add: purged_def fun_eq_iff)

lemma purged_insert:
  "S a = Some x \<Longrightarrow>
   purged X (S(a \<mapsto> x\<lparr>s_state := SESSION_STATE_PURGE, s_vnetwork := None\<rparr>)) = purged (insert a X) S"
  by (auto simp: purged_def fun_eq_iff)

lemma purge_loop_run:
  "sl.chain (sessions sw) p xs None \<Longrightarrow>
   purge_loop sw (first xs None) = Some (sw\<lparr>sessions := purged (set xs) (sessions sw)\<rparr>)"
proof (induction xs arbitrary: sw p)
  case Nil
  then show ?case by (subst purge_loop.simps) (simp add: purged_empty)
next
  case (Cons a xs)
  then obtain x where x: "sessions sw a = Some x" "s_next x = first xs None" "sl.chain (sessions sw) (Some a) xs None"
    by auto
  define sw1 where "sw1 = sw\<lparr>sessions := (sessions sw)(a \<mapsto> x\<lparr>s_state := SESSION_STATE_PURGE, s_vnetwork := None\<rparr>)\<rparr>"
  have "sl.chain (sessions sw1) (Some a) xs None"
    unfolding sw1_def using sl.chain_same [OF x(3) x(1)] by simp
  then have IH: "purge_loop sw1 (first xs None) = Some (sw1\<lparr>sessions := purged (set xs) (sessions sw1)\<rparr>)"
    by (rule Cons.IH)
  have "purge_loop sw (Some a) = purge_loop sw1 (first xs None)"
    using x by (subst purge_loop.simps) (simp add: sw1_def)
  with IH show ?case by (simp add: sw1_def purged_insert [where S = "sessions sw", OF x(1)])
qed

lemma linkst_free_ok:
  assumes "linkst_wf l"
  shows "\<exists>rows. linkst_free (Some l) = Some rows"
proof -
  have some: "those (map f xs) \<noteq> None" if "\<forall>i \<in> set xs. f i \<noteq> None" for f :: "nat \<Rightarrow> linkinfo list option" and xs
    using that by (induction xs) auto
  have "those (map (\<lambda>i. fetch (adjacency_matrix l) (i - 1)) [1 ..< Suc (unat (matrix_size l))]) \<noteq> None"
    by (rule some) (use assms in \<open>auto simp: linkst_wf_def rows_ok_def fetch_def\<close>)
  then show ?thesis by (simp add: linkst_free_def)
qed

lemma network_gone_ok:
  assumes inv: "switch_ok sw" and v: "vnets sw v = Some vn" and a: "v_access_session vn = Some a"
    and all: "\<And>t x. sessions sw t = Some x \<Longrightarrow> s_vnetwork x = Some v \<Longrightarrow> t \<in> X"
    and X: "\<And>t. t \<in> X \<Longrightarrow> \<exists>x. sessions sw t = Some x \<and> s_vnetwork x = Some v"
    and T: "vnetworks' \<subseteq>\<^sub>m vnetworks sw" "vnetworks_id' \<subseteq>\<^sub>m vnetworks_id sw"
      "\<And>u. vnetworks' u \<noteq> Some v" "\<And>i. vnetworks_id' i \<noteq> Some v"
  shows "switch_ok (sw\<lparr>vnetworks := vnetworks', vnetworks_id := vnetworks_id',
      sessions := (purged X (sessions sw))(a := None), vnets := (vnets sw)(v := None)\<rparr>)"
proof -
  let ?S = "(purged X (sessions sw))(a := None)" and ?V = "(vnets sw)(v := None)"
  obtain xa where xa: "sessions sw a = Some xa" "s_netc xa = None" "s_vnetwork xa = None"
    using vnet_okD [OF inv v] a session_okD [OF inv, of a] by (fastforce simp: vnet_ok_def session_ok_def)
  have aX: "a \<notin> X" using X xa by fastforce
  have keep: "t \<noteq> a \<and> ?S t = Some x" if "sessions sw t = Some x" "s_vnetwork x = Some w" "w \<noteq> v" for t x w
    using that X [of t] xa by (auto simp: purged_def)
  have at: "?S t = (if t = a then None else if t \<in> X then
      map_option (\<lambda>x. x\<lparr>s_state := SESSION_STATE_PURGE, s_vnetwork := None\<rparr>) (sessions sw t) else sessions sw t)" for t
    by (simp add: purged_def)
  have "heap_ok (sw\<lparr>vnetworks := T1, vnetworks_id := T2, sessions := ?S, vnets := ?V\<rparr>)" for T1 T2
  proof -
    have "dom ?S \<subseteq> dom (sessions sw)" by (auto simp: purged_def split: if_splits)
    moreover have "dom ?V \<subseteq> dom (vnets sw)" by auto
    moreover have "heap_ok sw" using inv by (simp add: switch_ok_def)
    ultimately show ?thesis unfolding heap_ok_def by (simp del: dom_fun_upd fun_upd_apply) blast
  qed
  moreover have "session_ok (netcs sw) ?V t y" if t: "?S t = Some y" for t y
  proof -
    obtain x where x: "sessions sw t = Some x" "t \<noteq> a"
      "y = (if t \<in> X then x\<lparr>s_state := SESSION_STATE_PURGE, s_vnetwork := None\<rparr> else x)"
      using t by (auto simp: purged_def split: if_splits)
    show ?thesis
    proof (cases "t \<in> X")
      case True
      with X [of t] x(1) have "s_vnetwork x = Some v" by auto
      with session_okD [OF inv x(1)] x(3) True show ?thesis by (auto simp: session_ok_def)
    next
      case False
      with all [of t x] x(1) have "s_vnetwork x \<noteq> Some v" by auto
      with session_okD [OF inv x(1)] x(3) False show ?thesis by (auto simp: session_ok_def)
    qed
  qed
  moreover have "netc_ok ?S n c" if "netcs sw n = Some c" for n c
  proof -
    obtain s x where s: "n_ext_ptr c = Some s" "sessions sw s = Some x" "s_netc x = Some n"
      using netc_session [OF inv \<open>netcs sw n = Some c\<close>] by blast
    then have "s \<noteq> a" using xa by auto
    then have "\<exists>y. ?S s = Some y \<and> s_netc y = Some n" using s by (simp add: purged_def)
    with netc_okD [OF inv \<open>netcs sw n = Some c\<close>] s show ?thesis by (simp add: netc_ok_def)
  qed
  moreover have "vnet_ok ?S w wn" if w: "?V w = Some wn" for w wn
  proof -
    from w have w': "w \<noteq> v" "vnets sw w = Some wn" by (auto split: if_splits)
    have hle: "heap_le (insert a X) (sessions sw) ?S" by (auto simp: heap_le_def purged_def)
    have acc: "v_access_session wn \<noteq> Some a"
      using inv w' v a by (auto simp: switch_ok_def access_ok_def)
    have h: "head_ok ?S w wn"
      using head_facts [OF inv w'(2)] keep [OF _ _ w'(1)] by (fastforce simp: head_ok_def)
    show ?thesis
    proof (rule vnet_le [OF vnet_okD [OF inv w'(2)] hle _ h])
      fix s x assume s: "s \<in> insert a X" "sessions sw s = Some x"
      show "s_vnetwork x \<noteq> Some w \<and> (s_netc x \<noteq> None \<or> v_access_session wn \<noteq> Some s)"
      proof (cases "s = a")
        case True
        with s xa acc show ?thesis by simp
      next
        case False
        with s X [of s] have "s_vnetwork x = Some v" by auto
        with session_okD [OF inv s(2)] w'(1) show ?thesis by (auto simp: session_ok_def)
      qed
    qed
  qed
  moreover have "\<exists>r. links_ok ?S r"
  proof -
    obtain r where r: "links_ok (sessions sw) r" using inv by (auto simp: switch_ok_def)
    have bwd: "lview (sessions sw) t = Some (Some w, n, p) \<and> w \<noteq> v" if "lview ?S t = Some (Some w, n, p)" for t w n p
      using that all [of t] by (auto simp: lview_def purged_def split: if_splits)
    have fwd: "lview ?S t = Some (Some w, n, p)" if "lview (sessions sw) t = Some (Some w, n, p)" "w \<noteq> v" for t w n p
      using that keep [of t] by (auto simp: lview_def)
    have "links_ok ?S r"
      unfolding links_ok_def
    proof (intro allI impI conjI)
      fix s w n p t assume l: "lview ?S s = Some (Some w, n, p)"
      show "r t < r s" if "n = Some t" using links_okD(1) [OF r conjunct1 [OF bwd [OF l]] that] by simp
      show "\<exists>m. lview ?S t = Some (Some w, m, Some s)" if "n = Some t"
        using links_okD(1) [OF r conjunct1 [OF bwd [OF l]] that] fwd bwd [OF l] by blast
      show "\<exists>q. lview ?S t = Some (Some w, Some s, q)" if "p = Some t"
        using links_okD(2) [OF r conjunct1 [OF bwd [OF l]] that] fwd bwd [OF l] by blast
    qed
    then show ?thesis by blast
  qed
  moreover have "ids_ok ?S ?V"
  proof -
    have bwd: "iview (sessions sw) t = Some (Some w, i)" if "iview ?S t = Some (Some w, i)" for t w i
      using that by (auto simp: iview_def purged_def split: if_splits)
    have "ids_ok (sessions sw) (vnets sw)" using inv by (simp add: switch_ok_def)
    with bwd show ?thesis unfolding ids_ok_def by (metis fun_upd_apply option.distinct(1))
  qed
  moreover have "access_ok ?V" using inv by (auto simp: switch_ok_def access_ok_def)
  moreover have "trees_ok (sw\<lparr>vnetworks := vnetworks', vnetworks_id := vnetworks_id', sessions := ?S, vnets := ?V\<rparr>)"
  proof -
    have "trees_ok sw" using inv by (simp add: switch_ok_def)
    moreover have "w \<noteq> v \<and> vnetworks sw u = Some w" if "vnetworks' u = Some w" for u w
      using that T(1,3) by (metis domI map_le_def)
    moreover have "w \<noteq> v \<and> vnetworks_id sw u = Some w" if "vnetworks_id' u = Some w" for u w
      using that T(2,4) by (metis domI map_le_def)
    ultimately show ?thesis by (simp add: trees_ok_def)
  qed
  ultimately show ?thesis using inv by (simp add: switch_ok_def)
qed

text \<open>Every session of the network is one of its list: there is none that still waits for its
  step-up, and none that was purged before it got that far.\<close>

definition all_listed :: "switch \<Rightarrow> addr \<Rightarrow> bool" where
  "all_listed sw v \<longleftrightarrow> (\<forall>xs t x. open_sessions sw v xs \<longrightarrow> sessions sw t = Some x \<longrightarrow> s_vnetwork x = Some v \<longrightarrow> t \<in> set xs)"

lemma all_listedD: "all_listed sw v \<Longrightarrow> open_sessions sw v xs \<Longrightarrow> sessions sw t = Some x \<Longrightarrow> s_vnetwork x = Some v \<Longrightarrow> t \<in> set xs"
  by (auto simp: all_listed_def)

lemma trees_okD:
  assumes "switch_ok sw"
  shows "vnetworks sw u = Some v \<Longrightarrow> \<exists>vn. vnets sw v = Some vn \<and> cbytes (v_uuid vn) = Some u"
    and "vnetworks_id sw i = Some v \<Longrightarrow> \<exists>vn. vnets sw v = Some vn \<and> cbytes (v_id vn) = Some i"
  using assms unfolding switch_ok_def trees_ok_def by blast+

lemma vnetwork_disable_ok:
  assumes inv: "switch_ok sw" and u: "cbytes uuid = Some k" "vnetworks sw k = Some v" and v: "vnets sw v = Some vn"
  shows "\<exists>I. vnetwork_disable sw uuid = Some (Some v, sw\<lparr>vnetworks := (vnetworks sw)(k := None), vnetworks_id := I\<rparr>)
    \<and> I \<subseteq>\<^sub>m vnetworks_id sw \<and> (\<forall>i. I i \<noteq> Some v) \<and> (\<forall>u. ((vnetworks sw)(k := None)) u \<noteq> Some v)"
proof -
  have ku: "cbytes (v_uuid vn) = Some k" using trees_okD(1) [OF inv u(2)] v by simp
  obtain ki where ki: "cbytes (v_id vn) = Some ki"
    using vnet_okD [OF inv v] cbytes_terminated by (auto simp: vnet_ok_def)
  have gone: "\<forall>u. ((vnetworks sw)(k := None)) u \<noteq> Some v"
    using trees_okD(1) [OF inv] v ku by (metis fun_upd_apply option.distinct(1) option.inject)
  have id_only: "i = ki" if "vnetworks_id sw i = Some v" for i
    using trees_okD(2) [OF inv that] v ki by simp
  show ?thesis
  proof (cases "vnetworks_id sw ki")
    case None
    with u v ku ki have "vnetwork_disable sw uuid =
        Some (Some v, sw\<lparr>vnetworks := (vnetworks sw)(k := None), vnetworks_id := vnetworks_id sw\<rparr>)"
      by (simp add: vnetwork_disable_def vnetwork_lookup_def vnetwork_lookup_id_def)
    moreover have "\<forall>i. vnetworks_id sw i \<noteq> Some v" using id_only None by auto
    ultimately show ?thesis using gone by (metis map_le_refl)
  next
    case (Some w)
    then obtain wn where w: "vnets sw w = Some wn" "cbytes (v_id wn) = Some ki" using trees_okD(2) [OF inv] by blast
    with Some u v ku ki have "vnetwork_disable sw uuid =
        Some (Some v, sw\<lparr>vnetworks := (vnetworks sw)(k := None), vnetworks_id := (vnetworks_id sw)(ki := None)\<rparr>)"
      by (simp add: vnetwork_disable_def vnetwork_lookup_def vnetwork_lookup_id_def)
    moreover have "\<forall>i. ((vnetworks_id sw)(ki := None)) i \<noteq> Some v" using id_only by auto
    moreover have "(vnetworks_id sw)(ki := None) \<subseteq>\<^sub>m vnetworks_id sw" by (auto simp: map_le_def)
    ultimately show ?thesis using gone by blast
  qed
qed

lemma vnetwork_free_ok:
  assumes vn: "vnet_ok S v vn" and v: "vnets sw v = Some vn" and a: "v_access_session vn = Some a"
    and x: "sessions sw a = Some x" "s_node_info x \<noteq> Dangling"
  shows "vnetwork_free sw (Some v) = Some (sw\<lparr>sessions := (sessions sw)(a := None), vnets := (vnets sw)(v := None)\<rparr>)"
proof -
  obtain ft ct at l where t: "v_ftable vn = Some ft" "ft.invar ft" "v_ctable vn = Some ct" "ct.invar ct"
      "v_atable vn = Some at" "ct.invar at" "v_linkst vn = Some l" "linkst_wf l"
    using vn by (auto simp: vnet_ok_def ftable_ok_def ctable_ok_def)
  obtain rows where "linkst_free (Some l) = Some rows" using linkst_free_ok [OF t(8)] by blast
  moreover have "jsw_hdelete ft = Some (jnodes ft)" "jsw_hdelete ct = Some (jnodes ct)" "jsw_hdelete at = Some (jnodes at)"
    using t by (auto simp: hdelete_nodes ft.invar_def ct.invar_def)
  ultimately show ?thesis
    using t v a x by (simp add: vnetwork_free_def ftable_delete_def ctable_delete_def)
qed

lemma del_network_run:
  assumes inv: "switch_ok sw" and nw: "object_get J jmsg ''network'' = Some network"
    and u: "unpack_s J network ''networkuuid'' = Some u" and k: "cbytes u = Some k" and w: "vnetworks sw k = Some v"
    and v: "vnets sw v = Some vn" and xs: "open_sessions sw v xs"
  shows "\<exists>I a. del_network J sw jmsg = Some (0, sw\<lparr>vnetworks := (vnetworks sw)(k := None), vnetworks_id := I,
      sessions := (purged (set xs) (sessions sw))(a := None), vnets := (vnets sw)(v := None)\<rparr>)
    \<and> v_access_session vn = Some a \<and> I \<subseteq>\<^sub>m vnetworks_id sw \<and> (\<forall>i. I i \<noteq> Some v)
    \<and> (\<forall>u. ((vnetworks sw)(k := None)) u \<noteq> Some v)"
proof -
  obtain I where I: "vnetwork_disable sw u = Some (Some v, sw\<lparr>vnetworks := (vnetworks sw)(k := None), vnetworks_id := I\<rparr>)"
      "I \<subseteq>\<^sub>m vnetworks_id sw" "\<forall>i. I i \<noteq> Some v" "\<forall>u. ((vnetworks sw)(k := None)) u \<noteq> Some v"
    using vnetwork_disable_ok [OF inv k w v] by blast
  define sw1 where "sw1 = sw\<lparr>vnetworks := (vnetworks sw)(k := None), vnetworks_id := I\<rparr>"
  have ch: "sl.chain (sessions sw1) None xs None" "v_session_list vn = first xs None"
    using xs v by (auto simp: open_sessions_def sw1_def)
  define sw2 where "sw2 = sw1\<lparr>sessions := purged (set xs) (sessions sw1)\<rparr>"
  have loop: "purge_loop sw1 (v_session_list vn) = Some sw2"
    using purge_loop_run [OF ch(1)] ch(2) by (simp add: sw2_def)
  obtain a xa where a: "v_access_session vn = Some a" "sessions sw a = Some xa" "s_netc xa = None"
    using vnet_okD [OF inv v] by (auto simp: vnet_ok_def)
  have xok: "s_vnetwork xa = None" "s_node_info xa \<noteq> Dangling"
    using session_okD [OF inv a(2)] a(3) by (auto simp: session_ok_def)
  have "a \<notin> set xs" using open_sessions_members [OF inv xs, of a] a xok by auto
  then have "sessions sw2 a = Some xa" using a by (simp add: sw2_def sw1_def purged_def)
  from vnetwork_free_ok [OF vnet_okD [OF inv v] _ a(1) this xok(2)]
  have fr: "vnetwork_free sw2 (Some v) = Some (sw2\<lparr>sessions := (sessions sw2)(a := None), vnets := (vnets sw2)(v := None)\<rparr>)"
    using v by (simp add: sw2_def sw1_def)
  have "del_network J sw jmsg = Some (0, sw2\<lparr>sessions := (sessions sw2)(a := None), vnets := (vnets sw2)(v := None)\<rparr>)"
    using nw u I(1) v loop fr by (simp add: del_network_def flip: sw1_def) (simp add: sw1_def)
  with I a(1) show ?thesis by (simp add: sw2_def sw1_def) blast
qed

lemma del_network_ok:
  assumes inv: "switch_ok sw" and J: "json_strings J"
    and m: "\<And>network u v. object_get J jmsg ''network'' = Some network \<Longrightarrow> unpack_s J network ''networkuuid'' = Some u \<Longrightarrow>
      vnetwork_lookup sw u = Some (Some v) \<Longrightarrow> all_listed sw v"
  shows "\<exists>r sw'. del_network J sw jmsg = Some (r, sw') \<and> switch_ok sw' \<and> netcs sw' = netcs sw"
proof (cases "object_get J jmsg ''network''")
  case None
  with inv show ?thesis by (simp add: del_network_def)
next
  case nw: (Some network)
  show ?thesis
  proof (cases "unpack_s J network ''networkuuid''")
    case None
    with nw inv show ?thesis by (simp add: del_network_def)
  next
    case u: (Some u)
    obtain k where k: "cbytes u = Some k" using cbytes_terminated [OF json_stringsD [OF J u]] by blast
    show ?thesis
    proof (cases "vnetworks sw k")
      case None
      with nw u k inv show ?thesis by (simp add: del_network_def vnetwork_disable_def vnetwork_lookup_def)
    next
      case w: (Some v)
      then obtain vn where v: "vnets sw v = Some vn" using trees_okD(1) [OF inv] by blast
      have listed: "all_listed sw v" using m [OF nw u] k w by (simp add: vnetwork_lookup_def)
      obtain xs where xs: "open_sessions sw v xs" using open_sessions_exist [OF inv v] by blast
      obtain I a where r: "del_network J sw jmsg = Some (0, sw\<lparr>vnetworks := (vnetworks sw)(k := None), vnetworks_id := I,
          sessions := (purged (set xs) (sessions sw))(a := None), vnets := (vnets sw)(v := None)\<rparr>)"
          "v_access_session vn = Some a" "I \<subseteq>\<^sub>m vnetworks_id sw" "\<forall>i. I i \<noteq> Some v"
          "\<forall>u. ((vnetworks sw)(k := None)) u \<noteq> Some v"
        using del_network_run [OF inv nw u k w v xs] by blast
      have "switch_ok (sw\<lparr>vnetworks := (vnetworks sw)(k := None), vnetworks_id := I,
          sessions := (purged (set xs) (sessions sw))(a := None), vnets := (vnets sw)(v := None)\<rparr>)"
      proof (rule network_gone_ok [OF inv v r(2)])
        show "t \<in> set xs" if "sessions sw t = Some x" "s_vnetwork x = Some v" for t x
          using all_listedD [OF listed xs that] .
        show "\<exists>x. sessions sw t = Some x \<and> s_vnetwork x = Some v" if "t \<in> set xs" for t
          using open_sessions_members [OF inv xs that] by blast
        show "(vnetworks sw)(k := None) \<subseteq>\<^sub>m vnetworks sw" by (auto simp: map_le_def)
      qed (use r in auto)
      with r(1) show ?thesis by simp
    qed
  qed
qed

section \<open>Provisioning\<close>

text \<open>The session the identifier of a response designates is gone from the table or still
  connected.\<close>

definition tracked_ok :: "switch \<Rightarrow> addr option \<Rightarrow> bool" where
  "tracked_ok sw p \<longleftrightarrow> (\<forall>s. p = Some s \<longrightarrow> (\<exists>x. sessions sw s = Some x \<and> s_netc x \<noteq> None))"

definition prov_ok :: "'j jansson \<Rightarrow> switch \<Rightarrow> 'j \<Rightarrow> bool" where
  "prov_ok J sw jmsg \<longleftrightarrow> (\<forall>tid. unpack_s J jmsg ''tid'' = Some tid \<longrightarrow>
     (\<exists>t. atoi tid = Some t \<and> 0 \<le> t \<and> tracked_ok sw (tracking_table sw ! nat (t mod 4096))))"

lemma prov_response_some:
  assumes "terminated cert" "terminated pkey" "terminated tcert" "terminated ip"
  shows "\<exists>m. prov_response cert pkey tcert ip = Some (Some m)"
proof -
  obtain a b c where n: "strlen cert = Some a" "strlen pkey = Some b" "strlen tcert = Some c"
    using assms strlen_Some_iff by metis
  obtain rc oct where i: "octets_set_inet True octets_zero ip = Some (rc, oct)"
    using octets_set_inet_ok [OF assms(4)] by blast
  show ?thesis
    using n i
    by (simp add: prov_response_def Let_def DNDSMessage_new_def DNDSMessage_set_channel_def DNDSMessage_set_pdu_def
        DNMessage_set_operation_def ProvResponse_set_certificate_def ProvResponse_set_certificateKey_def
        ProvResponse_set_trustedCert_def ProvResponse_set_ipAddress_def optional_set_string_def optional_set_inet_def
        guard_defs union_defs strdup_def dnm_zero_def provResponse_zero_def)
qed

lemma table_update_ok: "switch_ok sw \<Longrightarrow> switch_ok (sw\<lparr>tracking_table := (tracking_table sw)[i := p]\<rparr>)"
  by (simp add: switch_ok_def heap_ok_def trees_ok_def)

lemma provisioning_ok:
  assumes inv: "switch_ok sw" and J: "json_strings J" and m: "prov_ok J sw jmsg"
  shows "\<exists>r sw'. provisioning J sw jmsg = Some (r, sw') \<and> switch_ok sw' \<and> netcs sw' = netcs sw"
proof (cases "unpack_s J jmsg ''response''")
  case None
  with inv show ?thesis by (simp add: provisioning_def)
next
  case resp: (Some resp)
  obtain b where b: "strneq resp (cmem ''success'') 8 = Some b"
    using strneq_total [OF json_stringsD [OF J resp], of "cmem ''success''"] by auto
  show ?thesis
  proof (cases "b \<and> unpack_s J jmsg ''tid'' \<noteq> None \<and> (\<exists>node. object_get J jmsg ''node'' = Some node \<and>
      unpack_s J node ''cert'' \<noteq> None \<and> unpack_s J node ''pkey'' \<noteq> None \<and> unpack_s J node ''tcert'' \<noteq> None
      \<and> unpack_s J node ''ipaddr'' \<noteq> None)")
    case False
    with resp b inv show ?thesis by (auto simp: provisioning_def or_return_def split: option.splits)
  next
    case True
    then obtain tid node cert pkey tcert ip where f: "b" "unpack_s J jmsg ''tid'' = Some tid"
      "object_get J jmsg ''node'' = Some node" "unpack_s J node ''cert'' = Some cert" "unpack_s J node ''pkey'' = Some pkey"
      "unpack_s J node ''tcert'' = Some tcert" "unpack_s J node ''ipaddr'' = Some ip" by auto
    obtain msg where msg: "prov_response cert pkey tcert ip = Some (Some msg)"
      using prov_response_some json_stringsD [OF J] f by metis
    obtain t where t: "atoi tid = Some t" "0 \<le> t" "tracked_ok sw (tracking_table sw ! nat (t mod 4096))"
      using m f(2) by (auto simp: prov_ok_def)
    define i where "i = nat (t mod 4096)"
    have "t mod 4096 < 4096" "0 \<le> t mod 4096" by simp_all
    then have i: "i < 4096" by (simp add: i_def)
    define sw1 where "sw1 = sw\<lparr>tracking_table := (tracking_table sw)[i := None]\<rparr>"
    have ok1: "switch_ok sw1" unfolding sw1_def by (rule table_update_ok [OF inv])
    have len: "length (tracking_table sw) = 4096" using inv by (simp add: switch_ok_def)
    have tab: "fetch (tracking_table sw) i = Some (tracking_table sw ! i)"
        "store (tracking_table sw) i None = Some ((tracking_table sw)[i := None])"
      using i len by (simp_all add: fetch_def store_def)
    have t0: "\<not> t < 0" using t(2) by simp
    note run = provisioning_def resp b f msg t(1) t0 tab [unfolded i_def] Let_def sw1_def [unfolded i_def]
    show ?thesis
    proof (cases "tracking_table sw ! i")
      case None
      then have "provisioning J sw jmsg = Some (0, sw1)" using t(2) by (simp add: run i_def)
      with ok1 show ?thesis by (simp add: sw1_def)
    next
      case (Some s)
      then obtain x n where x: "sessions sw s = Some x" "s_netc x = Some n"
        using t(3) by (auto simp: tracked_ok_def i_def)
      obtain c where c: "netcs sw n = Some c" using session_netc [OF inv x] by blast
      have "provisioning J sw jmsg = Some (0, sw1\<lparr>events := events sw1 @ [Send n msg]\<rparr>)"
        using t(2) Some x c by (simp add: run i_def)
      with ok1 show ?thesis by (simp add: sw1_def)
    qed
  qed
qed

section \<open>The dispatcher\<close>

text \<open>What a message of the controller has to respect, by its action.\<close>

definition ctrl_msg_ok :: "'j jansson \<Rightarrow> switch \<Rightarrow> 'j \<Rightarrow> bool" where
  "ctrl_msg_ok J sw jmsg \<longleftrightarrow>
     (\<forall>node. object_get J jmsg ''node'' = Some node \<longrightarrow> node_msg_ok J node)
     \<and> (\<forall>js i node. object_get J jmsg ''nodes'' = Some js \<longrightarrow> array_get J js i = Some node \<longrightarrow> node_msg_ok J node)
     \<and> (\<forall>js i elm. object_get J jmsg ''networks'' = Some js \<longrightarrow> array_get J js i = Some elm \<longrightarrow>
          unpack_s J elm ''id'' \<noteq> None)
     \<and> (\<forall>network u v. object_get J jmsg ''network'' = Some network \<longrightarrow> unpack_s J network ''networkuuid'' = Some u \<longrightarrow>
          vnetwork_lookup sw u = Some (Some v) \<longrightarrow> all_listed sw v)
     \<and> prov_ok J sw jmsg"

lemma streq_total: "terminated s \<Longrightarrow> \<exists>b. streq s t = Some b"
  by (simp add: streq_def strneq_total)

lemma dispatch_op_ok:
  assumes inv: "switch_ok sw" and J: "json_strings J" and m: "ctrl_msg_ok J sw jmsg"
  shows "\<exists>r sw'. dispatch_op J sw jmsg = Some (r, sw') \<and> switch_ok sw' \<and> netcs sw' = netcs sw"
proof (cases "unpack_s J jmsg ''action''")
  case None
  with inv show ?thesis by (simp add: dispatch_op_def)
next
  case (Some action)
  have total: "\<exists>b. streq action t = Some b" for t
    using streq_total [OF json_stringsD [OF J Some]] .
  obtain b1 b2 b3 b4 b5 where b: "streq action ''listall-network'' = Some b1" "streq action ''listall-node'' = Some b2"
    "streq action ''provisioning'' = Some b3" "streq action ''del-network'' = Some b4" "streq action ''del-node'' = Some b5"
    using total by metis
  obtain r1 sw1 where r1: "listall_network J sw jmsg = Some (r1, sw1)" "switch_ok sw1" "netcs sw1 = netcs sw"
    using listall_network_ok [OF inv J, of jmsg] m unfolding ctrl_msg_ok_def by blast
  obtain r2 sw2 where r2: "listall_node J sw jmsg = Some (r2, sw2)" "switch_ok sw2" "netcs sw2 = netcs sw"
    using listall_node_ok [OF inv J, of jmsg] m unfolding ctrl_msg_ok_def by blast
  obtain r3 sw3 where r3: "provisioning J sw jmsg = Some (r3, sw3)" "switch_ok sw3" "netcs sw3 = netcs sw"
    using provisioning_ok [OF inv J, of jmsg] m unfolding ctrl_msg_ok_def by blast
  obtain r4 sw4 where r4: "del_network J sw jmsg = Some (r4, sw4)" "switch_ok sw4" "netcs sw4 = netcs sw"
    using del_network_ok [OF inv J, of jmsg] m unfolding ctrl_msg_ok_def by blast
  obtain r5 sw5 where r5: "del_node J sw jmsg = Some (r5, sw5)" "switch_ok sw5" "netcs sw5 = netcs sw"
    using del_node_ok [OF inv J, of jmsg] m unfolding ctrl_msg_ok_def by blast
  obtain r6 sw6 where r6: "query_list_node J sw1 = (r6, sw6)" by fastforce
  have q: "switch_ok sw6" "netcs sw6 = netcs sw"
    using r6 r1 by (auto simp: query_list_node_def sock_query_def split: option.splits)
  have "dispatch_op J sw jmsg =
      (if b1 then (if r1 = 0 \<and> \<not> ctrl_initialized sw1 then Some (r6, sw6) else Some (r1, sw1))
       else if b2 then Some (r2, if r2 = 0 \<and> \<not> ctrl_initialized sw2 then sw2\<lparr>ctrl_initialized := True\<rparr> else sw2)
       else if b3 then Some (r3, sw3) else if b4 then Some (r4, sw4) else if b5 then Some (r5, sw5) else Some (0, sw))"
    by (simp add: dispatch_op_def Some b r1 r2 r3 r4 r5 r6)
  then show ?thesis using r1 r2 r3 r4 r5 q inv by simp
qed

lemma on_connected_ok: "switch_ok sw \<Longrightarrow> switch_ok (on_connected J sw)"
  by (simp add: on_connected_def query_list_network_def sock_query_def split: option.splits)

end
