(* ===== verification/Events.thy ===== *)
theory Events
  imports Control_Inv
begin

text \<open>
  The switch as a whole: the inputs that reach it from the network layer and from the controller,
  each of which runs one handler to its end, and the states such inputs lead to.
\<close>

section \<open>Inputs\<close>

datatype 'j input =
    Connect bool u8 "u8 list"
  | Input addr "DNDSMessage list"
  | Secure addr "u8 list option" "u8 list option"
  | Close addr
  | Controller 'j
  | Controller_up
  | Pipe

text \<open>The messages the network layer has decoded wait in the queue of the connection.\<close>

fun handle :: "'j jansson \<Rightarrow> switch \<Rightarrow> 'j input \<Rightarrow> switch option" where
  "handle J sw (Connect ok level host) = net_on_connect J ok sw level host"
| "handle J sw (Input n msgs) = do {
     sw \<leftarrow> upd_netc sw (Some n) (\<lambda>c. c\<lparr>n_queue_msg := msgs\<rparr>);
     on_input J sw n }"
| "handle J sw (Secure n altname cn) = on_secure J sw n altname cn"
| "handle J sw (Close n) = net_disconnect J sw (Some n)"
| "handle J sw (Controller jmsg) = do { (_, sw) \<leftarrow> dispatch_op J sw jmsg; Some sw }"
| "handle J sw Controller_up = Some (on_connected J sw)"
| "handle J sw Pipe = pipe_read_cb sw"

text \<open>What the switch relies on.  A peer sends messages whose buffers are as long as the handlers
  assume and no operation but the three it knows; the certificate that secures a connection names
  the node the request named, and the network has an identifier left; a message of the controller
  respects \<^const>\<open>ctrl_msg_ok\<close>; the pipe holds less than its buffer.\<close>

fun admissible :: "'j jansson \<Rightarrow> switch \<Rightarrow> 'j input \<Rightarrow> bool" where
  "admissible J sw (Connect ok level host) \<longleftrightarrow> level \<noteq> NET_UNSECURE \<and> terminated host"
| "admissible J sw (Input n msgs) \<longleftrightarrow> netcs sw n \<noteq> None \<and> (\<forall>m \<in> set msgs. msg_ok m)"
| "admissible J sw (Secure n altname cn) \<longleftrightarrow> netcs sw n \<noteq> None \<and> secure_ok sw n altname cn"
| "admissible J sw (Close n) \<longleftrightarrow> netcs sw n \<noteq> None"
| "admissible J sw (Controller jmsg) \<longleftrightarrow> ctrl_msg_ok J sw jmsg"
| "admissible J sw Controller_up \<longleftrightarrow> True"
| "admissible J sw Pipe \<longleftrightarrow> length (pipe sw) < 1024"

inductive reachable :: "'j jansson \<Rightarrow> (nat \<Rightarrow> int) \<Rightarrow> switch \<Rightarrow> bool" for J e where
  start: "reachable J e (switch_start e)"
| step: "reachable J e sw \<Longrightarrow> admissible J sw i \<Longrightarrow> handle J sw i = Some sw' \<Longrightarrow> reachable J e sw'"

fun run :: "'j jansson \<Rightarrow> switch \<Rightarrow> 'j input list \<Rightarrow> switch option" where
  "run J sw [] = Some sw"
| "run J sw (i # is) = do { sw \<leftarrow> handle J sw i; run J sw is }"

fun all_admissible :: "'j jansson \<Rightarrow> switch \<Rightarrow> 'j input list \<Rightarrow> bool" where
  "all_admissible J sw [] \<longleftrightarrow> True"
| "all_admissible J sw (i # is) \<longleftrightarrow> admissible J sw i \<and> (\<forall>sw'. handle J sw i = Some sw' \<longrightarrow> all_admissible J sw' is)"

section \<open>The invariant\<close>

lemma pipe_read_ok:
  assumes "length (pipe sw) < 1024"
  shows "\<exists>t. pipe_read_cb sw = Some (sw\<lparr>pipe := [], ctrl_sock := t\<rparr>)"
proof -
  have "terminated (take 1024 (pipe sw) @ replicate (1024 - length (pipe sw)) 0)" using assms by simp
  then obtain n where "strlen (take 1024 (pipe sw) @ replicate (1024 - length (pipe sw)) 0) = Some n"
    using strlen_Some_iff by blast
  with assms have "pipe_read_cb sw = Some (sw\<lparr>pipe := [], ctrl_sock := ctrl_sock sw @
      take n (take 1024 (pipe sw) @ replicate (1024 - length (pipe sw)) 0) @ [10]\<rparr>)"
    by (simp add: pipe_read_cb_def Let_def)
  then show ?thesis by blast
qed

lemma handle_ok:
  assumes inv: "switch_ok sw" and J: "json_strings J" and a: "admissible J sw i"
  shows "\<exists>sw'. handle J sw i = Some sw' \<and> switch_ok sw'"
proof (cases i)
  case (Connect ok level host)
  with a net_on_connect_ok [OF inv, of level host J ok] show ?thesis by auto
next
  case (Input n msgs)
  then obtain c where c: "netcs sw n = Some c" "\<forall>m \<in> set msgs. msg_ok m" using a by auto
  define sw1 where "sw1 = sw\<lparr>netcs := (netcs sw)(n \<mapsto> c\<lparr>n_queue_msg := msgs\<rparr>)\<rparr>"
  have "switch_ok sw1" unfolding sw1_def by (rule queue_ok [OF inv c(1)])
  from on_input_ok [OF this, of n "c\<lparr>n_queue_msg := msgs\<rparr>" J] c Input show ?thesis by (simp add: sw1_def)
next
  case (Secure n altname cn)
  then obtain c where c: "netcs sw n = Some c" "secure_ok sw n altname cn" using a by auto
  from on_secure_ok [OF inv c, of J] Secure show ?thesis by auto
next
  case (Close n)
  then obtain c where c: "netcs sw n = Some c" using a by auto
  from disconnect_ok [OF inv c, of J] Close show ?thesis by auto
next
  case (Controller jmsg)
  with a have m: "ctrl_msg_ok J sw jmsg" by simp
  obtain r sw' where "dispatch_op J sw jmsg = Some (r, sw')" "switch_ok sw'"
    using dispatch_op_ok [OF inv J m] by blast
  with Controller show ?thesis by simp
next
  case Controller_up
  with on_connected_ok [OF inv] show ?thesis by simp
next
  case Pipe
  then obtain t where "pipe_read_cb sw = Some (sw\<lparr>pipe := [], ctrl_sock := t\<rparr>)" using a pipe_read_ok by auto
  with Pipe inv show ?thesis by simp
qed

lemma reachable_ok:
  assumes "reachable J e sw" "json_strings J"
  shows "switch_ok sw"
  using assms
proof (induction rule: reachable.induct)
  case start
  show ?case by (rule switch_start_ok)
next
  case (step sw i sw')
  from handle_ok [OF step.IH [OF step.prems] step.prems step.hyps(2)] step.hyps(3) show ?case by simp
qed

inductive_cases reachableE: "reachable J e sw"

lemma reachable_append: "reachable J e sw \<Longrightarrow> all_admissible J sw is \<Longrightarrow> run J sw is = Some sw' \<Longrightarrow> reachable J e sw'"
proof (induction "is" arbitrary: sw)
  case (Cons i "is")
  from Cons.prems(3) obtain sw1 where "handle J sw i = Some sw1" "run J sw1 is = Some sw'"
    by (auto split: Option.bind_splits)
  with Cons reachable.step [OF Cons.prems(1)] show ?case by auto
qed simp

lemma run_total:
  assumes "switch_ok sw" "json_strings J" "all_admissible J sw is"
  shows "\<exists>sw'. run J sw is = Some sw' \<and> switch_ok sw'"
  using assms
proof (induction "is" arbitrary: sw)
  case (Cons i "is")
  then obtain sw1 where "handle J sw i = Some sw1" "switch_ok sw1" using handle_ok [of sw J i] by auto
  with Cons show ?case by simp
qed simp

end
