(* ===== verification/Auth.thy ===== *)
theory Auth
  imports Events
begin

text \<open>
  Who gets to be authenticated.  The handlers are followed step by step along a relation between
  the states, with one rule for each of the accesses of \<open>Switch_State\<close>.
\<close>

section \<open>Following a handler\<close>

locale state_rel =
  fixes R :: "switch \<Rightarrow> switch \<Rightarrow> bool"
  assumes refl [intro, simp]: "R sw sw"
    and trans: "R sw sw1 \<Longrightarrow> R sw1 sw2 \<Longrightarrow> R sw sw2"
begin

definition keeps :: "switch \<Rightarrow> switch option \<Rightarrow> bool" where
  "keeps sw m \<longleftrightarrow> (\<forall>sw'. m = Some sw' \<longrightarrow> R sw sw')"

definition keeps2 :: "switch \<Rightarrow> ('a \<times> switch) option \<Rightarrow> bool" where
  "keeps2 sw m \<longleftrightarrow> (\<forall>a sw'. m = Some (a, sw') \<longrightarrow> R sw sw')"

lemma keeps_Some [simp]: "keeps sw (Some sw') \<longleftrightarrow> R sw sw'"
  by (auto simp: keeps_def)

lemma keeps2_Some [simp]: "keeps2 sw (Some p) \<longleftrightarrow> R sw (snd p)"
  by (cases p) (auto simp: keeps2_def)

lemma keeps_None [simp]: "keeps sw None" "keeps2 sw None"
  by (simp_all add: keeps_def keeps2_def)

lemma keeps_read: "(\<And>a. m = Some a \<Longrightarrow> keeps sw (k a)) \<Longrightarrow> keeps sw (Option.bind m k)"
  "(\<And>a. m = Some a \<Longrightarrow> keeps2 sw (h a)) \<Longrightarrow> keeps2 sw (Option.bind m h)"
  by (auto simp: keeps_def keeps2_def split: Option.bind_splits)

lemma keeps_bind: "keeps sw m \<Longrightarrow> (\<And>sw1. R sw sw1 \<Longrightarrow> keeps sw1 (k sw1)) \<Longrightarrow> keeps sw (Option.bind m k)"
  "keeps sw m \<Longrightarrow> (\<And>sw1. R sw sw1 \<Longrightarrow> keeps2 sw1 (h sw1)) \<Longrightarrow> keeps2 sw (Option.bind m h)"
  by (auto simp: keeps_def keeps2_def split: Option.bind_splits intro: trans)

lemma keeps2_bind:
  "keeps2 sw m \<Longrightarrow> (\<And>a sw1. R sw sw1 \<Longrightarrow> keeps sw1 (k a sw1)) \<Longrightarrow>
   keeps sw (Option.bind m (\<lambda>p. case p of (a, sw1) \<Rightarrow> k a sw1))"
  "keeps2 sw m \<Longrightarrow> (\<And>a sw1. R sw sw1 \<Longrightarrow> keeps2 sw1 (h a sw1)) \<Longrightarrow>
   keeps2 sw (Option.bind m (\<lambda>p. case p of (a, sw1) \<Rightarrow> h a sw1))"
  by (auto simp: keeps_def keeps2_def split: Option.bind_splits prod.splits intro: trans)

lemma keeps_run: "keeps sw m \<Longrightarrow> m = Some sw' \<Longrightarrow> R sw sw'"
  by (simp add: keeps_def)

lemma keeps2_run: "keeps2 sw m \<Longrightarrow> m = Some (a, sw') \<Longrightarrow> R sw sw'"
  by (simp add: keeps2_def)

end

section \<open>Authenticated sessions\<close>

definition authed :: "switch \<Rightarrow> addr \<Rightarrow> bool" where
  "authed sw s \<longleftrightarrow> (\<exists>x. sessions sw s = Some x \<and> s_state x = SESSION_STATE_AUTHED)"

text \<open>No connection is unsecured.\<close>

definition secured :: "switch \<Rightarrow> bool" where
  "secured sw \<longleftrightarrow> (\<forall>n c. netcs sw n = Some c \<longrightarrow> n_security_level c \<noteq> NET_UNSECURE)"

text \<open>Then it stays so, and no session outside \<open>D\<close> becomes authenticated.\<close>

definition auth_only :: "addr set \<Rightarrow> switch \<Rightarrow> switch \<Rightarrow> bool" where
  "auth_only D sw sw' \<longleftrightarrow> (secured sw \<longrightarrow> secured sw' \<and> (\<forall>s. authed sw' s \<longrightarrow> authed sw s \<or> s \<in> D))"

interpretation ao: state_rel "auth_only D"
  by unfold_locales (auto simp: auth_only_def)

abbreviation "no_auth \<equiv> auth_only {}"

lemma auth_only_same:
  "sessions sw' = sessions sw \<Longrightarrow> netcs sw' = netcs sw \<Longrightarrow> auth_only D sw sw'"
  by (simp add: auth_only_def authed_def secured_def)

lemma auth_only_fields [simp]:
  "auth_only D sw (sw\<lparr>vnets := V\<rparr>)" "auth_only D sw (sw\<lparr>events := e\<rparr>)" "auth_only D sw (sw\<lparr>env_pos := k\<rparr>)"
  "auth_only D sw (sw\<lparr>tracking_table := tt\<rparr>)" "auth_only D sw (sw\<lparr>ctrl_initialized := b\<rparr>)"
  "auth_only D sw (snd (pipe_query J sw q))" "auth_only D sw (snd (sock_query J sw q))"
  by (simp_all add: auth_only_same pipe_query_def sock_query_def split: option.splits)

section \<open>Rules\<close>

named_theorems follow \<open>rules that follow a handler\<close>

lemma keeps_upd_sess [follow]:
  "(\<And>x. s_state (f x) = SESSION_STATE_AUTHED \<Longrightarrow> s_state x = SESSION_STATE_AUTHED) \<Longrightarrow>
   ao.keeps D sw (upd_sess sw p f)"
  by (auto simp: ao.keeps_def upd_sess_def auth_only_def authed_def secured_def split: Option.bind_splits if_splits)

lemma keeps_upd_vnet [follow]: "ao.keeps D sw (upd_vnet sw p f)"
  by (auto simp: ao.keeps_def upd_vnet_def split: Option.bind_splits)

lemma keeps_upd_netc [follow]:
  "(\<And>c. n_security_level (f c) = n_security_level c) \<Longrightarrow> ao.keeps D sw (upd_netc sw p f)"
  by (auto simp: ao.keeps_def upd_netc_def auth_only_def authed_def secured_def split: Option.bind_splits if_splits)

lemma keeps_net_call [follow]: "ao.keeps D sw (net_call sw p e)"
  by (auto simp: ao.keeps_def net_call_def split: Option.bind_splits)

lemma keeps_session_free [follow]: "ao.keeps D sw (session_free sw p)"
  by (auto simp: ao.keeps_def session_free_def auth_only_def authed_def secured_def
      split: option.splits Option.bind_splits if_splits)

lemma keeps_if [follow]:
  "(b \<Longrightarrow> ao.keeps D sw m) \<Longrightarrow> (\<not> b \<Longrightarrow> ao.keeps D sw n) \<Longrightarrow> ao.keeps D sw (if b then m else n)"
  "(b \<Longrightarrow> ao.keeps2 D sw m') \<Longrightarrow> (\<not> b \<Longrightarrow> ao.keeps2 D sw n') \<Longrightarrow> ao.keeps2 D sw (if b then m' else n')"
  by simp_all

lemma keeps_case [follow]:
  "ao.keeps D sw m \<Longrightarrow> (\<And>a. p = Some a \<Longrightarrow> ao.keeps D sw (k a)) \<Longrightarrow> ao.keeps D sw (case p of None \<Rightarrow> m | Some a \<Rightarrow> k a)"
  "ao.keeps2 D sw m' \<Longrightarrow> (\<And>a. p = Some a \<Longrightarrow> ao.keeps2 D sw (k' a)) \<Longrightarrow> ao.keeps2 D sw (case p of None \<Rightarrow> m' | Some a \<Rightarrow> k' a)"
  by (simp_all split: option.splits)

lemma keeps_or_return [follow]:
  "(\<And>a. p = Some a \<Longrightarrow> ao.keeps2 D sw (k a)) \<Longrightarrow> auth_only D sw (snd r) \<Longrightarrow> ao.keeps2 D sw (or_return p r k)"
  by (simp add: or_return_def split: option.splits)

lemma keeps_env [follow]:
  "ao.keeps D sw (net_call (sw\<lparr>env_pos := k\<rparr>) p e)" "ao.keeps D sw (net_call (sw\<lparr>tracking_table := tt\<rparr>) p e)"
   "ao.keeps D sw (upd_vnet (sw\<lparr>env_pos := k\<rparr>) p f)"
  by (auto simp: ao.keeps_def net_call_def upd_vnet_def intro!: auth_only_same split: Option.bind_splits)

lemma keeps_pair [follow]:
  "(\<And>a b. q = (a, b) \<Longrightarrow> ao.keeps D sw (k a b)) \<Longrightarrow> ao.keeps D sw (case q of (a, b) \<Rightarrow> k a b)"
  "(\<And>a b. q = (a, b) \<Longrightarrow> ao.keeps2 D sw (h a b)) \<Longrightarrow> ao.keeps2 D sw (case q of (a, b) \<Rightarrow> h a b)"
  by (simp_all split: prod.splits)

text \<open>On an unsecured connection there is nothing to show.\<close>

lemma keeps_unsecured:
  "get_netc sw p = Some c \<Longrightarrow> n_security_level c = NET_UNSECURE \<Longrightarrow> ao.keeps2 D sw m"
  by (auto simp: ao.keeps2_def auth_only_def secured_def get_netc_def split: Option.bind_splits)

lemmas follow_bind = ao.keeps_bind ao.keeps2_bind ao.keeps_read

section \<open>The handlers\<close>

lemma keeps_query_provisioning [follow]: "ao.keeps2 D sw (query_provisioning J sw s p)"
  by (auto simp: ao.keeps2_def query_provisioning_def Let_def pipe_query_def
      intro!: auth_only_same split: Option.bind_splits option.splits if_splits)

lemma keeps_update_node_status [follow]: "ao.keeps2 D sw (update_node_status J sw st ip u n)"
  by (auto simp: ao.keeps2_def update_node_status_def pipe_query_def
      intro!: auth_only_same split: Option.bind_splits option.splits)

lemma keeps_del_session [follow]: "ao.keeps D sw (vnetwork_del_session sw v s)"
  unfolding vnetwork_del_session_def
  by (rule follow_bind follow | simp split: prod.splits)+

lemma keeps_add_session [follow]: "ao.keeps D sw (vnetwork_add_session sw v s)"
  unfolding vnetwork_add_session_def
  by (rule follow_bind follow | simp split: prod.splits sum.splits | (intro conjI allI impI))+

lemma keeps_disconnect [follow]: "ao.keeps D sw (net_disconnect J sw p)"
proof -
  have "ao.keeps D sw (on_disconnect J sw n)" for n
    unfolding on_disconnect_def Let_def by (rule follow_bind follow | simp split: prod.splits)+
  moreover have "auth_only D sw (sw\<lparr>netcs := (netcs sw)(n := None), events := e\<rparr>)" for sw n e
    by (simp add: auth_only_def secured_def authed_def)
  ultimately show ?thesis
    unfolding net_disconnect_def by (auto split: option.splits intro!: ao.keeps_bind)
qed

lemma keeps_terminate [follow]: "ao.keeps D sw (session_terminate J sw s)"
  unfolding session_terminate_def by (rule follow_bind follow)+

lemma keeps_provRequest [follow]: "ao.keeps D sw (provRequest J sw s msg)"
  unfolding provRequest_def Let_def by (rule follow_bind follow | simp split: prod.splits)+

lemma keeps_authRequest [follow]: "ao.keeps2 D sw (authRequest J sw s msg)"
  unfolding authRequest_def Let_def
  by ((rule keeps_unsecured, assumption, assumption) | rule follow_bind follow | simp split: prod.splits)+

lemma keeps_netinfo [follow]: "ao.keeps D sw (handle_netinfo_request sw s msg)"
  unfolding handle_netinfo_request_def transmit_netinfo_response_def
  by (rule follow_bind follow | simp split: prod.splits)+

lemma keeps_flood [follow]: "ao.keeps D sw (flood sw msg l)"
proof -
  have "auth_only D sw sw'" if "flood sw msg l = Some sw'" for sw'
    using that
  proof (rule flood.raw_induct [where P = "\<lambda>sw msg l sw'. auth_only D sw sw'", rotated])
    fix f :: "switch \<Rightarrow> DNDSMessage \<Rightarrow> addr option \<Rightarrow> switch option" and sw msg l sw'
    assume f: "\<And>sw msg l y. f sw msg l = Some y \<Longrightarrow> auth_only D sw y"
      and run: "(if l \<noteq> None then do {
        x \<leftarrow> get_sess sw l;
        sw \<leftarrow> net_send_msg sw (s_netc x) msg;
        x \<leftarrow> get_sess sw l;
        f sw msg (s_next x) }
      else Some sw) = Some sw'"
    have "ao.keeps D sw1 (f sw1 msg q)" for sw1 q
      using f by (simp add: ao.keeps_def)
    then show "auth_only D sw sw'"
      by (intro ao.keeps_run [OF _ run]) (rule follow_bind follow | simp)+
  qed
  then show ?thesis by (simp add: ao.keeps_def)
qed

lemma keeps_learn [follow]: "ao.keeps2 D sw (learn_src sw s m)"
  unfolding learn_src_def session_add_mac_def
  by (rule follow_bind follow | simp split: prod.splits)+

lemma keeps_p2p [follow]: "ao.keeps D sw (p2pRequest sw a b)"
  unfolding p2pRequest_def next_env_def Let_def
  by (rule follow_bind follow | simp split: prod.splits)+

lemma keeps_introduce [follow]: "ao.keeps D sw (introduce sw a b)"
  unfolding introduce_def next_env_def Let_def
  by (rule follow_bind follow | simp split: prod.splits)+

lemma keeps_forward [follow]: "ao.keeps D sw (forward_ethernet sw s msg)"
  unfolding forward_ethernet_def
  by (rule follow_bind follow | simp split: prod.splits)+

lemma keeps_handle_msg [follow]: "ao.keeps D sw (handle_msg J sw s msg)"
  unfolding handle_msg_def dispatch_operation_def
  by (rule follow_bind follow | simp split: prod.splits pdu_PR.splits dnop_PR.splits | (intro conjI allI impI))+

lemma keeps_input_loop [follow]: "ao.keeps D sw (input_loop J sw s n)"
proof -
  have "auth_only D sw sw'" if "input_loop J sw s n = Some sw'" for sw'
    using that
  proof (rule input_loop.raw_induct [where P = "\<lambda>J sw s n sw'. auth_only D sw sw'", rotated])
    fix f :: "'a jansson \<Rightarrow> switch \<Rightarrow> addr option \<Rightarrow> addr \<Rightarrow> switch option" and J sw s n sw'
    assume f: "\<And>J sw s n y. f J sw s n = Some y \<Longrightarrow> auth_only D sw y"
      and run: "do {
        c \<leftarrow> netcs sw n;
        (if n_queue_msg c \<noteq> [] then do {
           sw \<leftarrow> handle_msg J sw s (hd (n_queue_msg c));
           sw \<leftarrow> upd_netc sw (Some n) (\<lambda>c. c\<lparr>n_queue_msg := tl (n_queue_msg c)\<rparr>);
           f J sw s n }
         else Some sw) } = Some sw'"
    have "ao.keeps D sw1 (f J sw1 q m)" for sw1 q m
      using f by (simp add: ao.keeps_def)
    then show "auth_only D sw sw'"
      by (intro ao.keeps_run [OF _ run]) (rule follow_bind follow | simp)+
  qed
  then show ?thesis by (simp add: ao.keeps_def)
qed

lemma keeps_on_input [follow]: "ao.keeps D sw (on_input J sw n)"
  unfolding on_input_def Let_def by (rule follow_bind follow)+

lemma keeps_del_node [follow]: "ao.keeps2 D sw (del_node J sw jmsg)"
  unfolding del_node_def by (rule follow_bind follow | simp split: prod.splits)+

lemma keeps_purge_loop [follow]: "ao.keeps D sw (purge_loop sw l)"
proof -
  have "auth_only D sw sw'" if "purge_loop sw l = Some sw'" for sw'
    using that
  proof (rule purge_loop.raw_induct [where P = "\<lambda>sw l sw'. auth_only D sw sw'", rotated])
    fix f :: "switch \<Rightarrow> addr option \<Rightarrow> switch option" and sw l sw'
    assume f: "\<And>sw l y. f sw l = Some y \<Longrightarrow> auth_only D sw y"
      and run: "(if l \<noteq> None then do {
        sw \<leftarrow> upd_sess sw l (s_state_update (\<lambda>_. SESSION_STATE_PURGE));
        sw \<leftarrow> upd_sess sw l (s_vnetwork_update (\<lambda>_. None));
        x \<leftarrow> get_sess sw l;
        f sw (s_next x) }
      else Some sw) = Some sw'"
    have "ao.keeps D sw1 (f sw1 q)" for sw1 q
      using f by (simp add: ao.keeps_def)
    then show "auth_only D sw sw'"
      by (intro ao.keeps_run [OF _ run]) (rule follow_bind follow | simp)+
  qed
  then show ?thesis by (simp add: ao.keeps_def)
qed

lemma keeps_vnetwork_free [follow]: "ao.keeps D sw (vnetwork_free sw v)"
  unfolding vnetwork_free_def by (rule follow_bind follow | simp)+

lemma keeps_disable [follow]: "ao.keeps2 D sw (vnetwork_disable sw u)"
  by (auto simp: ao.keeps2_def vnetwork_disable_def Let_def intro!: auth_only_same
      split: Option.bind_splits option.splits)

lemma keeps_del_network [follow]: "ao.keeps2 D sw (del_network J sw jmsg)"
  unfolding del_network_def by (rule follow_bind follow | simp)+

lemma keeps_provisioning [follow]: "ao.keeps2 D sw (provisioning J sw jmsg)"
  unfolding provisioning_def Let_def
  by (rule follow_bind follow ao.keeps2_Some [THEN iffD2] auth_only_same | simp)+

lemma keeps_listall_node_loop [follow]: "ao.keeps2 D sw (listall_node_loop J sw js i n)"
proof (induction n arbitrary: sw i)
  case (Suc n)
  show ?case
    unfolding listall_node_loop.simps by (rule follow_bind follow Suc | simp split: prod.splits)+
qed simp

lemma keeps_create [follow]: "ao.keeps2 D sw (vnetwork_create sw vid u a m c p t)"
  by (auto simp: ao.keeps2_def vnetwork_create_def session_new_def session_zero_def Let_def auth_only_def secured_def
      authed_def split: Option.bind_splits if_splits)

lemma keeps_listall_network_loop [follow]: "ao.keeps2 D sw (listall_network_loop J sw js i n nid)"
proof (induction n arbitrary: sw i nid)
  case (Suc n)
  show ?case
    unfolding listall_network_loop.simps Let_def by (rule follow_bind follow Suc | simp split: prod.splits)+
qed simp

lemma keeps_dispatch_op [follow]: "ao.keeps2 D sw (dispatch_op J sw jmsg)"
  unfolding dispatch_op_def listall_node_def listall_network_def query_list_node_def
  by (rule follow_bind follow | simp split: prod.splits)+

lemma keeps_pipe_read [follow]: "ao.keeps D sw (pipe_read_cb sw)"
  by (auto simp: ao.keeps_def pipe_read_cb_def Let_def intro!: auth_only_same split: Option.bind_splits)

section \<open>The gate\<close>

text \<open>\<open>on_secure\<close> authenticates the session of its connection, if at all, and only when the
  session waits for it, and the certificate names a node that the network knows.\<close>

definition may_open :: "switch \<Rightarrow> addr \<Rightarrow> u8 list option \<Rightarrow> u8 list option \<Rightarrow> addr \<Rightarrow> bool" where
  "may_open sw n altname cn s \<longleftrightarrow> (\<exists>c x v vn ni a. netcs sw n = Some c \<and> n_ext_ptr c = Some s
     \<and> sessions sw s = Some x \<and> s_state x = SESSION_STATE_WAIT_STEPUP
     \<and> s_vnetwork x = Some v \<and> vnets sw v = Some vn \<and> cert_node altname cn = Some (Some ni)
     \<and> ctable_find (v_atable vn) (ni_uuid ni) = Some (Some a))"

lemma on_secure_gate:
  assumes "on_secure J sw n altname cn = Some sw'"
  shows "auth_only {s. may_open sw n altname cn s} sw sw'"
proof -
  obtain c s x where c: "netcs sw n = Some c" "n_ext_ptr c = Some s" "sessions sw s = Some x"
    using assms by (auto simp: on_secure_def get_sess_def Let_def split: Option.bind_splits)
  have "ao.keeps {s. may_open sw n altname cn s} sw (on_secure J sw n altname cn)"
  proof (cases "may_open sw n altname cn s")
    case True
    have w: "ao.keeps {s. may_open sw n altname cn s} sw1
        (upd_sess sw1 (Some s) (\<lambda>x. x\<lparr>s_node_info := ni, s_state := SESSION_STATE_AUTHED\<rparr>))" for sw1 ni
      using True by (auto simp: ao.keeps_def upd_sess_def auth_only_def authed_def secured_def
          split: Option.bind_splits if_splits)
    show ?thesis
      unfolding on_secure_def Let_def c(1) Option.bind.bind_lunit c(2)
      by (rule follow_bind w follow | simp split: prod.splits option.splits)+
  next
    case False
    have same: "auth_only D sw (sw\<lparr>sessions := (sessions sw)(s \<mapsto> y)\<rparr>)" if "s_state y = s_state x" for D y
      using that c(3) by (auto simp: auth_only_def authed_def secured_def split: if_splits)
    consider (skip) "s_state x \<noteq> SESSION_STATE_WAIT_STEPUP \<or> s_node_info x = Dangling \<or> altname = None \<and> cn = None"
      | (none) "\<And>ni. cert_node altname cn \<noteq> Some (Some ni)"
      | (cert) ni where "s_state x = SESSION_STATE_WAIT_STEPUP" "s_node_info x \<noteq> Dangling" "altname \<noteq> None \<or> cn \<noteq> None"
          "cert_node altname cn = Some (Some ni)"
      by blast
    then show ?thesis
    proof cases
      case skip
      with c same show ?thesis by (auto simp: on_secure_def Let_def)
    next
      case none
      then have "cert_node altname cn = None \<or> cert_node altname cn = Some None"
        by (cases "cert_node altname cn") auto
      with c same show ?thesis by (auto simp: on_secure_def Let_def)
    next
      case cert
      have "ctable_find (v_atable vn) (ni_uuid ni) = Some known \<Longrightarrow> known = None"
        if "s_vnetwork x = Some v" "vnets sw v = Some vn" for v vn known
        using False that cert c by (cases known) (auto simp: may_open_def)
      then show ?thesis
        using c cert same
        by (auto simp: on_secure_def Let_def get_vnet_def ao.keeps_def net_call_def auth_only_def authed_def secured_def
            split: Option.bind_splits if_splits)
    qed
  qed
  from ao.keeps_run [OF this assms] show ?thesis .
qed

end
