(* ===== verification/Demo.thy ===== *)
theory Demo
  imports Auth
begin

text \<open>
  A small switch on which the properties of the switch are exercised: one network with two open
  sessions and a third that has been asked to secure its connection.
\<close>

section \<open>The switch\<close>

lemma table_of:
  "(\<forall>(k, s) \<in> set kvs. 37 \<le> length k) \<Longrightarrow>
   \<exists>t :: (u8 list, addr) jsw_hash. ct.invar t \<and> ct.absm t = map_of (map (\<lambda>(k, s). (uuid_value k, s)) kvs)"
proof (induction kvs)
  case Nil
  then show ?case using ct.hnew_ok [of 7 "\<lambda>x. x"] by auto
next
  case (Cons kv kvs)
  obtain k s where kv: "kv = (k, s)" "37 \<le> length k" using Cons.prems by (cases kv) auto
  obtain t :: "(u8 list, addr) jsw_hash" where t: "ct.invar t" "ct.absm t = map_of (map (\<lambda>(k, s). (uuid_value k, s)) kvs)"
    using Cons by auto
  obtain r g t1 where e: "ctable_erase (Some t) k = Some (r, g, Some t1)" "ct.invar t1"
      "ct.absm t1 = (ct.absm t)(uuid_value k := None)"
    using ctable_erase_ok [OF t(1) kv(2)] by blast
  obtain r2 t2 where "ctable_insert (Some t1) k (Some s) = Some (r2, Some t2)" "ct.invar t2"
      "ct.absm t2 = (ct.absm t1)(uuid_value k \<mapsto> s)"
    using ctable_insert_ok [OF e(2) kv(2), of s] e(3) by auto
  with e t kv show ?case by auto
qed

definition demo_uuid :: "u8 \<Rightarrow> u8 list" where
  "demo_uuid k = replicate 36 k @ [0]"

definition demo_node :: "u8 \<Rightarrow> node_info" where
  "demo_node k = node_info_zero\<lparr>ni_v := 2, ni_uuid := demo_uuid k, ni_network_uuid := demo_uuid 0x62\<rparr>"

definition demo_session :: "u8 \<Rightarrow> addr \<Rightarrow> session" where
  "demo_session k n = session_zero\<lparr>s_state := SESSION_STATE_AUTHED, s_node_info := Own (demo_node k), s_netc := Some n,
     s_vnetwork := Some 0\<rparr>"

definition demo_netc :: "addr \<Rightarrow> u8 \<Rightarrow> netc" where
  "demo_netc s k = \<lparr>n_host = [k, 0], n_security_level = NET_SECURE_ADH, n_ext_ptr = Some s, n_queue_msg = []\<rparr>"

definition demo_network ::
  "(u8 list, addr) jsw_hash \<Rightarrow> (u8 list, addr) jsw_hash \<Rightarrow> (u8 list, addr) jsw_hash \<Rightarrow> vnetwork" where
  "demo_network ft ct at = \<lparr>v_id = [49, 0], v_uuid = demo_uuid 0x62, v_ftable = Some ft, v_ctable = Some ct,
     v_atable = Some at, v_active_node = 2, v_linkst = Some (linkst_new 1024 300), v_bitpool = 3 # replicate 127 0,
     v_session_list = Some 5, v_access_session = Some 1, v_passport = ([1], [2], [3])\<rparr>"

definition demo_switch_as ::
  "u8 \<Rightarrow> (u8 list, addr) jsw_hash \<Rightarrow> (u8 list, addr) jsw_hash \<Rightarrow> (u8 list, addr) jsw_hash \<Rightarrow> switch" where
  "demo_switch_as k ft ct at = (switch_start (\<lambda>i. int i))\<lparr>
     sessions := [1 \<mapsto> session_zero\<lparr>s_state := SESSION_STATE_NOT_AUTHED\<rparr>,
       3 \<mapsto> (demo_session 0x31 2)\<lparr>s_id := 1, s_prev := Some 5\<rparr>,
       5 \<mapsto> (demo_session 0x32 4)\<lparr>s_id := 2, s_next := Some 3\<rparr>,
       7 \<mapsto> (demo_session k 6)\<lparr>s_state := SESSION_STATE_WAIT_STEPUP\<rparr>],
     netcs := [2 \<mapsto> demo_netc 3 65, 4 \<mapsto> demo_netc 5 66, 6 \<mapsto> demo_netc 7 67],
     vnets := [0 \<mapsto> demo_network ft ct at], vnetworks := [replicate 36 0x62 \<mapsto> 0], vnetworks_id := [[49] \<mapsto> 0],
     brk := 8\<rparr>"

text \<open>The node the third session claims is in the connection table unless the session of that node
  is there already.\<close>

definition demo_nodes :: "u8 \<Rightarrow> u8 list \<rightharpoonup> addr" where
  "demo_nodes k = (let m = [replicate 36 0x31 \<mapsto> 3, replicate 36 0x32 \<mapsto> 5] in
     if k = 0x61 then m(replicate 36 0x61 \<mapsto> 7) else m)"

definition demo_known :: "u8 list \<rightharpoonup> addr" where
  "demo_known = [replicate 36 0x31 \<mapsto> 1, replicate 36 0x32 \<mapsto> 1, replicate 36 0x61 \<mapsto> 1]"

definition demo_tables_as ::
  "u8 \<Rightarrow> (u8 list, addr) jsw_hash \<Rightarrow> (u8 list, addr) jsw_hash \<Rightarrow> (u8 list, addr) jsw_hash \<Rightarrow> bool" where
  "demo_tables_as k ft ct at \<longleftrightarrow> ft.invar ft \<and> ft.absm ft = Map.empty \<and> ct.invar ct \<and> ct.absm ct = demo_nodes k
     \<and> ct.invar at \<and> ct.absm at = demo_known"

abbreviation "demo_switch \<equiv> demo_switch_as 0x61"
abbreviation "demo_tables \<equiv> demo_tables_as 0x61"

lemma uuid_demo [simp]: "uuid_value (demo_uuid k) = replicate 36 k" "length (demo_uuid k) = 37" "terminated (demo_uuid k)"
  by (simp_all add: uuid_value_def demo_uuid_def)

lemma demo_tables_exist: "\<exists>ft ct at. demo_tables_as k ft ct at"
proof -
  let ?kvs = "[(demo_uuid 0x32, 5), (demo_uuid 0x31, 3)]"
  obtain ft :: "(u8 list, addr) jsw_hash" where "ft.invar ft" "ft.absm ft = Map.empty"
    using ft.hnew_ok [of 7 "\<lambda>x. x"] by auto
  moreover obtain ct :: "(u8 list, addr) jsw_hash" where "ct.invar ct" "ct.absm ct = demo_nodes k"
    using table_of [of "(demo_uuid 0x61, 7) # ?kvs"] table_of [of ?kvs]
    by (cases "k = 0x61") (auto simp: demo_nodes_def)
  moreover obtain at :: "(u8 list, addr) jsw_hash" where "ct.invar at" "ct.absm at = demo_known"
    using table_of [of "[(demo_uuid 0x61, 1), (demo_uuid 0x32, 1), (demo_uuid 0x31, 1)]"] by (auto simp: demo_known_def)
  ultimately show ?thesis unfolding demo_tables_as_def by blast
qed

lemma demo_session_fields:
  "s_node_info (demo_session k n) = Own (demo_node k)" "s_netc (demo_session k n) = Some n"
  "s_vnetwork (demo_session k n) = Some 0" "s_mac_list (demo_session k n) = []" "s_next (demo_session k n) = None"
  "s_prev (demo_session k n) = None" "s_id (demo_session k n) = 0" "s_ip (demo_session k n) = None"
  "s_state (demo_session k n) = SESSION_STATE_AUTHED" "s_ip_local (demo_session k n) = replicate 16 0"
  "s_tun_mac_addr (demo_session k n) = replicate 6 0"
  by (simp_all add: demo_session_def session_zero_def)

lemma demo_node_ok: "node_info_ok (demo_node k)" "ni_uuid (demo_node k) = demo_uuid k"
  by (simp_all add: demo_node_def node_info_ok_def node_info_zero_def)

lemma demo_fields:
  "sessions (demo_switch_as k ft ct at) (Suc 0) = Some (session_zero\<lparr>s_state := SESSION_STATE_NOT_AUTHED\<rparr>)"
  "sessions (demo_switch_as k ft ct at) 1 = Some (session_zero\<lparr>s_state := SESSION_STATE_NOT_AUTHED\<rparr>)"
  "sessions (demo_switch_as k ft ct at) 3 = Some ((demo_session 0x31 2)\<lparr>s_id := 1, s_prev := Some 5\<rparr>)"
  "sessions (demo_switch_as k ft ct at) 5 = Some ((demo_session 0x32 4)\<lparr>s_id := 2, s_next := Some 3\<rparr>)"
  "sessions (demo_switch_as k ft ct at) 7 = Some ((demo_session k 6)\<lparr>s_state := SESSION_STATE_WAIT_STEPUP\<rparr>)"
  "netcs (demo_switch_as k ft ct at) = [2 \<mapsto> demo_netc 3 65, 4 \<mapsto> demo_netc 5 66, 6 \<mapsto> demo_netc 7 67]"
  "vnets (demo_switch_as k ft ct at) = [0 \<mapsto> demo_network ft ct at]"
  "vnetworks (demo_switch_as k ft ct at) = [replicate 36 0x62 \<mapsto> 0]" "vnetworks_id (demo_switch_as k ft ct at) = [[49] \<mapsto> 0]"
  "events (demo_switch_as k ft ct at) = []" "tracking_id (demo_switch_as k ft ct at) = 0"
  "tracking_table (demo_switch_as k ft ct at) = replicate 4096 None" "pipe (demo_switch_as k ft ct at) = []"
  by (simp_all add: demo_switch_as_def switch_start_def)

lemma demo_sessions_cases:
  assumes "sessions (demo_switch_as k ft ct at) s = Some x"
  obtains "s = 1" "x = session_zero\<lparr>s_state := SESSION_STATE_NOT_AUTHED\<rparr>"
    | "s = 3" "x = (demo_session 0x31 2)\<lparr>s_id := 1, s_prev := Some 5\<rparr>"
    | "s = 5" "x = (demo_session 0x32 4)\<lparr>s_id := 2, s_next := Some 3\<rparr>"
    | "s = 7" "x = (demo_session k 6)\<lparr>s_state := SESSION_STATE_WAIT_STEPUP\<rparr>"
  using assms by (auto simp: demo_switch_as_def split: if_splits)

lemma cbytes_append: "0 \<notin> set s \<Longrightarrow> cbytes (s @ [0]) = Some s"
proof -
  assume s: "0 \<notin> set s"
  then have "strlen (s @ [0]) = Some (length s)" by (induction s) auto
  then show ?thesis by (simp add: cbytes_def)
qed

lemma demo_bits: "bits_set (3 # replicate 127 0) = {0, 1}"
proof -
  have three: "bit (3::u8) k \<longleftrightarrow> k < 2" for k
    by (cases k) (auto simp: bit_Suc bit_1_iff)
  have "bit ((3 # replicate 127 0) ! (b div 8) :: u8) (b mod 8) \<longleftrightarrow> b < 2" if "b < 1024" for b
  proof (cases "b div 8")
    case 0
    then have "b mod 8 = b" by (simp add: div_eq_0_iff)
    with 0 three [of b] show ?thesis by (simp only: nth_Cons_0)
  next
    case (Suc i)
    then have "i < 127" "8 \<le> b" using that by (auto intro: ccontr)
    with Suc show ?thesis by simp
  qed
  then show ?thesis by (auto simp: bits_set_def)
qed

lemma demo_network_ok:
  assumes "demo_tables_as k ft ct at"
  shows "vnet_ok (sessions (demo_switch_as k ft ct at)) 0 (demo_network ft ct at)"
proof -
  let ?S = "sessions (demo_switch_as k ft ct at)" and ?vn = "demo_network ft ct at"
  note f = demo_fields demo_session_fields demo_node_ok session_zero_def
  have "ftable_ok ?S 0 ?vn" using assms by (simp add: ftable_ok_def demo_tables_as_def demo_network_def)
  moreover have "ctable_ok ?S 0 ?vn"
  proof -
    have "\<exists>x ni. ?S s = Some x \<and> s_vnetwork x = Some 0 \<and> s_node_info x = Own ni \<and> uuid_value (ni_uuid ni) = u"
      if "demo_nodes k u = Some s" for u s
      using that by (auto simp: demo_nodes_def Let_def f split: if_splits)
    then show ?thesis using assms by (simp add: ctable_ok_def demo_tables_as_def demo_network_def)
  qed
  moreover have "linkst_wf (linkst_new 1024 300)" "upper_limit (linkst_new 1024 300) = 1024"
    by (rule linkst_new_wf) (simp_all add: linkst_new_def)
  ultimately show ?thesis
    using assms by (simp add: vnet_ok_def demo_network_def demo_tables_as_def f)
qed

lemma demo_ok:
  assumes "demo_tables_as k ft ct at"
  shows "switch_ok (demo_switch_as k ft ct at)"
  unfolding switch_ok_def
proof (intro conjI allI impI)
  let ?sw = "demo_switch_as k ft ct at"
  show "heap_ok ?sw" by (simp add: heap_ok_def demo_switch_as_def)
  show "session_ok (netcs ?sw) (vnets ?sw) s x" if "sessions ?sw s = Some x" for s x
    using that
    by (cases rule: demo_sessions_cases)
      (simp_all add: session_ok_def demo_fields demo_session_fields demo_node_ok demo_netc_def session_zero_def)
  show "netc_ok (sessions ?sw) n c" if "netcs ?sw n = Some c" for n c
    using that by (auto simp: netc_ok_def demo_fields demo_session_fields demo_netc_def split: if_splits)
  show "vnet_ok (sessions ?sw) v vn" if "vnets ?sw v = Some vn" for v vn
    using that demo_network_ok [OF assms] by (auto simp: demo_fields split: if_splits)
  show "\<exists>r. links_ok (sessions ?sw) r"
  proof (rule exI [of _ "\<lambda>a. a"])
    show "links_ok (sessions ?sw) (\<lambda>a. a)"
      unfolding links_ok_def
      by (auto simp: lview_def demo_fields demo_session_fields session_zero_def elim!: demo_sessions_cases)
  qed
  show "ids_ok (sessions ?sw) (vnets ?sw)"
    unfolding ids_ok_def
    by (auto simp: iview_def demo_fields demo_session_fields session_zero_def demo_network_def demo_bits elim!: demo_sessions_cases)
  show "access_ok (vnets ?sw)" by (simp add: access_ok_def demo_fields)
  show "trees_ok ?sw"
    using cbytes_append [of "replicate 36 (0x62::u8)"] cbytes_append [of "[49::u8]"]
    by (simp add: trees_ok_def demo_fields demo_network_def demo_uuid_def)
qed (simp_all add: demo_fields)

end
