(* ===== verification/Switch_Props.thy ===== *)
theory Switch_Props
  imports Demo
begin

text \<open>
  What the switch promises: it stays in order and does not fault, only nodes the network knows
  are let in, frames stay within their network, and a session that ends leaves nothing behind.
\<close>

section \<open>The invariant, and no faults\<close>

text \<open>A JSON library whose values are strings, objects and arrays.\<close>

datatype json = JsText "u8 list" | JsObj "(string \<times> json) list" | JsArr "json list"

definition js_get :: "json \<Rightarrow> string \<Rightarrow> json option" where
  "js_get j k = (case j of JsObj kvs \<Rightarrow> map_of kvs k | _ \<Rightarrow> None)"

definition demo_json :: "json jansson" where
  "demo_json = \<lparr>object_get = js_get,
     unpack_s = (\<lambda>j k. case js_get j k of Some (JsText s) \<Rightarrow> Some (s @ [0]) | _ \<Rightarrow> None),
     array_size = (\<lambda>j. case j of JsArr xs \<Rightarrow> length xs | _ \<Rightarrow> 0),
     array_get = (\<lambda>j i. case j of JsArr xs \<Rightarrow> (if i < length xs then Some (xs ! i) else None) | _ \<Rightarrow> None),
     json_text = (\<lambda>_. Some [123, 125])\<rparr>"

lemma demo_json_strings: "json_strings demo_json"
  by (auto simp: json_strings_def demo_json_def split: option.splits json.splits)

definition js_text :: "string \<Rightarrow> json" where
  "js_text s = JsText (map of_char s)"

definition new_network :: json where
  "new_network = JsObj [(''action'', js_text ''listall-network''), (''response'', js_text ''success''),
     (''networks'', JsArr [JsObj [(''id'', js_text ''1''), (''uuid'', js_text ''net''), (''network'', js_text ''44.128.0.0''),
        (''netmask'', js_text ''255.255.0.0''), (''cert'', js_text ''c''), (''pkey'', js_text ''k''), (''tcert'', js_text ''t'')]])]"

lemma new_network_ok: "ctrl_msg_ok demo_json sw new_network"
  by (auto simp: ctrl_msg_ok_def new_network_def demo_json_def js_get_def prov_ok_def js_text_def
      split: if_splits)

lemma switch_handles:
  assumes "reachable J e sw" "json_strings J" "admissible J sw i"
  shows "\<exists>sw'. handle J sw i = Some sw' \<and> reachable J e sw'"
proof -
  obtain sw' where "handle J sw i = Some sw'" using handle_ok [OF reachable_ok [OF assms(1,2)] assms(2,3)] by blast
  with reachable.step [OF assms(1,3)] show ?thesis by blast
qed





section \<open>Who is let in\<close>

lemma reachable_secured: "reachable J e sw \<Longrightarrow> json_strings J \<Longrightarrow> secured sw"
  using netc_okD [OF reachable_ok] by (fastforce simp: secured_def netc_ok_def)

lemma connect_no_auth:
  assumes "net_on_connect J ok sw level host = Some sw'" "level \<noteq> NET_UNSECURE"
  shows "no_auth sw sw'"
proof -
  have new: "no_auth sw (sw\<lparr>netcs := (netcs sw)(n \<mapsto> c), brk := b\<rparr>)"
    if "n_security_level c \<noteq> NET_UNSECURE" for sw n c b
    using that by (simp add: auth_only_def authed_def secured_def)
  have fresh: "no_auth sw (snd (session_new ok sw))" for sw
    by (simp add: session_new_def Let_def auth_only_def authed_def secured_def session_zero_def)
  have conn: "no_auth sw1 sw2" if "on_connect J ok sw1 n = Some sw2" for sw1 sw2 n
  proof (cases ok)
    case False
    with that keeps_disconnect [of "{}" sw1 J "Some n"] show ?thesis
      by (simp add: on_connect_def session_new_def ao.keeps_def)
  next
    case True
    let ?sw = "snd (session_new ok sw1)"
    from True that have run: "do {
        c \<leftarrow> netcs ?sw n;
        ip \<leftarrow> strdup True (n_host c);
        sw \<leftarrow> upd_sess ?sw (Some (brk sw1)) (\<lambda>x. x\<lparr>s_ip := ip, s_netc := Some n\<rparr>);
        upd_netc sw (Some n) (n_ext_ptr_update (\<lambda>_. Some (brk sw1))) } = Some sw2"
      by (simp add: on_connect_def session_new_def Let_def)
    have "no_auth ?sw sw2"
      by (rule ao.keeps_run [OF _ run]) (rule follow_bind follow | simp)+
    with fresh show ?thesis by (rule ao.trans)
  qed
  let ?sw = "sw\<lparr>netcs := (netcs sw)(brk sw \<mapsto> \<lparr>n_host = host, n_security_level = level, n_ext_ptr = None,
      n_queue_msg = []\<rparr>), brk := Suc (brk sw)\<rparr>"
  have "on_connect J ok ?sw (brk sw) = Some sw'"
    using assms by (simp add: net_on_connect_def Let_def)
  from conn [OF this] have "no_auth ?sw sw'" .
  moreover have "no_auth sw ?sw" by (rule new) (simp add: assms(2))
  ultimately show ?thesis by (meson ao.trans)
qed

lemma keeps_handle:
  assumes "handle J sw i = Some sw'" "\<And>ok level host. i = Connect ok level host \<Longrightarrow> level \<noteq> NET_UNSECURE"
    "\<And>n altname cn. i \<noteq> Secure n altname cn"
  shows "no_auth sw sw'"
proof (cases i)
  case (Connect ok level host)
  with assms connect_no_auth show ?thesis by auto
next
  case (Input n msgs)
  have "ao.keeps {} sw (handle J sw i)"
    unfolding Input handle.simps by (rule follow_bind follow | simp)+
  from ao.keeps_run [OF this assms(1)] show ?thesis .
next
  case (Secure n altname cn)
  with assms(3) show ?thesis by blast
next
  case (Close n)
  with assms(1) ao.keeps_run [OF keeps_disconnect] show ?thesis by simp
next
  case (Controller jmsg)
  then obtain r where "dispatch_op J sw jmsg = Some (r, sw')" using assms(1) by (auto split: Option.bind_splits)
  from ao.keeps2_run [OF keeps_dispatch_op this] show ?thesis .
next
  case Controller_up
  with assms(1) show ?thesis
    by (auto simp: on_connected_def query_list_network_def sock_query_def intro!: auth_only_same split: option.splits)
next
  case Pipe
  with assms(1) ao.keeps_run [OF keeps_pipe_read] show ?thesis by simp
qed


definition demo_altname :: "u8 list" where
  "demo_altname = replicate 36 0x61 @ [0x40] @ replicate 36 0x62 @ [0]"

lemma demo_cert: "\<exists>ni. cert_node (Some demo_altname) None = Some (Some ni) \<and> uuid_value (ni_uuid ni) = replicate 36 0x61"
  using altname_fields [where u = "replicate 36 0x61" and n = "replicate 36 0x62" and sep = "0x40" and r = "[0]"]
  by (simp add: cert_node_def demo_altname_def uuid_value_def arr_def)

lemma demo_room: "bits_set (v_bitpool (demo_network ft ct at)) \<noteq> {..<1024}"
proof -
  have "(2::nat) \<in> {..<1024}" "(2::nat) \<notin> {0, 1}" by simp_all
  then have "{0, 1} \<noteq> {..<1024::nat}" by blast
  then show ?thesis by (simp add: demo_network_def demo_bits)
qed

lemma demo_secure_ok: "secure_ok (demo_switch ft ct at) 6 (Some demo_altname) None"
  unfolding secure_ok_def
proof (intro allI impI)
  fix c s x
  assume "netcs (demo_switch ft ct at) 6 = Some c" "n_ext_ptr c = Some s" "sessions (demo_switch ft ct at) s = Some x"
  then have x: "x = (demo_session 0x61 6)\<lparr>s_state := SESSION_STATE_WAIT_STEPUP\<rparr>"
    by (auto simp: demo_fields demo_netc_def)
  have room: "\<forall>v vn. s_vnetwork x = Some v \<longrightarrow> vnets (demo_switch ft ct at) v = Some vn \<longrightarrow> bits_set (v_bitpool vn) \<noteq> {..<1024}"
    using demo_room by (simp add: x demo_session_fields demo_fields)
  obtain ni where "cert_node (Some demo_altname) None = Some (Some ni)" "uuid_value (ni_uuid ni) = replicate 36 0x61"
    using demo_cert by blast
  with room show "(Some demo_altname \<noteq> None \<or> None \<noteq> (None :: u8 list option))
     \<and> (\<exists>ni ni0. cert_node (Some demo_altname) None = Some (Some ni) \<and> s_node_info x = Own ni0
          \<and> uuid_value (ni_uuid ni) = uuid_value (ni_uuid ni0))
     \<and> (\<forall>v vn. s_vnetwork x = Some v \<longrightarrow> vnets (demo_switch ft ct at) v = Some vn \<longrightarrow> bits_set (v_bitpool vn) \<noteq> {..<1024})"
    by (simp add: x demo_session_fields demo_node_ok)
qed

lemma demo_secured:
  assumes t: "demo_tables ft ct at"
  shows "\<exists>sw'. on_secure J (demo_switch ft ct at) 6 (Some demo_altname) None = Some sw'
    \<and> opened (demo_switch ft ct at) sw' 7 0 (demo_network ft ct at)"
proof -
  obtain ni where ni: "cert_node (Some demo_altname) None = Some (Some ni)" "uuid_value (ni_uuid ni) = replicate 36 0x61"
    using demo_cert by blast
  have s: "netcs (demo_switch ft ct at) 6 = Some (demo_netc 7 67)" "n_ext_ptr (demo_netc 7 67) = Some 7"
    "vnets (demo_switch ft ct at) 0 = Some (demo_network ft ct at)"
    by (simp_all add: demo_fields demo_netc_def)
  have "ct.absm at (replicate 36 0x61) \<noteq> None" "v_atable (demo_network ft ct at) = Some at"
    using t by (simp_all add: demo_tables_as_def demo_known_def demo_network_def)
  with on_secure_run [OF demo_ok [OF t] s(1) demo_secure_ok s(2) demo_fields(5) _ _ s(3) ni(1), of J] ni(2)
  show ?thesis by (auto simp: demo_session_fields)
qed


section \<open>Where frames go\<close>

text \<open>C4. The forwarding function of a network: a frame of an authenticated session is learned
  (the source address leads to the sender unless it is known already) and then goes, unchanged and
  once each, to \<open>targets\<close>: nowhere when source and destination belong to one session, to every open
  session of the network, in the order of its list, when the destination is a group address or
  unknown, and to the one session that owns the destination otherwise.  What else is sent is the
  introduction of the two ends of a unicast to each other.\<close>

theorem forwarding_function:
  assumes "switch_ok sw" and "sessions sw s = Some x" and "s_state x = SESSION_STATE_AUTHED" and "s_vnetwork x = Some v"
    and "pdu_choice msg = Ethernet e" and "obuf e = Some frame" and "12 \<le> length frame" and "open_sessions sw v xs"
  shows "\<exists>sw' intro. forward_ethernet sw (Some s) msg = Some sw'
    \<and> fib sw' v = fib_after sw v s (take 6 (drop 6 frame))
    \<and> events sw' = events sw @ map (\<lambda>a. Send (conn_of sw a) msg) (targets sw v s xs frame) @ intro
    \<and> (intro \<noteq> [] \<longrightarrow> \<not> group_addr (take 6 frame) \<and>
         (\<exists>a d m m'. fib sw' v (take 6 (drop 6 frame)) = Some a \<and> fib sw' v (take 6 frame) = Some d \<and> a \<noteq> d
            \<and> intro = [Send (conn_of sw a) m, Send (conn_of sw d) m'] \<and> pdu_present m = pdu_PR_dnm
            \<and> pdu_present m' = pdu_PR_dnm))"
  using forward_run [OF assms] by blast

definition demo_bytes :: "u8 \<Rightarrow> u8 \<Rightarrow> u8 list" where
  "demo_bytes dst src = replicate 6 dst @ replicate 6 src @ [8, 0]"

definition demo_frame :: "u8 \<Rightarrow> u8 \<Rightarrow> DNDSMessage" where
  "demo_frame dst src = \<lparr>msg_version = 1, msg_channel = 0, pdu_present = pdu_PR_ethernet,
     pdu_choice = Ethernet \<lparr>obuf = Some (demo_bytes dst src), osize = 14\<rparr>\<rparr>"

lemma demo_bytes [simp]:
  "take 6 (demo_bytes dst src) = replicate 6 dst" "take 6 (drop 6 (demo_bytes dst src)) = replicate 6 src"
  "length (demo_bytes dst src) = 14"
  by (simp_all add: demo_bytes_def)

lemma demo_frame [simp]:
  "pdu_choice (demo_frame dst src) = Ethernet \<lparr>obuf = Some (demo_bytes dst src), osize = 14\<rparr>"
  by (simp add: demo_frame_def)

lemma demo_open:
  "open_sessions (demo_switch ft ct at) 0 [5, 3]"
  by (simp add: open_sessions_def demo_fields demo_network_def demo_session_fields)

lemma demo_flood:
  assumes t: "demo_tables ft ct at"
  shows "fib_after (demo_switch ft ct at) 0 3 (replicate 6 0x0a) = [replicate 6 0x0a \<mapsto> 3]"
    and "group_addr (replicate 6 0xff)"
    and "targets (demo_switch ft ct at) 0 3 [5, 3] (demo_bytes 0xff 0x0a) = [5, 3]"
    and "conn_of (demo_switch ft ct at) 5 = 4" and "conn_of (demo_switch ft ct at) 3 = 2"
proof -
  have "fib (demo_switch ft ct at) 0 = Map.empty"
    using t by (simp add: fib_def demo_fields demo_network_def demo_tables_as_def)
  then show a: "fib_after (demo_switch ft ct at) 0 3 (replicate 6 0x0a) = [replicate 6 0x0a \<mapsto> 3]"
    by (simp add: fib_after_def)
  show g: "group_addr (replicate 6 0xff)" by (simp add: group_addr_def)
  have "replicate 6 (0xff::u8) \<noteq> replicate 6 0x0a" by (simp add: replicate_eq_replicate)
  then show "targets (demo_switch ft ct at) 0 3 [5, 3] (demo_bytes 0xff 0x0a) = [5, 3]"
    using g by (simp add: targets_def Let_def a)
  show "conn_of (demo_switch ft ct at) 5 = 4" "conn_of (demo_switch ft ct at) 3 = 2"
    by (simp_all add: conn_of_def demo_fields demo_session_fields)
qed

text \<open>A broadcast reaches both open sessions, and not the one that waits.\<close>

theorem forwarding_function_witness:
  "\<exists>ft ct at sw'. forward_ethernet (demo_switch ft ct at) (Some 3) (demo_frame 0xff 0x0a) = Some sw'
     \<and> fib sw' 0 = [replicate 6 0x0a \<mapsto> 3]
     \<and> events sw' = [Send 4 (demo_frame 0xff 0x0a), Send 2 (demo_frame 0xff 0x0a)]"
proof -
  obtain ft ct at where t: "demo_tables ft ct at" using demo_tables_exist by blast
  from forwarding_function [OF demo_ok [OF t] demo_fields(3) _ _ demo_frame [of "0xff" "0x0a"] _ _ demo_open]
  show ?thesis using demo_flood [OF t] by (fastforce simp: demo_session_fields demo_fields)
qed

text \<open>C5. Networks are isolated: whatever frame a session sends, and whatever its addresses, the
  switch sends to connections of sessions of the same network only, and a session that is not
  authenticated makes it send nothing at all.\<close>

theorem network_isolation:
  assumes "switch_ok sw" and "sessions sw s = Some x" and "pdu_choice msg = Ethernet e" and "obuf e = Some frame"
    and "12 \<le> length frame" and "Send n m \<in> set (drop (length (events sw)) (events sw'))"
    and "forward_ethernet sw (Some s) msg = Some sw'"
  shows "s_state x = SESSION_STATE_AUTHED \<and>
    (\<exists>t y. sessions sw t = Some y \<and> s_netc y = Some n \<and> s_vnetwork y = s_vnetwork x)"
proof (cases "s_state x = SESSION_STATE_AUTHED")
  case False
  with assms show ?thesis by (simp add: forward_ethernet_def)
next
  case True
  then obtain v vn where v: "s_vnetwork x = Some v" "vnets sw v = Some vn"
    using session_okD [OF assms(1,2)] by (auto simp: session_ok_def)
  obtain xs where xs: "open_sessions sw v xs" using open_sessions_exist [OF assms(1) v(2)] by blast
  obtain intro where run: "fib sw' v = fib_after sw v s (take 6 (drop 6 frame))"
      "events sw' = events sw @ map (\<lambda>a. Send (conn_of sw a) msg) (targets sw v s xs frame) @ intro"
      "intro \<noteq> [] \<longrightarrow> (\<exists>a d m m'. fib sw' v (take 6 (drop 6 frame)) = Some a \<and> fib sw' v (take 6 frame) = Some d
         \<and> intro = [Send (conn_of sw a) m, Send (conn_of sw d) m'])"
    using forward_run [OF assms(1,2) True v(1) assms(3,4,5) xs] assms(7) by auto
  have inside: "\<exists>y. sessions sw t = Some y \<and> s_netc y = Some (conn_of sw t) \<and> s_vnetwork y = s_vnetwork x"
    if c: "t = s \<or> fib sw v k = Some t \<or> t \<in> set xs" for t k
  proof -
    obtain y where y: "sessions sw t = Some y" "s_vnetwork y = Some v"
      using c assms(2) v(1) fib_member [OF assms(1)] open_sessions_members [OF assms(1) xs] by blast
    then have "s_netc y \<noteq> None" using session_okD [OF assms(1) y(1)] by (auto simp: session_ok_def)
    with y v(1) show ?thesis by (auto simp: conn_of_def)
  qed
  have known: "t = s \<or> (\<exists>k. fib sw v k = Some t)" if "fib_after sw v s k' m = Some t" for k' m t
    using that by (auto simp: fib_after_def split: if_splits)
  have target: "t \<in> set xs \<or> t = s \<or> (\<exists>k. fib sw v k = Some t)" if "t \<in> set (targets sw v s xs frame)" for t
    using that known [of "take 6 (drop 6 frame)" "take 6 frame" t] unfolding targets_def by (auto simp: Let_def split: if_splits)
  have "Send n m \<in> (\<lambda>a. Send (conn_of sw a) msg) ` set (targets sw v s xs frame) \<union> set intro"
    using assms(6) run(2) by simp
  then have "\<exists>t k. n = conn_of sw t \<and> (t = s \<or> fib sw v k = Some t \<or> t \<in> set xs)"
  proof
    assume "Send n m \<in> (\<lambda>a. Send (conn_of sw a) msg) ` set (targets sw v s xs frame)"
    then show ?thesis using target by blast
  next
    assume i: "Send n m \<in> set intro"
    then have "intro \<noteq> []" by auto
    with run(3) obtain a d m1 m2 where "fib sw' v (take 6 (drop 6 frame)) = Some a" "fib sw' v (take 6 frame) = Some d"
        "intro = [Send (conn_of sw a) m1, Send (conn_of sw d) m2]"
      by blast
    with i run(1) known show ?thesis by (metis empty_iff event.inject(1) insert_iff list.set)
  qed
  with inside True show ?thesis by metis
qed

theorem network_isolation_witness:
  "\<exists>ft ct at sw' y. forward_ethernet (demo_switch ft ct at) (Some 3) (demo_frame 0xff 0x0a) = Some sw'
     \<and> Send 4 (demo_frame 0xff 0x0a) \<in> set (events sw')
     \<and> (\<exists>t. sessions (demo_switch ft ct at) t = Some y) \<and> s_netc y = Some 4 \<and> s_vnetwork y = Some 0"
proof -
  obtain ft ct at where t: "demo_tables ft ct at" using demo_tables_exist by blast
  from forward_run [OF demo_ok [OF t] demo_fields(3) _ _ demo_frame [of "0xff" "0x0a"] _ _ demo_open]
  obtain sw' where sw': "forward_ethernet (demo_switch ft ct at) (Some 3) (demo_frame 0xff 0x0a) = Some sw'"
      "Send 4 (demo_frame 0xff 0x0a) \<in> set (events sw')"
    using demo_flood [OF t] by (fastforce simp: demo_session_fields demo_fields)
  from network_isolation [OF demo_ok [OF t] demo_fields(3) demo_frame [of "0xff" "0x0a"] _ _ _ sw'(1)] sw'
  show ?thesis by (fastforce simp: demo_session_fields demo_fields)
qed

text \<open>C11. Two open sessions of a network are introduced to each other once: the first unicast between
  them makes the switch send both ends the hardware address, the address and the port of the
  other; after it, unicasts in either direction introduce nobody.\<close>

theorem introduced_once:
  assumes "switch_ok sw" and "sessions sw a = Some xa" and "s_state xa = SESSION_STATE_AUTHED" and "s_vnetwork xa = Some v"
    and "sessions sw b = Some xb" and "s_state xb = SESSION_STATE_AUTHED" and "s_vnetwork xb = Some v"
  shows "\<exists>sw'. introduce sw (Some a) (Some b) = Some sw'
    \<and> events sw' = events sw @ (if (s_id xa, s_id xb) \<in> linked_pairs sw v then [] else p2p_events sw a b)
    \<and> introduce sw' (Some a) (Some b) = Some sw' \<and> introduce sw' (Some b) (Some a) = Some sw'"
proof -
  have range: "1 \<le> s_id x \<and> s_id x \<le> 1024"
    if s: "sessions sw s = Some x" "s_state x = SESSION_STATE_AUTHED" "s_vnetwork x = Some v" for s x
  proof -
    obtain vn where vn: "vnets sw v = Some vn" "vnet_ok (sessions sw) v vn"
      using session_vnet [OF assms(1) s(1,3)] by blast
    have i: "s_id x \<noteq> 0" using session_okD [OF assms(1) s(1)] s(2) by (simp add: session_ok_def)
    have "ids_ok (sessions sw) (vnets sw)" using assms(1) by (simp add: switch_ok_def)
    moreover have "iview (sessions sw) s = Some (Some v, s_id x)" using s by (simp add: iview_def)
    ultimately have "unat (s_id x - 1) \<in> bits_set (v_bitpool vn)" using ids_okD vn(1) i by blast
    then have "unat (s_id x - 1) < 1024" using vn(2) by (simp add: bits_set_def vnet_ok_def)
    then have "s_id x - 1 < 1024" by (simp add: word_less_nat_alt)
    with i show ?thesis by uint_arith
  qed
  obtain vn l where l: "vnets sw v = Some vn" "v_linkst vn = Some l" "linkst_wf l"
    using session_vnet [OF assms(1,2,4)] by (auto simp: vnet_ok_def)
  have sym: "sym (linked_pairs sw v)" using links_sym [OF l(3)] l by (simp add: linked_pairs_def)
  obtain sw' where sw': "introduce sw (Some a) (Some b) = Some sw'" "switch_ok sw'" "same_nets sw sw'"
      "if (s_id xa, s_id xb) \<in> linked_pairs sw v then sw' = sw
       else events sw' = events sw @ p2p_events sw a b
         \<and> linked_pairs sw' v = link_spec 1024 (Join (s_id xa) (s_id xb) 0) (linked_pairs sw v)"
    using introduce_ok [OF assms(1,2,4,5,7)] by blast
  obtain ya yb where y: "sessions sw' a = Some ya" "s_vnetwork ya = Some v" "s_id ya = s_id xa"
      "sessions sw' b = Some yb" "s_vnetwork yb = Some v" "s_id yb = s_id xb"
    using same_nets_session [OF sw'(3) assms(2)] same_nets_session [OF sw'(3) assms(5)] assms(4,7) by auto
  have "(s_id xa, s_id xb) \<in> linked_pairs sw' v \<and> (s_id xb, s_id xa) \<in> linked_pairs sw' v"
    using sw'(4) sym range [OF assms(2,3,4)] range [OF assms(5,6,7)] by (auto split: if_splits dest: symD)
  then have "introduce sw' (Some a) (Some b) = Some sw'" "introduce sw' (Some b) (Some a) = Some sw'"
    using introduce_ok [OF sw'(2) y(1,2,4,5)] introduce_ok [OF sw'(2) y(4,5,1,2)] y(3,6) by auto
  with sw' show ?thesis by (auto split: if_splits)
qed

theorem introduced_once_witness:
  "\<exists>ft ct at sw'. introduce (demo_switch ft ct at) (Some 3) (Some 5) = Some sw'
     \<and> introduce sw' (Some 5) (Some 3) = Some sw'"
proof -
  obtain ft ct at where t: "demo_tables ft ct at" using demo_tables_exist by blast
  from introduced_once [OF demo_ok [OF t] demo_fields(3) _ _ demo_fields(4)] show ?thesis
    by (fastforce simp: demo_session_fields)
qed

end
