(* ===== verification/Switch_Life.thy ===== *)
theory Switch_Life
  imports Switch_Props
begin

text \<open>
  How a session of the switch begins and ends: it is opened when its connection has been secured,
  and it leaves when the connection goes, when the controller takes the node away, and when the
  network goes.
\<close>

section \<open>Opening\<close>



section \<open>Closing\<close>



section \<open>Revoking\<close>


definition del_demo :: json where
  "del_demo = JsObj [(''action'', js_text ''del-node''), (''node'', JsObj [(''uuid'', JsText (replicate 36 0x32)),
     (''networkuuid'', JsText (replicate 36 0x62))])]"


section \<open>A network that goes\<close>

text \<open>C10. When the controller deletes a network, the network is gone from the tree and from memory, and
  every open session of it is marked for purging and belongs to no network any more, so that its
  next input closes it; the sessions of other networks are not touched.\<close>

theorem deleted_network_is_closed:
  assumes "switch_ok sw" and "object_get J jmsg ''network'' = Some network" and "unpack_s J network ''networkuuid'' = Some u"
    and "cbytes u = Some k" and "vnetworks sw k = Some v" and "vnets sw v = Some vn" and "open_sessions sw v xs"
  shows "\<exists>sw'. del_network J sw jmsg = Some (0, sw') \<and> vnetwork_lookup sw' u = Some None \<and> vnets sw' v = None
    \<and> (\<forall>s \<in> set xs. \<exists>y. sessions sw' s = Some y \<and> s_state y = SESSION_STATE_PURGE \<and> s_vnetwork y = None)
    \<and> (\<forall>s x w. sessions sw s = Some x \<longrightarrow> s_vnetwork x = Some w \<longrightarrow> w \<noteq> v \<longrightarrow> sessions sw' s = Some x)"
proof -
  obtain I a where r: "del_network J sw jmsg = Some (0, sw\<lparr>vnetworks := (vnetworks sw)(k := None), vnetworks_id := I,
      sessions := (purged (set xs) (sessions sw))(a := None), vnets := (vnets sw)(v := None)\<rparr>)"
      "v_access_session vn = Some a"
    using del_network_run [OF assms] by blast
  have acc: "s_vnetwork x = None" if "sessions sw a = Some x" for x
    using vnet_okD [OF assms(1,6)] r(2) session_okD [OF assms(1) that] that by (auto simp: vnet_ok_def session_ok_def)
  have mem: "\<exists>x. sessions sw s = Some x \<and> s_vnetwork x = Some v" if "s \<in> set xs" for s
    using open_sessions_members [OF assms(1,7) that] by blast
  have "\<exists>y. ((purged (set xs) (sessions sw))(a := None)) s = Some y \<and> s_state y = SESSION_STATE_PURGE \<and> s_vnetwork y = None"
    if "s \<in> set xs" for s
    using mem [OF that] acc that by (auto simp: purged_def)
  moreover have "((purged (set xs) (sessions sw))(a := None)) s = Some x"
    if "sessions sw s = Some x" "s_vnetwork x = Some w" "w \<noteq> v" for s x w
    using that mem [of s] acc by (auto simp: purged_def)
  ultimately show ?thesis using r(1) assms(4) by (auto simp: vnetwork_lookup_def)
qed

definition del_demo_network :: json where
  "del_demo_network = JsObj [(''network'', JsObj [(''networkuuid'', JsText (replicate 36 0x62))])]"

theorem deleted_network_is_closed_witness:
  "\<exists>ft ct at sw' y. del_network demo_json (demo_switch ft ct at) del_demo_network = Some (0, sw') \<and> vnets sw' 0 = None
     \<and> sessions sw' 3 = Some y \<and> s_state y = SESSION_STATE_PURGE"
proof -
  obtain ft ct at where t: "demo_tables ft ct at" using demo_tables_exist by blast
  let ?nw = "JsObj [(''networkuuid'', JsText (replicate 36 0x62))]"
  have j: "object_get demo_json del_demo_network ''network'' = Some ?nw"
    "unpack_s demo_json ?nw ''networkuuid'' = Some (demo_uuid 0x62)" "cbytes (demo_uuid 0x62) = Some (replicate 36 0x62)"
    using cbytes_append [of "replicate 36 (0x62::u8)"]
    by (simp_all add: demo_json_def del_demo_network_def js_get_def demo_uuid_def)
  from deleted_network_is_closed [OF demo_ok [OF t] j _ _ demo_open]
  show ?thesis by (fastforce simp: demo_fields)
qed

end
