(* ===== verification/Switch_Flaws.thy ===== *)
theory Switch_Flaws
  imports Switch_Life
begin

text \<open>
  Where the switch breaks what it promises: inputs its admissibility excludes, and behaviours its
  invariant allows although the code does not mean them.
\<close>

section \<open>Messages\<close>

text \<open>C29. Any client, authenticated or not, can crash the switch with one message: a DNM message whose
  operation is not one of the three requests (a \<open>terminateRequest\<close>, a response, or none at all)
  makes \<open>session_terminate\<close> release the session through \<open>net_disconnect\<close> and then a second
  time.\<close>

theorem unknown_operation_is_fatal:
  assumes "switch_ok sw" and "sessions sw s = Some x" and "s_netc x = Some n"
    and "pdu_present msg = pdu_PR_dnm" and "pdu_choice msg = Dnm d"
    and "dnop_present d \<notin> {dnop_PR_provRequest, dnop_PR_authRequest, dnop_PR_netinfoRequest}"
  shows "handle_msg J sw (Some s) msg = None"
proof -
  obtain c where c: "netcs sw n = Some c" "n_ext_ptr c = Some s" using session_netc [OF assms(1-3)] by blast
  obtain sw' where "net_disconnect J sw (Some n) = Some sw'" "sessions sw' s = None"
    using disconnect_run [OF assms(1) c assms(2), of J] by blast
  then have "session_terminate J sw (Some s) = None"
    using assms(2,3) by (simp add: session_terminate_def session_free_dead)
  then show ?thesis
    using assms(4-6)
    by (simp add: handle_msg_def dispatch_operation_def DNDSMessage_get_pdu_def DNMessage_get_operation_def
        for_dnm_def for_msg_def dnm_of_def split: dnop_PR.splits)
qed

definition demo_terminate :: DNDSMessage where
  "demo_terminate = \<lparr>msg_version = 1, msg_channel = 0, pdu_present = pdu_PR_dnm,
     pdu_choice = Dnm (dnm_zero\<lparr>dnop_present := dnop_PR_terminateRequest\<rparr>)\<rparr>"

theorem unknown_operation_is_fatal_witness:
  "\<exists>ft ct at. handle_msg demo_json (demo_switch ft ct at) (Some 7) demo_terminate = None"
proof -
  obtain ft ct at where t: "demo_tables ft ct at" using demo_tables_exist by blast
  from unknown_operation_is_fatal [OF demo_ok [OF t] demo_fields(5), of 6 demo_terminate]
  show ?thesis by (fastforce simp: demo_session_fields demo_terminate_def)
qed

section \<open>Handshakes that are not completed\<close>

text \<open>C31. A client that asks to be authenticated and leaves before its connection is secured takes the
  whole network down: \<open>vnetwork_del_session\<close>, called for a session that was never added, empties
  the session list, so that no broadcast and no frame to an unknown address reaches anyone any
  more, and counts one node less.\<close>

theorem abandoned_handshake_empties_network:
  assumes "switch_ok sw" and "netcs sw n = Some c" and "n_ext_ptr c = Some s" and "sessions sw s = Some x"
    and "s_state x = SESSION_STATE_WAIT_STEPUP" and "s_vnetwork x = Some v" and "vnets sw v = Some vn"
  shows "\<exists>sw' vn'. net_disconnect J sw (Some n) = Some sw' \<and> vnets sw' v = Some vn' \<and> v_session_list vn' = None
    \<and> v_active_node vn' = v_active_node vn - 1 \<and> (\<forall>msg. flood sw' msg (v_session_list vn') = Some sw')"
proof -
  have "s_next x = None" "s_prev x = None"
    using session_okD [OF assms(1,4)] assms(5) by (simp_all add: session_ok_def)
  then obtain sw' vn' where r: "net_disconnect J sw (Some n) = Some sw'" "vnets sw' v = Some vn'"
      "v_session_list vn' = None" "v_active_node vn' = v_active_node vn - 1"
    using disconnect_run [OF assms(1-4), of J] assms(6,7) by (auto simp: left_network_def)
  moreover have "flood sw' msg None = Some sw'" for msg by (subst flood.simps) simp
  ultimately show ?thesis by auto
qed

theorem abandoned_handshake_empties_network_witness:
  "\<exists>ft ct at sw' vn'. open_sessions (demo_switch ft ct at) 0 [5, 3]
     \<and> net_disconnect demo_json (demo_switch ft ct at) (Some 6) = Some sw' \<and> vnets sw' 0 = Some vn'
     \<and> v_session_list vn' = None"
proof -
  obtain ft ct at where t: "demo_tables ft ct at" using demo_tables_exist by blast
  have s: "netcs (demo_switch ft ct at) 6 = Some (demo_netc 7 67)" "n_ext_ptr (demo_netc 7 67) = Some 7"
    by (simp_all add: demo_fields demo_netc_def)
  from abandoned_handshake_empties_network [OF demo_ok [OF t] s demo_fields(5), of 0] demo_open
  show ?thesis by (fastforce simp: demo_session_fields demo_fields)
qed

text \<open>C30. A client need not prove who it is to undo the revocation of another: a session that claimed the
  node of a victim and leaves before its connection is secured erases the victim from the
  connection table; when the controller then deletes the victim's node, the victim's open session
  is not found, stays authenticated and goes on being served.\<close>

theorem impostor_shields_victim:
  assumes "switch_ok sw" and "netcs sw n = Some c" and "n_ext_ptr c = Some s" and "sessions sw s = Some x"
    and "s_state x = SESSION_STATE_WAIT_STEPUP" and "s_vnetwork x = Some v" and "s_node_info x = Own ni"
    and "object_get J jmsg ''node'' = Some node" and "unpack_s J node ''uuid'' = Some u"
    and "unpack_s J node ''networkuuid'' = Some nu" and "37 \<le> length u" and "uuid_value u = uuid_value (ni_uuid ni)"
    and "net_disconnect J sw (Some n) = Some sw1" and "vnetwork_lookup sw1 nu = Some (Some v)"
    and "authed sw t" and "t \<noteq> s"
  shows "\<exists>sw2. del_node J sw1 jmsg = Some (0, sw2) \<and> authed sw2 t"
proof -
  obtain vn vn' where d: "switch_ok sw1" "vnets sw1 v = Some vn'" "left_network x vn vn'"
    using disconnect_run [OF assms(1-4), of J] assms(6,13) by auto
  obtain ct' at where t: "v_ctable vn' = Some ct'" "ct.absm ct' (uuid_value u) = None" "v_atable vn' = Some at"
    using d(3) assms(7,12) vnet_okD [OF d(1,2)] by (auto simp: left_network_def vnet_ok_def)
  obtain y where y: "sessions sw t = Some y" "s_state y = SESSION_STATE_AUTHED" using assms(15) by (auto simp: authed_def)
  have "map_option (\<lambda>y. (s_state y, s_netc y, s_vnetwork y)) (sessions sw1 t)
      = map_option (\<lambda>y. (s_state y, s_netc y, s_vnetwork y)) (sessions sw t)"
    using disconnect_run [OF assms(1-4), of J] assms(13,16) by auto
  with y have "authed sw1 t" by (auto simp: authed_def)
  with del_node_run [OF d(1) assms(8-11,14) d(2) t(3,1)] t(2) show ?thesis by (fastforce simp: authed_def)
qed

lemma demo_lookup: "vnetworks sw = [replicate 36 0x62 \<mapsto> 0] \<Longrightarrow> vnetwork_lookup sw (demo_uuid 0x62) = Some (Some 0)"
  using cbytes_append [of "replicate 36 (0x62::u8)"] by (simp add: vnetwork_lookup_def demo_uuid_def)

text \<open>The third session of the demonstration switch claims the node of the second.\<close>

theorem impostor_shields_victim_witness:
  "\<exists>ft ct at sw1 sw2. net_disconnect demo_json (demo_switch_as 0x32 ft ct at) (Some 6) = Some sw1
     \<and> del_node demo_json sw1 del_demo = Some (0, sw2) \<and> authed sw2 5"
proof -
  obtain ft ct at where t: "demo_tables_as 0x32 ft ct at" using demo_tables_exist by blast
  let ?node = "JsObj [(''uuid'', JsText (replicate 36 0x32)), (''networkuuid'', JsText (replicate 36 0x62))]"
  have j: "object_get demo_json del_demo ''node'' = Some ?node" "unpack_s demo_json ?node ''uuid'' = Some (demo_uuid 0x32)"
    "unpack_s demo_json ?node ''networkuuid'' = Some (demo_uuid 0x62)"
    by (simp_all add: demo_json_def del_demo_def js_get_def demo_uuid_def)
  have s: "netcs (demo_switch_as 0x32 ft ct at) 6 = Some (demo_netc 7 67)" "n_ext_ptr (demo_netc 7 67) = Some 7"
    by (simp_all add: demo_fields demo_netc_def)
  from disconnect_run [OF demo_ok [OF t] s demo_fields(5), of demo_json]
  obtain sw1 where d: "net_disconnect demo_json (demo_switch_as 0x32 ft ct at) (Some 6) = Some sw1"
      "vnetworks sw1 = vnetworks (demo_switch_as 0x32 ft ct at)" by metis
  have "vnetwork_lookup sw1 (demo_uuid 0x62) = Some (Some 0)" by (rule demo_lookup) (simp add: d(2) demo_fields)
  note r = impostor_shields_victim [OF demo_ok [OF t] s demo_fields(5) _ _ _ j _ _ d(1) this, where t = 5]
  from r d(1) obtain sw2 where "del_node demo_json sw1 del_demo = Some (0, sw2)" "authed sw2 5"
    by (auto simp: demo_session_fields demo_node_ok authed_def demo_fields)
  with d(1) show ?thesis by blast
qed

section \<open>Provisioning\<close>

text \<open>What the controller answers: the certificate, the key, the trusted certificate and the address
  for the node, under the identifier of the request.\<close>

definition answers :: "'j jansson \<Rightarrow> 'j \<Rightarrow> u8 list \<Rightarrow> DNDSMessage \<Rightarrow> bool" where
  "answers J jmsg tid m \<longleftrightarrow> (\<exists>resp node cert pkey tcert ip.
     unpack_s J jmsg ''response'' = Some resp \<and> strneq resp (cmem ''success'') 8 = Some True
     \<and> unpack_s J jmsg ''tid'' = Some tid \<and> object_get J jmsg ''node'' = Some node
     \<and> unpack_s J node ''cert'' = Some cert \<and> unpack_s J node ''pkey'' = Some pkey \<and> unpack_s J node ''tcert'' = Some tcert
     \<and> unpack_s J node ''ipaddr'' = Some ip \<and> prov_response cert pkey tcert ip = Some (Some m))"

lemma provisioning_run:
  assumes a: "answers J jmsg tid m" and t: "atoi tid = Some 0" and len: "length (tracking_table sw) = 4096"
  shows "provisioning J sw jmsg = (case tracking_table sw ! 0 of
      None \<Rightarrow> Some (0, sw\<lparr>tracking_table := (tracking_table sw)[0 := None]\<rparr>)
    | Some s \<Rightarrow> do {
        x \<leftarrow> sessions sw s;
        sw \<leftarrow> net_send_msg (sw\<lparr>tracking_table := (tracking_table sw)[0 := None]\<rparr>) (s_netc x) m;
        Some (0, sw) })"
  using a t len
  by (auto simp: answers_def provisioning_def fetch_def store_def Let_def split: option.splits)

lemma query_provisioning_run:
  assumes "switch_ok sw"
  shows "query_provisioning J sw s code = do {
     c \<leftarrow> cbytes_opt code;
     Some (pipe_query J (sw\<lparr>tracking_table := (tracking_table sw)[0 := s]\<rparr>)
       [(''tid'', str ''0''), (''action'', str ''provisioning''), (''node'', JObj [(''provcode'', JStr c)])]) }"
proof -
  have "tracking_id sw = 0" "length (tracking_table sw) = 4096" using assms by (simp_all add: switch_ok_def)
  moreover have "int_text 0 = ''0''" by code_simp
  ultimately show ?thesis by (simp add: query_provisioning_def store_def Let_def)
qed

lemma pipe_query_table [simp]: "tracking_table (snd (pipe_query J sw q)) = tracking_table sw"
  by (simp add: pipe_query_def split: option.splits)

lemma query_provisioning_result:
  assumes "switch_ok sw" and "query_provisioning J sw s code = Some (r, sw')"
  shows "same_heap (sw\<lparr>tracking_table := (tracking_table sw)[0 := s]\<rparr>) sw' \<and> events sw' = events sw \<and> switch_ok sw'"
proof -
  have "same_heap (sw\<lparr>tracking_table := (tracking_table sw)[0 := s]\<rparr>) sw' \<and> events sw' = events sw"
    using assms(2) query_provisioning_run [OF assms(1), of J s code]
    by (auto simp: pipe_query_def same_heap_def split: Option.bind_splits option.splits)
  with same_heap_ok [OF conjunct1 [OF this] table_update_ok [OF assms(1)]] show ?thesis by blast
qed

text \<open>C28. Certificates and private keys are handed to the wrong client: \<open>tracking_id\<close> is never advanced,
  so every request for provisioning carries the identifier 0 and overwrites the table entry of the
  one before.  When two clients have asked, the answer to the first, key included, is sent to the
  second, and the answer to the second is dropped.\<close>

theorem provisioning_goes_to_the_last:
  assumes "switch_ok sw" and "query_provisioning J sw (Some a) code_a = Some (ra, sw1)"
    and "query_provisioning J sw1 (Some b) code_b = Some (rb, sw2)" and "sessions sw b = Some x" and "s_netc x = Some n"
    and "answers J answer_a tid_a m_a" and "answers J answer_b tid_b m_b" and "atoi tid_a = Some 0" and "atoi tid_b = Some 0"
  shows "\<exists>sw3 sw4. provisioning J sw2 answer_a = Some (0, sw3) \<and> events sw3 = events sw @ [Send n m_a]
    \<and> provisioning J sw3 answer_b = Some (0, sw4) \<and> events sw4 = events sw3"
proof -
  have q1: "same_heap (sw\<lparr>tracking_table := (tracking_table sw)[0 := Some a]\<rparr>) sw1" "events sw1 = events sw" "switch_ok sw1"
    using query_provisioning_result [OF assms(1,2)] by auto
  have q2: "same_heap (sw1\<lparr>tracking_table := (tracking_table sw1)[0 := Some b]\<rparr>) sw2" "events sw2 = events sw1" "switch_ok sw2"
    using query_provisioning_result [OF q1(3) assms(3)] by auto
  have len: "length (tracking_table sw1) = 4096" "length (tracking_table sw2) = 4096"
    using q1(3) q2(3) by (simp_all add: switch_ok_def)
  have tab: "tracking_table sw2 ! 0 = Some b" "sessions sw2 = sessions sw" "netcs sw2 = netcs sw"
    using q1(1) q2(1) len by (simp_all add: same_heap_def)
  obtain c where c: "netcs sw n = Some c" using session_netc [OF assms(1,4,5)] by blast
  define sw3 where "sw3 = sw2\<lparr>tracking_table := (tracking_table sw2)[0 := None], events := events sw2 @ [Send n m_a]\<rparr>"
  have "provisioning J sw2 answer_a = Some (0, sw3)"
    using provisioning_run [OF assms(6,8) len(2)] tab assms(4,5) c by (simp add: sw3_def)
  moreover have "length (tracking_table sw3) = 4096" "tracking_table sw3 ! 0 = None" using len by (simp_all add: sw3_def)
  then have "provisioning J sw3 answer_b = Some (0, sw3\<lparr>tracking_table := (tracking_table sw3)[0 := None]\<rparr>)"
    using provisioning_run [OF assms(7,9), of sw3] by simp
  ultimately show ?thesis using q1(2) q2(2) by (auto simp: sw3_def)
qed

definition demo_answer :: "u8 \<Rightarrow> json" where
  "demo_answer k = JsObj [(''response'', js_text ''success''), (''tid'', js_text ''0''),
     (''node'', JsObj [(''cert'', JsText [k]), (''pkey'', JsText [k]), (''tcert'', JsText [k]), (''ipaddr'', js_text ''1.2.3.4'')])]"

lemma demo_answers: "0 \<noteq> k \<Longrightarrow> \<exists>m. answers demo_json (demo_answer k) [48, 0] m"
proof -
  have "terminated (map of_char ''1.2.3.4'' @ [0 :: u8])" by simp
  from prov_response_some [of "[k, 0]" "[k, 0]" "[k, 0]", OF _ _ _ this]
  obtain m where m: "prov_response [k, 0] [k, 0] [k, 0] (map of_char ''1.2.3.4'' @ [0]) = Some (Some m)" by auto
  have "strneq (map of_char ''success'' @ [0]) (cmem ''success'') 8 = Some True" by (simp add: cmem_def numeral_eq_Suc)
  with m show ?thesis
    by (auto simp: answers_def demo_json_def demo_answer_def js_get_def js_text_def)
qed

lemma demo_query:
  assumes "switch_ok sw"
  shows "\<exists>sw'. query_provisioning demo_json sw (Some s) None = Some (0, sw') \<and> switch_ok sw' \<and> sessions sw' = sessions sw"
proof -
  have "\<exists>sw'. query_provisioning demo_json sw (Some s) None = Some (0, sw')"
    by (simp add: query_provisioning_run [OF assms] cbytes_opt_def pipe_query_def demo_json_def)
  with query_provisioning_result [OF assms, of demo_json "Some s" None] show ?thesis
    by (fastforce simp: same_heap_def)
qed

lemma atoi_zero: "atoi [48, 0] = Some 0"
  by (simp add: atoi_def cbytes_def is_blank_def)

theorem provisioning_goes_to_the_last_witness:
  "\<exists>ft ct at sw1 sw2 sw3 m. query_provisioning demo_json (demo_switch ft ct at) (Some 3) None = Some (0, sw1)
     \<and> query_provisioning demo_json sw1 (Some 5) None = Some (0, sw2)
     \<and> provisioning demo_json sw2 (demo_answer 1) = Some (0, sw3) \<and> answers demo_json (demo_answer 1) [48, 0] m
     \<and> events sw3 = [Send 4 m]"
proof -
  obtain ft ct at where t: "demo_tables ft ct at" using demo_tables_exist by blast
  obtain sw1 where 1: "query_provisioning demo_json (demo_switch ft ct at) (Some 3) None = Some (0, sw1)" "switch_ok sw1"
    using demo_query [OF demo_ok [OF t]] by blast
  obtain sw2 where 2: "query_provisioning demo_json sw1 (Some 5) None = Some (0, sw2)" using demo_query [OF 1(2)] by blast
  obtain m m' where m: "answers demo_json (demo_answer 1) [48, 0] m" "answers demo_json (demo_answer 2) [48, 0] m'"
    using demo_answers [of 1] demo_answers [of 2] by auto
  from provisioning_goes_to_the_last [OF demo_ok [OF t] 1(1) 2 demo_fields(4) _ m atoi_zero atoi_zero, of 4]
  obtain sw3 where "provisioning demo_json sw2 (demo_answer 1) = Some (0, sw3)" "events sw3 = [Send 4 m]"
    by (auto simp: demo_session_fields demo_fields)
  with 1(1) 2 m(1) show ?thesis by blast
qed

text \<open>The table of outstanding requests outlives the sessions in it: when a client asks to be
  provisioned and its connection goes before the controller answers, the answer makes the switch
  follow a pointer to released memory.\<close>

theorem provisioning_after_disconnect:
  assumes "switch_ok sw" and "query_provisioning J sw (Some s) code = Some (r, sw1)" and "netcs sw n = Some c"
    and "n_ext_ptr c = Some s" and "net_disconnect J sw1 (Some n) = Some sw2" and "answers J answer tid m" and "atoi tid = Some 0"
  shows "provisioning J sw2 answer = None"
proof -
  have q: "same_heap (sw\<lparr>tracking_table := (tracking_table sw)[0 := Some s]\<rparr>) sw1" "switch_ok sw1"
    using query_provisioning_result [OF assms(1,2)] by auto
  obtain x where x: "sessions sw s = Some x" using netc_session [OF assms(1,3)] assms(4) by auto
  have f: "netcs sw1 n = Some c" "sessions sw1 s = Some x" "length (tracking_table sw1) = 4096" "tracking_table sw1 ! 0 = Some s"
    using q x assms(1,3) by (simp_all add: same_heap_def switch_ok_def)
  have "sessions sw2 s = None" "tracking_table sw2 = tracking_table sw1"
    using disconnect_run [OF q(2) f(1) assms(4) f(2), of J] assms(5) by auto
  then show ?thesis using provisioning_run [OF assms(6,7), of sw2] f(3,4) by simp
qed

theorem provisioning_after_disconnect_witness:
  "\<exists>ft ct at sw1 sw2. query_provisioning demo_json (demo_switch ft ct at) (Some 3) None = Some (0, sw1)
     \<and> net_disconnect demo_json sw1 (Some 2) = Some sw2 \<and> provisioning demo_json sw2 (demo_answer 1) = None"
proof -
  obtain ft ct at where t: "demo_tables ft ct at" using demo_tables_exist by blast
  obtain sw1 where 1: "query_provisioning demo_json (demo_switch ft ct at) (Some 3) None = Some (0, sw1)" "switch_ok sw1"
    using demo_query [OF demo_ok [OF t]] by blast
  have n: "netcs (demo_switch ft ct at) 2 = Some (demo_netc 3 65)" "n_ext_ptr (demo_netc 3 65) = Some 3"
    by (simp_all add: demo_fields demo_netc_def)
  have "netcs sw1 2 = Some (demo_netc 3 65)"
    using query_provisioning_result [OF demo_ok [OF t] 1(1)] n(1) by (simp add: same_heap_def)
  then obtain sw2 where 2: "net_disconnect demo_json sw1 (Some 2) = Some sw2" using disconnect_ok [OF 1(2)] by blast
  obtain m where "answers demo_json (demo_answer 1) [48, 0] m" using demo_answers [of 1] by auto
  from provisioning_after_disconnect [OF demo_ok [OF t] 1(1) n 2 this atoi_zero] 1(1) 2 show ?thesis by blast
qed

end
