(* ===== verification/Pg.thy ===== *)
theory Pg
  imports Ippool
begin

text \<open>
  The controller's database: its three tables and the statements \<open>dao_prepare_statements\<close> of
  \<open>nvctrler/src/dao.c\<close> prepares, one function per statement.  A statement that breaks a key of
  \<open>netvirt.sql\<close> fails and changes nothing.

  What PostgreSQL contributes beyond the text of the statements is a record of functions: password
  hashing with its salts, message digests, lower-casing, the numbers and the identifiers a row is
  filled with by default, the clock,
  the engine behind texts that are not prepared, and the outcome of the \<open>n\<close>-th call.
\<close>

section \<open>Tables\<close>

record client_row =
  cl_id :: string
  cl_email :: string
  cl_password :: string
  cl_apikey :: string
  cl_status :: int
  cl_resetkey :: "string option"
  cl_resetdate :: "int option"

record context_row =
  cx_id :: string
  cx_uuid :: string
  cx_description :: string
  cx_client_id :: string
  cx_network :: string
  cx_embassy_certificate :: string
  cx_embassy_privatekey :: string
  cx_embassy_serial :: string
  cx_passport_certificate :: string
  cx_passport_privatekey :: string
  cx_ippool :: "u8 list"

record node_row =
  nd_network_uuid :: string
  nd_uuid :: string
  nd_certificate :: string
  nd_privatekey :: string
  nd_provcode :: string
  nd_description :: string
  nd_ipaddress :: string
  nd_status :: string
  nd_ipsrc :: string

record database =
  clients :: "client_row list"
  contexts :: "context_row list"
  nodes :: "node_row list"

section \<open>Results\<close>

text \<open>A failed statement, a command with the number of rows it affected, or a table with its
  number of columns.\<close>

datatype pg_result = Failed | Affected nat | Tuples nat "string list list"

text \<open>What can come of a call: the statement runs, the server reports an error, or there is no
  result at all.\<close>

datatype outcome = Runs | Errs | No_Result

record pg =
  crypt :: "string \<Rightarrow> string \<Rightarrow> string"
  digest :: "string \<Rightarrow> string"
  lower :: "string \<Rightarrow> string"
  gen_salt :: "nat \<Rightarrow> string"
  nextval :: "nat \<Rightarrow> string"
  default :: "nat \<Rightarrow> string"
  now :: "nat \<Rightarrow> int"
  engine :: "string \<Rightarrow> database \<Rightarrow> pg_result \<times> database"
  outcome :: "nat \<Rightarrow> outcome"

type_synonym statement = "pg \<Rightarrow> nat \<Rightarrow> database \<Rightarrow> pg_result \<times> database"

fun PQntuples :: "pg_result \<Rightarrow> nat" where
  "PQntuples (Tuples _ rows) = length rows"
| "PQntuples _ = 0"

fun PQnfields :: "pg_result \<Rightarrow> nat" where
  "PQnfields (Tuples n _) = n"
| "PQnfields _ = 0"

fun PQgetvalue :: "pg_result \<Rightarrow> nat \<Rightarrow> nat \<Rightarrow> string option" where
  "PQgetvalue (Tuples n rows) i j = do { r \<leftarrow> fetch rows i; fetch r j }"
| "PQgetvalue _ i j = None"

fun PQcmdTuples :: "pg_result \<Rightarrow> string" where
  "PQcmdTuples Failed = ''''"
| "PQcmdTuples (Affected n) = dec_nat n"
| "PQcmdTuples (Tuples _ rows) = dec_nat (length rows)"

section \<open>Statements\<close>

text \<open>An update of the rows that satisfy a condition, and a deletion of them.\<close>

definition sql_update :: "('r \<Rightarrow> bool) \<Rightarrow> ('r \<Rightarrow> 'r) \<Rightarrow> 'r list \<Rightarrow> nat \<times> 'r list" where
  "sql_update P f rows = (length (filter P rows), map (\<lambda>r. if P r then f r else r) rows)"

definition sql_delete :: "('r \<Rightarrow> bool) \<Rightarrow> 'r list \<Rightarrow> nat \<times> 'r list" where
  "sql_delete P rows = (length (filter P rows), filter (\<lambda>r. \<not> P r) rows)"

definition update_clients :: "(client_row \<Rightarrow> bool) \<Rightarrow> (client_row \<Rightarrow> client_row) \<Rightarrow> database \<Rightarrow> pg_result \<times> database" where
  "update_clients P f d = (case sql_update P f (clients d) of (n, rows) \<Rightarrow> (Affected n, d\<lparr>clients := rows\<rparr>))"

definition update_contexts :: "(context_row \<Rightarrow> bool) \<Rightarrow> (context_row \<Rightarrow> context_row) \<Rightarrow> database \<Rightarrow> pg_result \<times> database" where
  "update_contexts P f d = (case sql_update P f (contexts d) of (n, rows) \<Rightarrow> (Affected n, d\<lparr>contexts := rows\<rparr>))"

definition sql_dao_add_client :: "string \<Rightarrow> string \<Rightarrow> string \<Rightarrow> statement" where
  "sql_dao_add_client email password apikey S n d =
     (if \<exists>r \<in> set (clients d). cl_email r = lower S email then (Failed, d)
      else (Affected 1, d\<lparr>clients := clients d @ [\<lparr>cl_id = nextval S n, cl_email = lower S email,
              cl_password = crypt S password (gen_salt S n), cl_apikey = apikey, cl_status = 0,
              cl_resetkey = None, cl_resetdate = None\<rparr>]\<rparr>))"

definition sql_dao_activate_client :: "string \<Rightarrow> statement" where
  "sql_dao_activate_client apikey S n d =
     update_clients (\<lambda>r. cl_apikey r = apikey) (\<lambda>r. r\<lparr>cl_status := 1\<rparr>) d"

text \<open>A comparison with a null is not true.\<close>

definition sql_dao_set_password :: "string \<Rightarrow> string \<Rightarrow> string \<Rightarrow> statement" where
  "sql_dao_set_password email resetkey password S n d =
     update_clients
       (\<lambda>r. (case cl_resetkey r of None \<Rightarrow> False | Some k \<Rightarrow> digest S k = digest S resetkey)
          \<and> cl_email r = email
          \<and> (case cl_resetdate r of None \<Rightarrow> False | Some t \<Rightarrow> now S n < t + 86400))
       (\<lambda>r. r\<lparr>cl_password := crypt S password (gen_salt S n), cl_resetdate := None\<rparr>) d"

definition sql_dao_set_resetkey :: "string \<Rightarrow> string \<Rightarrow> statement" where
  "sql_dao_set_resetkey email resetkey S n d =
     update_clients
       (\<lambda>r. cl_email r = email \<and> (case cl_resetdate r of None \<Rightarrow> True | Some t \<Rightarrow> t + 3600 < now S n))
       (\<lambda>r. r\<lparr>cl_resetkey := Some resetkey, cl_resetdate := Some (now S n)\<rparr>) d"

definition sql_dao_update_client_apikey :: "string \<Rightarrow> string \<Rightarrow> statement" where
  "sql_dao_update_client_apikey apikey new_apikey S n d =
     update_clients (\<lambda>r. cl_apikey r = apikey) (\<lambda>r. r\<lparr>cl_apikey := new_apikey\<rparr>) d"

definition sql_dao_fetch_account_apikey :: "string \<Rightarrow> string \<Rightarrow> statement" where
  "sql_dao_fetch_account_apikey email password S n d =
     (Tuples 1 (map (\<lambda>r. [cl_apikey r])
        (filter (\<lambda>r. lower S (cl_email r) = lower S email
                   \<and> cl_password r = crypt S password (cl_password r) \<and> cl_status r = 1) (clients d))), d)"

definition sql_dao_fetch_client_id_by_apikey :: "string \<Rightarrow> statement" where
  "sql_dao_fetch_client_id_by_apikey apikey S n d =
     (Tuples 1 (map (\<lambda>r. [cl_id r]) (filter (\<lambda>r. cl_apikey r = apikey \<and> cl_status r = 1) (clients d))), d)"

definition sql_dao_fetch_client_id :: "string \<Rightarrow> string \<Rightarrow> statement" where
  "sql_dao_fetch_client_id email password S n d =
     (Tuples 1 (map (\<lambda>r. [cl_id r])
        (filter (\<lambda>r. lower S (cl_email r) = lower S email
                   \<and> cl_password r = crypt S password (cl_password r)) (clients d))), d)"

definition sql_dao_del_context :: "string \<Rightarrow> string \<Rightarrow> statement" where
  "sql_dao_del_context client_id uuid S n d =
     (case sql_delete (\<lambda>r. cx_client_id r = client_id \<and> cx_uuid r = uuid) (contexts d) of
        (k, rows) \<Rightarrow> (Affected k, d\<lparr>contexts := rows\<rparr>))"

definition sql_dao_add_vnetwork ::
  "string \<Rightarrow> string \<Rightarrow> string \<Rightarrow> string \<Rightarrow> string \<Rightarrow> string \<Rightarrow> string \<Rightarrow> string \<Rightarrow> u8 list \<Rightarrow> statement" where
  "sql_dao_add_vnetwork client_id description network ecert ekey eserial pcert pkey ippool S n d =
     (if \<exists>r \<in> set (contexts d). cx_description r = description \<and> cx_client_id r = client_id then (Failed, d)
      else (Tuples 1 [[default S n]],
            d\<lparr>contexts := contexts d @ [\<lparr>cx_id = nextval S n, cx_uuid = default S n, cx_description = description,
                cx_client_id = client_id, cx_network = network, cx_embassy_certificate = ecert,
                cx_embassy_privatekey = ekey, cx_embassy_serial = eserial, cx_passport_certificate = pcert,
                cx_passport_privatekey = pkey, cx_ippool = ippool\<rparr>]\<rparr>))"

text \<open>A column of bytes is the text \<open>PQescapeByteaConn\<close> writes and \<open>PQunescapeBytea\<close> reads; here
  each byte is one character.\<close>

definition byte_text :: "u8 list \<Rightarrow> string" where
  "byte_text bs = map (\<lambda>b. char_of (unat b)) bs"

definition text_bytes :: "string \<Rightarrow> u8 list" where
  "text_bytes s = map of_char s"

lemma text_byte_text [simp]: "text_bytes (byte_text bs) = bs"
proof -
  have "of_char (char_of (unat b)) = b" for b :: u8
  proof -
    have "(of_char (char_of (unat b)) :: u8) = of_nat (of_char (char_of (unat b)))" by (simp only: of_nat_of_char)
    also have "\<dots> = of_nat (unat b mod 256)" by (simp only: of_char_of)
    also have "unat b mod 256 = unat b"
    proof -
      have "unat b < 2 ^ LENGTH(8)" by (rule unsigned_less)
      then show ?thesis by simp
    qed
    finally show ?thesis by simp
  qed
  then show ?thesis by (simp add: text_bytes_def byte_text_def comp_def)
qed

definition sql_dao_fetch_context_ippool :: "string \<Rightarrow> statement" where
  "sql_dao_fetch_context_ippool uuid S n d =
     (Tuples 1 (map (\<lambda>r. [byte_text (cx_ippool r)]) (filter (\<lambda>r. cx_uuid r = uuid) (contexts d))), d)"

definition sql_dao_fetch_network_id :: "string \<Rightarrow> string \<Rightarrow> statement" where
  "sql_dao_fetch_network_id client_id uuid S n d =
     (Tuples 1 (map (\<lambda>r. [cx_id r])
        (filter (\<lambda>r. cx_client_id r = client_id \<and> cx_uuid r = uuid) (contexts d))), d)"

definition sql_dao_fetch_context_embassy :: "string \<Rightarrow> statement" where
  "sql_dao_fetch_context_embassy uuid S n d =
     (Tuples 4 (map (\<lambda>r. [cx_embassy_certificate r, cx_embassy_privatekey r, cx_embassy_serial r,
                          byte_text (cx_ippool r)])
        (filter (\<lambda>r. cx_uuid r = uuid) (contexts d))), d)"

definition delete_nodes :: "(node_row \<Rightarrow> bool) \<Rightarrow> database \<Rightarrow> pg_result \<times> database" where
  "delete_nodes P d = (case sql_delete P (nodes d) of (k, rows) \<Rightarrow> (Affected k, d\<lparr>nodes := rows\<rparr>))"

definition sql_dao_del_node :: "string \<Rightarrow> string \<Rightarrow> statement" where
  "sql_dao_del_node network_uuid uuid S n d =
     delete_nodes (\<lambda>r. nd_network_uuid r = network_uuid \<and> nd_uuid r = uuid) d"

definition sql_dao_del_node_by_context_id :: "string \<Rightarrow> statement" where
  "sql_dao_del_node_by_context_id network_uuid S n d = delete_nodes (\<lambda>r. nd_network_uuid r = network_uuid) d"

definition sql_dao_add_node ::
  "string \<Rightarrow> string \<Rightarrow> string \<Rightarrow> string \<Rightarrow> string \<Rightarrow> string \<Rightarrow> string \<Rightarrow> statement" where
  "sql_dao_add_node network_uuid uuid cert pkey provcode description ip S n d =
     (if \<exists>r \<in> set (nodes d). nd_uuid r = uuid then (Failed, d)
      else (Affected 1, d\<lparr>nodes := nodes d @ [\<lparr>nd_network_uuid = network_uuid, nd_uuid = uuid,
              nd_certificate = cert, nd_privatekey = pkey, nd_provcode = provcode, nd_description = description,
              nd_ipaddress = ip, nd_status = ''0'', nd_ipsrc = ''''\<rparr>]\<rparr>))"

definition sql_dao_update_node_status :: "string \<Rightarrow> string \<Rightarrow> string \<Rightarrow> string \<Rightarrow> statement" where
  "sql_dao_update_node_status network_uuid uuid status ipsrc S n d =
     (case sql_update (\<lambda>r. nd_network_uuid r = network_uuid \<and> nd_uuid r = uuid)
             (\<lambda>r. r\<lparr>nd_status := status, nd_ipsrc := ipsrc\<rparr>) (nodes d) of
        (k, rows) \<Rightarrow> (Affected k, d\<lparr>nodes := rows\<rparr>))"

definition sql_dao_update_context_ippool :: "string \<Rightarrow> u8 list \<Rightarrow> statement" where
  "sql_dao_update_context_ippool uuid ippool S n d =
     update_contexts (\<lambda>r. cx_uuid r = uuid) (\<lambda>r. r\<lparr>cx_ippool := ippool\<rparr>) d"

definition sql_dao_update_embassy_serial :: "string \<Rightarrow> string \<Rightarrow> statement" where
  "sql_dao_update_embassy_serial uuid serial S n d =
     update_contexts (\<lambda>r. cx_uuid r = uuid) (\<lambda>r. r\<lparr>cx_embassy_serial := serial\<rparr>) d"

definition sql_dao_fetch_networks_by_client_id :: "string \<Rightarrow> statement" where
  "sql_dao_fetch_networks_by_client_id client_id S n d =
     (Tuples 2 (map (\<lambda>r. [cx_description r, cx_uuid r]) (filter (\<lambda>r. cx_client_id r = client_id) (contexts d))), d)"

text \<open>\<open>host\<close> and \<open>netmask\<close> of a \<open>cidr\<close> value.\<close>

definition cidr_host :: "string \<Rightarrow> string" where
  "cidr_host c = takeWhile (\<lambda>x. x \<noteq> CHR ''/'') c"

definition cidr_netmask :: "string \<Rightarrow> string" where
  "cidr_netmask c =
     (let n = nat (atoi (drop 1 (dropWhile (\<lambda>x. x \<noteq> CHR ''/'') c))) in
      inet_ntoa (htonl (NOT (mask (32 - n)))))"

definition sql_dao_fetch_network_by_client_id_desc :: "string \<Rightarrow> string \<Rightarrow> statement" where
  "sql_dao_fetch_network_by_client_id_desc client_id description S n d =
     (Tuples 8 (map (\<lambda>r. [cx_id r, cx_description r, cx_client_id r, cidr_host (cx_network r),
                          cidr_netmask (cx_network r), cx_passport_certificate r, cx_passport_privatekey r,
                          cx_embassy_certificate r])
        (filter (\<lambda>r. cx_client_id r = client_id \<and> cx_description r = description) (contexts d))), d)"

definition sql_dao_fetch_context :: statement where
  "sql_dao_fetch_context S n d =
     (Tuples 9 (map (\<lambda>r. [cx_id r, cx_uuid r, cx_description r, cx_client_id r, cidr_host (cx_network r),
                          cidr_netmask (cx_network r), cx_passport_certificate r, cx_passport_privatekey r,
                          cx_embassy_certificate r]) (contexts d)), d)"

definition sql_dao_fetch_node_uuid_networkuuid :: statement where
  "sql_dao_fetch_node_uuid_networkuuid S n d = (Tuples 2 (map (\<lambda>r. [nd_network_uuid r, nd_uuid r]) (nodes d)), d)"

definition sql_dao_fetch_node_ip :: "string \<Rightarrow> string \<Rightarrow> statement" where
  "sql_dao_fetch_node_ip network_uuid uuid S n d =
     (Tuples 1 (map (\<lambda>r. [nd_ipaddress r])
        (filter (\<lambda>r. nd_network_uuid r = network_uuid \<and> nd_uuid r = uuid) (nodes d))), d)"

definition sql_dao_fetch_node_from_context_id :: "string \<Rightarrow> statement" where
  "sql_dao_fetch_node_from_context_id network_uuid S n d =
     (Tuples 5 (map (\<lambda>r. [nd_uuid r, nd_description r, nd_provcode r, nd_ipaddress r, nd_status r])
        (filter (\<lambda>r. nd_network_uuid r = network_uuid) (nodes d))), d)"

text \<open>The two texts that go to the server unprepared; \<open>dao_reset_node_state\<close> is fixed.\<close>

definition sql_reset_node_state :: statement where
  "sql_reset_node_state S n d =
     (case sql_update (\<lambda>r. nd_status r = ''1'') (\<lambda>r. r\<lparr>nd_status := ''0''\<rparr>) (nodes d) of
        (k, rows) \<Rightarrow> (Affected k, d\<lparr>nodes := rows\<rparr>))"

definition sql_text :: "string \<Rightarrow> statement" where
  "sql_text q S n d = engine S q d"

end
