(* ===== verification/Dao.thy ===== *)
theory Dao
  imports Pg
begin

text \<open>
  \<open>nvctrler/src/dao.c\<close>: the controller's access to its database, one function per function.  A
  \<open>char *\<close> that may be null is a \<^typ>\<open>string option\<close>; a value that a function returns through a
  pointer is part of its result.  The state holds the database, the number of calls made to the
  server so far, and what the rest of the controller keeps (\<open>Ctrler\<close>).
\<close>

section \<open>State\<close>

abbreviation (input) NVSWITCH :: u8 where "NVSWITCH \<equiv> 1"
abbreviation (input) NVAPI :: u8 where "NVAPI \<equiv> 2"
abbreviation (input) SESSION_NOT_AUTH :: u8 where "SESSION_NOT_AUTH \<equiv> 2"

record session_info =
  si_cert_name :: string
  si_type :: u8
  si_state :: u8
  si_bev :: "addr option"

text \<open>\<open>keys\<close> are the values of \<open>pki_gen_key\<close> and \<open>uuid_v4\<close>, in the order of the calls; \<open>written\<close>
  is what was handed to the connections, in order, and \<open>inbuf\<close> what has arrived on each and has not
  been read.\<close>

record ctrler =
  db :: database
  pg_calls :: nat
  keys :: "nat \<Rightarrow> string option"
  keys_used :: nat
  sinfos :: "addr \<rightharpoonup> session_info"
  switch_sinfo :: "addr option"
  written :: "(addr \<times> string) list"
  inbuf :: "addr \<Rightarrow> string"
  sinfo_brk :: addr

section \<open>Calls\<close>

definition PQexec :: "pg \<Rightarrow> ctrler \<Rightarrow> statement \<Rightarrow> pg_result option \<times> ctrler" where
  "PQexec S c st =
     (let n = pg_calls c; c = c\<lparr>pg_calls := Suc n\<rparr> in
      case outcome S n of
        Runs \<Rightarrow> (case st S n (db c) of (r, d) \<Rightarrow> (Some r, c\<lparr>db := d\<rparr>))
      | Errs \<Rightarrow> (Some Failed, c)
      | No_Result \<Rightarrow> (None, c))"

definition check_result_status :: "pg_result \<Rightarrow> int" where
  "check_result_status result = (case result of Failed \<Rightarrow> - 1 | _ \<Rightarrow> 0)"

text \<open>A call whose rows are of no interest: no result and a failed one are both \<open>-1\<close>.\<close>

definition dao_command :: "pg \<Rightarrow> ctrler \<Rightarrow> statement \<Rightarrow> int \<times> ctrler" where
  "dao_command S c st =
     (case PQexec S c st of
        (None, c) \<Rightarrow> (- 1, c)
      | (Some r, c) \<Rightarrow> if check_result_status r = - 1 then (- 1, c) else (0, c))"

text \<open>The same without a look at the status.\<close>

definition dao_unchecked :: "pg \<Rightarrow> ctrler \<Rightarrow> statement \<Rightarrow> int \<times> ctrler" where
  "dao_unchecked S c st = (case PQexec S c st of (None, c) \<Rightarrow> (- 1, c) | (Some r, c) \<Rightarrow> (0, c))"

section \<open>Commands\<close>

definition dao_update_node_status ::
  "pg \<Rightarrow> ctrler \<Rightarrow> string option \<Rightarrow> string option \<Rightarrow> string option \<Rightarrow> string option \<Rightarrow> int \<times> ctrler" where
  "dao_update_node_status S c network_uuid uuid status ipsrc =
     (case (network_uuid, uuid, status, ipsrc) of
        (Some n, Some u, Some s, Some i) \<Rightarrow> dao_command S c (sql_dao_update_node_status n u s i)
      | _ \<Rightarrow> (- 1, c))"

definition dao_update_client_apikey :: "pg \<Rightarrow> ctrler \<Rightarrow> string option \<Rightarrow> string option \<Rightarrow> int \<times> ctrler" where
  "dao_update_client_apikey S c apikey new_apikey =
     (case (apikey, new_apikey) of
        (Some a, Some b) \<Rightarrow> dao_command S c (sql_dao_update_client_apikey a b)
      | _ \<Rightarrow> (- 1, c))"

definition dao_activate_client :: "pg \<Rightarrow> ctrler \<Rightarrow> string option \<Rightarrow> int \<times> ctrler" where
  "dao_activate_client S c apikey =
     (case apikey of
        None \<Rightarrow> (- 1, c)
      | Some a \<Rightarrow>
          (case PQexec S c (sql_dao_activate_client a) of
             (None, c) \<Rightarrow> (- 1, c)
           | (Some r, c) \<Rightarrow>
               if PQcmdTuples r = ''0'' then (- 1, c)
               else if check_result_status r = - 1 then (- 1, c) else (0, c)))"

definition dao_set_password ::
  "pg \<Rightarrow> ctrler \<Rightarrow> string option \<Rightarrow> string option \<Rightarrow> string option \<Rightarrow> int \<times> ctrler" where
  "dao_set_password S c email resetkey password =
     (case (email, resetkey, password) of
        (Some e, Some k, Some p) \<Rightarrow> dao_command S c (sql_dao_set_password e k p)
      | _ \<Rightarrow> (- 1, c))"

text \<open>\<open>PQcmdTuples\<close> of a null result is the empty text.\<close>

definition dao_set_resetkey :: "pg \<Rightarrow> ctrler \<Rightarrow> string option \<Rightarrow> string option \<Rightarrow> int \<times> ctrler" where
  "dao_set_resetkey S c email resetkey =
     (case (email, resetkey) of
        (Some e, Some k) \<Rightarrow>
          (case PQexec S c (sql_dao_set_resetkey e k) of
             (result, c) \<Rightarrow>
               if (case result of None \<Rightarrow> '''' | Some r \<Rightarrow> PQcmdTuples r) = ''0'' then (- 1, c)
               else (case result of
                       None \<Rightarrow> (- 1, c)
                     | Some r \<Rightarrow> if check_result_status r = - 1 then (- 1, c) else (0, c)))
      | _ \<Rightarrow> (- 1, c))"

definition dao_add_client ::
  "pg \<Rightarrow> ctrler \<Rightarrow> string option \<Rightarrow> string option \<Rightarrow> string option \<Rightarrow> int \<times> ctrler" where
  "dao_add_client S c email password apikey =
     (case (email, password, apikey) of
        (Some e, Some p, Some a) \<Rightarrow> dao_command S c (sql_dao_add_client e p a)
      | _ \<Rightarrow> (- 1, c))"

definition dao_del_node :: "pg \<Rightarrow> ctrler \<Rightarrow> string option \<Rightarrow> string option \<Rightarrow> int \<times> ctrler" where
  "dao_del_node S c network_uuid uuid =
     (case (network_uuid, uuid) of
        (Some n, Some u) \<Rightarrow> dao_unchecked S c (sql_dao_del_node n u)
      | _ \<Rightarrow> (- 1, c))"

definition dao_del_node_by_context_id :: "pg \<Rightarrow> ctrler \<Rightarrow> string option \<Rightarrow> int \<times> ctrler" where
  "dao_del_node_by_context_id S c network_uuid =
     (case network_uuid of
        Some n \<Rightarrow> dao_unchecked S c (sql_dao_del_node_by_context_id n)
      | None \<Rightarrow> (- 1, c))"

definition dao_add_node ::
  "pg \<Rightarrow> ctrler \<Rightarrow> string option \<Rightarrow> string option \<Rightarrow> string option \<Rightarrow> string option \<Rightarrow> string option
   \<Rightarrow> string option \<Rightarrow> string option \<Rightarrow> int \<times> ctrler" where
  "dao_add_node S c network_uuid uuid certificate privatekey provcode description ipaddress =
     (case (network_uuid, uuid, certificate, privatekey, provcode, description, ipaddress) of
        (Some n, Some u, Some ce, Some k, Some p, Some d, Some i) \<Rightarrow>
          dao_command S c (sql_dao_add_node n u ce k p d i)
      | _ \<Rightarrow> (- 1, c))"

definition dao_del_context :: "pg \<Rightarrow> ctrler \<Rightarrow> string option \<Rightarrow> string option \<Rightarrow> int \<times> ctrler" where
  "dao_del_context S c client_id network_uuid =
     (case (network_uuid, client_id) of
        (Some n, Some i) \<Rightarrow> dao_unchecked S c (sql_dao_del_context i n)
      | _ \<Rightarrow> (- 1, c))"

text \<open>\<open>PQescapeByteaConn\<close> reads as many bytes of the pool as it is told.\<close>

definition dao_add_vnetwork ::
  "pg \<Rightarrow> ctrler \<Rightarrow> string option \<Rightarrow> string option \<Rightarrow> string option \<Rightarrow> string option \<Rightarrow> string option
   \<Rightarrow> string option \<Rightarrow> string option \<Rightarrow> string option \<Rightarrow> u8 list \<Rightarrow> nat
   \<Rightarrow> (int \<times> string option \<times> ctrler) option" where
  "dao_add_vnetwork S c client_id description network ecert ekey eserial pcert pkey ippool pool_size =
     (case (client_id, description, network, ecert, ekey, eserial, pcert, pkey) of
        (Some i, Some d, Some n, Some ec, Some ek, Some es, Some pc, Some pk) \<Rightarrow>
          if length ippool < pool_size then None
          else
            (case PQexec S c (sql_dao_add_vnetwork i d n ec ek es pc pk (take pool_size ippool)) of
               (None, c) \<Rightarrow> Some (- 1, None, c)
             | (Some r, c) \<Rightarrow>
                 if check_result_status r = - 1 then Some (- 2, None, c)
                 else if 0 < PQntuples r \<and> 0 < PQnfields r then do {
                   uuid \<leftarrow> PQgetvalue r 0 0;
                   Some (0, Some uuid, c) }
                 else Some (- 1, None, c))
      | _ \<Rightarrow> Some (- 1, None, c))"

definition dao_update_context_ippool ::
  "pg \<Rightarrow> ctrler \<Rightarrow> string option \<Rightarrow> u8 list option \<Rightarrow> nat \<Rightarrow> (int \<times> ctrler) option" where
  "dao_update_context_ippool S c network_uuid ippool pool_size =
     (case (network_uuid, ippool) of
        (Some n, Some p) \<Rightarrow>
          if length p < pool_size then None
          else Some (dao_command S c (sql_dao_update_context_ippool n (take pool_size p)))
      | _ \<Rightarrow> Some (- 1, c))"

definition dao_update_embassy_serial :: "pg \<Rightarrow> ctrler \<Rightarrow> string option \<Rightarrow> string option \<Rightarrow> int \<times> ctrler" where
  "dao_update_embassy_serial S c network_uuid serial =
     (case (network_uuid, serial) of
        (Some n, Some s) \<Rightarrow> dao_command S c (sql_dao_update_embassy_serial n s)
      | _ \<Rightarrow> (- 1, c))"

definition dao_reset_node_state :: "pg \<Rightarrow> ctrler \<Rightarrow> ctrler" where
  "dao_reset_node_state S c = snd (PQexec S c sql_reset_node_state)"

section \<open>Queries\<close>

text \<open>The first column of the first row, when there is one.\<close>

definition first_value :: "pg_result \<Rightarrow> string option option" where
  "first_value r =
     (if 0 < PQntuples r \<and> 0 < PQnfields r then do { v \<leftarrow> PQgetvalue r 0 0; Some (Some v) } else Some None)"

definition dao_fetch_account_apikey ::
  "pg \<Rightarrow> ctrler \<Rightarrow> string option \<Rightarrow> string option \<Rightarrow> (int \<times> string option \<times> ctrler) option" where
  "dao_fetch_account_apikey S c email password =
     (case (email, password) of
        (Some e, Some p) \<Rightarrow>
          (case PQexec S c (sql_dao_fetch_account_apikey e p) of
             (None, c) \<Rightarrow> Some (- 1, None, c)
           | (Some r, c) \<Rightarrow>
               if check_result_status r = - 1 then Some (- 1, None, c)
               else do { v \<leftarrow> first_value r; Some (0, v, c) })
      | _ \<Rightarrow> Some (- 1, None, c))"

definition dao_fetch_client_id_by_apikey ::
  "pg \<Rightarrow> ctrler \<Rightarrow> string option \<Rightarrow> (int \<times> string option \<times> ctrler) option" where
  "dao_fetch_client_id_by_apikey S c apikey =
     (case apikey of
        Some a \<Rightarrow>
          (case PQexec S c (sql_dao_fetch_client_id_by_apikey a) of
             (None, c) \<Rightarrow> Some (- 1, None, c)
           | (Some r, c) \<Rightarrow> do { v \<leftarrow> first_value r; Some (0, v, c) })
      | None \<Rightarrow> Some (- 1, None, c))"

definition dao_fetch_client_id ::
  "pg \<Rightarrow> ctrler \<Rightarrow> string option \<Rightarrow> string option \<Rightarrow> (int \<times> string option \<times> ctrler) option" where
  "dao_fetch_client_id S c email password =
     (case (email, password) of
        (Some e, Some p) \<Rightarrow>
          (case PQexec S c (sql_dao_fetch_client_id e p) of
             (None, c) \<Rightarrow> Some (- 1, None, c)
           | (Some r, c) \<Rightarrow>
               if check_result_status r = - 1 then Some (- 1, None, c)
               else do { v \<leftarrow> first_value r; Some (0, v, c) })
      | _ \<Rightarrow> Some (- 1, None, c))"

text \<open>A query that must yield a row.\<close>

definition dao_required :: "pg \<Rightarrow> ctrler \<Rightarrow> statement \<Rightarrow> (int \<times> string option \<times> ctrler) option" where
  "dao_required S c st =
     (case PQexec S c st of
        (None, c) \<Rightarrow> Some (- 1, None, c)
      | (Some r, c) \<Rightarrow>
          if check_result_status r = - 1 then Some (- 1, None, c)
          else do { v \<leftarrow> first_value r; Some (if v = None then - 1 else 0, v, c) })"

definition dao_fetch_context_ippool ::
  "pg \<Rightarrow> ctrler \<Rightarrow> string option \<Rightarrow> (int \<times> u8 list option \<times> ctrler) option" where
  "dao_fetch_context_ippool S c network_uuid =
     (case network_uuid of
        Some n \<Rightarrow> do {
          (ret, v, c) \<leftarrow> dao_required S c (sql_dao_fetch_context_ippool n);
          Some (ret, map_option text_bytes v, c) }
      | None \<Rightarrow> Some (- 1, None, c))"

definition dao_fetch_network_id ::
  "pg \<Rightarrow> ctrler \<Rightarrow> string option \<Rightarrow> string option \<Rightarrow> (int \<times> string option \<times> ctrler) option" where
  "dao_fetch_network_id S c client_id uuid =
     (case (client_id, uuid) of
        (Some i, Some u) \<Rightarrow> dao_required S c (sql_dao_fetch_network_id i u)
      | _ \<Rightarrow> Some (- 1, None, c))"

definition dao_fetch_node_ip ::
  "pg \<Rightarrow> ctrler \<Rightarrow> string option \<Rightarrow> string option \<Rightarrow> (int \<times> string option \<times> ctrler) option" where
  "dao_fetch_node_ip S c network_uuid uuid =
     (case (network_uuid, uuid) of
        (Some n, Some u) \<Rightarrow> dao_required S c (sql_dao_fetch_node_ip n u)
      | _ \<Rightarrow> Some (- 1, None, c))"

text \<open>The certificate, the key, the serial number and the address pool.\<close>

definition dao_fetch_context_embassy ::
  "pg \<Rightarrow> ctrler \<Rightarrow> string option \<Rightarrow> (int \<times> (string \<times> string \<times> string \<times> u8 list) option \<times> ctrler) option" where
  "dao_fetch_context_embassy S c uuid =
     (case uuid of
        Some u \<Rightarrow>
          (case PQexec S c (sql_dao_fetch_context_embassy u) of
             (None, c) \<Rightarrow> Some (- 1, None, c)
           | (Some r, c) \<Rightarrow>
               if check_result_status r = - 1 then Some (- 1, None, c)
               else if 0 < PQntuples r \<and> PQnfields r = 4 then do {
                 certificate \<leftarrow> PQgetvalue r 0 0;
                 privatekey \<leftarrow> PQgetvalue r 0 1;
                 serial \<leftarrow> PQgetvalue r 0 2;
                 ippool \<leftarrow> PQgetvalue r 0 3;
                 Some (0, Some (certificate, privatekey, serial, text_bytes ippool), c) }
               else Some (- 1, None, c))
      | None \<Rightarrow> Some (- 1, None, c))"

text \<open>The statement is put together from the provisioning code; \<open>snprintf\<close> keeps 1023 characters.
  The rows are read before the status is checked, which a null result fails.\<close>

definition provcode_query :: "string \<Rightarrow> string" where
  "provcode_query provcode = take 1023
     (''SELECT node.certificate, node.privatekey, node.ipaddress, context.embassy_certificate as trustedcert ''
      @ ''FROM'' @ [CHR 0x09] @ ''node, context WHERE'' @ [CHR 0x09] @ ''provcode = '' @ [CHR 0x27]
      @ provcode
      @ [CHR 0x27] @ '' AND'' @ [CHR 0x09] @ ''node.network_uuid = context.uuid;'')"

definition dao_fetch_node_from_provcode ::
  "pg \<Rightarrow> ctrler \<Rightarrow> string option \<Rightarrow> (int \<times> (string \<times> string \<times> string \<times> string) option \<times> ctrler) option" where
  "dao_fetch_node_from_provcode S c provcode =
     (case PQexec S c (sql_text (provcode_query (case provcode of None \<Rightarrow> ''(null)'' | Some p \<Rightarrow> p))) of
        (None, c) \<Rightarrow> Some (- 1, None, c)
      | (Some r, c) \<Rightarrow>
          if 0 < PQntuples r \<and> PQnfields r = 4 then do {
            certificate \<leftarrow> PQgetvalue r 0 0;
            private_key \<leftarrow> PQgetvalue r 0 1;
            ipAddress \<leftarrow> PQgetvalue r 0 2;
            trustedcert \<leftarrow> PQgetvalue r 0 3;
            Some (check_result_status r, Some (certificate, private_key, trustedcert, ipAddress), c) }
          else Some (- 1, None, c))"

section \<open>Queries with a callback\<close>

text \<open>The loops over the rows, with the number of rows that remain.\<close>

fun fetch_loop :: "('s \<Rightarrow> nat \<Rightarrow> string list \<Rightarrow> (int \<times> 's) option) \<Rightarrow> 's \<Rightarrow> string list list \<Rightarrow> (int \<times> 's) option" where
  "fetch_loop cb s [] = Some (0, s)"
| "fetch_loop cb s (row # rows) = do {
     (ret, s) \<leftarrow> cb s (length rows) row;
     if ret = - 1 then Some (- 1, s) else fetch_loop cb s rows }"

definition rows_of :: "pg_result \<Rightarrow> string list list" where
  "rows_of r = (case r of Tuples _ rows \<Rightarrow> rows | _ \<Rightarrow> [])"

definition dao_fetch_node_uuid_networkuuid ::
  "pg \<Rightarrow> ctrler \<Rightarrow> (ctrler \<Rightarrow> nat \<Rightarrow> string list \<Rightarrow> (int \<times> ctrler) option) \<Rightarrow> (int \<times> ctrler) option" where
  "dao_fetch_node_uuid_networkuuid S c cb =
     (case PQexec S c sql_dao_fetch_node_uuid_networkuuid of
        (None, c) \<Rightarrow> Some (- 1, c)
      | (Some r, c) \<Rightarrow>
          if check_result_status r = - 1 then Some (- 1, c) else fetch_loop cb c (rows_of r))"

definition dao_fetch_context ::
  "pg \<Rightarrow> ctrler \<Rightarrow> (ctrler \<Rightarrow> nat \<Rightarrow> string list \<Rightarrow> (int \<times> ctrler) option) \<Rightarrow> (int \<times> ctrler) option" where
  "dao_fetch_context S c cb =
     (case PQexec S c sql_dao_fetch_context of
        (None, c) \<Rightarrow> Some (- 1, c)
      | (Some r, c) \<Rightarrow>
          if check_result_status r = - 1 then Some (- 1, c)
          else if PQntuples r = 0 then Some (0, c)
          else fetch_loop cb c (rows_of r))"

text \<open>Callbacks that only collect; what they return is not looked at.  A null result is not caught by
  the test of the two \<open>network\<close> queries: the status of a null result is that of a fatal error.\<close>

definition dao_fetch_node_from_context_id ::
  "pg \<Rightarrow> ctrler \<Rightarrow> string option \<Rightarrow> ('a \<Rightarrow> string list \<Rightarrow> 'a) \<Rightarrow> 'a \<Rightarrow> int \<times> 'a \<times> ctrler" where
  "dao_fetch_node_from_context_id S c context_id cb data =
     (case context_id of
        None \<Rightarrow> (- 1, data, c)
      | Some i \<Rightarrow>
          (case PQexec S c (sql_dao_fetch_node_from_context_id i) of
             (None, c) \<Rightarrow> (- 1, data, c)
           | (Some r, c) \<Rightarrow>
               if check_result_status r = - 1 then (- 1, data, c) else (0, foldl cb data (rows_of r), c)))"

definition dao_fetch_networks_by_client_id ::
  "pg \<Rightarrow> ctrler \<Rightarrow> string option \<Rightarrow> ('a \<Rightarrow> string list \<Rightarrow> 'a) \<Rightarrow> 'a \<Rightarrow> int \<times> 'a \<times> ctrler" where
  "dao_fetch_networks_by_client_id S c client_id cb data =
     (case client_id of
        None \<Rightarrow> (- 1, data, c)
      | Some i \<Rightarrow>
          (case PQexec S c (sql_dao_fetch_networks_by_client_id i) of
             (None, c) \<Rightarrow> (- 1, data, c)
           | (Some r, c) \<Rightarrow>
               if check_result_status r = - 1 then (- 1, data, c) else (0, foldl cb data (rows_of r), c)))"

definition dao_fetch_network_by_client_id_desc ::
  "pg \<Rightarrow> ctrler \<Rightarrow> string option \<Rightarrow> string option \<Rightarrow> ('a \<Rightarrow> string list \<Rightarrow> 'a) \<Rightarrow> 'a \<Rightarrow> (int \<times> 'a \<times> ctrler) option" where
  "dao_fetch_network_by_client_id_desc S c client_id description cb data =
     (case client_id of
        None \<Rightarrow> Some (- 1, data, c)
      | Some i \<Rightarrow> do {
          d \<leftarrow> description;
          Some (case PQexec S c (sql_dao_fetch_network_by_client_id_desc i d) of
             (None, c) \<Rightarrow> (- 1, data, c)
           | (Some r, c) \<Rightarrow>
               if check_result_status r = - 1 then (- 1, data, c) else (0, foldl cb data (rows_of r), c)) })"

section \<open>Functions nothing calls\<close>

text \<open>The rows are read before anything is checked; where there is none, \<open>strdup\<close> gets a null
  pointer.\<close>

definition dao_fetch_embassy :: "pg \<Rightarrow> ctrler \<Rightarrow> string \<Rightarrow> (int \<times> (string \<times> string \<times> string) \<times> ctrler) option" where
  "dao_fetch_embassy S c context_id = do {
     let (result, c) = PQexec S c (sql_text (take 511
           (''SELECT certificate, private_key, issue_serial FROM EMBASSY WHERE context_id = '' @ [CHR 0x27]
            @ context_id @ [CHR 0x27] @ '';'')));
     r \<leftarrow> result;
     certificate \<leftarrow> PQgetvalue r 0 0;
     private_key \<leftarrow> PQgetvalue r 0 1;
     issue_serial \<leftarrow> PQgetvalue r 0 2;
     Some (check_result_status r, (certificate, private_key, issue_serial), c) }"

text \<open>\<open>%d\<close> of an unsigned value.\<close>

definition int_of_unsigned_text :: "u32 \<Rightarrow> string" where
  "int_of_unsigned_text w = (if sint w < 0 then CHR ''-'' # dec_nat (nat (- sint w)) else dec_nat (nat (sint w)))"

text \<open>\<open>cursor += snprintf(fetch_req+cursor, total_size-cursor, ...)\<close>: the cursor advances by the length
  of the text even where it is cut off, and past the end of the buffer the size that is left
  is a huge number.\<close>

definition seq_append :: "nat \<Rightarrow> nat \<times> string \<Rightarrow> string \<Rightarrow> (nat \<times> string) option" where
  "seq_append total_size b s =
     (case b of (cursor, buf) \<Rightarrow>
        if total_size < cursor then None
        else Some (cursor + length s, buf @ take (total_size - cursor - 1) s))"

fun seq_ids :: "nat \<Rightarrow> nat \<times> string \<Rightarrow> u32 list \<Rightarrow> (nat \<times> string) option" where
  "seq_ids total_size b [] = Some b"
| "seq_ids total_size b (i # ids) = do {
     b \<leftarrow> seq_append total_size b (CHR '','' # int_of_unsigned_text i);
     seq_ids total_size b ids }"

definition sequence_query :: "u32 list \<Rightarrow> string option" where
  "sequence_query context_id_list = do {
     let total_size = 5 * length context_id_list
           + length ''SELECT node.uuid, node.context_id FROM node WHERE node.context_id IN ();'';
     i \<leftarrow> fetch context_id_list 0;
     b \<leftarrow> seq_append total_size (0, [])
       (''SELECT node.uuid, node.context_id FROM node WHERE node.context_id IN ('' @ int_of_unsigned_text i);
     b \<leftarrow> seq_ids total_size b (tl context_id_list);
     b \<leftarrow> seq_append total_size b '');'';
     Some (snd b) }"

definition dao_fetch_node_sequence ::
  "pg \<Rightarrow> ctrler \<Rightarrow> u32 list \<Rightarrow> ('a \<Rightarrow> nat \<Rightarrow> string list \<Rightarrow> 'a) \<Rightarrow> 'a \<Rightarrow> (int \<times> 'a \<times> ctrler) option" where
  "dao_fetch_node_sequence S c context_id_list cb data = do {
     fetch_req \<leftarrow> sequence_query context_id_list;
     let (result, c) = PQexec S c (sql_text fetch_req);
     Some (case result of
        None \<Rightarrow> (- 1, data, c)
      | Some r \<Rightarrow>
          if check_result_status r = - 1 \<or> PQntuples r = 0 then (- 1, data, c)
          else (0, foldl (\<lambda>d (j, row). cb d (PQntuples r - j - 1) row) data (enumerate 0 (rows_of r)), c)) }"

end
