(* ===== verification/Ctrler.thy ===== *)
theory Ctrler
  imports Dao
begin

text \<open>
  The controller's requests (\<open>nvctrler/src/request.c\<close>), what it uses of \<open>nvctrler/src/pki.c\<close>, and
  the connections they come from (\<open>nvctrler/src/ctrler.c\<close>).  The JSON library and the issuing of
  certificates are records of functions.  Functions whose names are taken by the switch carry the
  suffix \<open>_ctrler\<close>.

  The message a handler works on is a value; where the code changes a part of it in place, the
  changed part is put back.  A handler that releases a part of the message it does not own says so
  in its result, and the release of the whole message that follows is a fault.
\<close>

section \<open>JSON\<close>

record 'j json_lib =
  json_object_get :: "'j \<Rightarrow> string \<Rightarrow> 'j option"
  json_unpack_s :: "'j \<Rightarrow> string \<Rightarrow> string option"
  json_object_set :: "'j \<Rightarrow> string \<Rightarrow> 'j \<Rightarrow> 'j"
  json_object_del :: "'j \<Rightarrow> string \<Rightarrow> 'j"
  json_object :: 'j
  json_string :: "string \<Rightarrow> 'j option"
  json_array :: "'j list \<Rightarrow> 'j"
  json_dumps :: "'j \<Rightarrow> string option"
  json_loadb :: "string \<Rightarrow> 'j option"

text \<open>\<open>json_object_set_new(o, k, json_string(s))\<close>: a null string or one that is no text sets
  nothing.\<close>

definition set_text :: "'j json_lib \<Rightarrow> string \<Rightarrow> string option \<Rightarrow> 'j \<Rightarrow> 'j" where
  "set_text J k s obj = (case Option.bind s (json_string J) of None \<Rightarrow> obj | Some v \<Rightarrow> json_object_set J obj k v)"

section \<open>Certificates\<close>

text \<open>A certificate and a key are their PEM texts.  \<open>issue\<close> makes a key pair and a certificate
  signed by an authority (by itself when there is none); its first argument counts the calls.\<close>

record pki =
  issue :: "nat \<Rightarrow> (string \<times> string) option \<Rightarrow> string \<Rightarrow> string \<Rightarrow> u32 \<Rightarrow> u32 \<Rightarrow> string option \<times> string option"
  pem_ok :: "string \<Rightarrow> string \<Rightarrow> bool"

record embassy =
  emb_certificate :: "string option"
  emb_keyring :: "string option"
  emb_serial :: u32

text \<open>``if years > 68, it will overflow the certificate \<open>Not After Date\<close>.''\<close>

definition pki_expiration_delay :: "u8 \<Rightarrow> u32" where
  "pki_expiration_delay years = (let years = (if 68 < years then 68 else years) in ucast years * 365 * 24 * 60 * 60)"

definition next_key :: "ctrler \<Rightarrow> string option \<times> ctrler" where
  "next_key c = (keys c (keys_used c), c\<lparr>keys_used := Suc (keys_used c)\<rparr>)"

definition pki_embassy_new :: "pki \<Rightarrow> ctrler \<Rightarrow> string \<Rightarrow> string \<Rightarrow> u32 \<Rightarrow> embassy \<times> ctrler" where
  "pki_embassy_new P c cn alt expiration_delay =
     (case issue P (keys_used c) None cn alt 0 expiration_delay of
        (cert, key) \<Rightarrow> (\<lparr>emb_certificate = cert, emb_keyring = key, emb_serial = 1\<rparr>, c\<lparr>keys_used := Suc (keys_used c)\<rparr>))"

text \<open>An authority that could not be read back is a null certificate, and dereferenced.\<close>

definition pki_embassy_deliver_passport ::
  "pki \<Rightarrow> ctrler \<Rightarrow> embassy \<Rightarrow> string \<Rightarrow> string \<Rightarrow> u32
   \<Rightarrow> ((string option \<times> string option) \<times> embassy \<times> ctrler) option" where
  "pki_embassy_deliver_passport P c emb cn alt expiration_delay = do {
     cert \<leftarrow> emb_certificate emb;
     key \<leftarrow> emb_keyring emb;
     if \<not> pem_ok P cert key then None
     else Some (issue P (keys_used c) (Some (cert, key)) cn alt (emb_serial emb) expiration_delay,
                emb\<lparr>emb_serial := emb_serial emb + 1\<rparr>, c\<lparr>keys_used := Suc (keys_used c)\<rparr>) }"

definition pki_embassy_load_from_memory :: "string \<Rightarrow> string \<Rightarrow> u32 \<Rightarrow> embassy" where
  "pki_embassy_load_from_memory certificate privatekey serial =
     \<lparr>emb_certificate = Some certificate, emb_keyring = Some privatekey, emb_serial = serial\<rparr>"

section \<open>Replies\<close>

definition NL :: string where
  "NL = [CHR 0x0A]"

definition bev_write :: "ctrler \<Rightarrow> addr \<Rightarrow> string \<Rightarrow> ctrler" where
  "bev_write c bev t = c\<lparr>written := written c @ [(bev, t)]\<rparr>"

text \<open>Over the connection of a session, which must be there; where the code asks whether it is.\<close>

definition reply :: "'j json_lib \<Rightarrow> ctrler \<Rightarrow> addr \<Rightarrow> 'j \<Rightarrow> ctrler option" where
  "reply J c s resp = do {
     t \<leftarrow> json_dumps J resp;
     x \<leftarrow> sinfos c s;
     b \<leftarrow> si_bev x;
     Some (bev_write (bev_write c b t) b NL) }"

definition reply_if :: "'j json_lib \<Rightarrow> ctrler \<Rightarrow> addr \<Rightarrow> 'j \<Rightarrow> ctrler option" where
  "reply_if J c s resp = do {
     x \<leftarrow> sinfos c s;
     case si_bev x of
       None \<Rightarrow> Some c
     | Some b \<Rightarrow> do { t \<leftarrow> json_dumps J resp; Some (bev_write (bev_write c b t) b NL) } }"

definition to_switch :: "'j json_lib \<Rightarrow> ctrler \<Rightarrow> 'j \<Rightarrow> ctrler option" where
  "to_switch J c v = (case switch_sinfo c of None \<Rightarrow> Some c | Some p \<Rightarrow> reply_if J c p v)"

definition resp_start :: "'j json_lib \<Rightarrow> 'j" where
  "resp_start J = set_text J ''action'' (Some ''response'') (set_text J ''tid'' (Some ''tid'') (json_object J))"

definition answer :: "'j json_lib \<Rightarrow> ctrler \<Rightarrow> addr \<Rightarrow> string \<Rightarrow> ctrler option" where
  "answer J c s what = reply J c s (set_text J ''response'' (Some what) (resp_start J))"

definition answer_if :: "'j json_lib \<Rightarrow> ctrler \<Rightarrow> addr \<Rightarrow> string \<Rightarrow> ctrler option" where
  "answer_if J c s what = reply_if J c s (set_text J ''response'' (Some what) (resp_start J))"

section \<open>Requests of the switch\<close>

text \<open>\<open>status\<close> is not initialised.  The result tells whether the node of the message was released.\<close>

definition update_node_status_ctrler :: "pg \<Rightarrow> 'j json_lib \<Rightarrow> ctrler \<Rightarrow> addr \<Rightarrow> 'j \<Rightarrow> (bool \<times> ctrler) option" where
  "update_node_status_ctrler S J c s jmsg = do {
     let node = json_object_get J jmsg ''node'';
     let field = (\<lambda>k. Option.bind node (\<lambda>n. json_unpack_s J n k));
     status \<leftarrow> field ''status'';
     let (_, c) = dao_update_node_status S c (field ''networkuuid'') (field ''uuid'') (Some status) (field ''local-ipaddr'');
     Some (node \<noteq> None, c) }"

definition provisioning_ctrler :: "pg \<Rightarrow> 'j json_lib \<Rightarrow> ctrler \<Rightarrow> addr \<Rightarrow> 'j \<Rightarrow> ctrler option" where
  "provisioning_ctrler S J c s jmsg = do {
     tid \<leftarrow> json_unpack_s J jmsg ''tid'';
     provcode \<leftarrow> Option.bind (json_object_get J jmsg ''node'') (\<lambda>n. json_unpack_s J n ''provcode'');
     let resp = set_text J ''action'' (Some ''provisioning'') (set_text J ''tid'' (Some tid) (json_object J));
     (ret, v, c) \<leftarrow> dao_fetch_node_from_provcode S c (Some provcode);
     if ret = 0 then do {
       (cert, pkey, tcert, ipaddr) \<leftarrow> v;
       let node = set_text J ''ipaddr'' (Some ipaddr) (set_text J ''tcert'' (Some tcert)
                    (set_text J ''pkey'' (Some pkey) (set_text J ''cert'' (Some cert) (json_object J))));
       reply J c s (json_object_set J (set_text J ''response'' (Some ''success'') resp) ''node'' node) }
     else reply J c s (set_text J ''response'' (Some ''error'') resp) }"

definition remaining_text :: "nat \<Rightarrow> string" where
  "remaining_text remaining = (if 0 < remaining then ''more-data'' else ''success'')"

definition CB_listall_network :: "'j json_lib \<Rightarrow> addr \<Rightarrow> ctrler \<Rightarrow> nat \<Rightarrow> string list \<Rightarrow> (int \<times> ctrler) option" where
  "CB_listall_network J s c remaining row =
     (case row of
        [rid, uuid, description, client_id, subnet, netmsk, cert, pkey, tcert] \<Rightarrow> do {
          let network = set_text J ''tcert'' (Some tcert) (set_text J ''pkey'' (Some pkey)
                (set_text J ''cert'' (Some cert) (set_text J ''netmask'' (Some netmsk)
                (set_text J ''network'' (Some subnet) (set_text J ''uuid'' (Some uuid)
                (set_text J ''id'' (Some rid) (json_object J)))))));
          let resp = set_text J ''action'' (Some ''listall-network'') (set_text J ''tid'' (Some ''tid'') (json_object J));
          let resp = set_text J ''response'' (Some (remaining_text remaining))
                (json_object_set J resp ''networks'' (json_array J [network]));
          x \<leftarrow> sinfos c s;
          (case (json_dumps J resp, si_bev x) of
             (Some t, Some b) \<Rightarrow> Some (0, bev_write (bev_write c b t) b NL)
           | _ \<Rightarrow> Some (- 1, c)) }
      | _ \<Rightarrow> None)"

definition listall_network_ctrler :: "pg \<Rightarrow> 'j json_lib \<Rightarrow> ctrler \<Rightarrow> addr \<Rightarrow> ctrler option" where
  "listall_network_ctrler S J c s = do {
     let resp = set_text J ''action'' (Some ''listall-network'') (set_text J ''tid'' (Some ''tid'') (json_object J));
     (ret, c) \<leftarrow> dao_fetch_context S c (CB_listall_network J s);
     if ret = - 1 then reply_if J c s (set_text J ''response'' (Some ''error'') resp) else Some c }"

text \<open>Here a text that could not be built is not caught.\<close>

definition CB_listall_node :: "'j json_lib \<Rightarrow> addr \<Rightarrow> ctrler \<Rightarrow> nat \<Rightarrow> string list \<Rightarrow> (int \<times> ctrler) option" where
  "CB_listall_node J s c remaining row =
     (case row of
        [network_uuid, uuid] \<Rightarrow> do {
          let node = set_text J ''uuid'' (Some uuid) (set_text J ''networkuuid'' (Some network_uuid) (json_object J));
          let resp = set_text J ''action'' (Some ''listall-node'') (set_text J ''tid'' (Some ''tid'') (json_object J));
          let resp = set_text J ''response'' (Some (remaining_text remaining))
                (json_object_set J resp ''nodes'' (json_array J [node]));
          x \<leftarrow> sinfos c s;
          (case si_bev x of
             None \<Rightarrow> Some (- 1, c)
           | Some b \<Rightarrow> do { t \<leftarrow> json_dumps J resp; Some (0, bev_write (bev_write c b t) b NL) }) }
      | _ \<Rightarrow> None)"

definition listall_node_ctrler :: "pg \<Rightarrow> 'j json_lib \<Rightarrow> ctrler \<Rightarrow> addr \<Rightarrow> ctrler option" where
  "listall_node_ctrler S J c s = do {
     (ret, c) \<leftarrow> dao_fetch_node_uuid_networkuuid S c (CB_listall_node J s);
     if ret = 0 then Some c
     else reply_if J c s (set_text J ''action'' (Some ''listall-node'')
            (set_text J ''response'' (Some ''error'') (json_object J))) }"

section \<open>Accounts\<close>

definition activate_account :: "pg \<Rightarrow> 'j json_lib \<Rightarrow> ctrler \<Rightarrow> addr \<Rightarrow> 'j \<Rightarrow> ctrler option" where
  "activate_account S J c s jmsg =
     (if json_object_get J jmsg ''account'' = None then Some c
      else do {
        let apikey = json_unpack_s J jmsg ''apikey'';
        let (new_apikey, c) = next_key c;
        if apikey = None then answer J c s ''error''
        else do {
          let (ret, c) = dao_activate_client S c apikey;
          if ret = - 1 then answer J c s ''denied''
          else do {
            let (_, c) = dao_update_client_apikey S c apikey new_apikey;
            answer J c s ''success'' } } })"

definition add_account :: "pg \<Rightarrow> 'j json_lib \<Rightarrow> ctrler \<Rightarrow> addr \<Rightarrow> 'j \<Rightarrow> ctrler option" where
  "add_account S J c s jmsg =
     (case json_object_get J jmsg ''account'' of
        None \<Rightarrow> Some c
      | Some js_account \<Rightarrow> do {
          let email = json_unpack_s J js_account ''email'';
          let password = json_unpack_s J js_account ''password'';
          if email = None \<or> password = None then Some c
          else do {
            let (apikey, c) = next_key c;
            if apikey = None then answer J c s ''error''
            else do {
              let (ret, c) = dao_add_client S c email password apikey;
              if ret = - 1 then answer J c s ''duplicate''
              else reply J c s (set_text J ''apikey'' apikey
                     (set_text J ''response'' (Some ''success'') (resp_start J))) } } })"

definition get_account_apikey :: "pg \<Rightarrow> 'j json_lib \<Rightarrow> ctrler \<Rightarrow> addr \<Rightarrow> 'j \<Rightarrow> ctrler option" where
  "get_account_apikey S J c s jmsg =
     (case json_object_get J jmsg ''account'' of
        None \<Rightarrow> Some c
      | Some js_account \<Rightarrow> do {
          (ret, apikey, c) \<leftarrow> dao_fetch_account_apikey S c (json_unpack_s J js_account ''email'')
                                 (json_unpack_s J js_account ''password'');
          if ret = - 1 then answer J c s ''error''
          else if apikey = None then answer J c s ''denied''
          else reply J c s (set_text J ''apikey'' apikey
                 (set_text J ''response'' (Some ''success'') (resp_start J))) })"

definition set_new_password :: "pg \<Rightarrow> 'j json_lib \<Rightarrow> ctrler \<Rightarrow> addr \<Rightarrow> 'j \<Rightarrow> ctrler option" where
  "set_new_password S J c s jmsg =
     (case json_object_get J jmsg ''account'' of
        None \<Rightarrow> Some c
      | Some js_account \<Rightarrow> do {
          let email = json_unpack_s J js_account ''email'';
          let resetkey = json_unpack_s J js_account ''resetkey'';
          let password = json_unpack_s J js_account ''password'';
          if email = None \<or> resetkey = None \<or> password = None then Some c
          else do {
            let (ret, c) = dao_set_password S c email resetkey password;
            if ret = - 1 then answer J c s ''denied'' else answer J c s ''success'' } })"

text \<open>On success the account of the message becomes a part of the response and is released with it.\<close>

definition reset_account_password :: "pg \<Rightarrow> 'j json_lib \<Rightarrow> ctrler \<Rightarrow> addr \<Rightarrow> 'j \<Rightarrow> (bool \<times> ctrler) option" where
  "reset_account_password S J c s jmsg =
     (case json_object_get J jmsg ''account'' of
        None \<Rightarrow> Some (False, c)
      | Some js_account \<Rightarrow> do {
          let email = json_unpack_s J js_account ''email'';
          if email = None then Some (False, c)
          else do {
            let (resetkey, c) = next_key c;
            if resetkey = None then do { c \<leftarrow> answer J c s ''error''; Some (False, c) }
            else do {
              let (ret, c) = dao_set_resetkey S c email resetkey;
              if ret = - 1 then do { c \<leftarrow> answer J c s ''denied''; Some (False, c) }
              else do {
                let js_account = json_object_del J (set_text J ''resetkey'' resetkey js_account) ''email'';
                c \<leftarrow> reply J c s (json_object_set J (set_text J ''response'' (Some ''success'') (resp_start J)) ''account'' js_account);
                Some (True, c) } } } })"

section \<open>Networks\<close>

definition pool_size :: "ippool \<Rightarrow> nat" where
  "pool_size p = (unat (hosts p) + 7) div 8"

text \<open>\<open>snprintf\<close> into a buffer of \<open>n\<close> characters.\<close>

definition snprintf :: "nat \<Rightarrow> string \<Rightarrow> string" where
  "snprintf n s = take (n - 1) s"

definition serial_text :: "u32 \<Rightarrow> string" where
  "serial_text w = snprintf 10 (int_of_unsigned_text w)"

definition add_network_ctrler :: "pg \<Rightarrow> 'j json_lib \<Rightarrow> pki \<Rightarrow> ctrler \<Rightarrow> addr \<Rightarrow> 'j \<Rightarrow> ctrler option" where
  "add_network_ctrler S J P c s jmsg =
     (case json_object_get J jmsg ''network'' of
        None \<Rightarrow> Some c
      | Some js_network \<Rightarrow> do {
          let apikey = json_unpack_s J jmsg ''apikey'';
          let name = json_unpack_s J js_network ''name'';
          if apikey = None \<or> name = None then answer_if J c s ''error''
          else do {
            (ret, client_id, c) \<leftarrow> dao_fetch_client_id_by_apikey S c apikey;
            if ret = - 1 then answer_if J c s ''error''
            else if client_id = None then answer_if J c s ''denied''
            else do {
              let exp_delay = pki_expiration_delay 10;
              let (emb, c) = pki_embassy_new P c ''embassy'' ''CA'' exp_delay;
              let emb_cert = emb_certificate emb;
              let emb_pvkey = emb_keyring emb;
              ((serv_cert, serv_pvkey), emb, c) \<leftarrow> pki_embassy_deliver_passport P c emb ''nvswitch'' ''CA'' exp_delay;
              ippool \<leftarrow> ippool_new ''44.128.0.0'' ''255.255.0.0'';
              (ret, network_uuid, c) \<leftarrow> dao_add_vnetwork S c client_id name (Some ''44.128.0.0/16'') emb_cert emb_pvkey
                 (Some (serial_text (emb_serial emb))) serv_cert serv_pvkey (pool ippool) (pool_size ippool);
              if ret = - 1 then answer_if J c s ''error''
              else if ret = - 2 then answer_if J c s ''duplicate''
              else do {
                c \<leftarrow> (if switch_sinfo c = None then Some c
                     else do {
                       let fwd_resp = set_text J ''response'' (Some ''more-data'')
                             (set_text J ''action'' (Some ''listall-network'') (json_object J));
                       let network = set_text J ''tcert'' emb_cert (set_text J ''pkey'' serv_pvkey
                             (set_text J ''cert'' serv_cert (set_text J ''netmask'' (Some ''255.255.0.0'')
                             (set_text J ''network'' (Some ''44.128.0.0'') (set_text J ''uuid'' network_uuid
                             (json_object J))))));
                       to_switch J c (json_object_set J fwd_resp ''networks'' (json_array J [network])) });
                answer_if J c s ''success'' } } } })"

definition del_network_ctrler :: "pg \<Rightarrow> 'j json_lib \<Rightarrow> ctrler \<Rightarrow> addr \<Rightarrow> 'j \<Rightarrow> ctrler option" where
  "del_network_ctrler S J c s jmsg =
     (case json_object_get J jmsg ''network'' of
        None \<Rightarrow> Some c
      | Some js_network \<Rightarrow> do {
          let apikey = json_unpack_s J jmsg ''apikey'';
          let network_uuid = json_unpack_s J js_network ''uuid'';
          (ret, client_id, c) \<leftarrow> dao_fetch_client_id_by_apikey S c apikey;
          if client_id = None then answer J c s ''denied''
          else if ret = - 1 then answer J c s ''error''
          else do {
            let (ret, c) = dao_del_node_by_context_id S c network_uuid;
            if ret < 0 then Some c
            else do {
              let (ret, c) = dao_del_context S c client_id network_uuid;
              if ret < 0 then Some c
              else do {
                c \<leftarrow> (if switch_sinfo c = None then Some c
                     else do {
                       let js_network = json_object_del J (json_object_del J (set_text J ''networkuuid'' network_uuid js_network) ''uuid'') ''name'';
                       to_switch J c (json_object_set J (json_object_del J jmsg ''apikey'') ''network'' js_network) });
                reply J c s (resp_start J) } } } })"

definition CB_list_network :: "'j json_lib \<Rightarrow> 'j list \<Rightarrow> string list \<Rightarrow> 'j list" where
  "CB_list_network J array row =
     (case row of
        [name, uuid] \<Rightarrow> array @ [set_text J ''uuid'' (Some uuid) (set_text J ''name'' (Some name) (json_object J))]
      | _ \<Rightarrow> array)"

definition list_network :: "pg \<Rightarrow> 'j json_lib \<Rightarrow> ctrler \<Rightarrow> addr \<Rightarrow> 'j \<Rightarrow> ctrler option" where
  "list_network S J c s jmsg = do {
     let apikey = json_unpack_s J jmsg ''apikey'';
     (ret, client_id, c) \<leftarrow> dao_fetch_client_id_by_apikey S c apikey;
     if client_id = None then answer_if J c s ''denied''
     else if ret = - 1 then answer_if J c s ''error''
     else do {
       let (ret, array, c) = dao_fetch_networks_by_client_id S c client_id (CB_list_network J) [];
       if ret = - 1 then answer_if J c s ''error''
       else reply_if J c s (set_text J ''response'' (Some ''success'')
              (json_object_set J (resp_start J) ''networks'' (json_array J array))) } }"

section \<open>Nodes\<close>

text \<open>What is left of the request once the address has been taken.\<close>

definition add_node_tail ::
  "pg \<Rightarrow> 'j json_lib \<Rightarrow> ctrler \<Rightarrow> addr \<Rightarrow> string option \<Rightarrow> string option \<Rightarrow> string option \<Rightarrow> string option
   \<Rightarrow> string option \<Rightarrow> string option \<Rightarrow> string option \<Rightarrow> ippool \<Rightarrow> ctrler option" where
  "add_node_tail S J c s network_uuid uuid cert pvkey provcode description ip ippool = do {
     let (ret, c) = dao_add_node S c network_uuid uuid cert pvkey provcode description ip;
     if ret = - 1 then answer J c s ''error''
     else do {
       (ret, c) \<leftarrow> dao_update_context_ippool S c network_uuid (Some (pool ippool)) (pool_size ippool);
       if ret = - 1 then answer J c s ''error''
       else do {
         c \<leftarrow> (if switch_sinfo c = None then Some c
              else do {
                let fwd_resp = set_text J ''response'' (Some ''more-data'')
                      (set_text J ''action'' (Some ''listall-node'') (json_object J));
                let node = set_text J ''uuid'' uuid (set_text J ''networkuuid'' network_uuid (json_object J));
                to_switch J c (json_object_set J fwd_resp ''nodes'' (json_array J [node])) });
         answer J c s ''success'' } } }"

definition add_node :: "pg \<Rightarrow> 'j json_lib \<Rightarrow> pki \<Rightarrow> ctrler \<Rightarrow> addr \<Rightarrow> 'j \<Rightarrow> ctrler option" where
  "add_node S J P c s jmsg =
     (case json_object_get J jmsg ''node'' of
        None \<Rightarrow> Some c
      | Some js_node \<Rightarrow> do {
          let apikey = json_unpack_s J jmsg ''apikey'';
          let network_uuid = json_unpack_s J js_node ''networkuuid'';
          let description = json_unpack_s J js_node ''description'';
          case (apikey, network_uuid, description) of
            (Some _, Some nu, Some _) \<Rightarrow> do {
              (ret, client_id, c) \<leftarrow> dao_fetch_client_id_by_apikey S c apikey;
              if ret \<noteq> 0 then answer J c s ''denied''
              else do {
                let exp_delay = pki_expiration_delay 10;
                (ret, v, c) \<leftarrow> dao_fetch_context_embassy S c network_uuid;
                if ret \<noteq> 0 then answer J c s ''error''
                else do {
                  (emb_cert, emb_pvkey, serial, ippool_bin) \<leftarrow> v;
                  let emb = pki_embassy_load_from_memory emb_cert emb_pvkey (word_of_int (atoi serial));
                  let (uuid, c) = next_key c;
                  let (provcode, c) = next_key c;
                  let common_name = snprintf 64 (''nva2-'' @ nu);
                  let alt_name = snprintf 256 (''URI:'' @ (case uuid of None \<Rightarrow> ''(null)'' | Some u \<Rightarrow> u) @ ''@'' @ nu);
                  ((node_cert, node_pvkey), emb, c) \<leftarrow> pki_embassy_deliver_passport P c emb common_name alt_name exp_delay;
                  let (ret, c) = dao_update_embassy_serial S c network_uuid (Some (serial_text (emb_serial emb)));
                  if ret = - 1 then answer J c s ''error''
                  else do {
                    ippool \<leftarrow> ippool_new ''44.128.0.0'' ''255.255.0.0'';
                    let ippool = ippool\<lparr>pool := ippool_bin\<rparr>;
                    (ip, ippool) \<leftarrow> ippool_get_ip ippool;
                    add_node_tail S J c s network_uuid uuid node_cert node_pvkey provcode description ip ippool } } } }
          | _ \<Rightarrow> answer J c s ''error'' })"

definition del_node_ctrler :: "pg \<Rightarrow> 'j json_lib \<Rightarrow> ctrler \<Rightarrow> addr \<Rightarrow> 'j \<Rightarrow> ctrler option" where
  "del_node_ctrler S J c s jmsg =
     (case json_object_get J jmsg ''node'' of
        None \<Rightarrow> Some c
      | Some js_node \<Rightarrow> do {
          let apikey = json_unpack_s J jmsg ''apikey'';
          let network_uuid = json_unpack_s J js_node ''networkuuid'';
          let node_uuid = json_unpack_s J js_node ''uuid'';
          (ret, client_id, c) \<leftarrow> dao_fetch_client_id_by_apikey S c apikey;
          if ret \<noteq> 0 then answer J c s ''denied''
          else do {
            (ret, ipaddr, c) \<leftarrow> dao_fetch_node_ip S c network_uuid node_uuid;
            if ret \<noteq> 0 then answer J c s ''no-such-object''
            else do {
              ipaddr \<leftarrow> ipaddr;
              let (ret, c) = dao_del_node S c network_uuid node_uuid;
              if ret \<noteq> 0 then answer J c s ''error''
              else do {
                (ret, ippool_bin, c) \<leftarrow> dao_fetch_context_ippool S c network_uuid;
                if ret = - 1 then answer J c s ''error''
                else do {
                  ippool_bin \<leftarrow> ippool_bin;
                  ippool \<leftarrow> ippool_new ''44.128.0.0'' ''255.255.0.0'';
                  ippool \<leftarrow> ippool_release_ip (ippool\<lparr>pool := ippool_bin\<rparr>) ipaddr;
                  (_, c) \<leftarrow> dao_update_context_ippool S c network_uuid (Some (pool ippool)) (pool_size ippool);
                  c \<leftarrow> to_switch J c (json_object_del J jmsg ''apikey'');
                  reply J c s (resp_start J) } } } } })"

definition CB_list_node :: "'j json_lib \<Rightarrow> 'j list \<Rightarrow> string list \<Rightarrow> 'j list" where
  "CB_list_node J array row =
     (case row of
        [uuid, description, provcode, ipaddress, status] \<Rightarrow>
          array @ [set_text J ''uuid'' (Some uuid) (set_text J ''description'' (Some description)
             (set_text J ''provcode'' (Some provcode) (set_text J ''ipaddress'' (Some ipaddress)
             (set_text J ''status'' (Some status) (json_object J)))))]
      | _ \<Rightarrow> array)"

definition list_node :: "pg \<Rightarrow> 'j json_lib \<Rightarrow> ctrler \<Rightarrow> addr \<Rightarrow> 'j \<Rightarrow> ctrler option" where
  "list_node S J c s jmsg =
     (case json_object_get J jmsg ''network'' of
        None \<Rightarrow> Some c
      | Some js_network \<Rightarrow> do {
          let apikey = json_unpack_s J jmsg ''apikey'';
          let network_uuid = json_unpack_s J js_network ''uuid'';
          (_, client_id, c) \<leftarrow> dao_fetch_client_id_by_apikey S c apikey;
          if client_id = None then answer J c s ''denied''
          else do {
            let (ret, array, c) = dao_fetch_node_from_context_id S c network_uuid (CB_list_node J) [];
            if ret \<noteq> 0 then answer J c s ''denied''
            else reply J c s (set_text J ''response'' (Some ''success'')
                   (json_object_set J (resp_start J) ''nodes'' (json_array J array))) } })"

end
