(* ===== verification/Ctrler_Conn.thy ===== *)
theory Ctrler_Conn
  imports Ctrler
begin

text \<open>
  \<open>nvctrler/src/ctrler.c\<close>: the connections of the controller.  A connection is a buffered event of
  libevent with a session, the switch's or an API client's, told apart by the name in the
  certificate.  Each callback runs to its end; the socket and TLS set-up is not modelled.
\<close>

section \<open>The code\<close>

definition sinfo_free :: "ctrler \<Rightarrow> addr \<Rightarrow> ctrler" where
  "sinfo_free c s = c\<lparr>sinfos := (sinfos c)(s := None)\<rparr>"

definition sinfo_new :: "ctrler \<Rightarrow> addr \<times> ctrler" where
  "sinfo_new c =
     (sinfo_brk c, c\<lparr>sinfos := (sinfos c)(sinfo_brk c \<mapsto>
        \<lparr>si_cert_name = '''', si_type = 0, si_state = SESSION_NOT_AUTH, si_bev = None\<rparr>), sinfo_brk := Suc (sinfo_brk c)\<rparr>)"

definition dispatch_nvswitch :: "pg \<Rightarrow> 'j json_lib \<Rightarrow> ctrler \<Rightarrow> addr \<Rightarrow> 'j \<Rightarrow> (bool \<times> ctrler) option" where
  "dispatch_nvswitch S J c s jmsg =
     (case json_unpack_s J jmsg ''action'' of
        None \<Rightarrow> Some (False, c)
      | Some action \<Rightarrow>
          if action = ''listall-network'' then map_option (Pair False) (listall_network_ctrler S J c s)
          else if action = ''listall-node'' then map_option (Pair False) (listall_node_ctrler S J c s)
          else if action = ''provisioning'' then map_option (Pair False) (provisioning_ctrler S J c s jmsg)
          else if action = ''update-node-status'' then update_node_status_ctrler S J c s jmsg
          else Some (False, c))"

definition dispatch_nvapi :: "pg \<Rightarrow> 'j json_lib \<Rightarrow> pki \<Rightarrow> ctrler \<Rightarrow> addr \<Rightarrow> 'j \<Rightarrow> (bool \<times> ctrler) option" where
  "dispatch_nvapi S J P c s jmsg =
     (case json_unpack_s J jmsg ''action'' of
        None \<Rightarrow> Some (False, c)
      | Some action \<Rightarrow>
          if action = ''add-account'' then map_option (Pair False) (add_account S J c s jmsg)
          else if action = ''activate-account'' then map_option (Pair False) (activate_account S J c s jmsg)
          else if action = ''get-account-apikey'' then map_option (Pair False) (get_account_apikey S J c s jmsg)
          else if action = ''reset-account-password'' then reset_account_password S J c s jmsg
          else if action = ''set-new-password'' then map_option (Pair False) (set_new_password S J c s jmsg)
          else if action = ''add-network'' then map_option (Pair False) (add_network_ctrler S J P c s jmsg)
          else if action = ''del-network'' then map_option (Pair False) (del_network_ctrler S J c s jmsg)
          else if action = ''list-network'' then map_option (Pair False) (list_network S J c s jmsg)
          else if action = ''add-node'' then map_option (Pair False) (add_node S J P c s jmsg)
          else if action = ''del-node'' then map_option (Pair False) (del_node_ctrler S J c s jmsg)
          else if action = ''list-node'' then map_option (Pair False) (list_node S J c s jmsg)
          else Some (False, c))"

text \<open>One line is taken from the input, if there is one; what follows it waits for the next call.\<close>

definition on_read_cb_ctrler :: "pg \<Rightarrow> 'j json_lib \<Rightarrow> pki \<Rightarrow> ctrler \<Rightarrow> addr \<Rightarrow> addr \<Rightarrow> ctrler option" where
  "on_read_cb_ctrler S J P c bev s =
     (let buf = inbuf c bev in
      if CHR 0x0A \<notin> set buf then Some c
      else
        let c = c\<lparr>inbuf := (inbuf c)(bev := tl (dropWhile (\<lambda>x. x \<noteq> CHR 0x0A) buf))\<rparr> in
        case json_loadb J (takeWhile (\<lambda>x. x \<noteq> CHR 0x0A) buf) of
          None \<Rightarrow> Some c
        | Some jmsg \<Rightarrow> do {
            x \<leftarrow> sinfos c s;
            (released, c) \<leftarrow> (if si_type x = NVSWITCH then dispatch_nvswitch S J c s jmsg
                             else if si_type x = NVAPI then dispatch_nvapi S J P c s jmsg
                             else Some (False, sinfo_free c s));
            if released then None else Some c })"

text \<open>The name of the peer is cut to the 255 characters that fit.\<close>

definition on_connect_cb :: "ctrler \<Rightarrow> addr \<Rightarrow> string option \<Rightarrow> ctrler option" where
  "on_connect_cb c s cert =
     (case cert of
        None \<Rightarrow> Some c
      | Some cn \<Rightarrow> do {
          x \<leftarrow> sinfos c s;
          let name = take 255 cn;
          if take 14 name = ''netvirt-switch'' then
            Some (c\<lparr>sinfos := (sinfos c)(s \<mapsto> x\<lparr>si_cert_name := name, si_type := NVSWITCH\<rparr>), switch_sinfo := Some s\<rparr>)
          else Some (c\<lparr>sinfos := (sinfos c)(s \<mapsto> x\<lparr>si_cert_name := name, si_type := NVAPI\<rparr>)\<rparr>) })"

text \<open>\<open>on_event_cb\<close>: the connection is up, with the peer's certificate, or it is gone.\<close>

datatype bev_event = Up "string option" | Gone

definition on_event_cb_ctrler :: "pg \<Rightarrow> ctrler \<Rightarrow> addr \<Rightarrow> bev_event \<Rightarrow> ctrler option" where
  "on_event_cb_ctrler S c s ev =
     (case ev of
        Up cert \<Rightarrow> on_connect_cb c s cert
      | Gone \<Rightarrow> do {
          x \<leftarrow> sinfos c s;
          let c = (if si_type x = NVSWITCH then dao_reset_node_state S (c\<lparr>switch_sinfo := None\<rparr>) else c);
          Some (sinfo_free c s) })"

definition accept_conn_cb :: "ctrler \<Rightarrow> addr option \<Rightarrow> ctrler" where
  "accept_conn_cb c bev =
     (case bev of
        None \<Rightarrow> c
      | Some b \<Rightarrow>
          (case sinfo_new c of
             (s, c) \<Rightarrow> c\<lparr>sinfos := (sinfos c)(s \<mapsto> (the (sinfos c s))\<lparr>si_bev := Some b\<rparr>)\<rparr>))"

section \<open>Events\<close>

text \<open>What libevent reports: a connection with a new event, news of a session's connection, and
  data for it.\<close>

datatype ctl_event = Accept addr | Event addr bev_event | Receive addr string

fun ctl_handle :: "pg \<Rightarrow> 'j json_lib \<Rightarrow> pki \<Rightarrow> ctrler \<Rightarrow> ctl_event \<Rightarrow> ctrler option" where
  "ctl_handle S J P c (Accept b) = Some (accept_conn_cb c (Some b))"
| "ctl_handle S J P c (Event s ev) = on_event_cb_ctrler S c s ev"
| "ctl_handle S J P c (Receive s data) = do {
     x \<leftarrow> sinfos c s;
     b \<leftarrow> si_bev x;
     on_read_cb_ctrler S J P (c\<lparr>inbuf := (inbuf c)(b := inbuf c b @ data)\<rparr>) b s }"

text \<open>The controller as \<open>ctrler_init\<close> leaves it, on a database.\<close>

definition ctrler_start :: "database \<Rightarrow> (nat \<Rightarrow> string option) \<Rightarrow> ctrler" where
  "ctrler_start d ks = \<lparr>db = d, pg_calls = 0, keys = ks, keys_used = 0, sinfos = Map.empty, switch_sinfo = None,
     written = [], inbuf = (\<lambda>_. ''''), sinfo_brk = 0\<rparr>"

inductive ctl_reachable :: "pg \<Rightarrow> 'j json_lib \<Rightarrow> pki \<Rightarrow> ctrler \<Rightarrow> ctrler \<Rightarrow> bool" for S J P c0 where
  ctl_start: "ctl_reachable S J P c0 c0"
| ctl_step: "ctl_reachable S J P c0 c \<Longrightarrow> ctl_handle S J P c e = Some c' \<Longrightarrow> ctl_reachable S J P c0 c'"

end
