(* ===== verification/Ctrler_Inv.thy ===== *)
theory Ctrler_Inv
  imports Ctrler_Conn
begin

text \<open>
  The addresses the controller gives to nodes.  A network's pool is a column of its row and an
  address a column of the node's: what keeps the two together is proved here, handler by handler,
  while every statement runs (\<open>all_run\<close>).
\<close>

section \<open>What is leased\<close>

definition pools :: "database \<Rightarrow> (string \<times> u8 list) list" where
  "pools d = map (\<lambda>r. (cx_uuid r, cx_ippool r)) (contexts d)"

definition leases :: "database \<Rightarrow> (string \<times> string) list" where
  "leases d = map (\<lambda>x. (nd_network_uuid x, nd_ipaddress x)) (nodes d)"

text \<open>The pool every network starts with.\<close>

definition base_pool :: ippool where
  "base_pool = the (ippool_new ''44.128.0.0'' ''255.255.0.0'')"

definition with_pool :: "u8 list \<Rightarrow> ippool" where
  "with_pool bytes = base_pool\<lparr>pool := bytes\<rparr>"

definition net_ip :: "nat \<Rightarrow> string" where
  "net_ip b = nth_ip base_pool b"

lemma base_pool_new:
  "ippool_new ''44.128.0.0'' ''255.255.0.0'' = Some base_pool" "ip_invar base_pool" "ip_used base_pool = {}"
  "ip_cap base_pool = 65534" "net_ip b = inet_ntoa (htonl (0x2C800001 + of_nat b))"
proof -
  have a: "inet_pton ''44.128.0.0'' = Some [44, 128, 0, 0]" and n: "inet_pton ''255.255.0.0'' = Some [255, 255, 0, 0]"
    by (simp_all add: inet_pton_def is_digit_def Let_def)
  have m: "ntohl (addr_of_bytes [255, 255, 0, 0]) = NOT (mask 16)"
    by (simp add: addr_of_bytes_def word_of_bytes_def mask_eq_exp_minus_1 bswap32_def byte_of_def)
  have base: "(ntohl (addr_of_bytes [44, 128, 0, 0]) AND NOT (mask 16)) + 1 = 0x2C800001"
    by (simp add: addr_of_bytes_def word_of_bytes_def mask_eq_exp_minus_1 bswap32_def byte_of_def)
  show "ippool_new ''44.128.0.0'' ''255.255.0.0'' = Some base_pool" "ip_invar base_pool" "ip_used base_pool = {}"
    "ip_cap base_pool = 65534" "net_ip b = inet_ntoa (htonl (0x2C800001 + of_nat b))"
    using ippool_new_subnet [OF a n _ _ m] by (auto simp: base_pool_def net_ip_def base)
qed

lemma with_pool_fields [simp]:
  "hosts (with_pool bytes) = hosts base_pool" "hostmin (with_pool bytes) = hostmin base_pool" "pool (with_pool bytes) = bytes"
  "(with_pool bytes)\<lparr>pool := bytes'\<rparr> = with_pool bytes'" "base_pool\<lparr>pool := bytes\<rparr> = with_pool bytes"
  "pool_size (with_pool bytes) = pool_size base_pool" "ip_used (with_pool bytes) = bits_set bytes"
  "nth_ip (with_pool bytes) = net_ip" "ip_cap (with_pool bytes) = 65534"
  using base_pool_new(4)
  by (simp_all add: with_pool_def pool_size_def ip_used_def nth_ip_def net_ip_def ip_cap_def fun_eq_iff)

definition pool_ok :: "u8 list \<Rightarrow> bool" where
  "pool_ok bytes \<longleftrightarrow> ip_invar (with_pool bytes)"

lemma pool_ok_length: "pool_ok bytes \<Longrightarrow> length bytes = pool_size base_pool"
  by (simp add: pool_ok_def ip_invar_def pool_size_def)

lemma base_pool_length: "length (pool base_pool) = pool_size base_pool"
proof -
  have "with_pool (pool base_pool) = base_pool" by (simp add: with_pool_def del: with_pool_fields)
  then show ?thesis using base_pool_new(2) pool_ok_length [of "pool base_pool"] by (simp add: pool_ok_def)
qed

lemma pool_ok_bits: "pool_ok bytes \<Longrightarrow> b \<in> bits_set bytes \<Longrightarrow> b < 65534"
  by (auto simp: pool_ok_def ip_invar_def)

lemma net_ip_inj: "net_ip a = net_ip b \<Longrightarrow> a < 65534 \<Longrightarrow> b < 65534 \<Longrightarrow> a = b"
  using nth_ip_inj [OF base_pool_new(2), of a b] base_pool_new(4) by (simp add: net_ip_def)

text \<open>Every network's pool is well formed and has the address of each of its nodes marked, every
  node is in a network, and no two nodes of a network share an address.\<close>

definition addresses_ok :: "database \<Rightarrow> bool" where
  "addresses_ok d \<longleftrightarrow>
     (\<forall>u bytes. (u, bytes) \<in> set (pools d) \<longrightarrow> pool_ok bytes \<and> (\<forall>ip. (u, ip) \<in> set (leases d) \<longrightarrow> (\<exists>b \<in> bits_set bytes. ip = net_ip b)))
     \<and> (\<forall>u ip. (u, ip) \<in> set (leases d) \<longrightarrow> u \<in> fst ` set (pools d))
     \<and> distinct (leases d)"

text \<open>The identifiers of the networks are among those the database has generated.\<close>

definition issued :: "pg \<Rightarrow> ctrler \<Rightarrow> bool" where
  "issued S c \<longleftrightarrow> fst ` set (pools (db c)) \<subseteq> default S ` {..<pg_calls c}"

definition ctl_ok :: "pg \<Rightarrow> ctrler \<Rightarrow> bool" where
  "ctl_ok S c \<longleftrightarrow> addresses_ok (db c) \<and> issued S c"

section \<open>Steps that leave the addresses alone\<close>

definition calm :: "ctrler \<Rightarrow> ctrler \<Rightarrow> bool" where
  "calm c c' \<longleftrightarrow> pools (db c') = pools (db c) \<and> leases (db c') = leases (db c) \<and> pg_calls c \<le> pg_calls c'"

lemma calm_ok: "calm c c' \<Longrightarrow> ctl_ok S c \<Longrightarrow> ctl_ok S c'"
proof -
  assume c: "calm c c'" and ok: "ctl_ok S c"
  have "{..<pg_calls c} \<subseteq> {..<pg_calls c'}" using c by (simp add: calm_def)
  then have "default S ` {..<pg_calls c} \<subseteq> default S ` {..<pg_calls c'}" by (rule image_mono)
  moreover have "fst ` set (pools (db c)) \<subseteq> default S ` {..<pg_calls c}" using ok by (simp add: ctl_ok_def issued_def)
  ultimately have "issued S c'" using c by (simp add: issued_def calm_def subset_trans)
  moreover have "addresses_ok (db c')" using c ok by (simp add: calm_def ctl_ok_def addresses_ok_def)
  ultimately show ?thesis by (simp add: ctl_ok_def)
qed

lemma exec_calm:
  assumes "PQexec S c st = (r, c')"
    and "\<And>n d. pools (snd (st S n d)) = pools d \<and> leases (snd (st S n d)) = leases d"
  shows "calm c c'"
  using assms(1) assms(2) [of "pg_calls c" "db c"]
  by (auto simp: PQexec_def calm_def Let_def split: outcome.splits prod.splits)

named_theorems still \<open>statements that leave pools and leases alone\<close>

lemma still_clients [still]:
  "pools (snd (sql_dao_add_client e p a S n d)) = pools d \<and> leases (snd (sql_dao_add_client e p a S n d)) = leases d"
  "pools (snd (sql_dao_activate_client a S n d)) = pools d \<and> leases (snd (sql_dao_activate_client a S n d)) = leases d"
  "pools (snd (sql_dao_set_password e k p S n d)) = pools d \<and> leases (snd (sql_dao_set_password e k p S n d)) = leases d"
  "pools (snd (sql_dao_set_resetkey e k S n d)) = pools d \<and> leases (snd (sql_dao_set_resetkey e k S n d)) = leases d"
  "pools (snd (sql_dao_update_client_apikey a b S n d)) = pools d \<and> leases (snd (sql_dao_update_client_apikey a b S n d)) = leases d"
  by (simp_all add: sql_dao_add_client_def sql_dao_activate_client_def sql_dao_set_password_def sql_dao_set_resetkey_def
      sql_dao_update_client_apikey_def update_clients_def pools_def leases_def split: prod.splits)

lemma still_updates [still]:
  "pools (snd (sql_dao_update_embassy_serial u s S n d)) = pools d \<and> leases (snd (sql_dao_update_embassy_serial u s S n d)) = leases d"
  "pools (snd (sql_dao_update_node_status nu u s i S n d)) = pools d \<and> leases (snd (sql_dao_update_node_status nu u s i S n d)) = leases d"
  "pools (snd (sql_reset_node_state S n d)) = pools d \<and> leases (snd (sql_reset_node_state S n d)) = leases d"
  by (auto simp: sql_dao_update_embassy_serial_def sql_dao_update_node_status_def sql_reset_node_state_def
      update_contexts_def sql_update_def pools_def leases_def)

lemma still_queries [still]:
  "snd (sql_dao_fetch_account_apikey e p S n d) = d" "snd (sql_dao_fetch_client_id_by_apikey a S n d) = d"
  "snd (sql_dao_fetch_client_id e p S n d) = d" "snd (sql_dao_fetch_context_ippool u S n d) = d"
  "snd (sql_dao_fetch_network_id i u S n d) = d" "snd (sql_dao_fetch_context_embassy u S n d) = d"
  "snd (sql_dao_fetch_networks_by_client_id i S n d) = d" "snd (sql_dao_fetch_network_by_client_id_desc i t S n d) = d"
  "snd (sql_dao_fetch_context S n d) = d" "snd (sql_dao_fetch_node_uuid_networkuuid S n d) = d"
  "snd (sql_dao_fetch_node_ip u v S n d) = d" "snd (sql_dao_fetch_node_from_context_id u S n d) = d"
  by (simp_all add: sql_dao_fetch_account_apikey_def sql_dao_fetch_client_id_by_apikey_def sql_dao_fetch_client_id_def
      sql_dao_fetch_context_ippool_def sql_dao_fetch_network_id_def sql_dao_fetch_context_embassy_def
      sql_dao_fetch_networks_by_client_id_def sql_dao_fetch_network_by_client_id_desc_def sql_dao_fetch_context_def
      sql_dao_fetch_node_uuid_networkuuid_def sql_dao_fetch_node_ip_def sql_dao_fetch_node_from_context_id_def)


lemma calm_refl [simp]: "calm c c"
  by (simp add: calm_def)

lemma calm_trans: "calm a b \<Longrightarrow> calm b c \<Longrightarrow> calm a c"
  by (simp add: calm_def)

lemma calm_fields [simp]:
  "calm c (c'\<lparr>keys_used := k\<rparr>) \<longleftrightarrow> calm c c'" "calm c (c'\<lparr>written := w\<rparr>) \<longleftrightarrow> calm c c'"
  "calm c (c'\<lparr>sinfos := t\<rparr>) \<longleftrightarrow> calm c c'" "calm c (c'\<lparr>switch_sinfo := p\<rparr>) \<longleftrightarrow> calm c c'"
  "calm c (c'\<lparr>inbuf := i\<rparr>) \<longleftrightarrow> calm c c'" "calm c (c'\<lparr>sinfo_brk := n\<rparr>) \<longleftrightarrow> calm c c'"
  "calm (c\<lparr>keys_used := k\<rparr>) c' \<longleftrightarrow> calm c c'" "calm (c\<lparr>written := w\<rparr>) c' \<longleftrightarrow> calm c c'"
  "calm (c\<lparr>sinfos := t\<rparr>) c' \<longleftrightarrow> calm c c'" "calm (c\<lparr>switch_sinfo := p\<rparr>) c' \<longleftrightarrow> calm c c'"
  "calm (c\<lparr>inbuf := i\<rparr>) c' \<longleftrightarrow> calm c c'" "calm (c\<lparr>sinfo_brk := n\<rparr>) c' \<longleftrightarrow> calm c c'"
  by (simp_all add: calm_def)

text \<open>Replies write to connections only.\<close>

lemma reply_calm: "reply J c s v = Some c' \<Longrightarrow> calm c c'"
  by (auto simp: reply_def bev_write_def split: Option.bind_splits)

lemma reply_if_calm: "reply_if J c s v = Some c' \<Longrightarrow> calm c c'"
  by (auto simp: reply_if_def bev_write_def split: Option.bind_splits option.splits)

lemma to_switch_calm: "to_switch J c v = Some c' \<Longrightarrow> calm c c'"
  by (auto simp: to_switch_def dest: reply_if_calm split: option.splits)

lemma answer_calm: "answer J c s w = Some c' \<Longrightarrow> calm c c'"
  by (auto simp: answer_def dest: reply_calm)

lemma answer_if_calm: "answer_if J c s w = Some c' \<Longrightarrow> calm c c'"
  by (auto simp: answer_if_def dest: reply_if_calm)

lemma forward_reply_calm:
  "to_switch J c v \<bind> (\<lambda>c. reply J c s w) = Some c' \<Longrightarrow> calm c c'"
  by (auto intro: calm_trans dest: reply_calm to_switch_calm split: Option.bind_splits)

lemmas replies_calm = reply_calm reply_if_calm to_switch_calm answer_calm answer_if_calm

text \<open>So do the callbacks, and the loops over them.\<close>

lemma CB_listall_network_calm: "CB_listall_network J s c k row = Some (r, c') \<Longrightarrow> calm c c'"
  by (auto simp: CB_listall_network_def bev_write_def Let_def split: list.splits Option.bind_splits option.splits)

lemma CB_listall_node_calm: "CB_listall_node J s c k row = Some (r, c') \<Longrightarrow> calm c c'"
  by (auto simp: CB_listall_node_def bev_write_def Let_def split: list.splits Option.bind_splits option.splits)

lemma fetch_loop_calm:
  assumes "\<And>c k row r c'. cb c k row = Some (r, c') \<Longrightarrow> calm c c'"
  shows "fetch_loop cb c rows = Some (r, c') \<Longrightarrow> calm c c'"
proof (induction rows arbitrary: c)
  case (Cons row rows)
  then obtain r1 c1 where c1: "cb c (length rows) row = Some (r1, c1)"
      "(if r1 = - 1 then Some (- 1, c1) else fetch_loop cb c1 rows) = Some (r, c')"
    by (auto split: Option.bind_splits)
  then have "calm c1 c'" using Cons.IH by (auto split: if_splits)
  with assms [OF c1(1)] show ?case by (rule calm_trans)
qed simp

lemma loops_calm:
  "fetch_loop (CB_listall_network J s) c rows = Some (r, c') \<Longrightarrow> calm c c'"
  "fetch_loop (CB_listall_node J s) c rows = Some (r, c') \<Longrightarrow> calm c c'"
  by (erule fetch_loop_calm [rotated], erule CB_listall_network_calm CB_listall_node_calm)+

lemma dao_command_calm:
  "dao_command S c st = (r, c') \<Longrightarrow> (\<And>n d. pools (snd (st S n d)) = pools d \<and> leases (snd (st S n d)) = leases d) \<Longrightarrow> calm c c'"
  by (auto simp: dao_command_def dest: exec_calm split: prod.splits option.splits if_splits)

lemma dao_clients_calm:
  "dao_add_client S c e p a = (r, c') \<Longrightarrow> calm c c'"
  "dao_update_client_apikey S c a b = (r, c') \<Longrightarrow> calm c c'"
  "dao_set_password S c e k p = (r, c') \<Longrightarrow> calm c c'"
  "dao_update_embassy_serial S c u t = (r, c') \<Longrightarrow> calm c c'"
  "dao_update_node_status S c nu u t i = (r, c') \<Longrightarrow> calm c c'"
  by (auto simp: dao_add_client_def dao_update_client_apikey_def dao_set_password_def dao_update_embassy_serial_def
      dao_update_node_status_def elim!: dao_command_calm simp: still split: option.splits)

lemma dao_counted_calm:
  "dao_activate_client S c a = (r, c') \<Longrightarrow> calm c c'"
  "dao_set_resetkey S c e k = (r, c') \<Longrightarrow> calm c c'"
  by (auto simp: dao_activate_client_def dao_set_resetkey_def simp: still dest!: exec_calm
      split: option.splits prod.splits if_splits)

lemma reset_calm: "calm c (dao_reset_node_state S c)"
  unfolding dao_reset_node_state_def by (rule exec_calm [OF prod.collapse [symmetric]]) (simp add: still)

lemma dao_required_calm:
  "dao_required S c st = Some (r, v, c') \<Longrightarrow> (\<And>n d. snd (st S n d) = d) \<Longrightarrow> calm c c'"
  by (auto simp: dao_required_def dest!: exec_calm split: prod.splits option.splits if_splits Option.bind_splits)

lemma dao_fetch_calm:
  "dao_fetch_account_apikey S c e p = Some (r, v, c') \<Longrightarrow> calm c c'"
  "dao_fetch_client_id_by_apikey S c a = Some (r, v, c') \<Longrightarrow> calm c c'"
  "dao_fetch_node_ip S c u w = Some (r, v, c') \<Longrightarrow> calm c c'"
  "dao_fetch_context_ippool S c u = Some (r, v', c') \<Longrightarrow> calm c c'"
  "dao_fetch_context_embassy S c u = Some (r, v'', c') \<Longrightarrow> calm c c'"
  "dao_fetch_networks_by_client_id S c i cb x = (r, y, c') \<Longrightarrow> calm c c'"
  "dao_fetch_node_from_context_id S c i cb x = (r, y, c') \<Longrightarrow> calm c c'"
  by (auto simp: dao_fetch_account_apikey_def dao_fetch_client_id_by_apikey_def dao_fetch_node_ip_def
      dao_fetch_context_ippool_def dao_fetch_context_embassy_def dao_fetch_networks_by_client_id_def
      dao_fetch_node_from_context_id_def still dest!: exec_calm dao_required_calm
      split: option.splits prod.splits if_splits Option.bind_splits)

lemmas dao_calm = dao_clients_calm dao_counted_calm dao_fetch_calm

section \<open>Requests that leave the addresses alone\<close>

text \<open>Statements put together as text only read.\<close>

definition read_only :: "pg \<Rightarrow> bool" where
  "read_only S \<longleftrightarrow> (\<forall>q d. snd (engine S q d) = d)"

lemma provcode_calm:
  "read_only S \<Longrightarrow> dao_fetch_node_from_provcode S c p = Some (r, v, c') \<Longrightarrow> calm c c'"
  by (auto simp: dao_fetch_node_from_provcode_def read_only_def sql_text_def dest!: exec_calm
      split: option.splits prod.splits if_splits Option.bind_splits)

lemma accounts_calm:
  "activate_account S J c s jmsg = Some c' \<Longrightarrow> calm c c'"
  "add_account S J c s jmsg = Some c' \<Longrightarrow> calm c c'"
  "get_account_apikey S J c s jmsg = Some c' \<Longrightarrow> calm c c'"
  "set_new_password S J c s jmsg = Some c' \<Longrightarrow> calm c c'"
  by (auto simp: activate_account_def add_account_def get_account_apikey_def set_new_password_def next_key_def Let_def
      calm_def dest!: replies_calm dao_calm split: option.splits prod.splits if_splits Option.bind_splits)

lemma reset_account_password_calm: "reset_account_password S J c s jmsg = Some (r, c') \<Longrightarrow> calm c c'"
  by (auto simp: reset_account_password_def next_key_def Let_def calm_def dest!: replies_calm dao_calm
      split: option.splits prod.splits if_splits Option.bind_splits)

lemma lists_calm:
  "list_network S J c s jmsg = Some c' \<Longrightarrow> calm c c'"
  "list_node S J c s jmsg = Some c' \<Longrightarrow> calm c c'"
  by (auto simp: list_network_def list_node_def Let_def calm_def dest!: replies_calm dao_calm
      split: option.splits prod.splits if_splits Option.bind_splits)

lemma dao_fetch_context_calm:
  "dao_fetch_context S c (CB_listall_network J s) = Some (r, c') \<Longrightarrow> calm c c'"
  by (auto simp: dao_fetch_context_def still calm_def dest!: exec_calm loops_calm
      split: option.splits prod.splits if_splits)

lemma dao_fetch_nodes_calm:
  "dao_fetch_node_uuid_networkuuid S c (CB_listall_node J s) = Some (r, c') \<Longrightarrow> calm c c'"
  by (auto simp: dao_fetch_node_uuid_networkuuid_def still calm_def dest!: exec_calm loops_calm
      split: option.splits prod.splits if_splits)

lemma switch_requests_calm:
  "listall_network_ctrler S J c s = Some c' \<Longrightarrow> calm c c'"
  "listall_node_ctrler S J c s = Some c' \<Longrightarrow> calm c c'"
  "update_node_status_ctrler S J c s jmsg = Some (b, c') \<Longrightarrow> calm c c'"
  by (auto simp: listall_network_ctrler_def listall_node_ctrler_def update_node_status_ctrler_def Let_def calm_def
      dest!: replies_calm dao_calm dao_fetch_context_calm dao_fetch_nodes_calm
      split: prod.splits if_splits Option.bind_splits)

lemma provisioning_ctrler_calm: "read_only S \<Longrightarrow> provisioning_ctrler S J c s jmsg = Some c' \<Longrightarrow> calm c c'"
  by (auto simp: provisioning_ctrler_def Let_def calm_def dest!: replies_calm provcode_calm
      split: prod.splits if_splits Option.bind_splits)

section \<open>Statements that run\<close>

definition all_run :: "pg \<Rightarrow> bool" where
  "all_run S \<longleftrightarrow> outcome S = (\<lambda>_. Runs) \<and> inj (default S) \<and> read_only S"

lemma exec_runs:
  "all_run S \<Longrightarrow> PQexec S c st = (Some (fst (st S (pg_calls c) (db c))), c\<lparr>pg_calls := Suc (pg_calls c), db := snd (st S (pg_calls c) (db c))\<rparr>)"
  by (simp add: PQexec_def all_run_def Let_def split: prod.splits)

text \<open>Networks and nodes go.\<close>

lemma addresses_shrink:
  assumes ok: "addresses_ok d" and p: "set (pools d') \<subseteq> set (pools d)"
    and l: "set (leases d') \<subseteq> set (leases d)" "distinct (leases d')"
    and rest: "\<And>u ip. (u, ip) \<in> set (leases d') \<Longrightarrow> u \<in> fst ` set (pools d')"
  shows "addresses_ok d'"
proof -
  have "pool_ok bytes \<and> (\<forall>ip. (u, ip) \<in> set (leases d') \<longrightarrow> (\<exists>b \<in> bits_set bytes. ip = net_ip b))"
    if "(u, bytes) \<in> set (pools d')" for u bytes
  proof -
    have "(u, bytes) \<in> set (pools d)" using that p by blast
    then have "pool_ok bytes" "\<forall>ip. (u, ip) \<in> set (leases d) \<longrightarrow> (\<exists>b \<in> bits_set bytes. ip = net_ip b)"
      using ok by (auto simp: addresses_ok_def)
    with l(1) show ?thesis by blast
  qed
  with l(2) rest show ?thesis unfolding addresses_ok_def by blast
qed

lemma leases_delete: "leases (snd (delete_nodes P d)) = map (\<lambda>x. (nd_network_uuid x, nd_ipaddress x)) (filter (\<lambda>x. \<not> P x) (nodes d))"
  by (simp add: delete_nodes_def sql_delete_def leases_def)

lemma pools_delete [simp]: "pools (snd (delete_nodes P d)) = pools d"
  by (simp add: delete_nodes_def sql_delete_def pools_def)

lemma delete_nodes_subset: "set (leases (snd (delete_nodes P d))) \<subseteq> set (leases d)"
  unfolding leases_delete by (auto simp: leases_def)

lemma delete_nodes_distinct: "distinct (leases d) \<Longrightarrow> distinct (leases (snd (delete_nodes P d)))"
  unfolding leases_delete by (rule distinct_map_filter) (simp add: leases_def)

lemma leased_pool: "addresses_ok d \<Longrightarrow> (u, ip) \<in> set (leases d) \<Longrightarrow> u \<in> fst ` set (pools d)"
  unfolding addresses_ok_def by blast

lemma lease_marked:
  "addresses_ok d \<Longrightarrow> (u, bytes) \<in> set (pools d) \<Longrightarrow> (u, ip) \<in> set (leases d) \<Longrightarrow> \<exists>b \<in> bits_set bytes. ip = net_ip b"
  unfolding addresses_ok_def by blast

lemma pool_of_network: "addresses_ok d \<Longrightarrow> (u, bytes) \<in> set (pools d) \<Longrightarrow> pool_ok bytes"
  unfolding addresses_ok_def by blast

lemma delete_nodes_ok:
  assumes "addresses_ok d" shows "addresses_ok (snd (delete_nodes P d))"
proof (rule addresses_shrink [OF assms])
  show "distinct (leases (snd (delete_nodes P d)))"
    using assms by (intro delete_nodes_distinct) (simp add: addresses_ok_def)
  show "u \<in> fst ` set (pools (snd (delete_nodes P d)))" if "(u, ip) \<in> set (leases (snd (delete_nodes P d)))" for u ip
    using leased_pool [OF assms] that delete_nodes_subset [of P d] by auto
qed (use delete_nodes_subset [of P d] in simp_all)

lemma ok_db:
  assumes "ctl_ok S c" and "addresses_ok d" and "fst ` set (pools d) \<subseteq> fst ` set (pools (db c))"
  shows "ctl_ok S (c\<lparr>pg_calls := Suc (pg_calls c), db := d\<rparr>)"
proof -
  have "fst ` set (pools d) \<subseteq> default S ` {..<pg_calls c}"
    using assms(1,3) by (auto simp: ctl_ok_def issued_def)
  also have "\<dots> \<subseteq> default S ` {..<Suc (pg_calls c)}" by (rule image_mono) auto
  finally show ?thesis using assms(2) by (simp add: ctl_ok_def issued_def)
qed

lemma unchecked_runs:
  "all_run S \<Longrightarrow> dao_unchecked S c st = (0, c\<lparr>pg_calls := Suc (pg_calls c), db := snd (st S (pg_calls c) (db c))\<rparr>)"
  by (simp add: dao_unchecked_def exec_runs)

text \<open>A network whose nodes are gone goes.\<close>

lemma del_context_ok:
  assumes ok: "addresses_ok d" and gone: "\<And>ip. (u, ip) \<notin> set (leases d)"
  shows "addresses_ok (snd (sql_dao_del_context i u S n d))"
    and "fst ` set (pools (snd (sql_dao_del_context i u S n d))) \<subseteq> fst ` set (pools d)"
proof -
  let ?d = "snd (sql_dao_del_context i u S n d)"
  have p: "pools ?d = map (\<lambda>r. (cx_uuid r, cx_ippool r)) (filter (\<lambda>r. \<not> (cx_client_id r = i \<and> cx_uuid r = u)) (contexts d))"
    and l: "leases ?d = leases d"
    by (simp_all add: sql_dao_del_context_def sql_delete_def pools_def leases_def)
  show "fst ` set (pools ?d) \<subseteq> fst ` set (pools d)" unfolding p by (auto simp: pools_def)
  show "addresses_ok ?d"
  proof (rule addresses_shrink [OF ok])
    show "set (pools ?d) \<subseteq> set (pools d)" unfolding p by (auto simp: pools_def)
    show "distinct (leases ?d)" using ok by (simp add: l addresses_ok_def)
    show "w \<in> fst ` set (pools ?d)" if "(w, ip) \<in> set (leases ?d)" for w ip
    proof -
      have "w \<noteq> u" "w \<in> fst ` set (pools d)" using that gone leased_pool [OF ok] by (auto simp: l)
      then show ?thesis unfolding p by (auto simp: pools_def image_iff)
    qed
  qed (simp add: l)
qed

lemma del_network_ctrler_ok:
  assumes run: "all_run S" and ok: "ctl_ok S c" and r: "del_network_ctrler S J c s jmsg = Some c'"
  shows "ctl_ok S c'"
proof (cases "json_object_get J jmsg ''network''")
  case None
  with r ok show ?thesis by (simp add: del_network_ctrler_def)
next
  case (Some js)
  let ?u = "json_unpack_s J js ''uuid''"
  obtain ret i c1 where c1: "dao_fetch_client_id_by_apikey S c (json_unpack_s J jmsg ''apikey'') = Some (ret, i, c1)"
    using r Some by (auto simp: del_network_ctrler_def Let_def split: Option.bind_splits)
  have ok1: "ctl_ok S c1" using calm_ok [OF dao_calm(9) [OF c1] ok] .
  show ?thesis
  proof (cases "i = None \<or> ret = - 1 \<or> ?u = None")
    case True
    then have "calm c1 c'"
      using r Some c1
      by (auto simp: del_network_ctrler_def Let_def dao_del_node_by_context_id_def dest: replies_calm split: if_splits)
    with ok1 show ?thesis by (simp add: calm_ok)
  next
    case False
    then obtain u k where u: "?u = Some u" "i = Some k" "ret \<noteq> - 1" by auto
    define c2 where "c2 = c1\<lparr>pg_calls := Suc (pg_calls c1), db := snd (delete_nodes (\<lambda>x. nd_network_uuid x = u) (db c1))\<rparr>"
    define c3 where "c3 = c2\<lparr>pg_calls := Suc (pg_calls c2), db := snd (sql_dao_del_context k u S (pg_calls c2) (db c2))\<rparr>"
    have d: "dao_del_node_by_context_id S c1 (Some u) = (0, c2)" "dao_del_context S c2 (Some k) (Some u) = (0, c3)"
      by (simp_all add: dao_del_node_by_context_id_def dao_del_context_def unchecked_runs [OF run]
          sql_dao_del_node_by_context_id_def c2_def c3_def)
    have "calm c3 c'"
      using r Some c1 u d
      by (auto simp: del_network_ctrler_def Let_def calm_def dest!: replies_calm split: if_splits Option.bind_splits)
    moreover have ok2: "ctl_ok S c2"
      unfolding c2_def using ok1 by (intro ok_db delete_nodes_ok) (simp_all add: ctl_ok_def)
    have "(u, ip) \<notin> set (leases (db c2))" for ip
      by (auto simp: c2_def leases_delete)
    from del_context_ok [OF _ this] have "ctl_ok S c3"
      unfolding c3_def using ok2 by (intro ok_db) (auto simp: ctl_ok_def)
    ultimately show ?thesis by (simp add: calm_ok)
  qed
qed

text \<open>The pool of a network is replaced by one that has all its leases marked.\<close>

lemma pools_update:
  "pools (snd (sql_dao_update_context_ippool u bytes S n d)) = map (\<lambda>(w, b). (w, if w = u then bytes else b)) (pools d)"
  by (simp add: sql_dao_update_context_ippool_def update_contexts_def sql_update_def pools_def)

lemma leases_update [simp]: "leases (snd (sql_dao_update_context_ippool u bytes S n d)) = leases d"
  by (simp add: sql_dao_update_context_ippool_def update_contexts_def sql_update_def leases_def)

definition covered :: "database \<Rightarrow> string \<Rightarrow> u8 list \<Rightarrow> bool" where
  "covered d u bytes \<longleftrightarrow> (\<forall>ip. (u, ip) \<in> set (leases d) \<longrightarrow> (\<exists>b \<in> bits_set bytes. ip = net_ip b))"

lemma addresses_ok_covered:
  "addresses_ok d \<longleftrightarrow> (\<forall>u bytes. (u, bytes) \<in> set (pools d) \<longrightarrow> pool_ok bytes \<and> covered d u bytes)
     \<and> (\<forall>u ip. (u, ip) \<in> set (leases d) \<longrightarrow> u \<in> fst ` set (pools d)) \<and> distinct (leases d)"
  by (simp add: addresses_ok_def covered_def)

lemma update_pool_ok:
  assumes "\<And>w b. (w, b) \<in> set (pools d) \<Longrightarrow> w \<noteq> u \<Longrightarrow> pool_ok b \<and> covered d w b"
    and "\<And>w ip. (w, ip) \<in> set (leases d) \<Longrightarrow> w \<in> fst ` set (pools d)" and "distinct (leases d)"
    and "pool_ok bytes" and "covered d u bytes"
  shows "addresses_ok (snd (sql_dao_update_context_ippool u bytes S n d))"
    and "fst ` set (pools (snd (sql_dao_update_context_ippool u bytes S n d))) = fst ` set (pools d)"
proof -
  let ?d = "snd (sql_dao_update_context_ippool u bytes S n d)"
  show fst: "fst ` set (pools ?d) = fst ` set (pools d)" unfolding pools_update by (force simp: image_iff)
  have "pool_ok b \<and> covered d w b" if "(w, b) \<in> set (pools ?d)" for w b
    using that assms(1,4,5) unfolding pools_update by (auto split: if_splits)
  then show "addresses_ok ?d"
    unfolding addresses_ok_covered fst using assms(2,3) by (simp add: covered_def)
qed

lemma repool_ok:
  assumes "ctl_ok S c" and "pool_ok bytes" and "covered (db c) u bytes"
  shows "ctl_ok S (c\<lparr>pg_calls := Suc (pg_calls c), db := snd (sql_dao_update_context_ippool u bytes S (pg_calls c) (db c))\<rparr>)"
proof -
  have A: "addresses_ok (db c)" using assms(1) by (simp add: ctl_ok_def)
  have pre: "pool_ok b \<and> covered (db c) w b" if "(w, b) \<in> set (pools (db c))" for w b
    using A that unfolding addresses_ok_covered by blast
  have d: "distinct (leases (db c))" using A unfolding addresses_ok_covered by blast
  from update_pool_ok [OF pre leased_pool [OF A] d assms(2,3), where S = S and n = "pg_calls c"]
  show ?thesis using assms(1) by (intro ok_db) simp_all
qed

lemma fetch_pool:
  assumes run: "all_run S" and r: "dao_fetch_context_ippool S c (Some u) = Some (ret, p, c')"
  shows "db c' = db c \<and> (ret = - 1 \<or> ret = 0 \<and> (\<exists>bytes. p = Some bytes \<and> (u, bytes) \<in> set (pools (db c))))"
proof (cases "filter (\<lambda>r. cx_uuid r = u) (contexts (db c))")
  case Nil
  with r show ?thesis
    by (auto simp: dao_fetch_context_ippool_def dao_required_def exec_runs [OF run] sql_dao_fetch_context_ippool_def
        check_result_status_def first_value_def)
next
  case (Cons x xs)
  then have "x \<in> set (filter (\<lambda>r. cx_uuid r = u) (contexts (db c)))" by simp
  then have "(u, cx_ippool x) \<in> set (pools (db c))" by (auto simp: pools_def)
  with r Cons show ?thesis
    by (auto simp: dao_fetch_context_ippool_def dao_required_def exec_runs [OF run] sql_dao_fetch_context_ippool_def
        check_result_status_def first_value_def)
qed

lemma fetch_ip:
  assumes run: "all_run S" and r: "dao_fetch_node_ip S c nu uu = Some (ret, p, c')"
  shows "db c' = db c \<and> (ret = - 1 \<or> ret = 0 \<and> (\<exists>x n u. nu = Some n \<and> uu = Some u \<and> x \<in> set (nodes (db c))
     \<and> nd_network_uuid x = n \<and> nd_uuid x = u \<and> p = Some (nd_ipaddress x)))"
proof (cases "nu = None \<or> uu = None")
  case True
  with r show ?thesis by (auto simp: dao_fetch_node_ip_def split: option.splits)
next
  case False
  then obtain n u where nu: "nu = Some n" "uu = Some u" by auto
  show ?thesis
  proof (cases "filter (\<lambda>x. nd_network_uuid x = n \<and> nd_uuid x = u) (nodes (db c))")
    case Nil
    with r nu show ?thesis
      by (auto simp: dao_fetch_node_ip_def dao_required_def exec_runs [OF run] sql_dao_fetch_node_ip_def
          check_result_status_def first_value_def)
  next
    case (Cons x xs)
    then have "x \<in> set (filter (\<lambda>x. nd_network_uuid x = n \<and> nd_uuid x = u) (nodes (db c)))" by simp
    then have "x \<in> set (nodes (db c)) \<and> nd_network_uuid x = n \<and> nd_uuid x = u" by (simp only: set_filter mem_Collect_eq)
    then have "\<exists>y. y \<in> set (nodes (db c)) \<and> nd_network_uuid y = n \<and> nd_uuid y = u \<and> nd_ipaddress x = nd_ipaddress y"
      by blast
    with r nu Cons show ?thesis
      by (auto simp: dao_fetch_node_ip_def dao_required_def exec_runs [OF run] sql_dao_fetch_node_ip_def
          check_result_status_def first_value_def)
  qed
qed

lemma update_pool_runs:
  assumes "all_run S" and "length bytes = pool_size base_pool"
  shows "dao_update_context_ippool S c (Some u) (Some bytes) (pool_size base_pool) = Some (0, c\<lparr>pg_calls := Suc (pg_calls c),
     db := snd (sql_dao_update_context_ippool u bytes S (pg_calls c) (db c))\<rparr>)"
  using assms
  by (simp add: dao_update_context_ippool_def dao_command_def exec_runs sql_dao_update_context_ippool_def update_contexts_def
      check_result_status_def sql_update_def)

text \<open>Releasing one of the leases of a pool.\<close>

lemma release_pool:
  assumes ok: "pool_ok bytes" and b: "b \<in> bits_set bytes"
  shows "\<exists>bytes'. ippool_release_ip (with_pool bytes) (net_ip b) = Some (with_pool bytes')
     \<and> pool_ok bytes' \<and> bits_set bytes' = bits_set bytes - {b}"
proof -
  have inv: "ip_invar (with_pool bytes)" using ok by (simp add: pool_ok_def)
  have lt: "b < ip_cap (with_pool bytes)" using pool_ok_bits [OF ok b] by simp
  have "\<exists>bytes'. ip_release (with_pool bytes) b = with_pool bytes'"
    by (cases "free_bit bytes (unat (hosts base_pool)) b") (auto simp: ip_release_def intro: exI [of _ bytes])
  then obtain bytes' where r: "ip_release (with_pool bytes) b = with_pool bytes'" by blast
  have "ippool_release_ip (with_pool bytes) (net_ip b) = Some (with_pool bytes')"
    using ippool_release_nth [OF inv lt] r by simp
  moreover have "ip_invar (with_pool bytes') \<and> ip_used (with_pool bytes') = ip_used (with_pool bytes) - {b}"
    using ip.release_ok [OF inv, of b] r by auto
  ultimately show ?thesis by (auto simp: pool_ok_def)
qed

lemma del_node_ctrler_ok:
  assumes run: "all_run S" and ok: "ctl_ok S c" and r: "del_node_ctrler S J c s jmsg = Some c'"
  shows "ctl_ok S c'"
proof (cases "json_object_get J jmsg ''node''")
  case None
  with r ok show ?thesis by (simp add: del_node_ctrler_def)
next
  case (Some js)
  let ?n = "json_unpack_s J js ''networkuuid''" and ?u = "json_unpack_s J js ''uuid''"
  obtain ret i c1 where c1: "dao_fetch_client_id_by_apikey S c (json_unpack_s J jmsg ''apikey'') = Some (ret, i, c1)"
    using r Some by (auto simp: del_node_ctrler_def Let_def split: Option.bind_splits)
  have ok1: "ctl_ok S c1" using calm_ok [OF dao_calm(9) [OF c1] ok] .
  show ?thesis
  proof (cases "ret = 0")
    case False
    with r Some c1 have "calm c1 c'" by (auto simp: del_node_ctrler_def Let_def dest: replies_calm)
    with ok1 show ?thesis by (simp add: calm_ok)
  next
    case True
    obtain ret2 p c2 where c2: "dao_fetch_node_ip S c1 ?n ?u = Some (ret2, p, c2)"
      using r Some c1 True by (auto simp: del_node_ctrler_def Let_def split: Option.bind_splits)
    have ok2: "ctl_ok S c2" using calm_ok [OF dao_calm(10) [OF c2] ok1] .
    show ?thesis
    proof (cases "ret2 = 0")
      case False
      with r Some c1 c2 True have "calm c2 c'" by (auto simp: del_node_ctrler_def Let_def dest: replies_calm)
      with ok2 show ?thesis by (simp add: calm_ok)
    next
      case ret2: True
      then obtain x n u where x: "?n = Some n" "?u = Some u" "x \<in> set (nodes (db c2))" "nd_network_uuid x = n" "nd_uuid x = u"
          "p = Some (nd_ipaddress x)"
        using fetch_ip [OF run c2] by auto
      define c3 where "c3 = c2\<lparr>pg_calls := Suc (pg_calls c2), db := snd (delete_nodes (\<lambda>r. nd_network_uuid r = n \<and> nd_uuid r = u) (db c2))\<rparr>"
      have c3: "dao_del_node S c2 (Some n) (Some u) = (0, c3)"
        by (simp add: dao_del_node_def unchecked_runs [OF run] sql_dao_del_node_def c3_def)
      have ok3: "ctl_ok S c3"
        unfolding c3_def using ok2 by (intro ok_db delete_nodes_ok) (simp_all add: ctl_ok_def)
      obtain ret4 q c4 where c4: "dao_fetch_context_ippool S c3 (Some n) = Some (ret4, q, c4)"
        using r Some c1 True c2 ret2 c3 x by (auto simp: del_node_ctrler_def Let_def split: Option.bind_splits)
      have ok4: "ctl_ok S c4" using calm_ok [OF dao_calm(11) [OF c4] ok3] .
      show ?thesis
      proof (cases "ret4 = - 1")
        case True
        with r Some c1 \<open>ret = 0\<close> c2 ret2 c3 x c4 have "calm c4 c'"
          by (auto simp: del_node_ctrler_def Let_def dest: replies_calm)
        with ok4 show ?thesis by (simp add: calm_ok)
      next
        case False
        then obtain bytes where q: "q = Some bytes" "(n, bytes) \<in> set (pools (db c3))" "db c4 = db c3"
          using fetch_pool [OF run c4] by auto
        have d3: "pools (db c3) = pools (db c2)" "set (leases (db c3)) \<subseteq> set (leases (db c2))"
          by (auto simp: c3_def delete_nodes_subset [THEN subsetD])
        have lease: "(n, nd_ipaddress x) \<in> set (leases (db c2))" using x by (auto simp: leases_def)
        have q2: "(n, bytes) \<in> set (pools (db c2))" and A2: "addresses_ok (db c2)"
          using q(2) ok2 by (simp_all add: d3 ctl_ok_def)
        obtain b where b: "pool_ok bytes" "b \<in> bits_set bytes" "nd_ipaddress x = net_ip b"
          using pool_of_network [OF A2 q2] lease_marked [OF A2 q2 lease] by blast
        obtain bytes' where bytes': "ippool_release_ip (with_pool bytes) (net_ip b) = Some (with_pool bytes')"
            "pool_ok bytes'" "bits_set bytes' = bits_set bytes - {b}"
          using release_pool [OF b(1,2)] by blast
        have gone: "(n, nd_ipaddress x) \<notin> set (leases (db c3))"
        proof
          assume "(n, nd_ipaddress x) \<in> set (leases (db c3))"
          then obtain y where y: "y \<in> set (nodes (db c2))" "nd_network_uuid y = n" "nd_ipaddress y = nd_ipaddress x" "nd_uuid y \<noteq> u"
            by (auto simp: c3_def leases_delete)
          have "inj_on (\<lambda>x. (nd_network_uuid x, nd_ipaddress x)) (set (nodes (db c2)))"
            using ok2 by (simp add: ctl_ok_def addresses_ok_def leases_def distinct_map)
          then have "y = x" using x y by (auto dest: inj_onD)
          with x y show False by simp
        qed
        have cov: "covered (db c3) n bytes'"
          unfolding covered_def
        proof (intro allI impI)
          fix ip assume ip: "(n, ip) \<in> set (leases (db c3))"
          then have "\<exists>a \<in> bits_set bytes. ip = net_ip a"
            using lease_marked [OF _ q(2) ip] ok3 by (simp add: ctl_ok_def)
          with ip gone b(3) show "\<exists>a \<in> bits_set bytes'. ip = net_ip a" by (auto simp: bytes'(3))
        qed
        define c5 where "c5 = c4\<lparr>pg_calls := Suc (pg_calls c4), db := snd (sql_dao_update_context_ippool n bytes' S (pg_calls c4) (db c4))\<rparr>"
        have c5: "dao_update_context_ippool S c4 (Some n) (Some bytes') (pool_size base_pool) = Some (0, c5)"
          unfolding c5_def by (rule update_pool_runs [OF run pool_ok_length [OF bytes'(2)]])
        have "ctl_ok S c5" unfolding c5_def using ok4 bytes'(2) cov by (intro repool_ok) (simp_all add: q(3))
        moreover have "del_node_ctrler S J c s jmsg = do { c \<leftarrow> to_switch J c5 (json_object_del J jmsg ''apikey''); reply J c s (resp_start J) }"
          using c2 c3 c4 False
          by (simp add: del_node_ctrler_def Let_def base_pool_new(1) Some c1 \<open>ret = 0\<close> ret2 x(1,2,6) q(1) b(3) bytes'(1) c5)
        then have "calm c5 c'" using r by (intro forward_reply_calm) simp
        ultimately show ?thesis by (simp add: calm_ok)
      qed
    qed
  qed
qed

text \<open>Taking an address from a pool.\<close>

lemma alloc_pool:
  assumes ok: "pool_ok bytes"
  shows "ippool_get_ip (with_pool bytes) = Some (None, with_pool bytes)
    \<or> (\<exists>b bytes'. ippool_get_ip (with_pool bytes) = Some (Some (net_ip b), with_pool bytes') \<and> b < 65534
         \<and> b \<notin> bits_set bytes \<and> bits_set bytes' = insert b (bits_set bytes) \<and> pool_ok bytes')"
proof (cases "ip_alloc (with_pool bytes)")
  case None
  have inv: "ip_invar (with_pool bytes)" using ok by (simp add: pool_ok_def)
  from None show ?thesis using ippool_get_ip_eq [OF inv] by simp
next
  case (Some r)
  have inv: "ip_invar (with_pool bytes)" using ok by (simp add: pool_ok_def)
  obtain p' b where al: "ip_alloc (with_pool bytes) = Some (p', b)" using Some by (cases r) auto
  obtain bytes' where p': "p' = with_pool bytes'" "b < 65534" "b \<notin> bits_set bytes" "bits_set bytes' = insert b (bits_set bytes)"
    using ip_alloc_SomeD [OF inv al] by auto
  moreover have "ip_invar (with_pool bytes')" using ip.alloc_invar [OF inv al] p'(1) by simp
  moreover have "ippool_get_ip (with_pool bytes) = Some (Some (net_ip b), with_pool bytes')"
    using ippool_get_ip_eq [OF inv] al p'(1) by simp
  ultimately show ?thesis by (auto simp: pool_ok_def)
qed

lemma fetch_embassy:
  assumes run: "all_run S" and r: "dao_fetch_context_embassy S c (Some u) = Some (ret, v, c')"
  shows "db c' = db c \<and> (ret = - 1 \<or> ret = 0 \<and> (\<exists>ce k se bytes. v = Some (ce, k, se, bytes) \<and> (u, bytes) \<in> set (pools (db c))))"
proof (cases "filter (\<lambda>r. cx_uuid r = u) (contexts (db c))")
  case Nil
  with r show ?thesis
    by (auto simp: dao_fetch_context_embassy_def exec_runs [OF run] sql_dao_fetch_context_embassy_def check_result_status_def)
next
  case (Cons x xs)
  then have "x \<in> set (filter (\<lambda>r. cx_uuid r = u) (contexts (db c)))" by simp
  then have "(u, cx_ippool x) \<in> set (pools (db c))" by (auto simp: pools_def)
  with r Cons show ?thesis
    by (auto simp: dao_fetch_context_embassy_def exec_runs [OF run] sql_dao_fetch_context_embassy_def check_result_status_def
        numeral_eq_Suc)
qed

lemma add_node_tail_ok:
  assumes run: "all_run S" and ok: "ctl_ok S c" and p: "(u, bytes) \<in> set (pools (db c))"
    and al: "ippool_get_ip (with_pool bytes) = Some (ip, q)"
    and r: "add_node_tail S J c s (Some u) uuid cert pvkey provcode description ip q = Some c'"
  shows "ctl_ok S c'"
proof (cases "fst (dao_add_node S c (Some u) uuid cert pvkey provcode description ip) = - 1")
  case True
  obtain c1 where c1: "dao_add_node S c (Some u) uuid cert pvkey provcode description ip = (- 1, c1)"
    using True by (metis prod.collapse)
  then have "calm c c1"
    by (auto simp: dao_add_node_def dao_command_def exec_runs [OF run] check_result_status_def sql_dao_add_node_def calm_def
        split: option.splits if_splits)
  moreover have "calm c1 c'" using r c1 by (auto simp: add_node_tail_def dest: replies_calm)
  ultimately show ?thesis using ok calm_ok by blast
next
  case False
  then obtain w ce k pc de i where a: "uuid = Some w" "cert = Some ce" "pvkey = Some k" "provcode = Some pc" "description = Some de" "ip = Some i"
    by (auto simp: dao_add_node_def split: option.splits)
  have A: "addresses_ok (db c)" using ok by (simp add: ctl_ok_def)
  obtain b bytes' where b: "i = net_ip b" "q = with_pool bytes'" "b < 65534" "b \<notin> bits_set bytes"
      "bits_set bytes' = insert b (bits_set bytes)" "pool_ok bytes'"
    using alloc_pool [OF pool_of_network [OF A p]] al a(6) by auto
  define d where "d = (db c)\<lparr>nodes := nodes (db c) @ [\<lparr>nd_network_uuid = u, nd_uuid = w, nd_certificate = ce, nd_privatekey = k,
     nd_provcode = pc, nd_description = de, nd_ipaddress = i, nd_status = ''0'', nd_ipsrc = ''''\<rparr>]\<rparr>"
  define c1 where "c1 = c\<lparr>pg_calls := Suc (pg_calls c), db := d\<rparr>"
  have c1: "dao_add_node S c (Some u) uuid cert pvkey provcode description ip = (0, c1)"
    using False a
    by (auto simp: dao_add_node_def dao_command_def exec_runs [OF run] check_result_status_def sql_dao_add_node_def c1_def d_def
        split: if_splits)
  have dp: "pools d = pools (db c)" and dl: "leases d = leases (db c) @ [(u, net_ip b)]"
    by (simp_all add: d_def pools_def leases_def b(1))
  have fresh: "(u, net_ip b) \<notin> set (leases (db c))"
  proof
    assume "(u, net_ip b) \<in> set (leases (db c))"
    from lease_marked [OF A p this] obtain e where e: "e \<in> bits_set bytes" "net_ip b = net_ip e" by auto
    then have "b = e" using net_ip_inj b(3) pool_ok_bits [OF pool_of_network [OF A p]] by blast
    with e b(4) show False by simp
  qed
  define c2 where "c2 = c1\<lparr>pg_calls := Suc (pg_calls c1), db := snd (sql_dao_update_context_ippool u bytes' S (pg_calls c1) d)\<rparr>"
  have c2: "dao_update_context_ippool S c1 (Some u) (Some bytes') (pool_size base_pool) = Some (0, c2)"
    using update_pool_runs [OF run pool_ok_length [OF b(6)], of c1 u] by (simp add: c2_def c1_def)
  have cov: "covered d u bytes'"
    unfolding covered_def
  proof (intro allI impI)
    fix ip' assume "(u, ip') \<in> set (leases d)"
    then consider "(u, ip') \<in> set (leases (db c))" | "ip' = net_ip b" by (auto simp: dl)
    then show "\<exists>e \<in> bits_set bytes'. ip' = net_ip e"
    proof cases
      case 1
      from lease_marked [OF A p this] show ?thesis by (auto simp: b(5))
    qed (auto simp: b(5))
  qed
  have others: "pool_ok e \<and> covered d w' e" if "(w', e) \<in> set (pools d)" "w' \<noteq> u" for w' e
  proof -
    have "pool_ok e \<and> covered (db c) w' e" using A that(1) unfolding addresses_ok_covered dp by blast
    with that(2) show ?thesis by (auto simp: covered_def dl)
  qed
  have nets: "w' \<in> fst ` set (pools d)" if "(w', ip') \<in> set (leases d)" for w' ip'
    using that leased_pool [OF A] p by (force simp: dl dp)
  have "distinct (leases d)" using A fresh by (simp add: dl addresses_ok_def)
  from update_pool_ok [OF others nets this b(6) cov, where S = S and n = "pg_calls c1"]
  have "addresses_ok (db c2)" "fst ` set (pools (db c2)) = fst ` set (pools (db c))" by (simp_all add: c2_def dp)
  moreover have "fst ` set (pools (db c)) \<subseteq> default S ` {..<pg_calls c2}"
  proof -
    have "fst ` set (pools (db c)) \<subseteq> default S ` {..<pg_calls c}" using ok by (simp add: ctl_ok_def issued_def)
    also have "\<dots> \<subseteq> default S ` {..<pg_calls c2}" by (rule image_mono) (auto simp: c2_def c1_def)
    finally show ?thesis .
  qed
  ultimately have "ctl_ok S c2" by (simp add: ctl_ok_def issued_def)
  moreover have "calm c2 c'"
  proof (cases "switch_sinfo c2 = None")
    case True
    then show ?thesis using r c1 c2 b(2) by (auto simp: add_node_tail_def Let_def dest: replies_calm)
  next
    case False
    then show ?thesis using r c1 c2 b(2)
      by (auto simp: add_node_tail_def Let_def calm_def dest!: replies_calm split: Option.bind_splits)
  qed
  ultimately show ?thesis by (simp add: calm_ok)
qed

lemma add_node_ok:
  assumes run: "all_run S" and ok: "ctl_ok S c" and r: "add_node S J P c s jmsg = Some c'"
  shows "ctl_ok S c'"
proof (cases "\<exists>js a u t. json_object_get J jmsg ''node'' = Some js \<and> json_unpack_s J jmsg ''apikey'' = Some a
    \<and> json_unpack_s J js ''networkuuid'' = Some u \<and> json_unpack_s J js ''description'' = Some t")
  case False
  then have "calm c c'" using r by (auto simp: add_node_def Let_def dest: replies_calm split: option.splits)
  with ok show ?thesis by (simp add: calm_ok)
next
  case True
  then obtain js a u t where j: "json_object_get J jmsg ''node'' = Some js" "json_unpack_s J jmsg ''apikey'' = Some a"
      "json_unpack_s J js ''networkuuid'' = Some u" "json_unpack_s J js ''description'' = Some t" by blast
  obtain ret i c1 where c1: "dao_fetch_client_id_by_apikey S c (Some a) = Some (ret, i, c1)"
    using r j by (auto simp: add_node_def Let_def split: Option.bind_splits)
  have ok1: "ctl_ok S c1" using calm_ok [OF dao_calm(9) [OF c1] ok] .
  show ?thesis
  proof (cases "ret = 0")
    case False
    then have "calm c1 c'" using r j c1 by (auto simp: add_node_def Let_def dest: replies_calm)
    with ok1 show ?thesis by (simp add: calm_ok)
  next
    case True
    obtain ret2 v c2 where c2: "dao_fetch_context_embassy S c1 (Some u) = Some (ret2, v, c2)"
      using r j c1 True by (auto simp: add_node_def Let_def split: Option.bind_splits)
    have ok2: "ctl_ok S c2" using calm_ok [OF dao_calm(12) [OF c2] ok1] .
    show ?thesis
    proof (cases "ret2 = 0")
      case False
      then have "calm c2 c'" using r j c1 c2 True by (auto simp: add_node_def Let_def dest: replies_calm)
      with ok2 show ?thesis by (simp add: calm_ok)
    next
      case ret2: True
      then obtain ce k se bytes where v: "v = Some (ce, k, se, bytes)" "(u, bytes) \<in> set (pools (db c2))"
        using fetch_embassy [OF run c2] by auto
      define uuid c3 where "uuid = fst (next_key c2)" and "c3 = snd (next_key c2)"
      define pc c4 where "pc = fst (next_key c3)" and "c4 = snd (next_key c3)"
      let ?emb = "pki_embassy_load_from_memory ce k (word_of_int (atoi se))"
      define cn where "cn = snprintf 64 (''nva2-'' @ u)"
      define alt where "alt = snprintf 256 (''URI:'' @ (case uuid of None \<Rightarrow> ''(null)'' | Some u \<Rightarrow> u) @ ''@'' @ u)"
      define tail where "tail = (\<lambda>nc nk (emb :: embassy) c5. let (ret, c) = dao_update_embassy_serial S c5 (Some u) (Some (serial_text (emb_serial emb)))
             in if ret = - 1 then answer J c s ''error''
                else do { ippool \<leftarrow> ippool_new ''44.128.0.0'' ''255.255.0.0'';
                  let ippool = ippool\<lparr>pool := bytes\<rparr>;
                  (ip, ippool) \<leftarrow> ippool_get_ip ippool;
                  add_node_tail S J c s (Some u) uuid nc nk pc (Some t) ip ippool })"
      have nk: "next_key c2 = (uuid, c3)" "next_key c3 = (pc, c4)" by (simp_all add: uuid_def c3_def pc_def c4_def)
      have "add_node S J P c s jmsg = do {
          ((nc, nk), emb, c5) \<leftarrow> pki_embassy_deliver_passport P c4 ?emb cn alt (pki_expiration_delay 10);
          tail nc nk emb c5 }"
        by (simp add: add_node_def Let_def j c1 True c2 ret2 v(1) nk cn_def alt_def tail_def)
      then obtain nc nk emb c5 where c5: "pki_embassy_deliver_passport P c4 ?emb cn alt (pki_expiration_delay 10) = Some ((nc, nk), emb, c5)"
          and tail: "tail nc nk emb c5 = Some c'"
        using r by (auto split: Option.bind_splits)
      have "calm c2 c5"
        using c5 by (auto simp: pki_embassy_deliver_passport_def c4_def c3_def next_key_def split: Option.bind_splits if_splits)
      obtain ret6 c6 where c6: "dao_update_embassy_serial S c5 (Some u) (Some (serial_text (emb_serial emb))) = (ret6, c6)"
        by fastforce
      have "calm c2 c6" using \<open>calm c2 c5\<close> dao_calm(4) [OF c6] by (rule calm_trans)
      then have ok6: "ctl_ok S c6" and p6: "(u, bytes) \<in> set (pools (db c6))"
        using calm_ok [OF _ ok2] v(2) by (blast, simp add: calm_def)
      show ?thesis
      proof (cases "ret6 = - 1")
        case True
        then have "calm c6 c'" using tail c6 by (auto simp: tail_def dest: replies_calm)
        with ok6 show ?thesis by (simp add: calm_ok)
      next
        case False
        then obtain ip q where q: "ippool_get_ip (with_pool bytes) = Some (ip, q)"
            "add_node_tail S J c6 s (Some u) uuid nc nk pc (Some t) ip q = Some c'"
          using tail c6 by (auto simp: tail_def base_pool_new(1) split: Option.bind_splits)
        show ?thesis by (rule add_node_tail_ok [OF run ok6 p6 q])
      qed
    qed
  qed
qed

text \<open>A new network starts with an empty pool under a new identifier.\<close>

lemma base_pool_ok: "pool_ok (pool base_pool)" "bits_set (pool base_pool) = {}"
proof -
  have "with_pool (pool base_pool) = base_pool" unfolding with_pool_def by (cases base_pool) (simp del: with_pool_fields)
  then show "pool_ok (pool base_pool)" "bits_set (pool base_pool) = {}"
    using base_pool_new(2,3) by (simp_all add: pool_ok_def ip_used_def)
qed

lemma add_vnetwork_ok:
  assumes run: "all_run S" and ok: "ctl_ok S c"
    and r: "dao_add_vnetwork S c i t n ec ek es pc pk (pool base_pool) (pool_size base_pool) = Some (ret, u, c')"
  shows "ctl_ok S c'"
proof (cases "db c' = db c")
  case True
  have "pg_calls c \<le> pg_calls c'"
    using r by (auto simp: dao_add_vnetwork_def exec_runs [OF run] split: option.splits if_splits Option.bind_splits)
  with True have "calm c c'" by (simp add: calm_def)
  with ok show ?thesis by (simp add: calm_ok)
next
  case False
  have A: "addresses_ok (db c)" using ok by (simp add: ctl_ok_def)
  have c': "pools (db c') = pools (db c) @ [(default S (pg_calls c), pool base_pool)]" "leases (db c') = leases (db c)"
      "pg_calls c' = Suc (pg_calls c)"
    using r False pool_ok_length [OF base_pool_ok(1)]
    by (auto simp: dao_add_vnetwork_def exec_runs [OF run] sql_dao_add_vnetwork_def pools_def leases_def
        split: option.splits if_splits Option.bind_splits)
  have "inj (default S)" using run by (simp add: all_run_def)
  then have "default S (pg_calls c) \<notin> default S ` {..<pg_calls c}" by (auto dest: injD)
  then have new: "default S (pg_calls c) \<notin> fst ` set (pools (db c))" using ok by (auto simp: ctl_ok_def issued_def)
  have "\<nexists>ip. (default S (pg_calls c), ip) \<in> set (leases (db c))" using leased_pool [OF A] new by blast
  then have "addresses_ok (db c')"
    using A unfolding addresses_ok_covered c' by (auto simp: covered_def base_pool_ok c')
  moreover have "issued S c'"
  proof -
    have "default S ` {..<pg_calls c} \<subseteq> default S ` {..<pg_calls c'}" by (rule image_mono) (auto simp: c')
    then show ?thesis using ok by (auto simp: issued_def ctl_ok_def c')
  qed
  ultimately show ?thesis by (simp add: ctl_ok_def)
qed

lemma add_network_ctrler_ok:
  assumes run: "all_run S" and ok: "ctl_ok S c" and r: "add_network_ctrler S J P c s jmsg = Some c'"
  shows "ctl_ok S c'"
proof (cases "\<exists>js a t. json_object_get J jmsg ''network'' = Some js \<and> json_unpack_s J jmsg ''apikey'' = Some a
    \<and> json_unpack_s J js ''name'' = Some t")
  case False
  then have "calm c c'" using r by (auto simp: add_network_ctrler_def Let_def dest: replies_calm split: option.splits if_splits)
  with ok show ?thesis by (simp add: calm_ok)
next
  case True
  then obtain js a t where j: "json_object_get J jmsg ''network'' = Some js" "json_unpack_s J jmsg ''apikey'' = Some a"
      "json_unpack_s J js ''name'' = Some t" by blast
  obtain ret i c1 where c1: "dao_fetch_client_id_by_apikey S c (Some a) = Some (ret, i, c1)"
    using r j by (auto simp: add_network_ctrler_def Let_def split: Option.bind_splits)
  have ok1: "ctl_ok S c1" using calm_ok [OF dao_calm(9) [OF c1] ok] .
  show ?thesis
  proof (cases "ret = - 1 \<or> i = None")
    case True
    then have "calm c1 c'" using r j c1 by (auto simp: add_network_ctrler_def Let_def dest: replies_calm split: if_splits)
    with ok1 show ?thesis by (simp add: calm_ok)
  next
    case False
    then obtain k where k: "i = Some k" "ret \<noteq> - 1" by auto
    note c1 = c1 [unfolded k(1)]
    obtain emb c2 where c2: "pki_embassy_new P c1 ''embassy'' ''CA'' (pki_expiration_delay 10) = (emb, c2)" by fastforce
    obtain sc sk emb' c3 where c3: "pki_embassy_deliver_passport P c2 emb ''nvswitch'' ''CA'' (pki_expiration_delay 10) = Some ((sc, sk), emb', c3)"
      using r j c1 k(2) c2 by (auto simp: add_network_ctrler_def Let_def split: Option.bind_splits)
    have "calm c1 c3"
      using c2 c3 by (auto simp: pki_embassy_new_def pki_embassy_deliver_passport_def split: prod.splits Option.bind_splits if_splits)
    with ok1 have ok3: "ctl_ok S c3" by (simp add: calm_ok)
    obtain ret4 u c4 where c4: "dao_add_vnetwork S c3 (Some k) (Some t) (Some ''44.128.0.0/16'') (emb_certificate emb) (emb_keyring emb)
        (Some (serial_text (emb_serial emb'))) sc sk (pool base_pool) (pool_size base_pool) = Some (ret4, u, c4)"
      using r j c1 k(2) c2 c3 by (auto simp: add_network_ctrler_def Let_def base_pool_new(1) split: Option.bind_splits)
    have ok4: "ctl_ok S c4" by (rule add_vnetwork_ok [OF run ok3 c4])
    have "calm c4 c'"
      using r j c1 k(2) c2 c3 c4
      by (simp add: add_network_ctrler_def Let_def base_pool_new(1))
        (auto simp: calm_def Let_def base_pool_new(1) c4 dest!: replies_calm split: if_splits Option.bind_splits)
    with ok4 show ?thesis by (simp add: calm_ok)
  qed
qed

section \<open>The controller as a whole\<close>

lemma dispatch_nvswitch_calm:
  assumes "read_only S" and "dispatch_nvswitch S J c s jmsg = Some (b, c')" shows "calm c c'"
  using assms(2)
  by (auto simp: dispatch_nvswitch_def dest: switch_requests_calm provisioning_ctrler_calm [OF assms(1)]
      split: option.splits if_splits)

lemma dispatch_nvapi_ok:
  assumes "all_run S" and "ctl_ok S c" and "dispatch_nvapi S J P c s jmsg = Some (b, c')" shows "ctl_ok S c'"
proof -
  note calm = accounts_calm reset_account_password_calm lists_calm
  have "calm c c' \<or> add_network_ctrler S J P c s jmsg = Some c' \<or> del_network_ctrler S J c s jmsg = Some c'
      \<or> add_node S J P c s jmsg = Some c' \<or> del_node_ctrler S J c s jmsg = Some c'"
    using assms(3) by (auto simp: dispatch_nvapi_def dest: calm split: option.splits if_splits)
  then show ?thesis
    by (elim disjE) (auto intro: calm_ok [OF _ assms(2)] add_network_ctrler_ok [OF assms(1,2)]
        del_network_ctrler_ok [OF assms(1,2)] add_node_ok [OF assms(1,2)] del_node_ctrler_ok [OF assms(1,2)])
qed

lemma ctl_handle_ok:
  assumes run: "all_run S" and ok: "ctl_ok S c" and r: "ctl_handle S J P c e = Some c'"
  shows "ctl_ok S c'"
proof (cases e)
  case (Accept b)
  then have "calm c c'" using r by (auto simp: accept_conn_cb_def sinfo_new_def)
  with ok show ?thesis by (simp add: calm_ok)
next
  case (Event s ev)
  have "calm c (dao_reset_node_state S (c\<lparr>switch_sinfo := None\<rparr>))"
    using reset_calm [of "c\<lparr>switch_sinfo := None\<rparr>" S] by simp
  then have "calm c c'"
    using r Event
    by (auto simp: on_event_cb_ctrler_def on_connect_cb_def sinfo_free_def Let_def split: bev_event.splits option.splits
        Option.bind_splits if_splits)
  with ok show ?thesis by (simp add: calm_ok)
next
  case (Receive s data)
  have ro: "read_only S" using run by (simp add: all_run_def)
  have upd: "ctl_ok S (c\<lparr>inbuf := f\<rparr>)" for f by (rule calm_ok [OF _ ok]) simp
  from r Receive obtain b f f' where "on_read_cb_ctrler S J P (c\<lparr>inbuf := f\<rparr>) b s = Some c'"
    by (auto split: Option.bind_splits)
  then show ?thesis
    by (auto simp: on_read_cb_ctrler_def Let_def sinfo_free_def upd dest: dispatch_nvapi_ok [OF run upd]
        dispatch_nvswitch_calm [OF ro, THEN calm_ok, OF _ upd] split: if_splits option.splits Option.bind_splits
        intro: calm_ok [OF _ ok])
qed

lemma ctl_reachable_ok:
  assumes "ctl_reachable S J P c0 c" and "all_run S" and "ctl_ok S c0" shows "ctl_ok S c"
  using assms by (induction rule: ctl_reachable.induct) (auto intro: ctl_handle_ok)

end
