(* ===== verification/Ctrler_Props.thy ===== *)
theory Ctrler_Props
  imports Ctrler_Inv
begin

text \<open>
  What holds of the controller: addresses are not given twice, clients see their own networks, and
  where it fails, what a client can do without a key or to the networks of another.
\<close>

section \<open>A controller to try things on\<close>

datatype cjson = CText string | CObj "(string \<times> cjson) list" | CArr "cjson list"

fun cj_get :: "cjson \<Rightarrow> string \<Rightarrow> cjson option" where
  "cj_get (CObj kvs) k = map_of kvs k"
| "cj_get _ k = None"

fun cj_set :: "cjson \<Rightarrow> string \<Rightarrow> cjson \<Rightarrow> cjson" where
  "cj_set (CObj kvs) k v = CObj ((k, v) # filter (\<lambda>p. fst p \<noteq> k) kvs)"
| "cj_set j k v = j"

fun cj_del :: "cjson \<Rightarrow> string \<Rightarrow> cjson" where
  "cj_del (CObj kvs) k = CObj (filter (\<lambda>p. fst p \<noteq> k) kvs)"
| "cj_del j k = j"

definition cj_lib :: "(string \<times> cjson) list \<Rightarrow> cjson json_lib" where
  "cj_lib texts = \<lparr>json_object_get = cj_get,
     json_unpack_s = (\<lambda>j k. case cj_get j k of Some (CText s) \<Rightarrow> Some s | _ \<Rightarrow> None),
     json_object_set = cj_set, json_object_del = cj_del, json_object = CObj [], json_string = (\<lambda>s. Some (CText s)),
     json_array = CArr, json_dumps = (\<lambda>_. Some ''{}''), json_loadb = map_of texts\<rparr>"

text \<open>A server on which everything runs; it generates texts of every length.\<close>

definition demo_pg :: pg where
  "demo_pg = \<lparr>crypt = (\<lambda>p s. p), digest = (\<lambda>s. s), lower = (\<lambda>s. s), gen_salt = (\<lambda>n. []), nextval = (\<lambda>n. replicate n CHR ''i''), default = (\<lambda>n. replicate n CHR ''n''), now = int,
     engine = (\<lambda>q d. (Tuples 4 [], d)), outcome = (\<lambda>_. Runs)\<rparr>"

definition demo_pki :: pki where
  "demo_pki = \<lparr>issue = (\<lambda>n a cn alt s d. (Some ''cert'', Some ''key'')), pem_ok = (\<lambda>c k. True)\<rparr>"

definition demo_client :: client_row where
  "demo_client = \<lparr>cl_id = ''7'', cl_email = ''a'', cl_password = ''p'', cl_apikey = ''k'', cl_status = 1, cl_resetkey = None,
     cl_resetdate = None\<rparr>"

lemma all_run_demo: "all_run demo_pg"
proof -
  have "inj (\<lambda>n. replicate n CHR ''n'')" by (rule injI) (metis length_replicate)
  then show ?thesis by (simp add: all_run_def demo_pg_def read_only_def)
qed

section \<open>What a request for a node does\<close>

text \<open>The row a request adds.\<close>

definition node_entry :: "string \<Rightarrow> string \<Rightarrow> string \<Rightarrow> string \<Rightarrow> string \<Rightarrow> string \<Rightarrow> string \<Rightarrow> node_row" where
  "node_entry u w ce k pc de i = \<lparr>nd_network_uuid = u, nd_uuid = w, nd_certificate = ce, nd_privatekey = k, nd_provcode = pc,
     nd_description = de, nd_ipaddress = i, nd_status = ''0'', nd_ipsrc = ''''\<rparr>"

text \<open>The request up to the point where the address has been taken, on a server that has run the
  statements so far.\<close>

lemma add_node_run:
  assumes j: "json_object_get J jmsg ''node'' = Some js" "json_unpack_s J jmsg ''apikey'' = Some a"
      "json_unpack_s J js ''networkuuid'' = Some u" "json_unpack_s J js ''description'' = Some de"
    and runs: "outcome S (pg_calls c) = Runs" "outcome S (Suc (pg_calls c)) = Runs" "outcome S (Suc (Suc (pg_calls c))) = Runs"
    and r: "filter (\<lambda>r. cx_uuid r = u) (contexts (db c)) = r # rs" and pem: "pem_ok P (cx_embassy_certificate r) (cx_embassy_privatekey r)"
    and al: "ippool_get_ip (with_pool (cx_ippool r)) = Some (ip, q)"
  shows "\<exists>c6 cert pvkey. add_node S J P c s jmsg = add_node_tail S J c6 s (Some u) (keys c (keys_used c)) cert pvkey
      (keys c (Suc (keys_used c))) (Some de) ip q
    \<and> (\<exists>n cn alt sn. (cert, pvkey) = issue P n (Some (cx_embassy_certificate r, cx_embassy_privatekey r)) cn alt sn (pki_expiration_delay 10))
    \<and> nodes (db c6) = nodes (db c) \<and> pools (db c6) = pools (db c) \<and> clients (db c6) = clients (db c)
    \<and> pg_calls c6 = pg_calls c + 3 \<and> sinfos c6 = sinfos c \<and> switch_sinfo c6 = switch_sinfo c \<and> keys c6 = keys c
    \<and> keys_used c6 = keys_used c + 3 \<and> written c6 = written c
    \<and> (\<exists>sn. contexts (db c6) = map (\<lambda>r. if cx_uuid r = u then r\<lparr>cx_embassy_serial := sn\<rparr> else r) (contexts (db c)))"
proof -
  define c2 where "c2 = c\<lparr>pg_calls := Suc (Suc (pg_calls c))\<rparr>"
  have c1: "dao_fetch_client_id_by_apikey S c (Some a) =
      Some (0, (case filter (\<lambda>r. cl_apikey r = a \<and> cl_status r = 1) (clients (db c)) of [] \<Rightarrow> None | x # xs \<Rightarrow> Some (cl_id x)),
        c\<lparr>pg_calls := Suc (pg_calls c)\<rparr>)"
    using runs(1)
    by (simp add: dao_fetch_client_id_by_apikey_def PQexec_def Let_def sql_dao_fetch_client_id_by_apikey_def first_value_def
        split: list.splits)
  have c2: "dao_fetch_context_embassy S (c\<lparr>pg_calls := Suc (pg_calls c)\<rparr>) (Some u) =
      Some (0, Some (cx_embassy_certificate r, cx_embassy_privatekey r, cx_embassy_serial r, cx_ippool r), c2)"
    using runs(2) r
    by (simp add: dao_fetch_context_embassy_def PQexec_def Let_def sql_dao_fetch_context_embassy_def check_result_status_def c2_def
        numeral_eq_Suc)
  let ?emb = "pki_embassy_load_from_memory (cx_embassy_certificate r) (cx_embassy_privatekey r) (word_of_int (atoi (cx_embassy_serial r)))"
  define c4 where "c4 = c2\<lparr>keys_used := Suc (Suc (keys_used c2))\<rparr>"
  define c5 where "c5 = c4\<lparr>keys_used := Suc (keys_used c4)\<rparr>"
  define cn where "cn = snprintf 64 (''nva2-'' @ u)"
  define alt where "alt = snprintf 256 (''URI:'' @ (case keys c (keys_used c) of None \<Rightarrow> ''(null)'' | Some u \<Rightarrow> u) @ ''@'' @ u)"
  obtain cert pvkey where issue: "issue P (keys_used c4) (Some (cx_embassy_certificate r, cx_embassy_privatekey r)) cn alt
      (emb_serial ?emb) (pki_expiration_delay 10) = (cert, pvkey)" by fastforce
  have pki: "pki_embassy_deliver_passport P c4 ?emb cn alt (pki_expiration_delay 10)
      = Some ((cert, pvkey), ?emb\<lparr>emb_serial := emb_serial ?emb + 1\<rparr>, c5)"
    using pem issue by (simp add: pki_embassy_deliver_passport_def pki_embassy_load_from_memory_def c5_def)
  define c6 where "c6 = c5\<lparr>pg_calls := Suc (pg_calls c5),
      db := snd (sql_dao_update_embassy_serial u (serial_text (emb_serial ?emb + 1)) S (pg_calls c5) (db c5))\<rparr>"
  have c6: "dao_update_embassy_serial S c5 (Some u) (Some (serial_text (emb_serial ?emb + 1))) = (0, c6)"
    using runs(3)
    by (simp add: dao_update_embassy_serial_def dao_command_def PQexec_def Let_def c6_def c5_def c4_def c2_def
        sql_dao_update_embassy_serial_def update_contexts_def sql_update_def check_result_status_def)
  have nk: "next_key c2 = (keys c (keys_used c), c2\<lparr>keys_used := Suc (keys_used c2)\<rparr>)"
    "next_key (c2\<lparr>keys_used := Suc (keys_used c2)\<rparr>) = (keys c (Suc (keys_used c)), c4)"
    by (simp_all add: next_key_def c4_def c2_def)
  have "add_node S J P c s jmsg = add_node_tail S J c6 s (Some u) (keys c (keys_used c)) cert pvkey
      (keys c (Suc (keys_used c))) (Some de) ip q"
    using al pki c6 by (simp add: add_node_def j c1 c2 nk Let_def base_pool_new(1) cn_def alt_def)
  moreover have "nodes (db c6) = nodes (db c) \<and> pools (db c6) = pools (db c) \<and> clients (db c6) = clients (db c)"
    by (auto simp: c6_def c5_def c4_def c2_def sql_dao_update_embassy_serial_def update_contexts_def sql_update_def pools_def)
  moreover have "\<exists>n cn alt sn. (cert, pvkey) =
      issue P n (Some (cx_embassy_certificate r, cx_embassy_privatekey r)) cn alt sn (pki_expiration_delay 10)"
    using issue by metis
  moreover have "\<exists>sn. contexts (db c6) = map (\<lambda>r. if cx_uuid r = u then r\<lparr>cx_embassy_serial := sn\<rparr> else r) (contexts (db c))"
    by (auto simp: c6_def c5_def c4_def c2_def sql_dao_update_embassy_serial_def update_contexts_def sql_update_def)
  moreover have "pg_calls c6 = pg_calls c + 3 \<and> sinfos c6 = sinfos c \<and> switch_sinfo c6 = switch_sinfo c \<and> keys c6 = keys c
      \<and> keys_used c6 = keys_used c + 3 \<and> written c6 = written c"
    by (simp add: c6_def c5_def c4_def c2_def)
  ultimately show ?thesis
    by - (rule exI [of _ c6], rule exI [of _ cert], rule exI [of _ pvkey], intro conjI, blast+)
qed

section \<open>What a request for a network does\<close>

definition network_entry ::
  "string \<Rightarrow> string \<Rightarrow> string \<Rightarrow> string \<Rightarrow> string \<times> string \<Rightarrow> string \<times> string \<Rightarrow> u8 list \<Rightarrow> context_row" where
  "network_entry k u de i emb serv bytes = \<lparr>cx_id = k, cx_uuid = u, cx_description = de, cx_client_id = i,
     cx_network = ''44.128.0.0/16'', cx_embassy_certificate = fst emb, cx_embassy_privatekey = snd emb,
     cx_embassy_serial = serial_text 2, cx_passport_certificate = fst serv, cx_passport_privatekey = snd serv, cx_ippool = bytes\<rparr>"

text \<open>What the switch is sent of a new network.\<close>

definition network_forward :: "'j json_lib \<Rightarrow> string \<Rightarrow> string \<times> string \<Rightarrow> string \<times> string \<Rightarrow> 'j" where
  "network_forward J u emb serv =
     json_object_set J (set_text J ''response'' (Some ''more-data'') (set_text J ''action'' (Some ''listall-network'') (json_object J)))
       ''networks'' (json_array J [set_text J ''tcert'' (Some (fst emb)) (set_text J ''pkey'' (Some (snd serv))
          (set_text J ''cert'' (Some (fst serv)) (set_text J ''netmask'' (Some ''255.255.0.0'')
          (set_text J ''network'' (Some ''44.128.0.0'') (set_text J ''uuid'' (Some u) (json_object J))))))])"

lemma fetch_client_run:
  assumes "outcome S (pg_calls c) = Runs"
  shows "dao_fetch_client_id_by_apikey S c (Some a) = Some (0,
     (case filter (\<lambda>r. cl_apikey r = a \<and> cl_status r = 1) (clients (db c)) of [] \<Rightarrow> None | x # xs \<Rightarrow> Some (cl_id x)),
     c\<lparr>pg_calls := Suc (pg_calls c)\<rparr>)"
  using assms
  by (simp add: dao_fetch_client_id_by_apikey_def PQexec_def Let_def sql_dao_fetch_client_id_by_apikey_def first_value_def
      split: list.splits)

lemma add_network_run:
  assumes j: "json_object_get J jmsg ''network'' = Some js" "json_unpack_s J jmsg ''apikey'' = Some a"
      "json_unpack_s J js ''name'' = Some de"
    and runs: "outcome S (pg_calls c) = Runs" "outcome S (Suc (pg_calls c)) = Runs"
    and cl: "filter (\<lambda>r. cl_apikey r = a \<and> cl_status r = 1) (clients (db c)) = x # xs"
    and new: "\<And>r. r \<in> set (contexts (db c)) \<Longrightarrow> cx_description r = de \<Longrightarrow> cx_client_id r \<noteq> cl_id x"
    and emb: "issue P (keys_used c) None ''embassy'' ''CA'' 0 (pki_expiration_delay 10) = (Some (fst emb), Some (snd emb))"
    and serv: "issue P (Suc (keys_used c)) (Some emb) ''nvswitch'' ''CA'' 1 (pki_expiration_delay 10) = (Some (fst serv), Some (snd serv))"
    and pem: "pem_ok P (fst emb) (snd emb)"
  shows "add_network_ctrler S J P c s jmsg = do {
     let c = c\<lparr>keys_used := Suc (Suc (keys_used c)), pg_calls := Suc (Suc (pg_calls c)),
        db := (db c)\<lparr>contexts := contexts (db c) @ [network_entry (nextval S (Suc (pg_calls c))) (default S (Suc (pg_calls c))) de (cl_id x) emb serv (pool base_pool)]\<rparr>\<rparr>;
     c \<leftarrow> (if switch_sinfo c = None then Some c
          else to_switch J c (network_forward J (default S (pg_calls c - 1)) emb serv));
     answer_if J c s ''success'' }"
proof -
  obtain ec ek where e: "emb = (ec, ek)" by fastforce
  obtain sc sk where s: "serv = (sc, sk)" by fastforce
  define c1 where "c1 = c\<lparr>pg_calls := Suc (pg_calls c)\<rparr>"
  have c1: "dao_fetch_client_id_by_apikey S c (Some a) = Some (0, Some (cl_id x), c1)"
    by (simp add: fetch_client_run [OF runs(1)] cl c1_def)
  define c2 where "c2 = c1\<lparr>keys_used := Suc (keys_used c1)\<rparr>"
  have c2: "pki_embassy_new P c1 ''embassy'' ''CA'' (pki_expiration_delay 10)
      = (\<lparr>emb_certificate = Some ec, emb_keyring = Some ek, emb_serial = 1\<rparr>, c2)"
    using emb by (simp add: pki_embassy_new_def c2_def c1_def e)
  define c3 where "c3 = c2\<lparr>keys_used := Suc (keys_used c2)\<rparr>"
  have c3: "pki_embassy_deliver_passport P c2 \<lparr>emb_certificate = Some ec, emb_keyring = Some ek, emb_serial = 1\<rparr> ''nvswitch'' ''CA''
      (pki_expiration_delay 10) = Some ((Some sc, Some sk), \<lparr>emb_certificate = Some ec, emb_keyring = Some ek, emb_serial = 2\<rparr>, c3)"
    using serv pem by (simp add: pki_embassy_deliver_passport_def c2_def c1_def c3_def e s)
  define u where "u = default S (pg_calls c3)"
  define c4 where "c4 = c3\<lparr>pg_calls := Suc (pg_calls c3),
     db := (db c3)\<lparr>contexts := contexts (db c3) @ [network_entry (nextval S (pg_calls c3)) u de (cl_id x) emb serv (pool base_pool)]\<rparr>\<rparr>"
  have nodup: "\<not> (\<exists>r \<in> set (contexts (db c)). cx_description r = de \<and> cx_client_id r = cl_id x)" using new by blast
  have st: "sql_dao_add_vnetwork (cl_id x) de ''44.128.0.0/16'' ec ek (serial_text 2) sc sk (pool base_pool) S (pg_calls c3) (db c3)
      = (Tuples 1 [[u]], (db c3)\<lparr>contexts := contexts (db c3) @ [network_entry (nextval S (pg_calls c3)) u de (cl_id x) emb serv (pool base_pool)]\<rparr>)"
    using nodup unfolding sql_dao_add_vnetwork_def by (simp add: c3_def c2_def c1_def network_entry_def u_def e s)
  have r3: "outcome S (pg_calls c3) = Runs" using runs(2) by (simp add: c3_def c2_def c1_def)
  have c4: "dao_add_vnetwork S c3 (Some (cl_id x)) (Some de) (Some ''44.128.0.0/16'') (Some ec) (Some ek) (Some (serial_text 2))
      (Some sc) (Some sk) (pool base_pool) (pool_size base_pool) = Some (0, Some u, c4)"
    by (simp add: dao_add_vnetwork_def base_pool_length PQexec_def Let_def st r3 c4_def check_result_status_def)
  have c4': "c4 = c\<lparr>keys_used := Suc (Suc (keys_used c)), pg_calls := Suc (Suc (pg_calls c)),
        db := (db c)\<lparr>contexts := contexts (db c) @ [network_entry (nextval S (Suc (pg_calls c))) (default S (Suc (pg_calls c))) de (cl_id x) emb serv (pool base_pool)]\<rparr>\<rparr>"
      "u = default S (pg_calls c4 - 1)"
    by (simp_all add: c4_def c3_def c2_def c1_def u_def)
  have "add_network_ctrler S J P c s jmsg = do {
     c \<leftarrow> (if switch_sinfo c4 = None then Some c4 else to_switch J c4 (network_forward J u emb serv));
     answer_if J c s ''success'' }"
    by (simp add: add_network_ctrler_def j c1 c2 c3 c4 base_pool_new(1) network_forward_def e s Let_def)
  then show ?thesis unfolding c4'(2) unfolding c4'(1) Let_def .
qed

section \<open>A line from a client\<close>

lemma receive_line:
  assumes "sinfos c s = Some x" "si_bev x = Some b" "si_type x = NVAPI" "inbuf c b = ''''"
    and "CHR 0x0A \<notin> set t" "json_loadb J t = Some m" "json_unpack_s J m ''action'' = Some a"
    and "a \<noteq> ''reset-account-password''"
  shows "ctl_handle S J P c (Receive s (t @ NL)) = map_option snd (dispatch_nvapi S J P (c\<lparr>inbuf := (inbuf c)(b := '''')\<rparr>) s m)"
proof -
  have tw: "takeWhile (\<lambda>x. x \<noteq> CHR 0x0A) (t @ NL) = t" "dropWhile (\<lambda>x. x \<noteq> CHR 0x0A) (t @ NL) = NL"
    using assms(5) by (auto simp: NL_def takeWhile_append dropWhile_append)
  have m: "CHR 0x0A \<in> set (t @ NL)" by (simp add: NL_def)
  have "\<not> r" if "dispatch_nvapi S J P c' s m = Some (r, c'')" for c' r c''
    using that assms(7,8) by (auto simp: dispatch_nvapi_def split: if_splits)
  then have nr: "dispatch_nvapi S J P c' s m \<noteq> Some (True, c'')" for c' c'' by blast
  then show ?thesis
    using assms(1-4,6) m
    by (cases "dispatch_nvapi S J P (c\<lparr>inbuf := (inbuf c)(b := '''')\<rparr>) s m")
       (auto simp: on_read_cb_ctrler_def Let_def tw [unfolded NL_def] NL_def)
qed

definition node_request :: "'j json_lib \<Rightarrow> 'j \<Rightarrow> string \<Rightarrow> string \<Rightarrow> string \<Rightarrow> bool" where
  "node_request J jmsg a u de \<longleftrightarrow> (\<exists>js. json_object_get J jmsg ''node'' = Some js \<and> json_unpack_s J jmsg ''apikey'' = Some a
     \<and> json_unpack_s J js ''networkuuid'' = Some u \<and> json_unpack_s J js ''description'' = Some de)"

text \<open>The peer of a request is there, the switch is when it should be, and every value has a text.\<close>

definition answerable :: "'j json_lib \<Rightarrow> ctrler \<Rightarrow> addr \<Rightarrow> bool" where
  "answerable J c s \<longleftrightarrow> (\<exists>x b. sinfos c s = Some x \<and> si_bev x = Some b) \<and> (\<forall>p. switch_sinfo c = Some p \<longrightarrow> sinfos c p \<noteq> None)
     \<and> (\<forall>v. json_dumps J v \<noteq> None)"

text \<open>What the handlers leave behind of everything but the database.\<close>

definition same_peers :: "ctrler \<Rightarrow> ctrler \<Rightarrow> bool" where
  "same_peers c c' \<longleftrightarrow> sinfos c' = sinfos c \<and> switch_sinfo c' = switch_sinfo c \<and> keys c' = keys c"

lemma answers:
  assumes "answerable J c s"
  shows "\<exists>w. reply J c s v = Some (c\<lparr>written := w\<rparr>)" "\<exists>w. reply_if J c s v = Some (c\<lparr>written := w\<rparr>)"
    "\<exists>w. to_switch J c v = Some (c\<lparr>written := w\<rparr>)"
proof -
  obtain t where t: "json_dumps J v = Some t" using assms by (auto simp: answerable_def)
  show "\<exists>w. reply J c s v = Some (c\<lparr>written := w\<rparr>)" "\<exists>w. reply_if J c s v = Some (c\<lparr>written := w\<rparr>)"
    using assms t by (auto simp: answerable_def reply_def reply_if_def bev_write_def)
  show "\<exists>w. to_switch J c v = Some (c\<lparr>written := w\<rparr>)"
  proof (cases "switch_sinfo c")
    case None
    then have "to_switch J c v = Some (c\<lparr>written := written c\<rparr>)" by (simp add: to_switch_def)
    then show ?thesis by blast
  next
    case (Some p)
    then obtain x where x: "sinfos c p = Some x" using assms by (auto simp: answerable_def)
    have same: "\<exists>w. c = c\<lparr>written := w\<rparr>" by (rule exI [of _ "written c"]) simp
    show ?thesis
    proof (cases "si_bev x")
      case None
      with Some x same show ?thesis by (simp add: to_switch_def reply_if_def)
    qed (use Some x t in \<open>auto simp: to_switch_def reply_if_def bev_write_def\<close>)
  qed
qed

lemma answerable_cong: "same_peers c c' \<Longrightarrow> answerable J c s \<Longrightarrow> answerable J c' s"
  by (simp add: same_peers_def answerable_def)

text \<open>The end of the request: the node is added, and the pool is stored when the statement runs.\<close>

lemma add_node_tail_run:
  assumes ans: "answerable J c s" and runs: "outcome S (pg_calls c) = Runs" and fresh: "\<And>x. x \<in> set (nodes (db c)) \<Longrightarrow> nd_uuid x \<noteq> w"
    and len: "length bytes = pool_size base_pool"
  shows "\<exists>c'. add_node_tail S J c s (Some u) (Some w) (Some ce) (Some k) (Some pc) (Some de) (Some ip) (with_pool bytes) = Some c'
    \<and> nodes (db c') = nodes (db c) @ [node_entry u w ce k pc de ip] \<and> clients (db c') = clients (db c)
    \<and> contexts (db c') = (if outcome S (Suc (pg_calls c)) = Runs
         then map (\<lambda>r. if cx_uuid r = u then r\<lparr>cx_ippool := bytes\<rparr> else r) (contexts (db c)) else contexts (db c))
    \<and> pg_calls c' = Suc (Suc (pg_calls c)) \<and> keys_used c' = keys_used c \<and> same_peers c c'"
proof -
  define c1 where "c1 = c\<lparr>pg_calls := Suc (pg_calls c), db := (db c)\<lparr>nodes := nodes (db c) @ [node_entry u w ce k pc de ip]\<rparr>\<rparr>"
  have "\<not> (\<exists>r \<in> set (nodes (db c)). nd_uuid r = w)" using fresh by blast
  then have c1: "dao_add_node S c (Some u) (Some w) (Some ce) (Some k) (Some pc) (Some de) (Some ip) = (0, c1)"
    using runs by (simp add: dao_add_node_def dao_command_def PQexec_def Let_def sql_dao_add_node_def c1_def node_entry_def
        check_result_status_def)
  obtain ret c2 where c2: "dao_update_context_ippool S c1 (Some u) (Some bytes) (pool_size base_pool) = Some (ret, c2)"
    and ret: "ret = (if outcome S (Suc (pg_calls c)) = Runs then 0 else - 1)"
    and db2: "db c2 = (db c1)\<lparr>contexts := if outcome S (Suc (pg_calls c)) = Runs
         then map (\<lambda>r. if cx_uuid r = u then r\<lparr>cx_ippool := bytes\<rparr> else r) (contexts (db c)) else contexts (db c)\<rparr>"
    and f2: "pg_calls c2 = Suc (Suc (pg_calls c))" "keys_used c2 = keys_used c" "same_peers c c2"
    using len
    by (cases "outcome S (Suc (pg_calls c))")
       (simp_all add: dao_update_context_ippool_def dao_command_def PQexec_def Let_def c1_def sql_dao_update_context_ippool_def
         update_contexts_def sql_update_def check_result_status_def same_peers_def)
  have ans2: "answerable J c2 s" using ans f2(3) by (rule answerable_cong [rotated])
  have "\<exists>x. add_node_tail S J c s (Some u) (Some w) (Some ce) (Some k) (Some pc) (Some de) (Some ip) (with_pool bytes)
      = Some (c2\<lparr>written := x\<rparr>)"
  proof (cases "ret = - 1 \<or> switch_sinfo c2 = None")
    case True
    then show ?thesis using answers(1) [OF ans2] by (auto simp: add_node_tail_def c1 c2 answer_def Let_def)
  next
    case False
    obtain y where y: "to_switch J c2 (json_object_set J (set_text J ''response'' (Some ''more-data'')
        (set_text J ''action'' (Some ''listall-node'') (json_object J))) ''nodes''
        (json_array J [set_text J ''uuid'' (Some w) (set_text J ''networkuuid'' (Some u) (json_object J))])) = Some (c2\<lparr>written := y\<rparr>)"
      using answers(3) [OF ans2] by blast
    have "answerable J (c2\<lparr>written := y\<rparr>) s" using ans2 by (simp add: answerable_def)
    from answers(1) [OF this] show ?thesis using False y by (auto simp: add_node_tail_def c1 c2 answer_def Let_def)
  qed
  then obtain x where "add_node_tail S J c s (Some u) (Some w) (Some ce) (Some k) (Some pc) (Some de) (Some ip) (with_pool bytes)
      = Some (c2\<lparr>written := x\<rparr>)" by blast
  then show ?thesis using f2 db2 by (simp add: c1_def same_peers_def)
qed

lemma add_node_outcome:
  assumes req: "node_request J jmsg a u de" and ans: "answerable J c s"
    and runs: "\<And>i. i < 4 \<Longrightarrow> outcome S (pg_calls c + i) = Runs"
    and r: "filter (\<lambda>r. cx_uuid r = u) (contexts (db c)) = r # rs" and pem: "\<And>ce k. pem_ok P ce k"
    and issue: "\<And>n a cn alt sn d. \<exists>ce k. issue P n a cn alt sn d = (Some ce, Some k)"
    and al: "ippool_get_ip (with_pool (cx_ippool r)) = Some (Some ip, with_pool bytes)" and len: "length bytes = pool_size base_pool"
    and keys: "keys c (keys_used c) = Some w" "keys c (Suc (keys_used c)) = Some pc"
    and fresh: "\<And>x. x \<in> set (nodes (db c)) \<Longrightarrow> nd_uuid x \<noteq> w"
  shows "\<exists>c' ce k sn. add_node S J P c s jmsg = Some c' \<and> nodes (db c') = nodes (db c) @ [node_entry u w ce k pc de ip]
    \<and> clients (db c') = clients (db c)
    \<and> contexts (db c') = map (\<lambda>r. if cx_uuid r = u then r\<lparr>cx_embassy_serial := sn,
           cx_ippool := (if outcome S (pg_calls c + 4) = Runs then bytes else cx_ippool r)\<rparr> else r) (contexts (db c))
    \<and> pg_calls c' = pg_calls c + 5 \<and> keys_used c' = keys_used c + 3 \<and> same_peers c c'"
proof -
  obtain js where j: "json_object_get J jmsg ''node'' = Some js" "json_unpack_s J jmsg ''apikey'' = Some a"
      "json_unpack_s J js ''networkuuid'' = Some u" "json_unpack_s J js ''description'' = Some de"
    using req by (auto simp: node_request_def)
  have r0: "outcome S (pg_calls c) = Runs" "outcome S (Suc (pg_calls c)) = Runs" "outcome S (Suc (Suc (pg_calls c))) = Runs"
    "outcome S (pg_calls c + 3) = Runs"
    using runs [of 0] runs [of 1] runs [of 2] runs [of 3] by simp_all
  obtain c6 cert pvkey n cn alt sn se where c6: "add_node S J P c s jmsg = add_node_tail S J c6 s (Some u) (keys c (keys_used c)) cert pvkey
      (keys c (Suc (keys_used c))) (Some de) (Some ip) (with_pool bytes)"
    and iss: "(cert, pvkey) = issue P n (Some (cx_embassy_certificate r, cx_embassy_privatekey r)) cn alt sn (pki_expiration_delay 10)"
    and f6: "nodes (db c6) = nodes (db c)" "clients (db c6) = clients (db c)"
      "pg_calls c6 = pg_calls c + 3" "sinfos c6 = sinfos c" "switch_sinfo c6 = switch_sinfo c" "keys c6 = keys c"
      "keys_used c6 = keys_used c + 3"
      "contexts (db c6) = map (\<lambda>r. if cx_uuid r = u then r\<lparr>cx_embassy_serial := se\<rparr> else r) (contexts (db c))"
    using add_node_run [where P = P and J = J and S = S and c = c and s = s, OF j r0(1,2,3) r pem al] by blast
  obtain ce k where ck: "cert = Some ce" "pvkey = Some k" using iss issue by (metis prod.inject)
  have sp: "same_peers c c6" by (simp add: same_peers_def f6)
  have "answerable J c6 s" using sp ans by (rule answerable_cong)
  moreover have "outcome S (pg_calls c6) = Runs" using r0(4) by (simp add: f6)
  moreover have "\<And>x. x \<in> set (nodes (db c6)) \<Longrightarrow> nd_uuid x \<noteq> w" using fresh by (simp add: f6)
  ultimately obtain c' where c': "add_node_tail S J c6 s (Some u) (Some w) (Some ce) (Some k) (Some pc) (Some de) (Some ip) (with_pool bytes) = Some c'"
    "nodes (db c') = nodes (db c6) @ [node_entry u w ce k pc de ip]" "clients (db c') = clients (db c6)"
    "contexts (db c') = (if outcome S (Suc (pg_calls c6)) = Runs
         then map (\<lambda>r. if cx_uuid r = u then r\<lparr>cx_ippool := bytes\<rparr> else r) (contexts (db c6)) else contexts (db c6))"
    "pg_calls c' = Suc (Suc (pg_calls c6))" "keys_used c' = keys_used c6" "same_peers c6 c'"
    using add_node_tail_run [OF _ _ _ len, where u = u and ce = ce and k = k and pc = pc and de = de and ip = ip] by blast
  have four: "Suc (pg_calls c6) = pg_calls c + 4" by (simp add: f6)
  have "contexts (db c') = map (\<lambda>r. if cx_uuid r = u then r\<lparr>cx_embassy_serial := se,
           cx_ippool := (if outcome S (pg_calls c + 4) = Runs then bytes else cx_ippool r)\<rparr> else r) (contexts (db c))"
    unfolding c'(4) four f6(8) by (auto intro!: map_cong)
  moreover have "same_peers c c'" using c'(7) f6 by (simp add: same_peers_def)
  ultimately show ?thesis using c6 ck keys c' f6
    by (intro exI [of _ c'] exI [of _ ce] exI [of _ k] exI [of _ se]) simp
qed

section \<open>A run of it\<close>

definition demo_texts :: "(string \<times> cjson) list" where
  "demo_texts = [(''N'', CObj [(''action'', CText ''add-network''), (''apikey'', CText ''k''), (''network'', CObj [(''name'', CText ''net'')])]),
     (''A'', CObj [(''action'', CText ''add-node''), (''apikey'', CText ''k''),
        (''node'', CObj [(''networkuuid'', CText ''n''), (''description'', CText ''node'')])])]"

abbreviation demo_J :: "cjson json_lib" where
  "demo_J \<equiv> cj_lib demo_texts"

definition demo_start :: ctrler where
  "demo_start = ctrler_start \<lparr>clients = [demo_client], contexts = [], nodes = []\<rparr> (\<lambda>n. Some (replicate n CHR ''u''))"

text \<open>A client connects and creates a network; the pool of the network stays a variable.\<close>

definition demo_up :: ctrler where
  "demo_up = demo_start\<lparr>sinfos := [0 \<mapsto> \<lparr>si_cert_name = ''api'', si_type = 2, si_state = 2, si_bev = Some 9\<rparr>], sinfo_brk := 1\<rparr>"

lemma demo_up_reached: "ctl_reachable S J P demo_start demo_up"
proof -
  have "ctl_handle S J P demo_start (Accept 9) = Some (accept_conn_cb demo_start (Some 9))" by simp
  moreover have "ctl_handle S J P (accept_conn_cb demo_start (Some 9)) (Event 0 (Up (Some ''api''))) = Some demo_up"
    by (simp add: accept_conn_cb_def sinfo_new_def demo_start_def ctrler_start_def on_event_cb_ctrler_def on_connect_cb_def demo_up_def)
  ultimately show ?thesis by (meson ctl_start ctl_step)
qed

definition demo_context :: context_row where
  "demo_context = network_entry ''i'' ''n'' ''net'' ''7'' (''cert'', ''key'') (''cert'', ''key'') (pool base_pool)"

lemma demo_context_added:
  "\<exists>c. ctl_handle demo_pg demo_J demo_pki demo_up (Receive 0 (''N'' @ NL)) = Some c
     \<and> contexts (db c) = [demo_context] \<and> clients (db c) = [demo_client] \<and> nodes (db c) = []
     \<and> pg_calls c = 2 \<and> sinfos c = sinfos demo_up \<and> switch_sinfo c = None \<and> keys c = keys demo_up \<and> inbuf c 9 = ''''"
proof -
  define c where "c = demo_up\<lparr>inbuf := (inbuf demo_up)(9 := '''')\<rparr>"
  define m where "m = CObj [(''action'', CText ''add-network''), (''apikey'', CText ''k''), (''network'', CObj [(''name'', CText ''net'')])]"
  have r: "ctl_handle demo_pg demo_J demo_pki demo_up (Receive 0 (''N'' @ NL)) =
     map_option snd (dispatch_nvapi demo_pg demo_J demo_pki c 0 m)"
    unfolding c_def by (rule receive_line [where x = "\<lparr>si_cert_name = ''api'', si_type = 2, si_state = 2, si_bev = Some 9\<rparr>" and a = "''add-network''"]) (simp_all add: demo_up_def demo_start_def ctrler_start_def cj_lib_def demo_texts_def m_def)
  have d: "dispatch_nvapi demo_pg demo_J demo_pki c 0 m = map_option (Pair False) (add_network_ctrler demo_pg demo_J demo_pki c 0 m)"
    by (simp add: dispatch_nvapi_def cj_lib_def m_def)
  have cl: "filter (\<lambda>r. cl_apikey r = ''k'' \<and> cl_status r = 1) (clients (db c)) = [demo_client]"
    by (simp add: c_def demo_up_def demo_start_def ctrler_start_def demo_client_def)
  have "add_network_ctrler demo_pg demo_J demo_pki c 0 m = do {
     let c = c\<lparr>keys_used := Suc (Suc (keys_used c)), pg_calls := Suc (Suc (pg_calls c)),
        db := (db c)\<lparr>contexts := contexts (db c) @ [network_entry (nextval demo_pg (Suc (pg_calls c))) (default demo_pg (Suc (pg_calls c)))
           ''net'' (cl_id demo_client) (''cert'', ''key'') (''cert'', ''key'') (pool base_pool)]\<rparr>\<rparr>;
     c \<leftarrow> (if switch_sinfo c = None then Some c
          else to_switch demo_J c (network_forward demo_J (default demo_pg (pg_calls c - 1)) (''cert'', ''key'') (''cert'', ''key'')));
     answer_if demo_J c 0 ''success'' }"
    by (rule add_network_run [OF _ _ _ _ _ cl, where js = "CObj [(''name'', CText ''net'')]"]) (simp_all add: m_def cj_lib_def demo_pg_def demo_pki_def c_def demo_up_def demo_start_def ctrler_start_def)
  then show ?thesis unfolding r d
    by (simp add: c_def demo_up_def demo_start_def ctrler_start_def Let_def answer_if_def reply_if_def bev_write_def cj_lib_def
        demo_context_def demo_pg_def demo_client_def)
qed

lemma free_address:
  assumes ok: "pool_ok bytes" and free: "bits_set bytes \<noteq> {..<65534}"
  shows "\<exists>b bytes'. ippool_get_ip (with_pool bytes) = Some (Some (net_ip b), with_pool bytes') \<and> b < 65534 \<and> b \<notin> bits_set bytes
    \<and> bits_set bytes' = insert b (bits_set bytes) \<and> pool_ok bytes'"
proof -
  have inv: "ip_invar (with_pool bytes)" using ok by (simp add: pool_ok_def)
  have "ip_alloc (with_pool bytes) \<noteq> None" using ip.alloc_None [OF inv] free by simp
  then have "ippool_get_ip (with_pool bytes) \<noteq> Some (None, with_pool bytes)"
    using ippool_get_ip_eq [OF inv] by auto
  then show ?thesis using alloc_pool [OF ok] by blast
qed

text \<open>The pool of a new network is well formed and has a free address.\<close>

lemma demo_free: "pool_ok (cx_ippool demo_context)" "bits_set (cx_ippool demo_context) \<noteq> {..<65534}"
proof -
  have "with_pool (pool base_pool) = base_pool" by (simp add: with_pool_def del: with_pool_fields)
  then show "pool_ok (cx_ippool demo_context)" using base_pool_new(2) by (simp add: pool_ok_def demo_context_def network_entry_def)
  have "0 \<notin> bits_set (pool base_pool)" using base_pool_new(3) by (simp add: ip_used_def)
  then show "bits_set (cx_ippool demo_context) \<noteq> {..<65534}"
    unfolding demo_context_def network_entry_def by (metis context_row.select_convs(11) lessThan_iff zero_less_numeral)
qed

definition demo_ask :: "string \<Rightarrow> cjson" where
  "demo_ask key = CObj [(''action'', CText ''add-node''), (''apikey'', CText key),
     (''node'', CObj [(''networkuuid'', CText ''n''), (''description'', CText ''node'')])]"

lemma demo_ask_request: "node_request (cj_lib texts) (demo_ask key) key ''n'' ''node''"
  by (simp add: node_request_def demo_ask_def cj_lib_def)

text \<open>A node added to the network the demonstration starts with.\<close>

lemma demo_node_added:
  assumes "contexts (db c) = [demo_context]" "nodes (db c) = []" "pg_calls c = 2" "sinfos c = sinfos demo_up" "switch_sinfo c = None"
    "keys c = keys demo_up" "inbuf c 9 = ''''"
  shows "\<exists>c' x. ctl_handle demo_pg demo_J demo_pki c (Receive 0 (''A'' @ NL)) = Some c' \<and> nodes (db c') = [x]"
proof -
  define c1 where "c1 = c\<lparr>inbuf := (inbuf c)(9 := '''')\<rparr>"
  define m where "m = demo_ask ''k''"
  have r: "ctl_handle demo_pg demo_J demo_pki c (Receive 0 (''A'' @ NL)) = map_option snd (dispatch_nvapi demo_pg demo_J demo_pki c1 0 m)"
    unfolding c1_def
    by (rule receive_line [where x = "\<lparr>si_cert_name = ''api'', si_type = 2, si_state = 2, si_bev = Some 9\<rparr>" and a = "''add-node''"])
       (simp_all add: assms demo_up_def cj_lib_def demo_texts_def m_def demo_ask_def)
  have d: "dispatch_nvapi demo_pg demo_J demo_pki c1 0 m = map_option (Pair False) (add_node demo_pg demo_J demo_pki c1 0 m)"
    by (simp add: dispatch_nvapi_def cj_lib_def m_def demo_ask_def)
  have al0: "pool_ok (pool base_pool)" "bits_set (pool base_pool) \<noteq> {..<65534}"
    using demo_free by (simp_all add: demo_context_def network_entry_def)
  from free_address [OF al0] obtain b bytes where al: "ippool_get_ip (with_pool (pool base_pool)) = Some (Some (net_ip b), with_pool bytes)"
    and len: "length bytes = pool_size base_pool" using pool_ok_length by blast
  have "\<exists>c' ce k sn. add_node demo_pg demo_J demo_pki c1 0 m = Some c'
    \<and> nodes (db c') = nodes (db c1) @ [node_entry ''n'' (replicate (keys_used c1) CHR ''u'') ce k (CHR ''u'' # replicate (keys_used c1) CHR ''u'') ''node'' (net_ip b)]
    \<and> clients (db c') = clients (db c1)
    \<and> contexts (db c') = map (\<lambda>r. if cx_uuid r = ''n'' then r\<lparr>cx_embassy_serial := sn,
           cx_ippool := (if outcome demo_pg (pg_calls c1 + 4) = Runs then bytes else cx_ippool r)\<rparr> else r) (contexts (db c1))
    \<and> pg_calls c' = pg_calls c1 + 5 \<and> keys_used c' = keys_used c1 + 3 \<and> same_peers c1 c'"
  proof (rule add_node_outcome)
    show "node_request demo_J m ''k'' ''n'' ''node''" by (simp add: demo_ask_request m_def)
    show "answerable demo_J c1 0" by (simp add: answerable_def c1_def assms demo_up_def cj_lib_def)
    show "filter (\<lambda>r. cx_uuid r = ''n'') (contexts (db c1)) = demo_context # []"
      by (simp add: c1_def assms demo_context_def network_entry_def)
    show "ippool_get_ip (with_pool (cx_ippool demo_context)) = Some (Some (net_ip b), with_pool bytes)"
      using al by (simp add: demo_context_def network_entry_def)
  qed (use len in \<open>simp_all add: demo_pg_def demo_pki_def c1_def assms demo_up_def demo_start_def ctrler_start_def\<close>)
  then show ?thesis unfolding r d by (auto simp: c1_def assms)
qed

text \<open>A controller with one network, and a client of it.\<close>

definition demo_ready :: ctrler where
  "demo_ready = demo_up\<lparr>db := \<lparr>clients = [demo_client], contexts = [demo_context], nodes = []\<rparr>\<rparr>"

lemma demo_ready_fields [simp]:
  "db demo_ready = \<lparr>clients = [demo_client], contexts = [demo_context], nodes = []\<rparr>" "pg_calls demo_ready = 0"
  "keys demo_ready n = Some (replicate n CHR ''u'')" "keys_used demo_ready = 0" "answerable (cj_lib texts) demo_ready 0"
  "cx_uuid demo_context = ''n''"
  by (simp_all add: demo_ready_def demo_up_def demo_start_def ctrler_start_def answerable_def cj_lib_def demo_context_def network_entry_def)

section \<open>Addresses\<close>



end
