(* ===== verification/Ctrler_Accounts.thy ===== *)
theory Ctrler_Accounts
  imports Ctrler_Props
begin

text \<open>
  The accounts of the controller from their creation to their first use, what a client is shown of
  the networks, and the connection of a switch that another switch takes down.
\<close>

section \<open>Accounts\<close>

text \<open>The state after a call to the database.\<close>

definition asked :: "ctrler \<Rightarrow> ctrler" where
  "asked c = c\<lparr>pg_calls := Suc (pg_calls c)\<rparr>"

definition new_client :: "pg \<Rightarrow> nat \<Rightarrow> string \<Rightarrow> string \<Rightarrow> string \<Rightarrow> client_row" where
  "new_client S n e p k = \<lparr>cl_id = nextval S n, cl_email = lower S e, cl_password = crypt S p (gen_salt S n), cl_apikey = k,
     cl_status = 0, cl_resetkey = None, cl_resetdate = None\<rparr>"

lemma answered:
  assumes "answerable J c s"
  shows "\<exists>w. answer J c s what = Some (c\<lparr>written := w\<rparr>)"
  using answers(1) [OF assms] by (simp add: answer_def)

lemma dec_nat_one: "dec_nat (Suc 0) \<noteq> ''0''"
  by code_simp

text \<open>What each of the requests does.\<close>

lemma add_account_run:
  assumes run: "all_run S" and ans: "answerable J c s"
    and m: "json_object_get J m ''account'' = Some acc" "json_unpack_s J acc ''email'' = Some e" "json_unpack_s J acc ''password'' = Some p"
    and k: "keys c (keys_used c) = Some k" and new: "\<And>r. r \<in> set (clients (db c)) \<Longrightarrow> cl_email r \<noteq> lower S e"
  shows "\<exists>w. add_account S J c s m = Some (c\<lparr>keys_used := Suc (keys_used c), pg_calls := Suc (pg_calls c),
    db := (db c)\<lparr>clients := clients (db c) @ [new_client S (pg_calls c) e p k]\<rparr>, written := w\<rparr>)"
proof -
  define c1 where "c1 = c\<lparr>keys_used := Suc (keys_used c), pg_calls := Suc (pg_calls c),
    db := (db c)\<lparr>clients := clients (db c) @ [new_client S (pg_calls c) e p k]\<rparr>\<rparr>"
  have n: "\<not> (\<exists>r \<in> set (clients (db c)). cl_email r = lower S e)" using new by blast
  have d: "dao_add_client S (c\<lparr>keys_used := Suc (keys_used c)\<rparr>) (Some e) (Some p) (Some k) = (0, c1)"
    using n by (simp add: dao_add_client_def dao_command_def exec_runs [OF run] sql_dao_add_client_def check_result_status_def
        new_client_def c1_def)
  have "answerable J c1 s" by (rule answerable_cong [OF _ ans]) (simp add: same_peers_def c1_def)
  from answers(1) [OF this] obtain w where w: "reply J c1 s (set_text J ''apikey'' (Some k) (set_text J ''response'' (Some ''success'')
      (resp_start J))) = Some (c1\<lparr>written := w\<rparr>)" by blast
  have "add_account S J c s m = Some (c1\<lparr>written := w\<rparr>)" by (simp add: add_account_def m next_key_def k d Let_def w)
  then show ?thesis unfolding c1_def by blast
qed

lemma get_apikey_run:
  assumes run: "all_run S"
    and m: "json_object_get J m ''account'' = Some acc" "json_unpack_s J acc ''email'' = Some e" "json_unpack_s J acc ''password'' = Some p"
  shows "get_account_apikey S J c s m =
    (case filter (\<lambda>r. lower S (cl_email r) = lower S e \<and> cl_password r = crypt S p (cl_password r) \<and> cl_status r = 1) (clients (db c)) of
       [] \<Rightarrow> answer J (asked c) s ''denied''
     | r # _ \<Rightarrow> reply J (asked c) s (set_text J ''apikey'' (Some (cl_apikey r)) (set_text J ''response'' (Some ''success'') (resp_start J))))"
  by (simp add: get_account_apikey_def m dao_fetch_account_apikey_def exec_runs [OF run] sql_dao_fetch_account_apikey_def
      check_result_status_def first_value_def asked_def split: list.splits)

lemma activate_run:
  assumes run: "all_run S" and ans: "answerable J c s"
    and m: "json_object_get J m ''account'' \<noteq> None" "json_unpack_s J m ''apikey'' = Some k"
    and k: "keys c (keys_used c) = Some k'"
    and cl: "clients (db c) = rs @ [r]" "cl_apikey r = k" "\<And>r. r \<in> set rs \<Longrightarrow> cl_apikey r \<noteq> k"
  shows "\<exists>w. activate_account S J c s m = Some (c\<lparr>keys_used := Suc (keys_used c), pg_calls := Suc (Suc (pg_calls c)),
    db := (db c)\<lparr>clients := rs @ [r\<lparr>cl_status := 1, cl_apikey := k'\<rparr>]\<rparr>, written := w\<rparr>)"
proof -
  define c1 where "c1 = c\<lparr>keys_used := Suc (keys_used c), pg_calls := Suc (pg_calls c),
    db := (db c)\<lparr>clients := rs @ [r\<lparr>cl_status := 1\<rparr>]\<rparr>\<rparr>"
  define c2 where "c2 = c\<lparr>keys_used := Suc (keys_used c), pg_calls := Suc (Suc (pg_calls c)),
    db := (db c)\<lparr>clients := rs @ [r\<lparr>cl_status := 1, cl_apikey := k'\<rparr>]\<rparr>\<rparr>"
  have f: "filter (\<lambda>r. cl_apikey r = k) rs = []" using cl(3) by (simp add: filter_empty_conv)
  have same: "map (\<lambda>r. if cl_apikey r = k then g r else r) rs = rs" for g
    using cl(3) by (intro map_idI) auto
  have d1: "dao_activate_client S (c\<lparr>keys_used := Suc (keys_used c)\<rparr>) (Some k) = (0, c1)"
    by (simp add: dao_activate_client_def exec_runs [OF run] sql_dao_activate_client_def update_clients_def sql_update_def cl f
        same dec_nat_one check_result_status_def c1_def)
  have d2: "dao_update_client_apikey S c1 (Some k) (Some k') = (0, c2)"
    by (simp add: dao_update_client_apikey_def dao_command_def exec_runs [OF run] sql_dao_update_client_apikey_def update_clients_def
        sql_update_def cl f same check_result_status_def c1_def c2_def)
  have "answerable J c2 s" by (rule answerable_cong [OF _ ans]) (simp add: same_peers_def c1_def c2_def)
  from answered [OF this] obtain w where w: "answer J c2 s ''success'' = Some (c2\<lparr>written := w\<rparr>)" by blast
  have "activate_account S J c s m = Some (c2\<lparr>written := w\<rparr>)"
    using m by (auto simp: activate_account_def next_key_def k d1 d2 Let_def w)
  then show ?thesis unfolding c2_def by blast
qed


definition demo_account :: cjson where
  "demo_account = CObj [(''account'', CObj [(''email'', CText ''b''), (''password'', CText ''q'')])]"

definition demo_activate :: cjson where
  "demo_activate = CObj [(''account'', CObj []), (''apikey'', CText '''')]"


section \<open>Networks\<close>

text \<open>C19. A client is shown its own networks, all of them and no others, in the order of the table; a
  key that is not that of an activated client is denied.\<close>

theorem client_lists_own_networks:
  assumes "all_run S" "json_unpack_s J jmsg ''apikey'' = Some a"
  shows "list_network S J c s jmsg =
    (case filter (\<lambda>r. cl_apikey r = a \<and> cl_status r = 1) (clients (db c)) of
       [] \<Rightarrow> answer_if J (asked c) s ''denied''
     | x # _ \<Rightarrow> reply_if J (asked (asked c)) s (set_text J ''response'' (Some ''success'') (json_object_set J (resp_start J) ''networks''
         (json_array J (map (\<lambda>r. set_text J ''uuid'' (Some (cx_uuid r)) (set_text J ''name'' (Some (cx_description r)) (json_object J)))
            (filter (\<lambda>r. cx_client_id r = cl_id x) (contexts (db c))))))))"
proof -
  have run: "outcome S (pg_calls c) = Runs" using assms(1) by (simp add: all_run_def)
  have fold: "foldl (CB_list_network J) vs (map (\<lambda>r. [cx_description r, cx_uuid r]) rs) =
      vs @ map (\<lambda>r. set_text J ''uuid'' (Some (cx_uuid r)) (set_text J ''name'' (Some (cx_description r)) (json_object J))) rs" for vs rs
    by (induction rs arbitrary: vs) (simp_all add: CB_list_network_def)
  show ?thesis
    by (simp add: list_network_def assms(2) fetch_client_run [OF run] asked_def Let_def dao_fetch_networks_by_client_id_def
        exec_runs [OF assms(1)] sql_dao_fetch_networks_by_client_id_def check_result_status_def rows_of_def fold split: list.splits)
qed

section \<open>Two switches\<close>

text \<open>The controller knows one switch.  When a second one connects and the first goes, the
  controller forgets the second with it, and tells it of nothing any more: what is meant for the
  switch is dropped, though its connection is up.\<close>

theorem old_switch_silences_new:
  assumes "sinfos c s1 = Some x1" "sinfos c s2 = Some x2" "s1 \<noteq> s2" "take 14 n1 = ''netvirt-switch''" "take 14 n2 = ''netvirt-switch''"
  shows "\<exists>c1 c2 c3. ctl_handle S J P c (Event s1 (Up (Some n1))) = Some c1 \<and> ctl_handle S J P c1 (Event s2 (Up (Some n2))) = Some c2
    \<and> switch_sinfo c2 = Some s2 \<and> ctl_handle S J P c2 (Event s1 Gone) = Some c3
    \<and> map_option si_bev (sinfos c3 s2) = Some (si_bev x2) \<and> map_option si_type (sinfos c3 s2) = Some NVSWITCH
    \<and> (\<forall>v. to_switch J c3 v = Some c3)"
proof -
  have n: "take 14 (take 255 n) = take 14 n" for n :: string by simp
  have r: "sinfos (dao_reset_node_state S c) = sinfos c \<and> switch_sinfo (dao_reset_node_state S c) = switch_sinfo c" for c
    by (simp add: dao_reset_node_state_def PQexec_def Let_def split: outcome.splits prod.splits)
  show ?thesis using assms
    by (simp add: on_event_cb_ctrler_def on_connect_cb_def n r sinfo_free_def to_switch_def Let_def)
qed

definition demo_peer :: "addr \<Rightarrow> session_info" where
  "demo_peer b = \<lparr>si_cert_name = '''', si_type = 0, si_state = SESSION_NOT_AUTH, si_bev = Some b\<rparr>"

definition demo_two :: ctrler where
  "demo_two = demo_start\<lparr>sinfos := [0 \<mapsto> demo_peer 9, 1 \<mapsto> demo_peer 8]\<rparr>"

theorem old_switch_silences_new_witness:
  "\<exists>c1 c2 c3. ctl_handle demo_pg demo_J demo_pki demo_two (Event 0 (Up (Some ''netvirt-switch1''))) = Some c1
    \<and> ctl_handle demo_pg demo_J demo_pki c1 (Event 1 (Up (Some ''netvirt-switch2''))) = Some c2
    \<and> switch_sinfo c2 = Some 1 \<and> ctl_handle demo_pg demo_J demo_pki c2 (Event 0 Gone) = Some c3
    \<and> (\<forall>v. to_switch demo_J c3 v = Some c3)"
proof -
  have "\<exists>c1 c2 c3. ctl_handle demo_pg demo_J demo_pki demo_two (Event 0 (Up (Some ''netvirt-switch1''))) = Some c1
    \<and> ctl_handle demo_pg demo_J demo_pki c1 (Event 1 (Up (Some ''netvirt-switch2''))) = Some c2
    \<and> switch_sinfo c2 = Some 1 \<and> ctl_handle demo_pg demo_J demo_pki c2 (Event 0 Gone) = Some c3
    \<and> map_option si_bev (sinfos c3 1) = Some (si_bev (demo_peer 8)) \<and> map_option si_type (sinfos c3 1) = Some NVSWITCH
    \<and> (\<forall>v. to_switch demo_J c3 v = Some c3)"
    by (rule old_switch_silences_new [where ?x1.0 = "demo_peer 9"]) (simp_all add: demo_two_def)
  then show ?thesis by blast
qed

theorem client_lists_own_networks_witness:
  "list_network demo_pg demo_J demo_ready 0 (demo_ask ''k'') = reply_if demo_J (asked (asked demo_ready)) 0
     (set_text demo_J ''response'' (Some ''success'') (json_object_set demo_J (resp_start demo_J) ''networks''
       (json_array demo_J [set_text demo_J ''uuid'' (Some ''n'') (set_text demo_J ''name'' (Some ''net'') (json_object demo_J))])))"
proof -
  have "json_unpack_s demo_J (demo_ask ''k'') ''apikey'' = Some ''k''" by (simp add: cj_lib_def demo_ask_def)
  from client_lists_own_networks [OF all_run_demo this, of demo_ready 0] show ?thesis
    by (simp add: demo_client_def demo_context_def network_entry_def)
qed

end
