(* ===== verification/Ctrler_Flaws.thy ===== *)
theory Ctrler_Flaws
  imports Ctrler_Props
begin

text \<open>
  Where the controller fails: an address given twice after a statement that did not run, requests
  that are served without a key, and networks that are emptied by another client.
\<close>

section \<open>An address given twice\<close>

text \<open>C17. The node is stored before the pool of its network is.  When the statement that stores the
  pool does not run, the client is told of an error, but the node stays; the next node of the
  network gets the same address.\<close>

theorem lost_pool_update_reuses_address:
  assumes "node_request J m1 a1 u d1" "node_request J m2 a2 u d2" "answerable J c s1" "answerable J c s2"
    and "\<And>i. i < 10 \<Longrightarrow> outcome S (pg_calls c + i) = Runs \<longleftrightarrow> i \<noteq> 4"
    and "filter (\<lambda>r. cx_uuid r = u) (contexts (db c)) = r # rs" "pool_ok (cx_ippool r)" "bits_set (cx_ippool r) \<noteq> {..<65534}"
    and "\<And>ce k. pem_ok P ce k" "\<And>n a cn alt sn d. \<exists>ce k. issue P n a cn alt sn d = (Some ce, Some k)"
    and "keys c (keys_used c) = Some w1" "keys c (keys_used c + 1) = Some p1"
    and "keys c (keys_used c + 3) = Some w2" "keys c (keys_used c + 4) = Some p2" "w1 \<noteq> w2"
    and "\<And>x. x \<in> set (nodes (db c)) \<Longrightarrow> nd_uuid x \<noteq> w1 \<and> nd_uuid x \<noteq> w2"
  shows "\<exists>c1 c2 x y. add_node S J P c s1 m1 = Some c1 \<and> add_node S J P c1 s2 m2 = Some c2
    \<and> nodes (db c2) = nodes (db c) @ [x, y] \<and> nd_uuid x = w1 \<and> nd_uuid y = w2
    \<and> nd_network_uuid x = u \<and> nd_network_uuid y = u \<and> nd_ipaddress x = nd_ipaddress y"
proof -
  obtain b bytes where al: "ippool_get_ip (with_pool (cx_ippool r)) = Some (Some (net_ip b), with_pool bytes)" "pool_ok bytes"
    using free_address [OF assms(7,8)] by blast
  note len = pool_ok_length [OF al(2)]
  obtain c1 ce1 k1 sn1 where c1: "add_node S J P c s1 m1 = Some c1"
      "nodes (db c1) = nodes (db c) @ [node_entry u w1 ce1 k1 p1 d1 (net_ip b)]"
      "contexts (db c1) = map (\<lambda>r. if cx_uuid r = u then r\<lparr>cx_embassy_serial := sn1,
           cx_ippool := (if outcome S (pg_calls c + 4) = Runs then bytes else cx_ippool r)\<rparr> else r) (contexts (db c))"
      "pg_calls c1 = pg_calls c + 5" "keys_used c1 = keys_used c + 3" "same_peers c c1"
    using add_node_outcome [OF assms(1,3) _ assms(6,9,10) al(1) len assms(11) _, where S = S] assms(5,12,16) by auto
  have four: "outcome S (pg_calls c + 4) \<noteq> Runs" using assms(5) [of 4] by simp
  have filter_map: "filter Q (map f xs) = map f (filter Q xs)" if "\<And>r. Q (f r) = Q r" for Q :: "context_row \<Rightarrow> bool" and f xs
    using that by (induction xs) auto
  let ?f = "\<lambda>r. if cx_uuid r = u then r\<lparr>cx_embassy_serial := sn1\<rparr> else r"
  have ctx: "contexts (db c1) = map ?f (contexts (db c))"
    unfolding c1(3) using four by (auto intro!: map_cong)
  have r1: "filter (\<lambda>r. cx_uuid r = u) (contexts (db c1)) = r\<lparr>cx_embassy_serial := sn1\<rparr> # map ?f rs"
  proof -
    have "cx_uuid r = u" using assms(6) by (metis (mono_tags, lifting) list.set_intros(1) mem_Collect_eq set_filter)
    then show ?thesis unfolding ctx by (subst filter_map) (auto simp: assms(6))
  qed
  have al1: "ippool_get_ip (with_pool (cx_ippool (r\<lparr>cx_embassy_serial := sn1\<rparr>))) = Some (Some (net_ip b), with_pool bytes)"
    using al(1) by simp
  have runs1: "outcome S (pg_calls c1 + i) = Runs" if "i < 4" for i
    using assms(5) [of "5 + i"] that by (simp add: c1(4) add.assoc)
  have ans1: "answerable J c1 s2" using answerable_cong [OF c1(6) assms(4)] .
  have keys1: "keys c1 (keys_used c1) = Some w2" "keys c1 (Suc (keys_used c1)) = Some p2"
    using assms(13,14) c1(5,6) by (simp_all add: same_peers_def numeral_eq_Suc)
  have fresh1: "\<And>x. x \<in> set (nodes (db c1)) \<Longrightarrow> nd_uuid x \<noteq> w2"
    using assms(15,16) by (auto simp: c1(2) node_entry_def)
  obtain c2 ce2 k2 where c2: "add_node S J P c1 s2 m2 = Some c2"
      "nodes (db c2) = nodes (db c1) @ [node_entry u w2 ce2 k2 p2 d2 (net_ip b)]"
    using add_node_outcome [OF assms(2) ans1 runs1 r1 assms(9,10) al1 len keys1 fresh1] by blast
  show ?thesis
    by (rule exI [of _ c1], rule exI [of _ c2], rule exI [of _ "node_entry u w1 ce1 k1 p1 d1 (net_ip b)"],
        rule exI [of _ "node_entry u w2 ce2 k2 p2 d2 (net_ip b)"]) (simp add: c1(1,2) c2 node_entry_def)
qed

theorem lost_pool_update_reuses_address_witness:
  "\<exists>c1 c2 x y. add_node (demo_pg\<lparr>outcome := (\<lambda>n. if n = 4 then Errs else Runs)\<rparr>) demo_J demo_pki demo_ready 0 (demo_ask ''k'') = Some c1
    \<and> add_node (demo_pg\<lparr>outcome := (\<lambda>n. if n = 4 then Errs else Runs)\<rparr>) demo_J demo_pki c1 0 (demo_ask ''k'') = Some c2
    \<and> nodes (db c2) = [x, y] \<and> nd_uuid x = '''' \<and> nd_uuid y = ''uuu'' \<and> nd_ipaddress x = nd_ipaddress y"
proof -
  let ?S = "demo_pg\<lparr>outcome := (\<lambda>n. if n = 4 then Errs else Runs)\<rparr>"
  have "\<exists>c1 c2 x y. add_node ?S demo_J demo_pki demo_ready 0 (demo_ask ''k'') = Some c1
    \<and> add_node ?S demo_J demo_pki c1 0 (demo_ask ''k'') = Some c2
    \<and> nodes (db c2) = nodes (db demo_ready) @ [x, y] \<and> nd_uuid x = '''' \<and> nd_uuid y = ''uuu''
    \<and> nd_network_uuid x = ''n'' \<and> nd_network_uuid y = ''n'' \<and> nd_ipaddress x = nd_ipaddress y"
  proof (rule lost_pool_update_reuses_address [OF demo_ask_request demo_ask_request, where r = demo_context and rs = "[]"])
    show "keys demo_ready (keys_used demo_ready + 1) = Some ''u''" "keys demo_ready (keys_used demo_ready + 3) = Some ''uuu''"
      "keys demo_ready (keys_used demo_ready + 4) = Some ''uuuu''"
      by (simp_all add: numeral_eq_Suc)
    show "outcome ?S (pg_calls demo_ready + i) = Runs \<longleftrightarrow> i \<noteq> 4" for i by simp
  qed (simp_all add: demo_free demo_pki_def)
  then show ?thesis by auto
qed

section \<open>Requests without a key\<close>

text \<open>C16. \<open>dao_fetch_client_id_by_apikey\<close> succeeds when no client has the key, and the request for a
  node looks at nothing else: whoever can name a network gets a node in it, with a certificate of
  the network, for any key.\<close>

theorem unknown_key_adds_node:
  assumes "all_run S" and "\<And>x. x \<in> set (clients (db c)) \<Longrightarrow> cl_apikey x \<noteq> a"
    and "node_request J jmsg a u de" "answerable J c s"
    and "filter (\<lambda>r. cx_uuid r = u) (contexts (db c)) = r # rs" "pool_ok (cx_ippool r)" "bits_set (cx_ippool r) \<noteq> {..<65534}"
    and "\<And>ce k. pem_ok P ce k" "\<And>n a cn alt sn d. \<exists>ce k. issue P n a cn alt sn d = (Some ce, Some k)"
    and "keys c (keys_used c) = Some w" "keys c (keys_used c + 1) = Some pc"
    and "\<And>x. x \<in> set (nodes (db c)) \<Longrightarrow> nd_uuid x \<noteq> w"
  shows "\<exists>c' ce k b. add_node S J P c s jmsg = Some c' \<and> b < 65534 \<and> b \<notin> bits_set (cx_ippool r)
    \<and> nodes (db c') = nodes (db c) @ [\<lparr>nd_network_uuid = u, nd_uuid = w, nd_certificate = ce, nd_privatekey = k, nd_provcode = pc,
         nd_description = de, nd_ipaddress = net_ip b, nd_status = ''0'', nd_ipsrc = ''''\<rparr>]"
proof -
  obtain b bytes where al: "ippool_get_ip (with_pool (cx_ippool r)) = Some (Some (net_ip b), with_pool bytes)" "pool_ok bytes"
      "b < 65534" "b \<notin> bits_set (cx_ippool r)"
    using free_address [OF assms(6,7)] by blast
  have "outcome S (pg_calls c + i) = Runs" for i using assms(1) by (simp add: all_run_def)
  then obtain c' ce k where "add_node S J P c s jmsg = Some c'" "nodes (db c') = nodes (db c) @ [node_entry u w ce k pc de (net_ip b)]"
    using add_node_outcome [OF assms(3,4) _ assms(5,8,9) al(1) pool_ok_length [OF al(2)] assms(10), where S = S] assms(11,12)
    by auto
  with al(3,4) show ?thesis unfolding node_entry_def by blast
qed

theorem unknown_key_adds_node_witness:
  "cl_apikey demo_client \<noteq> ''zz'' \<and> (\<exists>c' x. add_node demo_pg demo_J demo_pki demo_ready 0 (demo_ask ''zz'') = Some c' \<and> nodes (db c') = [x])"
proof -
  have "\<exists>c' ce k b. add_node demo_pg demo_J demo_pki demo_ready 0 (demo_ask ''zz'') = Some c' \<and> b < 65534 \<and> b \<notin> bits_set (cx_ippool demo_context)
    \<and> nodes (db c') = nodes (db demo_ready) @ [\<lparr>nd_network_uuid = ''n'', nd_uuid = '''', nd_certificate = ce, nd_privatekey = k,
         nd_provcode = ''u'', nd_description = ''node'', nd_ipaddress = net_ip b, nd_status = ''0'', nd_ipsrc = ''''\<rparr>]"
    by (rule unknown_key_adds_node [OF all_run_demo _ demo_ask_request, where r = demo_context and rs = "[]"])
       (simp_all add: demo_free demo_pki_def demo_client_def)
  then show ?thesis by (auto simp: demo_client_def)
qed

section \<open>Networks of others\<close>

text \<open>A client that names a network of another client in \<open>del-network\<close> does not delete it, but
  every node of it: the nodes are deleted first and without a look at the owner.  The network keeps
  its pool, with the addresses of the nodes taken, and the request is answered like one that
  succeeded.\<close>

theorem foreign_client_empties_network:
  assumes "all_run S" "answerable J c s"
    and "json_object_get J jmsg ''network'' = Some js" "json_unpack_s J jmsg ''apikey'' = Some a" "json_unpack_s J js ''uuid'' = Some u"
    and "filter (\<lambda>r. cl_apikey r = a \<and> cl_status r = 1) (clients (db c)) = x # xs"
    and "\<And>r. r \<in> set (contexts (db c)) \<Longrightarrow> cx_uuid r = u \<Longrightarrow> cx_client_id r \<noteq> cl_id x"
  shows "\<exists>c' d. del_network_ctrler S J c s jmsg = Some c' \<and> contexts (db c') = contexts (db c)
    \<and> nodes (db c') = filter (\<lambda>n. nd_network_uuid n \<noteq> u) (nodes (db c))
    \<and> reply J d s (resp_start J) = Some c'"
proof -
  define c1 where "c1 = c\<lparr>pg_calls := Suc (pg_calls c)\<rparr>"
  have c1: "dao_fetch_client_id_by_apikey S c (Some a) = Some (0, Some (cl_id x), c1)"
    using assms(1) by (subst fetch_client_run) (simp_all add: all_run_def assms(6) c1_def)
  define c2 where "c2 = c1\<lparr>pg_calls := Suc (pg_calls c1), db := snd (delete_nodes (\<lambda>n. nd_network_uuid n = u) (db c1))\<rparr>"
  define c3 where "c3 = c2\<lparr>pg_calls := Suc (pg_calls c2), db := snd (sql_dao_del_context (cl_id x) u S (pg_calls c2) (db c2))\<rparr>"
  have d: "dao_del_node_by_context_id S c1 (Some u) = (0, c2)" "dao_del_context S c2 (Some (cl_id x)) (Some u) = (0, c3)"
    by (simp_all add: dao_del_node_by_context_id_def dao_del_context_def unchecked_runs [OF assms(1)]
        sql_dao_del_node_by_context_id_def c2_def c3_def)
  have db3: "contexts (db c3) = contexts (db c)" "nodes (db c3) = filter (\<lambda>n. nd_network_uuid n \<noteq> u) (nodes (db c))"
    using assms(7) by (auto simp: c3_def c2_def c1_def sql_dao_del_context_def delete_nodes_def sql_delete_def intro!: filter_True)
  have a3: "answerable J c3 s"
    by (rule answerable_cong [OF _ assms(2)]) (simp add: same_peers_def c3_def c2_def c1_def)
  define v where "v = json_object_set J (json_object_del J jmsg ''apikey'') ''network'' (json_object_del J
      (json_object_del J (set_text J ''networkuuid'' (Some u) js) ''uuid'') ''name'')"
  have v: "del_network_ctrler S J c s jmsg = do {
      c \<leftarrow> (if switch_sinfo c3 = None then Some c3 else to_switch J c3 v); reply J c s (resp_start J) }"
    by (simp add: del_network_ctrler_def assms(3-5) c1 d v_def Let_def)
  obtain y where y: "(if switch_sinfo c3 = None then Some c3 else to_switch J c3 v) = Some (c3\<lparr>written := y\<rparr>)"
  proof (cases "switch_sinfo c3 = None")
    case True
    then show ?thesis using that [of "written c3"] by simp
  next
    case False
    then show ?thesis using that answers(3) [OF a3, of v] by auto
  qed
  obtain z where z: "reply J (c3\<lparr>written := y\<rparr>) s (resp_start J) = Some (c3\<lparr>written := z\<rparr>)"
  proof -
    have "answerable J (c3\<lparr>written := y\<rparr>) s" using a3 by (simp add: answerable_def)
    from answers(1) [OF this, of "resp_start J"] show ?thesis using that by auto
  qed
  show ?thesis
    by (rule exI [of _ "c3\<lparr>written := z\<rparr>"], rule exI [of _ "c3\<lparr>written := y\<rparr>"]) (simp add: v y z db3)
qed

theorem foreign_client_empties_network_witness:
  "\<exists>c' n. nd_network_uuid n = ''n'' \<and> del_network_ctrler demo_pg demo_J
      (demo_ready\<lparr>db := \<lparr>clients = [demo_client], contexts = [demo_context\<lparr>cx_client_id := ''8''\<rparr>], nodes = [n]\<rparr>\<rparr>) 0
      (CObj [(''apikey'', CText ''k''), (''network'', CObj [(''uuid'', CText ''n'')])]) = Some c'
    \<and> contexts (db c') = [demo_context\<lparr>cx_client_id := ''8''\<rparr>] \<and> nodes (db c') = []"
proof -
  define n where "n = node_entry ''n'' ''u'' ''c'' ''k'' ''p'' ''d'' ''44.128.0.1''"
  define c where "c = demo_ready\<lparr>db := \<lparr>clients = [demo_client], contexts = [demo_context\<lparr>cx_client_id := ''8''\<rparr>], nodes = [n]\<rparr>\<rparr>"
  let ?m = "CObj [(''apikey'', CText ''k''), (''network'', CObj [(''uuid'', CText ''n'')])]"
  have a: "answerable demo_J c 0"
    using demo_ready_fields(5) [of demo_texts] by (simp add: answerable_def c_def)
  have cl: "filter (\<lambda>r. cl_apikey r = ''k'' \<and> cl_status r = 1) (clients (db c)) = demo_client # []"
    by (simp add: c_def demo_client_def)
  have "\<exists>c' d. del_network_ctrler demo_pg demo_J c 0 ?m = Some c' \<and> contexts (db c') = contexts (db c)
    \<and> nodes (db c') = filter (\<lambda>n. nd_network_uuid n \<noteq> ''n'') (nodes (db c)) \<and> reply demo_J d 0 (resp_start demo_J) = Some c'"
    by (rule foreign_client_empties_network [OF all_run_demo a, where js = "CObj [(''uuid'', CText ''n'')]", OF _ _ _ cl])
       (simp_all add: cj_lib_def c_def demo_client_def)
  then obtain c' where "del_network_ctrler demo_pg demo_J c 0 ?m = Some c'" "contexts (db c') = contexts (db c)"
    "nodes (db c') = filter (\<lambda>n. nd_network_uuid n \<noteq> ''n'') (nodes (db c))" by blast
  then show ?thesis unfolding c_def
    by (intro exI [of _ c'] exI [of _ n]) (simp add: n_def node_entry_def)
qed

end
