(* ===== verification/Nv_Link.thy ===== *)
theory Nv_Link
  imports Switch_Flaws Ctrler_Flaws
begin

text \<open>
  The controller and the switch together: what the one writes and the other reads.  Both use the
  same JSON library: a value the controller builds is, written as text and read back, the value the
  switch looks at.
\<close>

section \<open>The values both see\<close>

definition ascii :: "string \<Rightarrow> bool" where
  "ascii s \<longleftrightarrow> (\<forall>c \<in> set s. 0 < (of_char c :: nat) \<and> (of_char c :: nat) < 128)"

text \<open>What jansson documents of objects, texts and arrays: \<open>obj\<close> tells objects from other values and
  \<open>txt\<close> is the memory of a text.\<close>

definition same_json :: "'j json_lib \<Rightarrow> 'j jansson \<Rightarrow> ('j \<Rightarrow> bool) \<Rightarrow> ('j \<Rightarrow> u8 list option) \<Rightarrow> bool" where
  "same_json J K obj txt \<longleftrightarrow>
     obj (json_object J) \<and> (\<forall>k. json_object_get J (json_object J) k = None)
     \<and> (\<forall>j k v k'. obj j \<longrightarrow> obj (json_object_set J j k v)
          \<and> json_object_get J (json_object_set J j k v) k' = (if k' = k then Some v else json_object_get J j k'))
     \<and> (\<forall>s. ascii s \<longrightarrow> (\<exists>v. json_string J s = Some v \<and> txt v = Some (cmem s)))
     \<and> (\<forall>j k. obj j \<longrightarrow> object_get K j k = json_object_get J j k
          \<and> unpack_s K j k = Option.bind (json_object_get J j k) txt)
     \<and> (\<forall>vs. array_size K (json_array J vs) = length vs \<and> (\<forall>i. array_get K (json_array J vs) i = fetch vs i))"

lemma same_jsonD:
  assumes "same_json J K obj txt"
  shows "obj (json_object J)" "json_object_get J (json_object J) k = None"
    "obj j \<Longrightarrow> obj (json_object_set J j k v)"
    "obj j \<Longrightarrow> json_object_get J (json_object_set J j k v) k' = (if k' = k then Some v else json_object_get J j k')"
    "ascii s \<Longrightarrow> \<exists>v. json_string J s = Some v \<and> txt v = Some (cmem s)"
    "obj j \<Longrightarrow> object_get K j k = json_object_get J j k"
    "obj j \<Longrightarrow> unpack_s K j k = Option.bind (json_object_get J j k) txt"
    "array_size K (json_array J vs) = length vs" "array_get K (json_array J vs) i = fetch vs i"
  using assms unfolding same_json_def by blast+

lemma json_obj [simp]:
  assumes A: "same_json J K obj txt" and o: "obj j"
  shows "obj (json_object_set J j k v)" "obj (set_text J k s j)"
  using same_jsonD(3) [OF A o] o by (auto simp: set_text_def split: option.splits)

lemma json_read:
  assumes A: "same_json J K obj txt" and o: "obj j"
  shows "unpack_s K (json_object J) k = None"
    "ascii s \<Longrightarrow> unpack_s K (set_text J k (Some s) j) k' = (if k' = k then Some (cmem s) else unpack_s K j k')"
    "k' \<noteq> k \<Longrightarrow> unpack_s K (json_object_set J j k v) k' = unpack_s K j k'"
    "object_get K (json_object_set J j k v) k = Some v"
    "k' \<noteq> k \<Longrightarrow> object_get K (set_text J k t j) k' = object_get K j k'"
proof -
  note D = same_jsonD [OF A]
  show "unpack_s K (json_object J) k = None" using D(7) [OF D(1)] D(2) by simp
  show "unpack_s K (set_text J k (Some s) j) k' = (if k' = k then Some (cmem s) else unpack_s K j k')" if s: "ascii s"
  proof -
    obtain v where v: "json_string J s = Some v" "txt v = Some (cmem s)" using D(5) [OF s] by blast
    have t: "set_text J k (Some s) j = json_object_set J j k v" by (simp add: set_text_def v(1))
    show ?thesis unfolding t D(7) [OF D(3) [OF o]] D(7) [OF o] D(4) [OF o] by (simp add: v(2))
  qed
  show "unpack_s K (json_object_set J j k v) k' = unpack_s K j k'" if "k' \<noteq> k"
    unfolding D(7) [OF D(3) [OF o]] D(7) [OF o] D(4) [OF o] using that by simp
  show "object_get K (json_object_set J j k v) k = Some v" unfolding D(6) [OF D(3) [OF o]] D(4) [OF o] by simp
  show "object_get K (set_text J k t j) k' = object_get K j k'" if "k' \<noteq> k"
  proof (cases "Option.bind t (json_string J)")
    case (Some v)
    then have e: "set_text J k t j = json_object_set J j k v" by (simp add: set_text_def)
    show ?thesis unfolding e D(6) [OF D(3) [OF o]] D(6) [OF o] D(4) [OF o] using that by simp
  qed (simp add: set_text_def)
qed

lemma ascii_literal: "list_all (\<lambda>c. 0 < (of_char c :: nat) \<and> (of_char c :: nat) < 128) s \<Longrightarrow> ascii s"
  by (simp add: ascii_def list_all_iff)

lemma strlen_ascii: "ascii s \<Longrightarrow> strlen (cmem s) = Some (length s)"
proof -
  assume a: "ascii s"
  have nz: "(of_char c :: u8) \<noteq> 0" if "c \<in> set s" for c
  proof
    assume z: "(of_char c :: u8) = 0"
    have "(of_char c :: u8) = of_nat (of_char c)" by (simp only: of_nat_of_char)
    then have "(2 ^ 8 :: nat) dvd of_char c" using z by (simp add: word_of_nat_eq_0_iff)
    moreover have "0 < (of_char c :: nat)" "(of_char c :: nat) < 128" using a that by (auto simp: ascii_def)
    ultimately show False by (auto dest: dvd_imp_le)
  qed
  have "strlen (map of_char s @ [0 :: u8]) = Some (length s)" if "\<And>c. c \<in> set s \<Longrightarrow> (of_char c :: u8) \<noteq> 0" for s :: string
    using that by (induction s) auto
  with nz show ?thesis by (simp add: cmem_def)
qed

lemma cbytes_ascii: "ascii s \<Longrightarrow> cbytes (cmem s) = Some (map of_char s)"
  by (simp add: cbytes_def strlen_ascii) (simp add: cmem_def)

lemma strdup_ascii: "ascii s \<Longrightarrow> strdup True (cmem s) = Some (Some (cmem s))"
  by (simp add: strdup_def strlen_ascii) (simp add: cmem_def)

lemma streq_cmem: "ascii s \<Longrightarrow> ascii t \<Longrightarrow> strneq (cmem s) (cmem t) (Suc (length t)) = Some (s = t)"
proof -
  assume a: "ascii s" "ascii t"
  have bytes: "(of_char c :: u8) = of_nat (of_char c)" for c :: char by (simp only: of_nat_of_char)
  have lt: "(of_char c :: nat) < 256" for c :: char by simp
  have inj: "(of_char c :: u8) = of_char d \<longleftrightarrow> c = d" for c d :: char
  proof
    assume "(of_char c :: u8) = of_char d"
    then have "unat (of_nat (of_char c) :: u8) = unat (of_nat (of_char d) :: u8)" by (simp only: bytes)
    then have "(of_char c :: nat) = of_char d" using lt [of c] lt [of d] by (simp add: unat_of_nat)
    then show "c = d" by simp
  qed simp
  have z: "(of_char c :: u8) = 0 \<longleftrightarrow> (of_char c :: nat) = 0" for c :: char
    unfolding bytes using lt [of c] nat_dvd_not_less [of "of_char c" 256] by (auto simp: word_of_nat_eq_0_iff)
  show ?thesis using a unfolding cmem_def
  proof (induction t arbitrary: s)
    case Nil
    then show ?case by (cases s) (auto simp: ascii_def z)
  next
    case (Cons c t)
    then show ?case by (cases s) (auto simp: ascii_def z inj)
  qed
qed

section \<open>A new network\<close>

text \<open>C15. A network that a client adds while the switch is connected brings the switch down: the
  message the controller writes to the switch at once has no \<open>id\<close>, and the switch reads the \<open>id\<close> of
  the first element of such a message from a variable that has not been set.\<close>

theorem new_network_crashes_switch:
  assumes A: "same_json J K obj txt" and "answerable J c s" "switch_sinfo c = Some p" "sinfos c p = Some y" "si_bev y = Some b"
    and "json_object_get J jmsg ''network'' = Some js" "json_unpack_s J jmsg ''apikey'' = Some a" "json_unpack_s J js ''name'' = Some de"
    and "outcome S (pg_calls c) = Runs" "outcome S (Suc (pg_calls c)) = Runs"
    and "filter (\<lambda>r. cl_apikey r = a \<and> cl_status r = 1) (clients (db c)) = x # xs"
    and "\<And>r. r \<in> set (contexts (db c)) \<Longrightarrow> cx_description r = de \<Longrightarrow> cx_client_id r \<noteq> cl_id x"
    and "issue P (keys_used c) None ''embassy'' ''CA'' 0 (pki_expiration_delay 10) = (Some ec, Some ek)"
    and "issue P (Suc (keys_used c)) (Some (ec, ek)) ''nvswitch'' ''CA'' 1 (pki_expiration_delay 10) = (Some sc, Some sk)"
    and "pem_ok P ec ek" and "ascii (default S (Suc (pg_calls c)))" "ascii ec" "ascii sc" "ascii sk"
  shows "\<exists>c' v t w. add_network_ctrler S J P c s jmsg = Some c' \<and> json_dumps J v = Some t
    \<and> written c' = written c @ [(b, t), (b, NL)] @ w \<and> (\<forall>sw. dispatch_op K sw v = None)"
proof -
  define u where "u = default S (Suc (pg_calls c))"
  define v where "v = network_forward J u (ec, ek) (sc, sk)"
  define c1 where "c1 = c\<lparr>keys_used := Suc (Suc (keys_used c)), pg_calls := Suc (Suc (pg_calls c)),
     db := (db c)\<lparr>contexts := contexts (db c) @ [network_entry (nextval S (Suc (pg_calls c))) u de (cl_id x) (ec, ek) (sc, sk) (pool base_pool)]\<rparr>\<rparr>"
  have run: "add_network_ctrler S J P c s jmsg = do {
     c \<leftarrow> (if switch_sinfo c1 = None then Some c1 else to_switch J c1 (network_forward J (default S (pg_calls c1 - 1)) (ec, ek) (sc, sk)));
     answer_if J c s ''success'' }"
    using add_network_run [OF assms(6-12), of P "(ec, ek)" "(sc, sk)" s] assms(13-15) by (simp add: c1_def u_def Let_def)
  obtain t where t: "json_dumps J v = Some t" using assms(2) by (auto simp: answerable_def)
  have "add_network_ctrler S J P c s jmsg = answer_if J (bev_write (bev_write c1 b t) b NL) s ''success''"
    unfolding run using assms(3-5) t
    by (simp add: c1_def u_def to_switch_def reply_if_def v_def)
  moreover obtain x' b' where x': "sinfos c s = Some x'" "si_bev x' = Some b'" using assms(2) by (auto simp: answerable_def)
  moreover obtain t' where t': "json_dumps J (set_text J ''response'' (Some ''success'') (resp_start J)) = Some t'"
    using assms(2) by (auto simp: answerable_def)
  ultimately have out: "\<exists>c' w. add_network_ctrler S J P c s jmsg = Some c' \<and> written c' = written c @ [(b, t), (b, NL)] @ w"
    by (simp add: answer_if_def reply_if_def bev_write_def c1_def)
  note D = same_jsonD [OF A] and R = json_read [OF A] and O = json_obj [OF A]
  have lit: "ascii ''more-data''" "ascii ''listall-network''" "ascii ''255.255.0.0''" "ascii ''44.128.0.0''"
    by (rule ascii_literal, simp)+
  define net where "net = set_text J ''tcert'' (Some ec) (set_text J ''pkey'' (Some sk)
          (set_text J ''cert'' (Some sc) (set_text J ''netmask'' (Some ''255.255.0.0'')
          (set_text J ''network'' (Some ''44.128.0.0'') (set_text J ''uuid'' (Some u) (json_object J))))))"
  have o: "obj (set_text J k2 s2 (set_text J k1 s1 (json_object J)))" "obj (set_text J k1 s1 (json_object J))" "obj (json_object J)" for k2 s2 k1 s1
    using O D(1) by blast+
  have v: "unpack_s K v ''action'' = Some (cmem ''listall-network'')" "unpack_s K v ''response'' = Some (cmem ''more-data'')"
    "object_get K v ''networks'' = Some (json_array J [net])"
    unfolding v_def network_forward_def net_def
    by (simp_all add: R(2,3,4) o lit)
  have n: "unpack_s K net ''id'' = None" "unpack_s K net ''uuid'' \<noteq> None" "unpack_s K net ''network'' \<noteq> None"
    "unpack_s K net ''netmask'' \<noteq> None" "unpack_s K net ''cert'' \<noteq> None" "unpack_s K net ''pkey'' \<noteq> None" "unpack_s K net ''tcert'' \<noteq> None"
    unfolding net_def using assms(16-19) D(1)
    by (simp_all add: R(1) [OF D(1)] R(2) O(2) lit u_def)
  have "dispatch_op K sw v = None" for sw
  proof -
    have "streq (cmem ''listall-network'') ''listall-network'' = Some True"
      unfolding streq_def by (simp only: streq_cmem lit simp_thms)
    moreover have "listall_network K sw v = None"
      using n by (auto simp: listall_network_def v or_return_def D(8,9) fetch_def)
    ultimately show ?thesis by (simp add: dispatch_op_def v or_return_def)
  qed
  with out t show ?thesis by blast
qed

definition demo_K :: "cjson jansson" where
  "demo_K = \<lparr>object_get = cj_get, unpack_s = (\<lambda>j k. case cj_get j k of Some (CText s) \<Rightarrow> Some (cmem s) | _ \<Rightarrow> None),
     array_size = (\<lambda>j. case j of CArr vs \<Rightarrow> length vs | _ \<Rightarrow> 0), array_get = (\<lambda>j i. case j of CArr vs \<Rightarrow> fetch vs i | _ \<Rightarrow> None),
     json_text = (\<lambda>_. Some [])\<rparr>"

abbreviation demo_obj :: "cjson \<Rightarrow> bool" where
  "demo_obj j \<equiv> (case j of CObj _ \<Rightarrow> True | _ \<Rightarrow> False)"

abbreviation demo_txt :: "cjson \<Rightarrow> u8 list option" where
  "demo_txt j \<equiv> (case j of CText s \<Rightarrow> Some (cmem s) | _ \<Rightarrow> None)"

lemma demo_same_json: "same_json (cj_lib texts) demo_K demo_obj demo_txt"
proof -
  have get: "cj_get (cj_set j k v) k' = (if k' = k then Some v else cj_get j k')" if j: "demo_obj j" for j k v k'
  proof -
    obtain kvs where j: "j = CObj kvs" using j by (cases j) auto
    have "map_of (filter (\<lambda>p. fst p \<noteq> k) kvs) k' = map_of kvs k'" if "k' \<noteq> k"
      using that by (induction kvs) auto
    then show ?thesis by (simp add: j)
  qed
  have o: "demo_obj (cj_set j k v)" if "demo_obj j" for j k v using that by (cases j) auto
  have u: "(case x of None \<Rightarrow> None | Some (CText s) \<Rightarrow> Some (cmem s) | Some _ \<Rightarrow> None) = Option.bind x demo_txt" for x
    by (cases x) (auto split: cjson.splits)
  show ?thesis
    unfolding same_json_def by (intro conjI allI impI) (simp_all add: cj_lib_def demo_K_def get o u)
qed

definition demo_both :: ctrler where
  "demo_both = demo_ready\<lparr>db := \<lparr>clients = [demo_client], contexts = [], nodes = []\<rparr>, switch_sinfo := Some 1,
     sinfos := [0 \<mapsto> \<lparr>si_cert_name = ''api'', si_type = 2, si_state = 2, si_bev = Some 9\<rparr>,
                1 \<mapsto> \<lparr>si_cert_name = ''netvirt-switch'', si_type = 1, si_state = 2, si_bev = Some 8\<rparr>]\<rparr>"

lemma demo_both_fields [simp]:
  "db demo_both = \<lparr>clients = [demo_client], contexts = [], nodes = []\<rparr>" "switch_sinfo demo_both = Some 1" "pg_calls demo_both = 0"
  "sinfos demo_both 1 = Some \<lparr>si_cert_name = ''netvirt-switch'', si_type = 1, si_state = 2, si_bev = Some 8\<rparr>"
  "answerable (cj_lib texts) demo_both s = (s = 0 \<or> s = 1)" "written demo_both = []"
  by (auto simp: demo_both_def answerable_def cj_lib_def demo_ready_def demo_up_def demo_start_def ctrler_start_def)

theorem new_network_crashes_switch_witness:
  "\<exists>c' v t w. add_network_ctrler demo_pg demo_J demo_pki demo_both 0
      (CObj [(''apikey'', CText ''k''), (''network'', CObj [(''name'', CText ''net'')])]) = Some c'
    \<and> json_dumps demo_J v = Some t \<and> written c' = [(8, t), (8, NL)] @ w \<and> (\<forall>sw. dispatch_op demo_K sw v = None)"
proof -
  let ?m = "CObj [(''apikey'', CText ''k''), (''network'', CObj [(''name'', CText ''net'')])]"
  have cl: "filter (\<lambda>r. cl_apikey r = ''k'' \<and> cl_status r = 1) (clients (db demo_both)) = demo_client # []"
    by (simp add: demo_client_def)
  have up: "answerable demo_J demo_both 0" by simp
  have "\<exists>c' v t w. add_network_ctrler demo_pg demo_J demo_pki demo_both 0 ?m = Some c' \<and> json_dumps demo_J v = Some t
    \<and> written c' = written demo_both @ [(8, t), (8, NL)] @ w \<and> (\<forall>sw. dispatch_op demo_K sw v = None)"
    by (rule new_network_crashes_switch [OF demo_same_json up demo_both_fields(2,4) _ _ _ _ _ _ cl, where js = "CObj [(''name'', CText ''net'')]"
          and b = 8 and de = "''net''" and ec = "''cert''" and ek = "''key''" and sc = "''cert''" and sk = "''key''"])
       (simp_all add: cj_lib_def demo_pg_def demo_pki_def ascii_def)
  then show ?thesis by simp
qed

section \<open>The listing of the networks\<close>

text \<open>The value the controller writes for a row, with the number of rows that are left.\<close>

definition listed :: "'j json_lib \<Rightarrow> nat \<Rightarrow> context_row \<Rightarrow> 'j" where
  "listed J k r = set_text J ''response'' (Some (remaining_text k))
     (json_object_set J (set_text J ''action'' (Some ''listall-network'') (set_text J ''tid'' (Some ''tid'') (json_object J))) ''networks''
       (json_array J [set_text J ''tcert'' (Some (cx_embassy_certificate r)) (set_text J ''pkey'' (Some (cx_passport_privatekey r))
          (set_text J ''cert'' (Some (cx_passport_certificate r)) (set_text J ''netmask'' (Some (cidr_netmask (cx_network r)))
          (set_text J ''network'' (Some (cidr_host (cx_network r))) (set_text J ''uuid'' (Some (cx_uuid r))
          (set_text J ''id'' (Some (cx_id r)) (json_object J)))))))]))"

fun listing :: "'j json_lib \<Rightarrow> context_row list \<Rightarrow> 'j list" where
  "listing J [] = []"
| "listing J (r # rs) = listed J (length rs) r # listing J rs"

text \<open>The switch reads them one after the other.\<close>

fun dispatch_all :: "'j jansson \<Rightarrow> switch \<Rightarrow> 'j list \<Rightarrow> switch option" where
  "dispatch_all K sw [] = Some sw"
| "dispatch_all K sw (v # vs) = do { (_, sw) \<leftarrow> dispatch_op K sw v; dispatch_all K sw vs }"

definition row_texts :: "context_row \<Rightarrow> bool" where
  "row_texts r \<longleftrightarrow> ascii (cx_id r) \<and> ascii (cx_uuid r) \<and> ascii (cidr_host (cx_network r)) \<and> ascii (cidr_netmask (cx_network r))
     \<and> ascii (cx_passport_certificate r) \<and> ascii (cx_passport_privatekey r) \<and> ascii (cx_embassy_certificate r)"

lemma create_adds_uuid:
  assumes "ascii i" "ascii u"
  shows "\<exists>sw'. vnetwork_create sw (cmem i) (cmem u) a m c k t = Some (0, sw') \<and> dom (vnetworks sw') = insert (map of_char u) (dom (vnetworks sw))"
  using assms
  by (auto simp: vnetwork_create_def strdup_ascii cbytes_ascii session_new_def Let_def rb_insert_def split: option.splits)

text \<open>One message.\<close>

lemma listed_dispatch:
  assumes A: "same_json J K obj txt" and r: "row_texts r"
  shows "\<exists>ret sw'. dispatch_op K sw (listed J k r) = Some (ret, sw')
    \<and> dom (vnetworks sw') = insert (map of_char (cx_uuid r)) (dom (vnetworks sw))"
proof -
  note D = same_jsonD [OF A] and R = json_read [OF A] and O = json_obj [OF A]
  have lit: "ascii ''listall-network''" "ascii ''tid''" "ascii ''success''" "ascii (remaining_text k)"
    by (rule ascii_literal, simp add: remaining_text_def)+
  define net where "net = set_text J ''tcert'' (Some (cx_embassy_certificate r)) (set_text J ''pkey'' (Some (cx_passport_privatekey r))
          (set_text J ''cert'' (Some (cx_passport_certificate r)) (set_text J ''netmask'' (Some (cidr_netmask (cx_network r)))
          (set_text J ''network'' (Some (cidr_host (cx_network r))) (set_text J ''uuid'' (Some (cx_uuid r))
          (set_text J ''id'' (Some (cx_id r)) (json_object J)))))))"
  have o: "obj (json_object J)" by (rule D(1))
  define v where "v = listed J k r"
  have v: "unpack_s K v ''action'' = Some (cmem ''listall-network'')" "unpack_s K v ''response'' = Some (cmem (remaining_text k))"
    "object_get K v ''networks'' = Some (json_array J [net])"
    unfolding v_def listed_def net_def by (simp_all add: R(2-5) O o lit)
  have n: "unpack_s K net ''id'' = Some (cmem (cx_id r))" "unpack_s K net ''uuid'' = Some (cmem (cx_uuid r))"
    "unpack_s K net ''network'' \<noteq> None" "unpack_s K net ''netmask'' \<noteq> None" "unpack_s K net ''cert'' \<noteq> None"
    "unpack_s K net ''pkey'' \<noteq> None" "unpack_s K net ''tcert'' \<noteq> None"
    unfolding net_def using r by (simp_all add: R(1) [OF o] R(2) O(2) o row_texts_def)
  obtain a m c q t where f: "unpack_s K net ''network'' = Some a" "unpack_s K net ''netmask'' = Some m" "unpack_s K net ''cert'' = Some c"
    "unpack_s K net ''pkey'' = Some q" "unpack_s K net ''tcert'' = Some t" using n by blast
  obtain sw1 where c: "vnetwork_create sw (cmem (cx_id r)) (cmem (cx_uuid r)) a m c q t = Some (0, sw1)"
    "dom (vnetworks sw1) = insert (map of_char (cx_uuid r)) (dom (vnetworks sw))"
    using create_adds_uuid r by (metis row_texts_def)
  have s: "streq (cmem ''listall-network'') ''listall-network'' = Some True"
    unfolding streq_def by (simp only: streq_cmem lit simp_thms)
  have e: "strneq (cmem (remaining_text k)) (cmem ''success'') 8 = Some (remaining_text k = ''success'')"
    using streq_cmem [OF lit(4,3)] by (simp add: numeral_eq_Suc)
  have "listall_network K sw v = Some (if remaining_text k = ''success'' then 0 else 1, sw1)"
    by (simp add: listall_network_def v D(8,9) n f c(1) e)
  then show ?thesis using c(2) unfolding v_def [symmetric]
    by (auto simp: dispatch_op_def v(1) s query_list_node_def sock_query_def split: option.splits)
qed

lemma listing_dispatch:
  assumes A: "same_json J K obj txt" and r: "\<And>r. r \<in> set rs \<Longrightarrow> row_texts r"
  shows "\<exists>sw'. dispatch_all K sw (listing J rs) = Some sw'
    \<and> dom (vnetworks sw') = dom (vnetworks sw) \<union> (\<lambda>r. map of_char (cx_uuid r)) ` set rs"
  using r
proof (induction rs arbitrary: sw)
  case (Cons r rs)
  obtain ret sw1 where s: "dispatch_op K sw (listed J (length rs) r) = Some (ret, sw1)"
    "dom (vnetworks sw1) = insert (map of_char (cx_uuid r)) (dom (vnetworks sw))"
    using listed_dispatch [OF A] Cons.prems by (meson list.set_intros(1))
  obtain sw2 where "dispatch_all K sw1 (listing J rs) = Some sw2"
    "dom (vnetworks sw2) = dom (vnetworks sw1) \<union> (\<lambda>r. map of_char (cx_uuid r)) ` set rs"
    using Cons.IH Cons.prems by (meson list.set_intros(2))
  with s show ?case by simp
qed simp

lemma listing_written:
  assumes s: "sinfos c s = Some x" "si_bev x = Some b" and d: "\<And>v. json_dumps J v \<noteq> None"
  shows "\<exists>ts. fetch_loop (CB_listall_network J s) c (map (\<lambda>r. [cx_id r, cx_uuid r, cx_description r, cx_client_id r,
        cidr_host (cx_network r), cidr_netmask (cx_network r), cx_passport_certificate r, cx_passport_privatekey r,
        cx_embassy_certificate r]) rs) = Some (0, c\<lparr>written := written c @ concat (map (\<lambda>t. [(b, t), (b, NL)]) ts)\<rparr>)
    \<and> map (json_dumps J) (listing J rs) = map Some ts"
  using s(1)
proof (induction rs arbitrary: c)
  case (Cons r rs)
  obtain t where t: "json_dumps J (listed J (length rs) r) = Some t" using d by blast
  define c1 where "c1 = bev_write (bev_write c b t) b NL"
  have "sinfos c1 s = Some x" using Cons.prems by (simp add: c1_def bev_write_def)
  from Cons.IH [OF this] obtain ts where ts: "fetch_loop (CB_listall_network J s) c1 (map (\<lambda>r. [cx_id r, cx_uuid r, cx_description r,
        cx_client_id r, cidr_host (cx_network r), cidr_netmask (cx_network r), cx_passport_certificate r, cx_passport_privatekey r,
        cx_embassy_certificate r]) rs) = Some (0, c1\<lparr>written := written c1 @ concat (map (\<lambda>t. [(b, t), (b, NL)]) ts)\<rparr>)"
    "map (json_dumps J) (listing J rs) = map Some ts" by blast
  have "CB_listall_network J s c (length rs) [cx_id r, cx_uuid r, cx_description r, cx_client_id r, cidr_host (cx_network r),
      cidr_netmask (cx_network r), cx_passport_certificate r, cx_passport_privatekey r, cx_embassy_certificate r] = Some (0, c1)"
    using t Cons.prems s(2) by (simp add: CB_listall_network_def listed_def c1_def Let_def)
  with ts t show ?case
    by (intro exI [of _ "t # ts"]) (simp add: c1_def bev_write_def)
qed (auto intro!: exI [of _ "[]"])

text \<open>C14. A switch that asks for the networks is sent every network of the database, one message per
  network, and after reading them holds exactly these networks beside those it had.\<close>

theorem listing_builds_switch:
  assumes "same_json J K obj txt" and "outcome S (pg_calls c) = Runs"
    and "sinfos c s = Some x" "si_bev x = Some b" "\<And>v. json_dumps J v \<noteq> None"
    and "\<And>r. r \<in> set (contexts (db c)) \<Longrightarrow> row_texts r"
  shows "\<exists>c' ts sw'. listall_network_ctrler S J c s = Some c'
    \<and> map (json_dumps J) (listing J (contexts (db c))) = map Some ts
    \<and> written c' = written c @ concat (map (\<lambda>t. [(b, t), (b, NL)]) ts)
    \<and> dispatch_all K sw (listing J (contexts (db c))) = Some sw'
    \<and> dom (vnetworks sw') = dom (vnetworks sw) \<union> (\<lambda>r. map of_char (cx_uuid r)) ` set (contexts (db c))"
proof -
  define c1 where "c1 = c\<lparr>pg_calls := Suc (pg_calls c)\<rparr>"
  have "sinfos c1 s = Some x" using assms(3) by (simp add: c1_def)
  from listing_written [OF this assms(4,5), where rs = "contexts (db c)"] obtain ts where
    ts: "fetch_loop (CB_listall_network J s) c1 (map (\<lambda>r. [cx_id r, cx_uuid r, cx_description r, cx_client_id r,
        cidr_host (cx_network r), cidr_netmask (cx_network r), cx_passport_certificate r, cx_passport_privatekey r,
        cx_embassy_certificate r]) (contexts (db c))) = Some (0, c1\<lparr>written := written c1 @ concat (map (\<lambda>t. [(b, t), (b, NL)]) ts)\<rparr>)"
    "map (json_dumps J) (listing J (contexts (db c))) = map Some ts" by blast
  have ex: "PQexec S c sql_dao_fetch_context = (Some (fst (sql_dao_fetch_context S (pg_calls c) (db c))), c1)"
    using assms(2) by (simp add: PQexec_def Let_def sql_dao_fetch_context_def c1_def)
  have "listall_network_ctrler S J c s = Some (c1\<lparr>written := written c1 @ concat (map (\<lambda>t. [(b, t), (b, NL)]) ts)\<rparr>)"
  proof (cases "contexts (db c) = []")
    case True
    with ts ex show ?thesis
      by (simp add: listall_network_ctrler_def dao_fetch_context_def check_result_status_def sql_dao_fetch_context_def)
  next
    case False
    with ts(1) ex show ?thesis
      by (simp add: listall_network_ctrler_def dao_fetch_context_def check_result_status_def sql_dao_fetch_context_def rows_of_def Let_def)
  qed
  moreover obtain sw' where "dispatch_all K sw (listing J (contexts (db c))) = Some sw'"
    "dom (vnetworks sw') = dom (vnetworks sw) \<union> (\<lambda>r. map of_char (cx_uuid r)) ` set (contexts (db c))"
    using listing_dispatch [OF assms(1), of "contexts (db c)" sw] assms(6) by blast
  ultimately show ?thesis using ts(2) by (auto simp: c1_def)
qed

lemma demo_row_texts: "row_texts demo_context"
proof -
  have "cidr_host ''44.128.0.0/16'' = ''44.128.0.0''" by (simp add: cidr_host_def)
  moreover have "cidr_netmask ''44.128.0.0/16'' = ''255.255.0.0''" by code_simp
  ultimately show ?thesis
    by (simp add: row_texts_def demo_context_def network_entry_def ascii_def)
qed

theorem listing_builds_switch_witness:
  "\<exists>c' sw'. listall_network_ctrler demo_pg demo_J (demo_both\<lparr>db := \<lparr>clients = [], contexts = [demo_context], nodes = []\<rparr>\<rparr>) 1 = Some c'
    \<and> dispatch_all demo_K (switch_start (\<lambda>_. 0)) (listing demo_J [demo_context]) = Some sw'
    \<and> dom (vnetworks sw') = {[110]}"
proof -
  let ?c = "demo_both\<lparr>db := \<lparr>clients = [], contexts = [demo_context], nodes = []\<rparr>\<rparr>"
  have "\<exists>c' ts sw'. listall_network_ctrler demo_pg demo_J ?c 1 = Some c'
    \<and> map (json_dumps demo_J) (listing demo_J (contexts (db ?c))) = map Some ts
    \<and> written c' = written ?c @ concat (map (\<lambda>t. [(8, t), (8, NL)]) ts)
    \<and> dispatch_all demo_K (switch_start (\<lambda>_. 0)) (listing demo_J (contexts (db ?c))) = Some sw'
    \<and> dom (vnetworks sw') = dom (vnetworks (switch_start (\<lambda>_. 0))) \<union> (\<lambda>r. map of_char (cx_uuid r)) ` set (contexts (db ?c))"
  proof (rule listing_builds_switch [OF demo_same_json])
    show "sinfos ?c 1 = Some \<lparr>si_cert_name = ''netvirt-switch'', si_type = 1, si_state = 2, si_bev = Some 8\<rparr>"
      using demo_both_fields(4) by simp
  qed (simp_all add: demo_pg_def cj_lib_def demo_row_texts)
  then show ?thesis by (auto simp: switch_start_def)
qed

end
