(* ===== verification/Krypt.thy ===== *)
theory Krypt
  imports Prelude
begin

text \<open>
  \<open>libnvcore/src/crypto.c\<close>: the state of a TLS connection that is fed from memory.  OpenSSL is a
  record of functions over the state of its object and of the pair of buffers behind it; the
  set-up of its context, of ciphers and of certificates is not modelled.
\<close>

section \<open>OpenSSL\<close>

datatype ssl_error = SSL_ERROR_WANT_READ | SSL_ERROR_WANT_WRITE | SSL_ERROR_OTHER

record 'k openssl =
  BIO_write :: "'k \<Rightarrow> u8 list \<Rightarrow> int \<times> 'k"
  BIO_read :: "'k \<Rightarrow> nat \<Rightarrow> int \<times> u8 list \<times> 'k"
  BIO_ctrl_pending :: "'k \<Rightarrow> nat"
  SSL_do_handshake :: "'k \<Rightarrow> int \<times> 'k"
  SSL_is_init_finished :: "'k \<Rightarrow> bool"
  SSL_read :: "'k \<Rightarrow> nat \<Rightarrow> int \<times> u8 list \<times> 'k"
  SSL_write :: "'k \<Rightarrow> u8 list \<Rightarrow> int \<times> 'k"
  SSL_get_error :: "'k \<Rightarrow> int \<Rightarrow> ssl_error"
  SSL_peek :: "'k \<Rightarrow> int"
  SSL_renegotiate :: "'k \<Rightarrow> 'k"
  SSL_accept_again :: "'k \<Rightarrow> 'k"

section \<open>The code\<close>

abbreviation (input) KRYPT_CLIENT :: u8 where "KRYPT_CLIENT \<equiv> 1"
abbreviation (input) KRYPT_SERVER :: u8 where "KRYPT_SERVER \<equiv> 2"
abbreviation (input) KRYPT_NOINIT :: u8 where "KRYPT_NOINIT \<equiv> 1"
abbreviation (input) KRYPT_HANDSHAKE :: u8 where "KRYPT_HANDSHAKE \<equiv> 2"
abbreviation (input) KRYPT_SECURE :: u8 where "KRYPT_SECURE \<equiv> 4"
abbreviation (input) KRYPT_FAIL :: u8 where "KRYPT_FAIL \<equiv> 8"

text \<open>\<open>buf_encrypt\<close> and \<open>buf_decrypt\<close> are what was last put into the buffers of a million bytes, and
  the sizes are what the code believes of them: \<open>-1\<close>, the result of a failed read, becomes a size.\<close>

record 'k krypt =
  ssl :: 'k
  krypt_status :: u8
  krypt_conn_type :: u8
  buf_decrypt :: "u8 list"
  buf_decrypt_data_size :: u64
  buf_encrypt :: "u8 list"
  buf_encrypt_data_size :: u64

abbreviation (input) KRYPT_BUF :: nat where "KRYPT_BUF \<equiv> 1000000"

text \<open>\<open>BIO_read(network_bio, buf_encrypt, buf_encrypt_size)\<close>.\<close>

definition bio_read_encrypt :: "'k openssl \<Rightarrow> 'k krypt \<Rightarrow> int \<times> 'k krypt" where
  "bio_read_encrypt L k =
     (case BIO_read L (ssl k) KRYPT_BUF of
        (nbyte, bytes, s) \<Rightarrow> (nbyte, k\<lparr>ssl := s, buf_encrypt := (if 0 < nbyte then bytes else buf_encrypt k)\<rparr>))"

definition krypt_set_renegotiate :: "'k openssl \<Rightarrow> 'k krypt \<Rightarrow> 'k krypt" where
  "krypt_set_renegotiate L k =
     (if krypt_conn_type k = KRYPT_SERVER
      then k\<lparr>krypt_status := KRYPT_HANDSHAKE, ssl := SSL_accept_again L (ssl k)\<rparr> else k)"

definition krypt_do_handshake :: "'k openssl \<Rightarrow> 'k krypt \<Rightarrow> u8 list option \<Rightarrow> int \<Rightarrow> int \<times> 'k krypt" where
  "krypt_do_handshake L k buf buf_data_size =
     (let k = (case buf of
                 Some b \<Rightarrow> if buf_data_size \<noteq> 0 then k\<lparr>ssl := snd (BIO_write L (ssl k) (take (nat buf_data_size) b))\<rparr> else k
               | None \<Rightarrow> k);
          (ret, s) = SSL_do_handshake L (ssl k);
          k = k\<lparr>ssl := s\<rparr>;
          (status, k) =
            (if 0 < ret then
               (if \<not> SSL_is_init_finished L (ssl k) then (1, k) else (0, k\<lparr>krypt_status := KRYPT_SECURE\<rparr>))
             else if ret = 0 then (- 1, k\<lparr>krypt_status := KRYPT_FAIL\<rparr>)
             else (1, k)) in
      if 0 < BIO_ctrl_pending L (ssl k)
      then (case bio_read_encrypt L k of (nbyte, k) \<Rightarrow> (status, k\<lparr>buf_encrypt_data_size := word_of_int nbyte\<rparr>))
      else (status, k))"

definition krypt_push_encrypted_data :: "'k openssl \<Rightarrow> 'k krypt \<Rightarrow> u8 list \<Rightarrow> int \<times> 'k krypt" where
  "krypt_push_encrypted_data L k buf = (case BIO_write L (ssl k) buf of (nbyte, s) \<Rightarrow> (nbyte, k\<lparr>ssl := s\<rparr>))"

definition krypt_decrypt_buf :: "'k openssl \<Rightarrow> 'k krypt \<Rightarrow> int \<times> 'k krypt" where
  "krypt_decrypt_buf L k =
     (case SSL_read L (ssl k) KRYPT_BUF of
        (nbyte, bytes, s) \<Rightarrow>
          let k = k\<lparr>ssl := s\<rparr> in
          if nbyte \<le> 0 then
            let k = k\<lparr>buf_decrypt_data_size := 0\<rparr> in
            (case SSL_get_error L (ssl k) nbyte of
               SSL_ERROR_WANT_READ \<Rightarrow>
                 (case bio_read_encrypt L k of (nbyte, k) \<Rightarrow> (- 1, k\<lparr>buf_encrypt_data_size := word_of_int nbyte\<rparr>))
             | _ \<Rightarrow> (- 1, k))
          else (0, k\<lparr>buf_decrypt := bytes, buf_decrypt_data_size := word_of_int nbyte\<rparr>))"

text \<open>A fatal error of \<open>SSL_write\<close> and a full buffer are both \<open>-1\<close>; the first leaves what
  \<open>buf_encrypt\<close> held.\<close>

definition krypt_encrypt_buf :: "'k openssl \<Rightarrow> 'k krypt \<Rightarrow> u8 list \<Rightarrow> int \<times> 'k krypt" where
  "krypt_encrypt_buf L k buf =
     (let (res, k) =
        (if buf \<noteq> [] then
           (case SSL_write L (ssl k) buf of
              (nbyte, s) \<Rightarrow>
                let k = k\<lparr>ssl := s\<rparr> in
                if nbyte \<le> 0 then
                  (case SSL_get_error L (ssl k) nbyte of
                     SSL_ERROR_WANT_READ \<Rightarrow> (Some 0, k)
                   | SSL_ERROR_WANT_WRITE \<Rightarrow> (Some (- 1), k)
                   | SSL_ERROR_OTHER \<Rightarrow> (None, k))
                else (Some 0, k))
         else (Some 0, k)) in
      case res of
        None \<Rightarrow> (- 1, k)
      | Some status \<Rightarrow>
          (case bio_read_encrypt L k of
             (nbyte, k) \<Rightarrow>
               let k = k\<lparr>buf_encrypt_data_size := (if 0 < nbyte then word_of_int nbyte else 0)\<rparr> in
               if status \<noteq> - 1 \<and> 0 < BIO_ctrl_pending L (ssl k) then (- 2, k) else (status, k)))"

end
