(* ===== verification/Netbus.thy ===== *)
theory Netbus
  imports Krypt
begin

text \<open>
  \<open>libnvcore/src/netbus.c\<close>: what a connection does with the bytes that come and the messages that
  go.  The BER decoder and encoder are arguments, the transport is a function that tells what the
  \<open>n\<close>-th call of \<open>peer->send\<close> returns, and the calls of the upper layer and of the transport are
  recorded in order.
\<close>

section \<open>State\<close>

text \<open>What one call of \<open>ber_decode\<close> makes of the structure decoded so far and of the bytes: a
  message, the structure to go on with, or a failure, each with the number of bytes consumed.\<close>

datatype ('p, 'm) ber_result = RC_OK 'm nat | RC_WMORE "'p option" nat | RC_FAIL "'p option" nat

type_synonym ('p, 'm) decoder = "'p option \<Rightarrow> u8 list \<Rightarrow> ('p, 'm) ber_result"

datatype net_call = On_secure | On_input | On_disconnect | Peer_disconnect | Peer_send "u8 list" | Netc_free

abbreviation (input) NET_UNSECURE :: u8 where "NET_UNSECURE \<equiv> 1"
abbreviation (input) NET_BUF :: nat where "NET_BUF \<equiv> 1000000"

text \<open>Memory that has been allocated and not written is \<open>None\<close>.  \<open>nb_buf_enc\<close> is what
  \<open>buf_enc_data_size\<close> says is in the buffer.\<close>

record ('k, 'p, 'm) net_buf =
  nb_msg_dec :: "'p option"
  nb_buf_in :: "u8 option list"
  nb_buf_in_offset :: nat
  nb_buf_in_data_size :: nat
  nb_buf_enc :: "u8 list"
  nb_queue_msg :: "'m list"
  nb_queue_out :: "u8 list list"
  nb_kconn :: "'k krypt option"
  nb_security_level :: u8
  nb_sends :: nat
  nb_calls :: "net_call list"

definition net_connection_new :: "u8 \<Rightarrow> 'k krypt \<Rightarrow> ('k, 'p, 'm) net_buf" where
  "net_connection_new level k =
     \<lparr>nb_msg_dec = None, nb_buf_in = replicate NET_BUF None, nb_buf_in_offset = 0, nb_buf_in_data_size = 0,
      nb_buf_enc = [], nb_queue_msg = [], nb_queue_out = [], nb_kconn = (if NET_UNSECURE < level then Some k else None),
      nb_security_level = level, nb_sends = 0, nb_calls = []\<rparr>"

definition note_call :: "net_call \<Rightarrow> ('k, 'p, 'm) net_buf \<Rightarrow> ('k, 'p, 'm) net_buf" where
  "note_call e nb = nb\<lparr>nb_calls := nb_calls nb @ [e]\<rparr>"

section \<open>Input\<close>

text \<open>A buffer that has grown too small is doubled; the bytes go to \<open>buf_in + buf_in_data_size\<close>.\<close>

definition serialize_buf_in :: "('k, 'p, 'm) net_buf \<Rightarrow> u8 list \<Rightarrow> ('k, 'p, 'm) net_buf" where
  "serialize_buf_in nb buf =
     (let n = nb_buf_in_data_size nb; size = length (nb_buf_in nb);
          mem = (if size < n + length buf
                 then nb_buf_in nb @ replicate ((size + length buf) * 2 - size) None else nb_buf_in nb) in
      nb\<lparr>nb_buf_in := take n mem @ map Some buf @ drop (n + length buf) mem, nb_buf_in_data_size := n + length buf\<rparr>)"

text \<open>Reading memory that has not been written is a fault.\<close>

definition load_bytes :: "u8 option list \<Rightarrow> nat \<Rightarrow> nat \<Rightarrow> u8 list option" where
  "load_bytes mem off n = (if length mem < off + n then None else those (take n (drop off mem)))"

definition consume :: "nat \<Rightarrow> ('k, 'p, 'm) net_buf \<Rightarrow> ('k, 'p, 'm) net_buf" where
  "consume n nb =
     (let nb = nb\<lparr>nb_buf_in_data_size := nb_buf_in_data_size nb - n\<rparr> in
      nb\<lparr>nb_buf_in_offset := (if nb_buf_in_data_size nb = 0 then 0 else nb_buf_in_offset nb + n)\<rparr>)"

partial_function (option) decode_loop ::
  "('p, 'm) decoder \<Rightarrow> ('k, 'p, 'm) net_buf \<Rightarrow> (int \<times> ('k, 'p, 'm) net_buf) option" where
  "decode_loop dec nb = do {
     bytes \<leftarrow> load_bytes (nb_buf_in nb) (nb_buf_in_offset nb) (nb_buf_in_data_size nb);
     case dec (nb_msg_dec nb) bytes of
       RC_WMORE p n \<Rightarrow> Some (0, consume n (nb\<lparr>nb_msg_dec := p\<rparr>))
     | RC_FAIL p n \<Rightarrow> Some (- 1, nb\<lparr>nb_msg_dec := p, nb_buf_in_data_size := 0, nb_buf_in_offset := 0\<rparr>)
     | RC_OK m n \<Rightarrow>
         let nb = consume n (nb\<lparr>nb_queue_msg := nb_queue_msg nb @ [m], nb_msg_dec := None\<rparr>) in
         if nb_buf_in_data_size nb \<noteq> 0 then decode_loop dec nb else Some (0, nb) }"

definition net_decode_msg ::
  "('p, 'm) decoder \<Rightarrow> ('k, 'p, 'm) net_buf \<Rightarrow> (int \<times> ('k, 'p, 'm) net_buf) option" where
  "net_decode_msg dec nb = (if nb_buf_in_data_size nb = 0 then Some (0, nb) else decode_loop dec nb)"

section \<open>Output\<close>

definition peer_send :: "(nat \<Rightarrow> int) \<Rightarrow> ('k, 'p, 'm) net_buf \<Rightarrow> u8 list \<Rightarrow> int \<times> ('k, 'p, 'm) net_buf" where
  "peer_send T nb bytes = (T (nb_sends nb), note_call (Peer_send bytes) (nb\<lparr>nb_sends := Suc (nb_sends nb)\<rparr>))"

text \<open>The size is handed on as an \<open>int\<close>; one that is not positive sends nothing.\<close>

definition net_do_krypt :: "(nat \<Rightarrow> int) \<Rightarrow> ('k, 'p, 'm) net_buf \<Rightarrow> ('k, 'p, 'm) net_buf option" where
  "net_do_krypt T nb = do {
     k \<leftarrow> nb_kconn nb;
     if buf_encrypt_data_size k = 0 then Some nb
     else
       let len = sint (ucast (buf_encrypt_data_size k) :: u32) in
       if int (length (buf_encrypt k)) < len then None
       else (case peer_send T nb (take (nat len) (buf_encrypt k)) of
               (nbyte, nb) \<Rightarrow> Some (if 0 \<le> nbyte then nb\<lparr>nb_kconn := Some (k\<lparr>buf_encrypt_data_size := 0\<rparr>)\<rparr> else nb)) }"

fun flush_loop :: "(nat \<Rightarrow> int) \<Rightarrow> int \<Rightarrow> ('k, 'p, 'm) net_buf \<Rightarrow> u8 list list \<Rightarrow> int \<times> ('k, 'p, 'm) net_buf" where
  "flush_loop T nbyte nb [] = (nbyte, nb)"
| "flush_loop T nbyte nb (b # bs) =
     (case peer_send T nb b of (nbyte, nb) \<Rightarrow> if nbyte = - 1 then (nbyte, nb) else flush_loop T nbyte nb bs)"

definition net_flush_queue_out :: "(nat \<Rightarrow> int) \<Rightarrow> ('k, 'p, 'm) net_buf \<Rightarrow> int \<times> ('k, 'p, 'm) net_buf" where
  "net_flush_queue_out T nb =
     (case flush_loop T 0 nb (nb_queue_out nb) of (nbyte, nb) \<Rightarrow> (nbyte, nb\<lparr>nb_queue_out := []\<rparr>))"

definition net_queue_out :: "('k, 'p, 'm) net_buf \<Rightarrow> u8 list \<Rightarrow> ('k, 'p, 'm) net_buf" where
  "net_queue_out nb buf = nb\<lparr>nb_queue_out := nb_queue_out nb @ [buf]\<rparr>"

partial_function (option) encrypt_loop ::
  "'k openssl \<Rightarrow> ('k, 'p, 'm) net_buf \<Rightarrow> 'k krypt \<Rightarrow> ('k, 'p, 'm) net_buf option" where
  "encrypt_loop L nb k =
     (case krypt_encrypt_buf L k (nb_buf_enc nb) of
        (ret, k) \<Rightarrow>
          if length (buf_encrypt k) < unat (buf_encrypt_data_size k) then None
          else
            let nb = net_queue_out nb (take (unat (buf_encrypt_data_size k)) (buf_encrypt k));
                k = k\<lparr>buf_encrypt_data_size := 0\<rparr>;
                nb = (if ret = - 2 then nb\<lparr>nb_buf_enc := []\<rparr> else nb) in
            if ret < 0 then encrypt_loop L nb k else Some (nb\<lparr>nb_kconn := Some k\<rparr>))"

text \<open>A message that can not be sent yet has been encoded into the buffer, and stays there.\<close>

definition net_send_msg_bus ::
  "'k openssl \<Rightarrow> (nat \<Rightarrow> int) \<Rightarrow> ('m \<Rightarrow> u8 list option) \<Rightarrow> ('k, 'p, 'm) net_buf \<Rightarrow> 'm
   \<Rightarrow> (int \<times> ('k, 'p, 'm) net_buf) option" where
  "net_send_msg_bus L T enc nb msg =
     (case enc msg of
        None \<Rightarrow> Some (- 1, nb\<lparr>nb_buf_enc := []\<rparr>)
      | Some bytes \<Rightarrow>
          let nb = nb\<lparr>nb_buf_enc := nb_buf_enc nb @ bytes\<rparr> in
          if NET_UNSECURE < nb_security_level nb then do {
            k \<leftarrow> nb_kconn nb;
            if krypt_status k \<noteq> KRYPT_SECURE then Some (- 1, nb)
            else do {
              nb \<leftarrow> encrypt_loop L nb k;
              Some (net_flush_queue_out T (nb\<lparr>nb_buf_enc := []\<rparr>)) } }
          else Some (net_flush_queue_out T ((net_queue_out nb (nb_buf_enc nb))\<lparr>nb_buf_enc := []\<rparr>)))"

section \<open>Events of the transport\<close>

text \<open>Feeding the TLS object as long as it decrypts and there is more: \<open>buf\<close> is what is left of the
  bytes of the peer.\<close>

partial_function (option) decrypt_loop ::
  "'k openssl \<Rightarrow> (nat \<Rightarrow> int) \<Rightarrow> ('k, 'p, 'm) net_buf \<Rightarrow> u8 list \<Rightarrow> ('k, 'p, 'm) net_buf option" where
  "decrypt_loop L T nb buf = do {
     k \<leftarrow> nb_kconn nb;
     let (nbyte, k) = krypt_push_encrypted_data L k buf;
     let buf = (if 0 < nbyte \<and> nbyte < int (length buf) then drop (nat nbyte) buf else []);
     let (ret, k) = krypt_decrypt_buf L k;
     let nb = nb\<lparr>nb_kconn := Some k\<rparr>;
     (state_p, nb) \<leftarrow>
       (if ret = 0 then
          if length (buf_decrypt k) < unat (buf_decrypt_data_size k) then None
          else
            Some (SSL_peek L (ssl k),
              (serialize_buf_in nb (take (unat (buf_decrypt_data_size k)) (buf_decrypt k)))
                \<lparr>nb_kconn := Some (k\<lparr>buf_decrypt_data_size := 0\<rparr>)\<rparr>)
        else Some (0, nb));
     nb \<leftarrow> net_do_krypt T nb;
     if ret = 0 \<and> (state_p = 1 \<or> buf \<noteq> []) then decrypt_loop L T nb buf else Some nb }"

text \<open>The connection is reported as gone, its socket is closed, and it is released.\<close>

definition drop_connection :: "('k, 'p, 'm) net_buf \<Rightarrow> ('k, 'p, 'm) net_buf" where
  "drop_connection nb = note_call Netc_free (note_call Peer_disconnect (note_call On_disconnect nb))"

definition secure_level :: "('k, 'p, 'm) net_buf \<Rightarrow> u8 \<Rightarrow> bool" where
  "secure_level nb status \<longleftrightarrow> NET_UNSECURE < nb_security_level nb \<and> map_option krypt_status (nb_kconn nb) = Some status"

text \<open>What follows the handshake: the bytes are decrypted or taken as they are, and decoded.\<close>

definition net_on_data ::
  "'k openssl \<Rightarrow> (nat \<Rightarrow> int) \<Rightarrow> ('p, 'm) decoder \<Rightarrow> ('k, 'p, 'm) net_buf \<Rightarrow> u8 list \<Rightarrow> ('k, 'p, 'm) net_buf option" where
  "net_on_data L T dec nb buf = do {
     nb \<leftarrow> (if secure_level nb KRYPT_SECURE then decrypt_loop L T nb buf
           else if nb_security_level nb = NET_UNSECURE then Some (serialize_buf_in nb buf)
           else Some nb);
     (ret, nb) \<leftarrow> net_decode_msg dec nb;
     if ret = - 1 then Some (drop_connection nb)
     else if secure_level nb KRYPT_SECURE then do {
       k \<leftarrow> nb_kconn nb;
       let (_, k) = krypt_decrypt_buf L k;
       nb \<leftarrow> net_do_krypt T (nb\<lparr>nb_kconn := Some k\<rparr>);
       Some (if nb_queue_msg nb \<noteq> [] then note_call On_input nb else nb) }
     else Some nb }"

text \<open>\<open>buf\<close> is what \<open>peer->recv\<close> got.\<close>

definition net_on_input ::
  "'k openssl \<Rightarrow> (nat \<Rightarrow> int) \<Rightarrow> ('p, 'm) decoder \<Rightarrow> ('k, 'p, 'm) net_buf \<Rightarrow> u8 list \<Rightarrow> ('k, 'p, 'm) net_buf option" where
  "net_on_input L T dec nb buf =
     (if secure_level nb KRYPT_HANDSHAKE then do {
        k \<leftarrow> nb_kconn nb;
        let (ret, k) = krypt_do_handshake L k (Some buf) (int (length buf));
        nb \<leftarrow> net_do_krypt T (nb\<lparr>nb_kconn := Some k\<rparr>);
        if ret = 0 then
          let nb = note_call On_secure nb in
          if SSL_peek L (ssl k) = 1 then net_on_data L T dec nb [] else Some nb
        else if ret = - 1 then Some (drop_connection nb)
        else net_on_data L T dec nb [] }
      else net_on_data L T dec nb buf)"

definition net_step_up :: "'k openssl \<Rightarrow> (nat \<Rightarrow> int) \<Rightarrow> bool \<Rightarrow> ('k, 'p, 'm) net_buf \<Rightarrow> ('k, 'p, 'm) net_buf option" where
  "net_step_up L T server nb =
     (if server then do {
        k \<leftarrow> nb_kconn nb;
        let k = k\<lparr>ssl := SSL_renegotiate L (ssl k)\<rparr>;
        let (_, k) = krypt_do_handshake L k None 0;
        nb \<leftarrow> net_do_krypt T (nb\<lparr>nb_kconn := Some k\<rparr>);
        k \<leftarrow> nb_kconn nb;
        Some (nb\<lparr>nb_kconn := Some (krypt_set_renegotiate L k)\<rparr>) }
      else Some nb)"

end
