(* ===== verification/Netbus_Props.thy ===== *)
theory Netbus_Props
  imports Netbus
begin

text \<open>
  What the network layer does for its users: messages that arrive whole are delivered in order, and
  three things that go wrong with it.
\<close>

section \<open>Memory\<close>

lemma those_Some [simp]: "those (map Some xs) = Some xs"
  by (induction xs) auto

lemma those_None: "None \<in> set xs \<Longrightarrow> those xs = None"
  by (induction xs) (auto split: option.splits)

text \<open>A connection between two messages.\<close>

definition idle :: "('k, 'p, 'm) net_buf \<Rightarrow> bool" where
  "idle nb \<longleftrightarrow> nb_msg_dec nb = None \<and> nb_buf_in_offset nb = 0 \<and> nb_buf_in_data_size nb = 0"

text \<open>The bytes from the offset on are these.\<close>

definition pending :: "('k, 'p, 'm) net_buf \<Rightarrow> u8 list \<Rightarrow> bool" where
  "pending nb bytes \<longleftrightarrow> nb_buf_in_data_size nb = length bytes
     \<and> (\<exists>pre post. nb_buf_in nb = pre @ map Some bytes @ post \<and> length pre = nb_buf_in_offset nb)"

lemma pending_load: "pending nb bytes \<Longrightarrow> load_bytes (nb_buf_in nb) (nb_buf_in_offset nb) (nb_buf_in_data_size nb) = Some bytes"
  by (auto simp: pending_def load_bytes_def)

lemma pending_serialize: "idle nb \<Longrightarrow> pending (serialize_buf_in nb bytes) bytes"
  by (auto simp: pending_def idle_def serialize_buf_in_def Let_def)

lemma serialize_fields [simp]:
  "nb_msg_dec (serialize_buf_in nb b) = nb_msg_dec nb" "nb_queue_msg (serialize_buf_in nb b) = nb_queue_msg nb"
  "nb_buf_in_offset (serialize_buf_in nb b) = nb_buf_in_offset nb"
  "nb_buf_in_data_size (serialize_buf_in nb b) = nb_buf_in_data_size nb + length b"
  by (simp_all add: serialize_buf_in_def Let_def)

section \<open>Messages that arrive whole\<close>

text \<open>The decoder recognises the encoding of a message at the start of the bytes.\<close>

definition codec :: "('m \<Rightarrow> u8 list) \<Rightarrow> ('p, 'm) decoder \<Rightarrow> bool" where
  "codec enc dec \<longleftrightarrow> (\<forall>m rest. dec None (enc m @ rest) = RC_OK m (length (enc m))) \<and> (\<forall>m. enc m \<noteq> [])"

lemma decode_loop_whole:
  assumes c: "codec enc dec"
  shows "pending nb (concat (map enc ms)) \<Longrightarrow> nb_msg_dec nb = None \<Longrightarrow> ms \<noteq> [] \<Longrightarrow>
    \<exists>nb'. decode_loop dec nb = Some (0, nb') \<and> nb_queue_msg nb' = nb_queue_msg nb @ ms \<and> idle nb'"
proof (induction ms arbitrary: nb)
  case (Cons m ms)
  let ?rest = "concat (map enc ms)"
  define nb1 where "nb1 = consume (length (enc m)) (nb\<lparr>nb_queue_msg := nb_queue_msg nb @ [m], nb_msg_dec := None\<rparr>)"
  have d: "dec (nb_msg_dec nb) (enc m @ ?rest) = RC_OK m (length (enc m))" using c Cons.prems(2) by (simp add: codec_def)
  have step: "decode_loop dec nb = (if nb_buf_in_data_size nb1 \<noteq> 0 then decode_loop dec nb1 else Some (0, nb1))"
    using pending_load [OF Cons.prems(1)] d by (subst decode_loop.simps) (simp add: nb1_def Let_def)
  have f: "nb_queue_msg nb1 = nb_queue_msg nb @ [m]" "nb_msg_dec nb1 = None" "nb_buf_in_data_size nb1 = length ?rest"
    using Cons.prems(1) by (auto simp: nb1_def consume_def Let_def pending_def)
  show ?case
  proof (cases "ms = []")
    case True
    with f have "idle nb1" by (auto simp: idle_def nb1_def consume_def Let_def)
    with True f step show ?thesis by simp
  next
    case False
    then have ne: "?rest \<noteq> []" using c by (cases ms) (auto simp: codec_def)
    obtain pre post where p: "nb_buf_in nb = pre @ map Some (enc m @ ?rest) @ post" "length pre = nb_buf_in_offset nb"
      using Cons.prems(1) by (auto simp: pending_def)
    have off: "nb_buf_in_offset nb1 = nb_buf_in_offset nb + length (enc m)"
    proof -
      have "\<not> nb_buf_in_data_size nb \<le> length (enc m)" using Cons.prems(1) ne by (auto simp: pending_def)
      then show ?thesis by (simp add: nb1_def consume_def Let_def)
    qed
    have "nb_buf_in nb1 = nb_buf_in nb" by (simp add: nb1_def consume_def Let_def)
    then have "nb_buf_in nb1 = (pre @ map Some (enc m)) @ map Some ?rest @ post" "length (pre @ map Some (enc m)) = nb_buf_in_offset nb1"
      using p off by simp_all
    then have "pending nb1 ?rest" using f(3) unfolding pending_def by blast
    from Cons.IH [OF this f(2) False] f(1,3) ne step show ?thesis by auto
  qed
qed simp

lemma decode_whole:
  assumes "codec enc dec" and "idle nb"
  shows "\<exists>nb'. net_decode_msg dec (serialize_buf_in nb (concat (map enc ms))) = Some (0, nb')
    \<and> nb_queue_msg nb' = nb_queue_msg nb @ ms \<and> idle nb'"
proof (cases "ms = []")
  case True
  have "idle (serialize_buf_in nb [])" using assms(2) by (simp add: idle_def)
  with True assms(2) show ?thesis
    by (intro exI [of _ "serialize_buf_in nb []"]) (simp add: net_decode_msg_def idle_def)
next
  case False
  then have "concat (map enc ms) \<noteq> []" using assms(1) by (cases ms) (auto simp: codec_def)
  then have nz: "nb_buf_in_data_size (serialize_buf_in nb (concat (map enc ms))) \<noteq> 0"
    unfolding serialize_fields by (metis add_is_0 length_0_conv)
  have "net_decode_msg dec (serialize_buf_in nb (concat (map enc ms))) = decode_loop dec (serialize_buf_in nb (concat (map enc ms)))"
    by (simp only: net_decode_msg_def nz if_False)
  moreover have "nb_msg_dec (serialize_buf_in nb (concat (map enc ms))) = None" using assms(2) by (simp add: idle_def)
  ultimately show ?thesis
    using decode_loop_whole [OF assms(1) pending_serialize [OF assms(2)] _ False] by simp
qed

text \<open>What is left in the queue after a series of arrivals.\<close>

fun arrivals :: "('p, 'm) decoder \<Rightarrow> ('k, 'p, 'm) net_buf \<Rightarrow> u8 list list \<Rightarrow> ('k, 'p, 'm) net_buf option" where
  "arrivals dec nb [] = Some nb"
| "arrivals dec nb (b # bs) = do {
     (ret, nb) \<leftarrow> net_decode_msg dec (serialize_buf_in nb b);
     if ret = - 1 then None else arrivals dec nb bs }"

text \<open>C32. Messages that arrive whole, in any number at a time, are all queued once and in order, as if
  they had been decoded by one call over everything that was sent.\<close>

theorem whole_messages_delivered:
  assumes "codec enc dec" and "idle nb"
  shows "\<exists>nb'. arrivals dec nb (map (\<lambda>ms. concat (map enc ms)) mss) = Some nb'
    \<and> nb_queue_msg nb' = nb_queue_msg nb @ concat mss \<and> idle nb'"
  using assms(2)
proof (induction mss arbitrary: nb)
  case (Cons ms mss)
  obtain nb1 where nb1: "net_decode_msg dec (serialize_buf_in nb (concat (map enc ms))) = Some (0, nb1)"
    "nb_queue_msg nb1 = nb_queue_msg nb @ ms" "idle nb1"
    using decode_whole [OF assms(1) Cons.prems] by blast
  with Cons.IH [OF nb1(3)] show ?case by auto
qed auto

text \<open>A codec of messages that are bytes with their length in front, which leaves the bytes of an
  incomplete message where they are, as the decoder of asn1c leaves those of an incomplete
  primitive type.\<close>

definition demo_enc :: "u8 \<Rightarrow> u8 list" where
  "demo_enc m = [2, m, m]"

definition demo_dec :: "(unit, u8) decoder" where
  "demo_dec p bs = (case bs of n # m # _ # _ \<Rightarrow> RC_OK m 3 | _ \<Rightarrow> RC_WMORE None 0)"

lemma demo_codec: "codec demo_enc demo_dec"
  by (simp add: codec_def demo_enc_def demo_dec_def)

definition demo_krypt :: "u8 \<Rightarrow> unit krypt" where
  "demo_krypt st = \<lparr>ssl = (), krypt_status = st, krypt_conn_type = 2, buf_decrypt = [], buf_decrypt_data_size = 0,
     buf_encrypt = [], buf_encrypt_data_size = 0\<rparr>"

definition demo_net :: "u8 \<Rightarrow> u8 \<Rightarrow> (unit, unit, u8) net_buf" where
  "demo_net level st = net_connection_new level (demo_krypt st)"

lemma idle_new: "idle (net_connection_new level k)"
  by (simp add: idle_def net_connection_new_def)

theorem whole_messages_delivered_witness:
  "\<exists>nb'. arrivals demo_dec (demo_net 2 4) [[2, 7, 7, 2, 8, 8], [2, 9, 9]] = Some nb' \<and> nb_queue_msg nb' = [7, 8, 9]"
proof -
  have "\<exists>nb'. arrivals demo_dec (demo_net 2 4) (map (\<lambda>ms. concat (map demo_enc ms)) [[7, 8], [9]]) = Some nb'
    \<and> nb_queue_msg nb' = nb_queue_msg (demo_net 2 4) @ concat [[7, 8], [9]] \<and> idle nb'"
    by (rule whole_messages_delivered [OF demo_codec]) (simp add: demo_net_def idle_new)
  then show ?thesis by (auto simp: demo_enc_def demo_net_def net_connection_new_def simp del: arrivals.simps)
qed

section \<open>Messages that are split\<close>

text \<open>C33. When the transport delivers the first bytes of a message together with the message before
  it, the rest of the message is written over the message before, and the decoder is given memory
  that nothing has been written to.  (Stated for a second message that is no longer than the
  first.)\<close>

theorem split_message_reads_garbage:
  fixes k :: "'k krypt" and dec :: "('p, 'm) decoder"
  assumes "codec enc dec" and "enc m2 = pre @ suf" "c < length pre" "suf \<noteq> []" and "dec None pre = RC_WMORE p c"
    and "length (enc m2) \<le> length (enc m1)" "2 * length (enc m1) \<le> NET_BUF"
  shows "\<exists>nb :: ('k, 'p, 'm) net_buf. net_decode_msg dec (serialize_buf_in (net_connection_new level k) (enc m1 @ pre)) = Some (0, nb)
    \<and> nb_queue_msg nb = [m1] \<and> net_decode_msg dec (serialize_buf_in nb suf) = None"
proof -
  define n where "n = length (enc m1)"
  have ne: "pre \<noteq> []" using assms(3) by auto
  define nb0 :: "('k, 'p, 'm) net_buf" where "nb0 = serialize_buf_in (net_connection_new level k) (enc m1 @ pre)"
  have len: "length pre + length suf \<le> n" using assms(2,6) by (simp add: n_def)
  have small: "length (enc m1 @ pre) \<le> NET_BUF" using len assms(7) by (simp add: n_def)
  have mem0: "nb_buf_in nb0 = map Some (enc m1) @ map Some pre @ replicate (NET_BUF - (n + length pre)) None"
    using small by (simp add: nb0_def serialize_buf_in_def net_connection_new_def Let_def n_def)
  have f0: "nb_buf_in_offset nb0 = 0" "nb_buf_in_data_size nb0 = n + length pre" "nb_msg_dec nb0 = None" "nb_queue_msg nb0 = []"
    by (simp_all add: nb0_def net_connection_new_def n_def)
  define nb1 where "nb1 = consume n (nb0\<lparr>nb_queue_msg := nb_queue_msg nb0 @ [m1], nb_msg_dec := None\<rparr>)"
  have f1: "nb_buf_in nb1 = nb_buf_in nb0" "nb_buf_in_data_size nb1 = length pre" "nb_msg_dec nb1 = None" "nb_queue_msg nb1 = [m1]"
    "nb_buf_in_offset nb1 = n"
    using f0 ne by (simp_all add: nb1_def consume_def Let_def)
  have "load_bytes (nb_buf_in nb0) 0 (n + length pre) = Some (enc m1 @ pre)"
    using small by (simp add: load_bytes_def mem0 n_def those_Some [of "enc m1 @ pre", simplified])
  moreover have "dec None (enc m1 @ pre) = RC_OK m1 n" using assms(1) by (simp add: codec_def n_def)
  ultimately have s0: "decode_loop dec nb0 = decode_loop dec nb1"
    using f0 f1(2) ne by (subst decode_loop.simps) (simp add: nb1_def Let_def)
  have "load_bytes (nb_buf_in nb1) n (length pre) = Some pre"
    using small by (simp add: load_bytes_def f1(1) mem0 n_def)
  then have s1: "decode_loop dec nb1 = Some (0, consume c (nb1\<lparr>nb_msg_dec := p\<rparr>))"
    using f1 assms(5) by (subst decode_loop.simps) simp
  define nb2 where "nb2 = consume c (nb1\<lparr>nb_msg_dec := p\<rparr>)"
  have f2: "nb_buf_in nb2 = nb_buf_in nb0" "nb_buf_in_data_size nb2 = length pre - c" "nb_queue_msg nb2 = [m1]"
    "nb_buf_in_offset nb2 = n + c"
    using f1 assms(3) by (simp_all add: nb2_def consume_def Let_def)
  have r: "net_decode_msg dec nb0 = Some (0, nb2)"
    using f0(2) ne s0 s1 by (simp add: net_decode_msg_def nb2_def)
  define m where "m = length pre - c"
  define nb3 where "nb3 = serialize_buf_in nb2 suf"
  have m: "m + length suf \<le> n" using len by (simp add: m_def)
  have size: "\<not> length (nb_buf_in nb0) < m + length suf" using m assms(7) by (simp add: mem0 n_def)
  have mem3: "nb_buf_in nb3 = take m (nb_buf_in nb0) @ map Some suf @ drop (m + length suf) (nb_buf_in nb0)"
    using size by (simp add: nb3_def serialize_buf_in_def f2 Let_def m_def)
  have f3: "nb_buf_in_offset nb3 = n + c" "nb_buf_in_data_size nb3 = m + length suf"
    by (simp_all add: nb3_def f2 m_def)
  have "drop (n + c) (nb_buf_in nb3) = drop (n + c) (nb_buf_in nb0)"
    using m size by (simp add: mem3)
  then have tail: "take (m + length suf) (drop (n + c) (nb_buf_in nb3)) =
      map Some (drop c pre) @ take (length suf) (replicate (NET_BUF - (n + length pre)) None)"
    using assms(3) by (simp add: mem0 n_def m_def drop_map)
  have "None \<in> set (take (length suf) (replicate (NET_BUF - (n + length pre)) (None :: u8 option)))"
    using assms(4) len assms(7) by (cases suf) (auto simp: n_def)
  then have "those (take (m + length suf) (drop (n + c) (nb_buf_in nb3))) = None"
    unfolding tail by (intro those_None) simp
  then have "load_bytes (nb_buf_in nb3) (n + c) (m + length suf) = None" by (simp add: load_bytes_def)
  moreover have "m + length suf \<noteq> 0" using assms(4) by simp
  ultimately have "net_decode_msg dec nb3 = None"
    using f3 by (simp only: net_decode_msg_def if_False) (simp add: decode_loop.simps)
  with r f2(3) show ?thesis unfolding nb0_def nb3_def by blast
qed

theorem split_message_reads_garbage_witness:
  "\<exists>nb. net_decode_msg demo_dec (serialize_buf_in (demo_net 2 4) [2, 7, 7, 2, 8]) = Some (0, nb)
    \<and> nb_queue_msg nb = [7] \<and> net_decode_msg demo_dec (serialize_buf_in nb [8]) = None"
proof -
  have "\<exists>nb. net_decode_msg demo_dec (serialize_buf_in (net_connection_new 2 (demo_krypt 4)) (demo_enc 7 @ [2, 8])) = Some (0, nb)
    \<and> nb_queue_msg nb = [7] \<and> net_decode_msg demo_dec (serialize_buf_in nb [8]) = None"
    by (rule split_message_reads_garbage [OF demo_codec, where ?m2.0 = 8]) (simp_all add: demo_enc_def demo_dec_def)
  then show ?thesis by (simp add: demo_net_def demo_enc_def)
qed

section \<open>Messages that are refused\<close>

text \<open>C34. A message that is refused because the connection is not secure yet, with the result \<open>-1\<close>, is
  not forgotten: once the connection is secure, it is sent in front of the next message.\<close>

theorem refused_message_is_sent_later:
  assumes "NET_UNSECURE < nb_security_level nb" "nb_kconn nb = Some k" "krypt_status k \<noteq> KRYPT_SECURE"
    and "nb_buf_enc nb = []" "enc m1 = Some e1" "enc m2 = Some e2" "krypt_status k' = KRYPT_SECURE"
  shows "\<exists>nb'. net_send_msg_bus L T enc nb m1 = Some (- 1, nb')
    \<and> net_send_msg_bus L T enc (nb'\<lparr>nb_kconn := Some k'\<rparr>) m2
      = net_send_msg_bus L T (\<lambda>_. Some (e1 @ e2)) (nb\<lparr>nb_kconn := Some k'\<rparr>) m2"
  using assms by (simp add: net_send_msg_bus_def Let_def)

text \<open>A library that encrypts nothing.\<close>

definition demo_ssl :: "unit openssl" where
  "demo_ssl = \<lparr>BIO_write = (\<lambda>s b. (int (length b), s)), BIO_read = (\<lambda>s n. (0, [], s)), BIO_ctrl_pending = (\<lambda>s. 0),
     SSL_do_handshake = (\<lambda>s. (1, s)), SSL_is_init_finished = (\<lambda>s. True), SSL_read = (\<lambda>s n. (- 1, [], s)),
     SSL_write = (\<lambda>s b. (- 1, s)), SSL_get_error = (\<lambda>s n. SSL_ERROR_OTHER), SSL_peek = (\<lambda>s. 0),
     SSL_renegotiate = (\<lambda>s. s), SSL_accept_again = (\<lambda>s. s)\<rparr>"

theorem refused_message_is_sent_later_witness:
  "\<exists>nb'. net_send_msg_bus demo_ssl (\<lambda>_. 0) (\<lambda>m. Some (demo_enc m)) (demo_net 2 2) 7 = Some (- 1, nb')
    \<and> net_send_msg_bus demo_ssl (\<lambda>_. 0) (\<lambda>m. Some (demo_enc m)) (nb'\<lparr>nb_kconn := Some (demo_krypt 4)\<rparr>) 8
      = net_send_msg_bus demo_ssl (\<lambda>_. 0) (\<lambda>_. Some [2, 7, 7, 2, 8, 8]) ((demo_net 2 2)\<lparr>nb_kconn := Some (demo_krypt 4)\<rparr>) 8"
proof -
  have "\<exists>nb'. net_send_msg_bus demo_ssl (\<lambda>_. 0) (\<lambda>m. Some (demo_enc m)) (demo_net 2 2) 7 = Some (- 1, nb')
    \<and> net_send_msg_bus demo_ssl (\<lambda>_. 0) (\<lambda>m. Some (demo_enc m)) (nb'\<lparr>nb_kconn := Some (demo_krypt 4)\<rparr>) 8
      = net_send_msg_bus demo_ssl (\<lambda>_. 0) (\<lambda>_. Some (demo_enc 7 @ demo_enc 8)) ((demo_net 2 2)\<lparr>nb_kconn := Some (demo_krypt 4)\<rparr>) 8"
    by (rule refused_message_is_sent_later [where k = "demo_krypt 2"])
       (simp_all add: demo_net_def net_connection_new_def demo_krypt_def)
  then show ?thesis by (simp add: demo_enc_def)
qed

section \<open>A connection that is broken\<close>

lemma encrypt_loop_fatal:
  assumes "encrypt_loop L nb k = Some nb'" "\<And>s b. fst (SSL_write L s b) \<le> 0" "\<And>s n. SSL_get_error L s n = SSL_ERROR_OTHER"
  shows "nb_buf_enc nb = []"
proof -
  define fatal :: "'a openssl \<Rightarrow> bool" where
    "fatal L \<longleftrightarrow> (\<forall>s b. fst (SSL_write L s b) \<le> 0) \<and> (\<forall>s n. SSL_get_error L s n = SSL_ERROR_OTHER)" for L
  have "fatal L \<longrightarrow> nb_buf_enc nb = []"
  proof (rule encrypt_loop.raw_induct [where P = "\<lambda>L nb k nb'. fatal L \<longrightarrow> nb_buf_enc nb = []", OF _ assms(1)])
  fix loop :: "'a openssl \<Rightarrow> ('a, 'b, 'c) net_buf \<Rightarrow> 'a krypt \<Rightarrow> ('a, 'b, 'c) net_buf option" and L nb k nb'
  assume IH: "\<And>L nb k nb'. loop L nb k = Some nb' \<Longrightarrow> fatal L \<longrightarrow> nb_buf_enc nb = []"
    and r: "(case krypt_encrypt_buf L k (nb_buf_enc nb) of
        (ret, k) \<Rightarrow>
          if length (buf_encrypt k) < unat (buf_encrypt_data_size k) then None
          else
            let nb = net_queue_out nb (take (unat (buf_encrypt_data_size k)) (buf_encrypt k));
                k = k\<lparr>buf_encrypt_data_size := 0\<rparr>;
                nb = (if ret = - 2 then nb\<lparr>nb_buf_enc := []\<rparr> else nb) in
            if ret < 0 then loop L nb k else Some (nb\<lparr>nb_kconn := Some k\<rparr>)) = Some nb'"
  show "fatal L \<longrightarrow> nb_buf_enc nb = []"
  proof (rule impI, rule ccontr)
    assume fatal: "fatal L" and ne: "nb_buf_enc nb \<noteq> []"
    obtain n s where w: "SSL_write L (ssl k) (nb_buf_enc nb) = (n, s)" by fastforce
    then have "n \<le> 0" using fatal unfolding fatal_def by (metis fst_conv)
    then have "krypt_encrypt_buf L k (nb_buf_enc nb) = (- 1, k\<lparr>ssl := s\<rparr>)"
      using ne w fatal by (simp add: krypt_encrypt_buf_def fatal_def Let_def)
    then have "nb_buf_enc (net_queue_out nb (take (unat (buf_encrypt_data_size k)) (buf_encrypt k))) = []"
      using IH r fatal by (auto simp: Let_def split: if_splits)
    with ne show False by (simp add: net_queue_out_def)
  qed
  qed
  then show ?thesis using assms(2,3) by (simp add: fatal_def)
qed

text \<open>Each turn queues an empty buffer and goes on.\<close>

lemma encrypt_loop_turn:
  assumes "\<And>s b. fst (SSL_write L s b) \<le> 0" "\<And>s n. SSL_get_error L s n = SSL_ERROR_OTHER"
    and ne: "nb_buf_enc nb \<noteq> []" and z: "buf_encrypt_data_size k = 0"
  shows "\<exists>k'. encrypt_loop L nb k = encrypt_loop L (net_queue_out nb []) k' \<and> buf_encrypt_data_size k' = 0"
proof -
  obtain n s where w: "SSL_write L (ssl k) (nb_buf_enc nb) = (n, s)" by fastforce
  have "n \<le> 0" using assms(1) [of "ssl k" "nb_buf_enc nb"] w by simp
  then have e: "krypt_encrypt_buf L k (nb_buf_enc nb) = (- 1, k\<lparr>ssl := s\<rparr>)"
    using ne w assms(2) by (simp add: krypt_encrypt_buf_def Let_def)
  show ?thesis
    using e z by (intro exI [of _ "k\<lparr>ssl := s, buf_encrypt_data_size := 0\<rparr>"]) (subst encrypt_loop.simps, simp add: Let_def)
qed



end
