(* ===== verification/Agent.thy ===== *)
theory Agent
  imports Dnds
begin

text \<open>
  The agent (\<open>nvagent/src/agent.c\<close>, \<open>p2p.c\<close>, \<open>session.c\<close>): it tunnels the frames of the virtual
  interface to the switch, or directly to another agent the switch has introduced it to.  The state
  has the objects other objects point to at addresses, as that of the switch; the network layer, the
  interface and the user interface are told what is recorded in \<open>ag_events\<close>.  What the agent gets
  from its host is the record \<open>host\<close>.
\<close>

section \<open>State\<close>

abbreviation (input) SESSION_STATE_AUTHED :: u8 where "SESSION_STATE_AUTHED \<equiv> 1"
abbreviation (input) SESSION_STATE_NOT_AUTHED :: u8 where "SESSION_STATE_NOT_AUTHED \<equiv> 2"
abbreviation (input) SESSION_STATE_WAIT_ANSWER :: u8 where "SESSION_STATE_WAIT_ANSWER \<equiv> 4"
abbreviation (input) SESSION_STATE_DOWN :: u8 where "SESSION_STATE_DOWN \<equiv> 8"

text \<open>A passport is what it has been loaded from: the contents of three files.\<close>

type_synonym agent_passport = "u8 list \<times> u8 list \<times> u8 list"

text \<open>All sessions share the one virtual interface, which is not an object of the state.\<close>

record agent_session =
  as_passport :: "agent_passport option"
  as_netc :: "addr option"
  as_mac_dst :: "u8 list"
  as_state :: u8

text \<open>A connection: to the switch, with the callbacks of \<open>agent.c\<close>, or to another agent, with those of
  \<open>p2p.c\<close>.  \<open>ac_hooked\<close> says that \<open>on_disconnect\<close> is not null, \<open>ac_rsa\<close> that the security level of
  the TLS object is RSA.\<close>

record agent_conn =
  ac_ext_ptr :: "addr option"
  ac_p2p :: bool
  ac_hooked :: bool
  ac_rsa :: bool
  ac_passport :: "agent_passport option"
  ac_queue_msg :: "DNDSMessage list"

record agent_cfg =
  cfg_certificate :: string
  cfg_privatekey :: string
  cfg_trusted_cert :: string
  cfg_prov_code :: "u8 list option"
  cfg_ip_conf :: string

datatype agent_event =
    Msg_sent addr DNDSMessage
  | Tap_write "u8 list option" u64
  | Tap_up
  | Tap_ipv4 "u8 list"
  | Ev_connect "u8 list"
  | Ev_disconnect
  | Conn_closed addr
  | Rendezvous addr string string int

text \<open>\<open>common_name\<close> is what \<open>X509_NAME_get_text_by_NID\<close> leaves in the 256 characters of \<open>subj\<close>, and
  nothing when there is no certificate to read; \<open>msg_result\<close> is the result of the \<open>n\<close>-th
  \<open>net_send_msg\<close>.\<close>

record host =
  local_ip :: "u8 list"
  hwaddr :: "u8 list"
  common_name :: "agent_passport \<Rightarrow> u8 list option"
  can_write :: "string \<Rightarrow> bool"
  msg_result :: "nat \<Rightarrow> int"

text \<open>\<open>ag_threads\<close> are the threads that reconnect, each with its session and the connection it has
  got.  \<open>ag_ip\<close> is the static \<open>ipAddress\<close>, of sixteen characters.\<close>

record agent =
  ag_sessions :: "addr \<rightharpoonup> agent_session"
  ag_conns :: "addr \<rightharpoonup> agent_conn"
  ag_brk :: addr
  ag_master :: addr
  ag_cfg :: agent_cfg
  ag_ftable :: "(u8 list, addr) jsw_hash option"
  ag_files :: "string \<rightharpoonup> u8 list"
  ag_ip :: "u8 list"
  ag_threads :: "(addr \<times> addr option) list"
  ag_nsent :: nat
  ag_events :: "agent_event list"

definition get_as :: "agent \<Rightarrow> addr option \<Rightarrow> agent_session option" where
  "get_as A p = do { a \<leftarrow> p; ag_sessions A a }"

definition upd_as :: "agent \<Rightarrow> addr option \<Rightarrow> (agent_session \<Rightarrow> agent_session) \<Rightarrow> agent option" where
  "upd_as A p f = do {
     a \<leftarrow> p; x \<leftarrow> ag_sessions A a;
     Some (A\<lparr>ag_sessions := (ag_sessions A)(a \<mapsto> f x)\<rparr>) }"

definition get_ac :: "agent \<Rightarrow> addr option \<Rightarrow> agent_conn option" where
  "get_ac A p = do { a \<leftarrow> p; ag_conns A a }"

definition upd_ac :: "agent \<Rightarrow> addr option \<Rightarrow> (agent_conn \<Rightarrow> agent_conn) \<Rightarrow> agent option" where
  "upd_ac A p f = do {
     a \<leftarrow> p; c \<leftarrow> ag_conns A a;
     Some (A\<lparr>ag_conns := (ag_conns A)(a \<mapsto> f c)\<rparr>) }"

definition tell :: "agent_event \<Rightarrow> agent \<Rightarrow> agent" where
  "tell e A = A\<lparr>ag_events := ag_events A @ [e]\<rparr>"

definition free_as :: "agent \<Rightarrow> addr option \<Rightarrow> agent option" where
  "free_as A p = do { a \<leftarrow> p; _ \<leftarrow> ag_sessions A a; Some (A\<lparr>ag_sessions := (ag_sessions A)(a := None)\<rparr>) }"

text \<open>\<open>net_send_msg\<close>: the connection must be alive.\<close>

definition send_msg :: "host \<Rightarrow> agent \<Rightarrow> addr option \<Rightarrow> DNDSMessage option \<Rightarrow> (int \<times> agent) option" where
  "send_msg H A netc msg = do {
     n \<leftarrow> netc; _ \<leftarrow> ag_conns A n; m \<leftarrow> msg;
     Some (msg_result H (ag_nsent A), tell (Msg_sent n m) (A\<lparr>ag_nsent := Suc (ag_nsent A)\<rparr>)) }"

section \<open>Requests\<close>

abbreviation (input) all_al :: "nat \<Rightarrow> bool" where "all_al \<equiv> \<lambda>_. True"

definition dnm_message :: "u32 \<Rightarrow> dnop_PR \<Rightarrow> DNDSMessage option option" where
  "dnm_message seq operation = do {
     let (_, msg) = DNDSMessage_new True;
     (_, msg) \<leftarrow> DNDSMessage_set_channel msg 0;
     (_, msg) \<leftarrow> DNDSMessage_set_pdu msg pdu_PR_dnm;
     (_, msg) \<leftarrow> DNMessage_set_seqNumber msg seq;
     (_, msg) \<leftarrow> DNMessage_set_ackNumber msg 0;
     (_, msg) \<leftarrow> DNMessage_set_operation msg operation;
     Some msg }"

definition transmit_netinfo_request :: "host \<Rightarrow> agent \<Rightarrow> addr option \<Rightarrow> agent option" where
  "transmit_netinfo_request H A session = do {
     msg \<leftarrow> dnm_message 0 dnop_PR_netinfoRequest;
     (_, msg) \<leftarrow> NetinfoRequest_set_ipLocal all_al msg (Some (local_ip H));
     (_, msg) \<leftarrow> NetinfoRequest_set_macAddr all_al msg (Some (hwaddr H));
     x \<leftarrow> get_as A session;
     (_, A) \<leftarrow> send_msg H A (as_netc x) msg;
     Some A }"

definition transmit_prov_request :: "host \<Rightarrow> agent \<Rightarrow> addr \<Rightarrow> agent option" where
  "transmit_prov_request H A netc = do {
     msg \<leftarrow> dnm_message 1 dnop_PR_provRequest;
     code \<leftarrow> cfg_prov_code (ag_cfg A);
     n \<leftarrow> strlen code;
     (_, msg) \<leftarrow> ProvRequest_set_provCode all_al msg (Some code) (of_nat n);
     (_, A) \<leftarrow> send_msg H A (Some netc) msg;
     Some A }"

text \<open>\<open>krypt_set_rsa\<close> of \<open>crypto.c\<close> reads the passport of the connection, unless its level is RSA
  already.\<close>

definition krypt_set_rsa :: "agent \<Rightarrow> addr option \<Rightarrow> agent option" where
  "krypt_set_rsa A netc = do {
     c \<leftarrow> get_ac A netc;
     if ac_rsa c then Some A
     else do { _ \<leftarrow> ac_passport c; upd_ac A netc (\<lambda>c. c\<lparr>ac_rsa := True\<rparr>) } }"

definition transmit_register :: "host \<Rightarrow> agent \<Rightarrow> addr option \<Rightarrow> agent option" where
  "transmit_register H A netc = do {
     c \<leftarrow> get_ac A netc;
     let session = ac_ext_ptr c;
     msg \<leftarrow> dnm_message 1 dnop_PR_authRequest;
     x \<leftarrow> get_as A session;
     p \<leftarrow> as_passport x;
     subj \<leftarrow> common_name H p;
     n \<leftarrow> strlen subj;
     (_, msg) \<leftarrow> AuthRequest_set_certName all_al msg (Some subj) (of_nat n);
     (nbyte, A) \<leftarrow> send_msg H A netc msg;
     if nbyte = - 1 then Some A
     else do {
       A \<leftarrow> upd_as A session (\<lambda>x. x\<lparr>as_state := SESSION_STATE_WAIT_ANSWER\<rparr>);
       krypt_set_rsa A (as_netc x) } }"

section \<open>Frames\<close>

definition p2p_find_session :: "agent \<Rightarrow> u8 list \<Rightarrow> addr option option" where
  "p2p_find_session A eth_frame = do {
     mac_dst \<leftarrow> memcpy eth_frame ETHER_ADDR_LEN;
     ft \<leftarrow> ag_ftable A;
     ftable_find ft mac_dst }"

text \<open>\<open>framebuf\<close> is the buffer after \<open>tapcfg_read\<close> and \<open>ret\<close> its result, which becomes a size.\<close>

definition tunnel_in :: "host \<Rightarrow> agent \<Rightarrow> addr option \<Rightarrow> u8 list \<Rightarrow> int \<Rightarrow> agent option" where
  "tunnel_in H A session framebuf ret = do {
     let frame_size = word_of_int ret;
     p2p_session \<leftarrow> p2p_find_session A framebuf;
     let session = (if p2p_session \<noteq> None then p2p_session else session);
     x \<leftarrow> get_as A session;
     if as_state x \<noteq> SESSION_STATE_AUTHED then Some A
     else do {
       let (_, msg) = DNDSMessage_new True;
       (_, msg) \<leftarrow> DNDSMessage_set_channel msg 0;
       (_, msg) \<leftarrow> DNDSMessage_set_pdu msg pdu_PR_ethernet;
       (_, msg) \<leftarrow> DNDSMessage_set_ethernet msg (Some framebuf) frame_size;
       (_, A) \<leftarrow> send_msg H A (as_netc x) msg;
       Some A } }"

definition tunnel_out :: "agent \<Rightarrow> addr option \<Rightarrow> DNDSMessage \<Rightarrow> agent option" where
  "tunnel_out A session msg = do {
     (_, framebuf, framebufsz) \<leftarrow> DNDSMessage_get_ethernet (Some msg);
     _ \<leftarrow> get_as A session;
     Some (tell (Tap_write framebuf framebufsz) A) }"

section \<open>Connections that end\<close>

text \<open>\<open>session_itemrel\<close>: what the table does with an item that leaves it.\<close>

definition session_itemrel :: "agent \<Rightarrow> addr option \<Rightarrow> agent option" where
  "session_itemrel A item =
     (if item = None then Some A
      else do {
        x \<leftarrow> get_as A item;
        A \<leftarrow> upd_ac A (as_netc x) (\<lambda>c. c\<lparr>ac_hooked := False\<rparr>);
        free_as A item })"

fun release_items :: "agent \<Rightarrow> (u8 list, addr) jnode list \<Rightarrow> agent option" where
  "release_items A [] = Some A"
| "release_items A (i # is) = do { A \<leftarrow> session_itemrel A (snd i); release_items A is }"

definition p2p_on_disconnect :: "agent \<Rightarrow> addr \<Rightarrow> agent option" where
  "p2p_on_disconnect A netc = do {
     c \<leftarrow> ag_conns A netc;
     let p2p_session = ac_ext_ptr c;
     x \<leftarrow> get_as A p2p_session;
     ft \<leftarrow> ag_ftable A;
     found \<leftarrow> ftable_find ft (as_mac_dst x);
     if p2p_session \<noteq> found then free_as A p2p_session
     else do {
       (_, gone, ft) \<leftarrow> ftable_erase ft (as_mac_dst x);
       release_items (A\<lparr>ag_ftable := Some ft\<rparr>) gone } }"

definition on_disconnect_agent :: "agent \<Rightarrow> addr \<Rightarrow> agent option" where
  "on_disconnect_agent A netc = do {
     c \<leftarrow> ag_conns A netc;
     let session = ac_ext_ptr c;
     A \<leftarrow> upd_ac A (Some netc) (\<lambda>c. c\<lparr>ac_ext_ptr := None\<rparr>);
     if session = None then Some A
     else do {
       x \<leftarrow> get_as A session;
       if as_state x = SESSION_STATE_DOWN then Some A
       else do {
         A \<leftarrow> upd_as A session (\<lambda>x. x\<lparr>as_state := SESSION_STATE_DOWN\<rparr>);
         Some (tell Ev_disconnect (A\<lparr>ag_threads := ag_threads A @ [(the session, None)]\<rparr>)) } } }"

text \<open>The network layer calls \<open>on_disconnect\<close> back if there is one, and releases the connection.\<close>

definition conn_gone :: "agent \<Rightarrow> addr \<Rightarrow> agent option" where
  "conn_gone A netc = do {
     c \<leftarrow> ag_conns A netc;
     A \<leftarrow> (if \<not> ac_hooked c then Some A
           else if ac_p2p c then p2p_on_disconnect A netc else on_disconnect_agent A netc);
     Some (tell (Conn_closed netc) (A\<lparr>ag_conns := (ag_conns A)(netc := None)\<rparr>)) }"

definition net_disconnect_agent :: "agent \<Rightarrow> addr option \<Rightarrow> agent option" where
  "net_disconnect_agent A netc = (case netc of None \<Rightarrow> Some A | Some n \<Rightarrow> conn_gone A n)"

definition terminate :: "agent \<Rightarrow> addr option \<Rightarrow> agent option" where
  "terminate A session = do {
     A \<leftarrow> upd_as A session (\<lambda>x. x\<lparr>as_state := SESSION_STATE_DOWN\<rparr>);
     x \<leftarrow> get_as A session;
     A \<leftarrow> net_disconnect_agent A (as_netc x);
     upd_as A session (\<lambda>x. x\<lparr>as_netc := None\<rparr>) }"

section \<open>Answers\<close>

text \<open>\<open>fscanf(fp, "%s", ipAddress)\<close>: the first word, with a terminator behind it, is written into the
  sixteen characters; nothing is written at the end of the file.\<close>

definition is_space_byte :: "u8 \<Rightarrow> bool" where
  "is_space_byte b \<longleftrightarrow> b = 32 \<or> (9 \<le> b \<and> b \<le> 13)"

definition overwrite :: "u8 list \<Rightarrow> u8 list \<Rightarrow> u8 list option" where
  "overwrite mem bs = (if length mem < length bs then None else Some (bs @ drop (length bs) mem))"

definition scan_word :: "u8 list \<Rightarrow> u8 list \<Rightarrow> u8 list option" where
  "scan_word mem content =
     (let word = takeWhile (\<lambda>b. \<not> is_space_byte b) (dropWhile is_space_byte content) in
      if word = [] then Some mem else overwrite mem (word @ [0]))"

definition op_netinfo_response :: "agent \<Rightarrow> addr option \<Rightarrow> agent option" where
  "op_netinfo_response A session =
     (case ag_files A (cfg_ip_conf (ag_cfg A)) of
        None \<Rightarrow> Some A
      | Some content \<Rightarrow> do {
          ip \<leftarrow> scan_word (ag_ip A) content;
          _ \<leftarrow> get_as A session;
          let A = tell (Tap_ipv4 ip) (tell Tap_up (A\<lparr>ag_ip := ip\<rparr>));
          upd_as A session (\<lambda>x. x\<lparr>as_state := SESSION_STATE_AUTHED\<rparr>) })"

definition op_auth_response :: "host \<Rightarrow> agent \<Rightarrow> addr option \<Rightarrow> DNDSMessage \<Rightarrow> agent option" where
  "op_auth_response H A session msg = do {
     (_, result) \<leftarrow> AuthResponse_get_result (Some msg) True;
     if result = Some DNDSResult_success then do {
       x \<leftarrow> get_as A session;
       _ \<leftarrow> get_ac A (as_netc x);
       A \<leftarrow> (case ag_files A (cfg_ip_conf (ag_cfg A)) of
              None \<Rightarrow> Some A
            | Some content \<Rightarrow> do { ip \<leftarrow> scan_word (ag_ip A) content; Some (A\<lparr>ag_ip := ip\<rparr>) });
       transmit_netinfo_request H (tell (Ev_connect (ag_ip A)) A) session }
     else Some A }"

text \<open>\<open>fopen(name, "w")\<close>, and a string written to the file.\<close>

definition write_file :: "agent \<Rightarrow> string \<Rightarrow> u8 list option \<Rightarrow> agent option" where
  "write_file A name s = do {
     b \<leftarrow> s; b \<leftarrow> cbytes b;
     Some (A\<lparr>ag_files := (ag_files A)(name \<mapsto> b)\<rparr>) }"

text \<open>\<open>pki_passport_load_from_file\<close>, as far as it fails without reading a certificate.\<close>

definition load_passport :: "agent \<Rightarrow> agent_passport option" where
  "load_passport A = do {
     c \<leftarrow> ag_files A (cfg_certificate (ag_cfg A));
     k \<leftarrow> ag_files A (cfg_privatekey (ag_cfg A));
     t \<leftarrow> ag_files A (cfg_trusted_cert (ag_cfg A));
     Some (c, k, t) }"

text \<open>A getter that fails leaves its output, a null pointer or the old address, as it is.\<close>

definition op_prov_response :: "host \<Rightarrow> agent \<Rightarrow> addr option \<Rightarrow> DNDSMessage \<Rightarrow> agent option" where
  "op_prov_response H A session msg = do {
     (_, certificate) \<leftarrow> ProvResponse_get_certificate (Some msg) True True;
     let certificate = Option.bind certificate fst;
     if certificate = None then Some A
     else if \<not> can_write H (cfg_certificate (ag_cfg A)) then Some A
     else do {
       A \<leftarrow> write_file A (cfg_certificate (ag_cfg A)) certificate;
       (_, key) \<leftarrow> ProvResponse_get_certificateKey (Some msg) True True;
       if \<not> can_write H (cfg_privatekey (ag_cfg A)) then Some A
       else do {
         A \<leftarrow> write_file A (cfg_privatekey (ag_cfg A)) (Option.bind key fst);
         (_, trusted) \<leftarrow> ProvResponse_get_trustedCert (Some msg) True True;
         if \<not> can_write H (cfg_trusted_cert (ag_cfg A)) then Some A
         else do {
           A \<leftarrow> write_file A (cfg_trusted_cert (ag_cfg A)) (Option.bind trusted fst);
           (_, ip) \<leftarrow> ProvResponse_get_ipAddress (Some msg) True;
           ip \<leftarrow> (case ip of None \<Rightarrow> Some (ag_ip A) | Some t \<Rightarrow> overwrite (ag_ip A) (cmem t));
           let A = A\<lparr>ag_ip := ip\<rparr>;
           if \<not> can_write H (cfg_ip_conf (ag_cfg A)) then Some A
           else do {
             A \<leftarrow> write_file A (cfg_ip_conf (ag_cfg A)) (Some (ag_ip A));
             let p = load_passport A;
             A \<leftarrow> upd_as A session (\<lambda>x. x\<lparr>as_passport := p\<rparr>);
             x \<leftarrow> get_as A session;
             A \<leftarrow> upd_ac A (as_netc x) (\<lambda>c. c\<lparr>ac_passport := p\<rparr>);
             transmit_register H A (as_netc x) } } } } }"

section \<open>Introductions\<close>

text \<open>\<open>snprintf(port_str, 6, "%d", port)\<close>.\<close>

definition port_text :: "u32 \<Rightarrow> string" where
  "port_text port = take 5 (int_text (sint port))"

text \<open>\<open>net_p2p\<close> makes the connection and leaves the rendezvous to a thread.\<close>

definition op_p2p_request :: "agent \<Rightarrow> addr option \<Rightarrow> DNDSMessage \<Rightarrow> agent option" where
  "op_p2p_request A session msg = do {
     (_, mac_dst) \<leftarrow> P2pRequest_get_macAddrDst (Some msg);
     (_, ip_dst) \<leftarrow> P2pRequest_get_ipAddrDst (Some msg) True;
     (_, port) \<leftarrow> P2pRequest_get_port (Some msg) True;
     (_, side) \<leftarrow> P2pRequest_get_side (Some msg) True;
     mac \<leftarrow> mac_dst; ip \<leftarrow> ip_dst; port \<leftarrow> port; side \<leftarrow> side;
     x \<leftarrow> get_as A session;
     let s = ag_brk A;
     let n = Suc s;
     let p2p_session = \<lparr>as_passport = as_passport x, as_netc = None, as_mac_dst = mac, as_state = 0\<rparr>;
     let netc = \<lparr>ac_ext_ptr = Some s, ac_p2p = True, ac_hooked = True, ac_rsa = False,
                 ac_passport = as_passport x, ac_queue_msg = []\<rparr>;
     Some (tell (Rendezvous n ip (port_text port) side)
       (A\<lparr>ag_sessions := (ag_sessions A)(s \<mapsto> p2p_session), ag_conns := (ag_conns A)(n \<mapsto> netc), ag_brk := Suc n\<rparr>)) }"

text \<open>The rendezvous has succeeded: \<open>net_p2p_on_connect\<close> secures the connection, which is RSA, and
  calls \<open>p2p_on_connect\<close>.\<close>

definition p2p_on_connect :: "agent \<Rightarrow> addr \<Rightarrow> agent option" where
  "p2p_on_connect A netc = do {
     c \<leftarrow> ag_conns A netc;
     upd_as A (ac_ext_ptr c) (\<lambda>x. x\<lparr>as_netc := Some netc\<rparr>) }"

definition net_p2p_on_connect :: "agent \<Rightarrow> addr \<Rightarrow> agent option" where
  "net_p2p_on_connect A netc = do { A \<leftarrow> krypt_set_rsa A (Some netc); p2p_on_connect A netc }"

definition p2p_on_secure :: "agent \<Rightarrow> addr \<Rightarrow> agent option" where
  "p2p_on_secure A netc = do {
     c \<leftarrow> ag_conns A netc;
     let p2p_session = ac_ext_ptr c;
     A \<leftarrow> upd_as A p2p_session (\<lambda>x. x\<lparr>as_state := SESSION_STATE_AUTHED\<rparr>);
     x \<leftarrow> get_as A p2p_session;
     A \<leftarrow> upd_ac A (as_netc x) (\<lambda>c. c\<lparr>ac_ext_ptr := p2p_session\<rparr>);
     ft \<leftarrow> ag_ftable A;
     (_, ft) \<leftarrow> ftable_insert ft (as_mac_dst x) p2p_session;
     Some (A\<lparr>ag_ftable := Some ft\<rparr>) }"

section \<open>Events of a connection\<close>

definition on_secure_agent :: "host \<Rightarrow> agent \<Rightarrow> addr \<Rightarrow> agent option" where
  "on_secure_agent H A netc = do {
     c \<leftarrow> ag_conns A netc;
     x \<leftarrow> get_as A (ac_ext_ptr c);
     if as_state x = SESSION_STATE_NOT_AUTHED then
       (if as_passport x = None \<and> cfg_prov_code (ag_cfg A) \<noteq> None then transmit_prov_request H A netc
        else transmit_register H A (Some netc))
     else Some A }"

definition dispatch_op_agent :: "host \<Rightarrow> agent \<Rightarrow> addr option \<Rightarrow> DNDSMessage \<Rightarrow> agent option" where
  "dispatch_op_agent H A session msg = do {
     (_, operation) \<leftarrow> DNMessage_get_operation (Some msg);
     operation \<leftarrow> operation;
     case operation of
       dnop_PR_provResponse \<Rightarrow> op_prov_response H A session msg
     | dnop_PR_authResponse \<Rightarrow> op_auth_response H A session msg
     | dnop_PR_netinfoResponse \<Rightarrow> op_netinfo_response A session
     | dnop_PR_p2pRequest \<Rightarrow> op_p2p_request A session msg
     | _ \<Rightarrow> terminate A session }"

text \<open>One turn of the loop of \<open>on_input\<close>, and whether there is another: a message of the wrong kind
  ends it.\<close>

definition handle_msg_agent :: "host \<Rightarrow> agent \<Rightarrow> addr option \<Rightarrow> DNDSMessage \<Rightarrow> (bool \<times> agent) option" where
  "handle_msg_agent H A session msg = do {
     (_, pdu) \<leftarrow> DNDSMessage_get_pdu (Some msg);
     pdu \<leftarrow> pdu;
     case pdu of
       pdu_PR_dnm \<Rightarrow> do { A \<leftarrow> dispatch_op_agent H A session msg; Some (True, A) }
     | pdu_PR_ethernet \<Rightarrow> do { A \<leftarrow> tunnel_out A session msg; Some (True, A) }
     | _ \<Rightarrow> do { A \<leftarrow> terminate A session; Some (False, A) } }"

partial_function (option) input_loop_agent :: "host \<Rightarrow> agent \<Rightarrow> addr option \<Rightarrow> addr \<Rightarrow> agent option" where
  "input_loop_agent H A session netc = do {
     c \<leftarrow> ag_conns A netc;
     (if ac_queue_msg c \<noteq> [] then do {
        (more, A) \<leftarrow> handle_msg_agent H A session (hd (ac_queue_msg c));
        if more then do {
          A \<leftarrow> upd_ac A (Some netc) (\<lambda>c. c\<lparr>ac_queue_msg := tl (ac_queue_msg c)\<rparr>);
          input_loop_agent H A session netc }
        else Some A }
      else Some A) }"

definition on_input_agent :: "host \<Rightarrow> agent \<Rightarrow> addr \<Rightarrow> agent option" where
  "on_input_agent H A netc = do { c \<leftarrow> ag_conns A netc; input_loop_agent H A (ac_ext_ptr c) netc }"

section \<open>Threads\<close>

text \<open>\<open>try_to_reconnect\<close> in two steps, between which the main loop may run: \<open>net_client\<close> returns a
  connection, and the connection and the session are tied together.\<close>

definition reconnect_connected :: "agent \<Rightarrow> nat \<Rightarrow> agent option" where
  "reconnect_connected A i = do {
     (s, _) \<leftarrow> fetch (ag_threads A) i;
     x \<leftarrow> ag_sessions A s;
     let n = ag_brk A;
     let netc = \<lparr>ac_ext_ptr = None, ac_p2p = False, ac_hooked = True, ac_rsa = False,
                 ac_passport = as_passport x, ac_queue_msg = []\<rparr>;
     Some (A\<lparr>ag_conns := (ag_conns A)(n \<mapsto> netc), ag_brk := Suc n,
             ag_threads := (ag_threads A)[i := (s, Some n)]\<rparr>) }"

definition reconnect_assign :: "agent \<Rightarrow> nat \<Rightarrow> agent option" where
  "reconnect_assign A i = do {
     (s, netc) \<leftarrow> fetch (ag_threads A) i;
     n \<leftarrow> netc;
     A \<leftarrow> upd_as A (Some s) (\<lambda>x. x\<lparr>as_state := SESSION_STATE_NOT_AUTHED, as_netc := Some n\<rparr>);
     A \<leftarrow> upd_ac A (Some n) (\<lambda>c. c\<lparr>ac_ext_ptr := Some s\<rparr>);
     Some (A\<lparr>ag_threads := take i (ag_threads A) @ drop (Suc i) (ag_threads A)\<rparr>) }"

text \<open>The agent starts with no connection and one thread, or not at all.\<close>

definition p2p_init :: "(u8 list, addr) jsw_hash option" where
  "p2p_init = ftable_new 1024 (\<lambda>item. item)"

definition agent_start :: "agent_cfg \<Rightarrow> (string \<rightharpoonup> u8 list) \<Rightarrow> agent" where
  "agent_start cfg fs = \<lparr>ag_sessions = [0 \<mapsto> \<lparr>as_passport = None, as_netc = None, as_mac_dst = replicate 6 0, as_state = 0\<rparr>],
     ag_conns = Map.empty, ag_brk = 1, ag_master = 0, ag_cfg = cfg, ag_ftable = p2p_init, ag_files = fs,
     ag_ip = replicate 16 0, ag_threads = [], ag_nsent = 0, ag_events = []\<rparr>"

definition agent_init :: "agent_cfg \<Rightarrow> (string \<rightharpoonup> u8 list) \<Rightarrow> agent option" where
  "agent_init cfg fs =
     (let A = agent_start cfg fs;
          p = (if cfg_prov_code cfg = None then load_passport A else None) in
      if p = None \<and> cfg_prov_code cfg = None then None
      else Some (A\<lparr>ag_sessions := (ag_sessions A)(ag_master A \<mapsto>
             \<lparr>as_passport = p, as_netc = None, as_mac_dst = replicate 6 0, as_state = SESSION_STATE_NOT_AUTHED\<rparr>),
             ag_threads := [(ag_master A, None)]\<rparr>))"

definition p2p_fini :: "agent \<Rightarrow> agent option" where
  "p2p_fini A = do { ft \<leftarrow> ag_ftable A; gone \<leftarrow> ftable_delete ft; release_items (A\<lparr>ag_ftable := None\<rparr>) gone }"

definition agent_fini :: "agent \<Rightarrow> agent option" where
  "agent_fini A = do {
     x \<leftarrow> get_as A (Some (ag_master A));
     A \<leftarrow> net_disconnect_agent A (as_netc x);
     A \<leftarrow> p2p_fini A;
     free_as A (Some (ag_master A)) }"

end
