(* ===== verification/Agent_Inv.thy ===== *)
theory Agent_Inv
  imports Agent
begin

text \<open>
  What holds of the agent between two events: the session of the switch and those of other agents,
  their connections, the table of those that can be reached directly, and the threads that
  reconnect fit together.  Every event the agent expects keeps it and is handled to its end.
\<close>

section \<open>The objects\<close>

definition readable :: "host \<Rightarrow> agent_passport \<Rightarrow> bool" where
  "readable H p \<longleftrightarrow> (\<exists>subj. common_name H p = Some subj \<and> terminated subj)"

definition host_ok :: "host \<Rightarrow> bool" where
  "host_ok H \<longleftrightarrow> terminated (local_ip H) \<and> 6 \<le> length (hwaddr H)"

definition cfg_ok :: "agent_cfg \<Rightarrow> bool" where
  "cfg_ok cfg \<longleftrightarrow> distinct [cfg_certificate cfg, cfg_privatekey cfg, cfg_trusted_cert cfg, cfg_ip_conf cfg]
     \<and> (\<forall>code. cfg_prov_code cfg = Some code \<longrightarrow> terminated code)"

definition word_of_file :: "u8 list \<Rightarrow> u8 list" where
  "word_of_file content = takeWhile (\<lambda>b. \<not> is_space_byte b) (dropWhile is_space_byte content)"

text \<open>The address, in memory and in its file, fits.\<close>

definition ip_ok :: "agent \<Rightarrow> bool" where
  "ip_ok A \<longleftrightarrow> length (ag_ip A) = 16 \<and> terminated (ag_ip A)
     \<and> (\<forall>content. ag_files A (cfg_ip_conf (ag_cfg A)) = Some content \<longrightarrow> length (word_of_file content) < 16)"

text \<open>The session with the switch: it has a passport or a provisioning code, and while it talks to the
  switch its connection is there.\<close>

definition attached :: "agent \<Rightarrow> addr \<Rightarrow> agent_session \<Rightarrow> bool" where
  "attached A s x \<longleftrightarrow> (\<exists>n. as_netc x = Some n \<and> map_option ac_ext_ptr (ag_conns A n) = Some (Some s))"

definition master_ok :: "agent \<Rightarrow> bool" where
  "master_ok A \<longleftrightarrow> (\<exists>x. ag_sessions A (ag_master A) = Some x
     \<and> (as_passport x = None \<longrightarrow> cfg_prov_code (ag_cfg A) \<noteq> None)
     \<and> (as_state x = SESSION_STATE_AUTHED \<or> as_state x = SESSION_STATE_WAIT_ANSWER \<longrightarrow> attached A (ag_master A) x))"

text \<open>The session with another agent has, once they are connected, its own connection.\<close>

definition session_ok_ag :: "host \<Rightarrow> agent \<Rightarrow> addr \<Rightarrow> agent_session \<Rightarrow> bool" where
  "session_ok_ag H A s x \<longleftrightarrow> s < ag_brk A \<and> length (as_mac_dst x) = 6
     \<and> (\<forall>p. as_passport x = Some p \<longrightarrow> readable H p)
     \<and> (\<forall>n. s \<noteq> ag_master A \<longrightarrow> as_netc x = Some n \<longrightarrow>
          (\<exists>c. ag_conns A n = Some c \<and> ac_p2p c \<and> ac_ext_ptr c = Some s \<and> ac_rsa c))"

definition conn_ok_ag :: "agent \<Rightarrow> addr \<Rightarrow> agent_conn \<Rightarrow> bool" where
  "conn_ok_ag A n c \<longleftrightarrow> n < ag_brk A \<and> ac_hooked c
     \<and> (ac_p2p c \<longrightarrow> (\<exists>s x. ac_ext_ptr c = Some s \<and> s \<noteq> ag_master A \<and> ag_sessions A s = Some x
          \<and> (as_netc x = None \<or> as_netc x = Some n)))
     \<and> (\<forall>s. \<not> ac_p2p c \<longrightarrow> ac_ext_ptr c = Some s \<longrightarrow> s = ag_master A \<and> ag_threads A = []
          \<and> (\<exists>x. ag_sessions A s = Some x \<and> as_netc x = Some n
               \<and> (as_passport x \<noteq> None \<longrightarrow> ac_passport c \<noteq> None)))"

definition own_conns :: "agent \<Rightarrow> bool" where
  "own_conns A \<longleftrightarrow> (\<forall>n c n' c' s. ag_conns A n = Some c \<longrightarrow> ag_conns A n' = Some c' \<longrightarrow>
     ac_ext_ptr c = Some s \<longrightarrow> ac_ext_ptr c' = Some s \<longrightarrow> n = n')"

definition ftable_ok :: "agent \<Rightarrow> bool" where
  "ftable_ok A \<longleftrightarrow> (\<exists>t. ag_ftable A = Some t \<and> ft.invar t
     \<and> (\<forall>mac s. ft.absm t mac = Some s \<longrightarrow> s \<noteq> ag_master A
          \<and> (\<exists>x. ag_sessions A s = Some x \<and> mac_value (as_mac_dst x) = mac \<and> as_netc x \<noteq> None)))"

text \<open>At most one thread reconnects; what it has got is not yet tied to the session.\<close>

definition threads_ok :: "agent \<Rightarrow> bool" where
  "threads_ok A \<longleftrightarrow> (ag_threads A = [] \<or> (\<exists>p. ag_threads A = [(ag_master A, p)]
     \<and> (\<forall>n c x. p = Some n \<longrightarrow> ag_conns A n = Some c \<longrightarrow> ag_sessions A (ag_master A) = Some x \<longrightarrow>
          \<not> ac_p2p c \<and> ac_ext_ptr c = None \<and> ac_passport c = as_passport x)
     \<and> (\<forall>n. p = Some n \<longrightarrow> n < ag_brk A)))"

definition agent_ok :: "host \<Rightarrow> agent \<Rightarrow> bool" where
  "agent_ok H A \<longleftrightarrow> host_ok H \<and> cfg_ok (ag_cfg A) \<and> ip_ok A \<and> master_ok A \<and> threads_ok A \<and> own_conns A \<and> ftable_ok A
     \<and> (\<forall>s x. ag_sessions A s = Some x \<longrightarrow> session_ok_ag H A s x)
     \<and> (\<forall>n c. ag_conns A n = Some c \<longrightarrow> conn_ok_ag A n c)"

lemmas agent_ok_defs = agent_ok_def ip_ok_def master_ok_def threads_ok_def own_conns_def ftable_ok_def
  attached_def session_ok_ag_def conn_ok_ag_def

section \<open>What leaves it alone\<close>

text \<open>The invariant speaks neither of the events nor of the messages that wait.\<close>

lemma agent_ok_events [simp]:
  "agent_ok H (A\<lparr>ag_events := es\<rparr>) = agent_ok H A" "agent_ok H (A\<lparr>ag_nsent := k\<rparr>) = agent_ok H A"
  by (simp_all add: agent_ok_defs)

lemma tell_fields [simp]:
  "ag_sessions (tell e A) = ag_sessions A" "ag_conns (tell e A) = ag_conns A" "ag_brk (tell e A) = ag_brk A"
  "ag_master (tell e A) = ag_master A" "ag_cfg (tell e A) = ag_cfg A" "ag_ftable (tell e A) = ag_ftable A"
  "ag_files (tell e A) = ag_files A" "ag_ip (tell e A) = ag_ip A" "ag_threads (tell e A) = ag_threads A"
  "ag_nsent (tell e A) = ag_nsent A"
  by (simp_all add: tell_def)

lemma agent_ok_tell [simp]: "agent_ok H (tell e A) = agent_ok H A"
  by (simp add: tell_def)

lemma get_as_Some [simp]: "get_as A (Some s) = ag_sessions A s"
  by (simp add: get_as_def)

lemma get_ac_Some [simp]: "get_ac A (Some n) = ag_conns A n"
  by (simp add: get_ac_def)

lemma upd_as_Some [simp]:
  "ag_sessions A s = Some x \<Longrightarrow> upd_as A (Some s) f = Some (A\<lparr>ag_sessions := (ag_sessions A)(s \<mapsto> f x)\<rparr>)"
  by (simp add: upd_as_def)

lemma upd_ac_Some [simp]:
  "ag_conns A n = Some c \<Longrightarrow> upd_ac A (Some n) f = Some (A\<lparr>ag_conns := (ag_conns A)(n \<mapsto> f c)\<rparr>)"
  by (simp add: upd_ac_def)

lemma free_as_Some [simp]:
  "ag_sessions A s = Some x \<Longrightarrow> free_as A (Some s) = Some (A\<lparr>ag_sessions := (ag_sessions A)(s := None)\<rparr>)"
  by (simp add: free_as_def)

lemma send_msg_Some [simp]:
  "ag_conns A n = Some c \<Longrightarrow> send_msg H A (Some n) (Some m)
     = Some (msg_result H (ag_nsent A), tell (Msg_sent n m) (A\<lparr>ag_nsent := Suc (ag_nsent A)\<rparr>))"
  by (simp add: send_msg_def)

text \<open>What the invariant reads of a session, its state apart, and of a connection.\<close>

definition sview :: "agent_session \<Rightarrow> addr option \<times> u8 list \<times> agent_passport option" where
  "sview x = (as_netc x, as_mac_dst x, as_passport x)"

definition cview :: "agent_conn \<Rightarrow> addr option \<times> bool \<times> bool \<times> agent_passport option" where
  "cview c = (ac_ext_ptr c, ac_p2p c, ac_hooked c, ac_passport c)"

definition same_views :: "agent \<Rightarrow> agent \<Rightarrow> bool" where
  "same_views A B \<longleftrightarrow> (\<forall>s. map_option sview (ag_sessions B s) = map_option sview (ag_sessions A s))
     \<and> (\<forall>n. map_option cview (ag_conns B n) = map_option cview (ag_conns A n))
     \<and> (\<forall>n c c'. ag_conns A n = Some c \<longrightarrow> ag_conns B n = Some c' \<longrightarrow> ac_rsa c \<longrightarrow> ac_rsa c')
     \<and> ag_cfg B = ag_cfg A \<and> ag_master B = ag_master A \<and> ag_brk B = ag_brk A \<and> ag_threads B = ag_threads A
     \<and> ag_ftable B = ag_ftable A"

lemma same_views_session:
  assumes "same_views A B"
  shows "ag_sessions A s = Some x \<Longrightarrow> \<exists>y. ag_sessions B s = Some y \<and> as_netc y = as_netc x
      \<and> as_mac_dst y = as_mac_dst x \<and> as_passport y = as_passport x"
    and "ag_sessions B s = Some y \<Longrightarrow> \<exists>x. ag_sessions A s = Some x \<and> as_netc y = as_netc x
      \<and> as_mac_dst y = as_mac_dst x \<and> as_passport y = as_passport x"
proof -
  have e: "map_option sview (ag_sessions B s) = map_option sview (ag_sessions A s)"
    using assms by (simp add: same_views_def)
  show "ag_sessions A s = Some x \<Longrightarrow> \<exists>y. ag_sessions B s = Some y \<and> as_netc y = as_netc x
      \<and> as_mac_dst y = as_mac_dst x \<and> as_passport y = as_passport x"
    using e by (auto simp: sview_def)
  show "ag_sessions B s = Some y \<Longrightarrow> \<exists>x. ag_sessions A s = Some x \<and> as_netc y = as_netc x
      \<and> as_mac_dst y = as_mac_dst x \<and> as_passport y = as_passport x"
    using e by (cases "ag_sessions A s") (auto simp: sview_def)
qed

lemma same_views_conn:
  assumes "same_views A B"
  shows "ag_conns A n = Some c \<Longrightarrow> \<exists>d. ag_conns B n = Some d \<and> ac_ext_ptr d = ac_ext_ptr c \<and> ac_p2p d = ac_p2p c
      \<and> ac_hooked d = ac_hooked c \<and> ac_passport d = ac_passport c \<and> (ac_rsa c \<longrightarrow> ac_rsa d)"
    and "ag_conns B n = Some d \<Longrightarrow> \<exists>c. ag_conns A n = Some c \<and> ac_ext_ptr d = ac_ext_ptr c \<and> ac_p2p d = ac_p2p c
      \<and> ac_hooked d = ac_hooked c \<and> ac_passport d = ac_passport c \<and> (ac_rsa c \<longrightarrow> ac_rsa d)"
proof -
  have e: "map_option cview (ag_conns B n) = map_option cview (ag_conns A n)"
    "\<And>c d. ag_conns A n = Some c \<Longrightarrow> ag_conns B n = Some d \<Longrightarrow> ac_rsa c \<Longrightarrow> ac_rsa d"
    using assms by (auto simp: same_views_def)
  show "ag_conns A n = Some c \<Longrightarrow> \<exists>d. ag_conns B n = Some d \<and> ac_ext_ptr d = ac_ext_ptr c \<and> ac_p2p d = ac_p2p c
      \<and> ac_hooked d = ac_hooked c \<and> ac_passport d = ac_passport c \<and> (ac_rsa c \<longrightarrow> ac_rsa d)"
    using e(1) e(2) [of c] by (auto simp: cview_def)
  show "ag_conns B n = Some d \<Longrightarrow> \<exists>c. ag_conns A n = Some c \<and> ac_ext_ptr d = ac_ext_ptr c \<and> ac_p2p d = ac_p2p c
      \<and> ac_hooked d = ac_hooked c \<and> ac_passport d = ac_passport c \<and> (ac_rsa c \<longrightarrow> ac_rsa d)"
    using e(1) e(2) [of _ d] by (cases "ag_conns A n") (auto simp: cview_def)
qed

text \<open>States in which the session talks to the switch.\<close>

definition talks :: "u8 \<Rightarrow> bool" where
  "talks st \<longleftrightarrow> st = SESSION_STATE_AUTHED \<or> st = SESSION_STATE_WAIT_ANSWER"

lemma attached_same: "same_views A B \<Longrightarrow> as_netc y = as_netc x \<Longrightarrow> attached B s y = attached A s x"
proof -
  assume v: "same_views A B" and n: "as_netc y = as_netc x"
  have "map_option ac_ext_ptr (ag_conns B n) = map_option ac_ext_ptr (ag_conns A n)" for n
  proof -
    have "map_option fst (map_option cview (ag_conns B n)) = map_option fst (map_option cview (ag_conns A n))"
      using v by (simp add: same_views_def)
    then show ?thesis by (simp add: option.map_comp comp_def cview_def)
  qed
  with n show ?thesis by (simp add: attached_def)
qed

lemma same_views_ok:
  assumes ok: "agent_ok H A" and v: "same_views A B" and ip: "ip_ok B"
    and m: "\<And>x y. ag_sessions A (ag_master A) = Some x \<Longrightarrow> ag_sessions B (ag_master A) = Some y
      \<Longrightarrow> talks (as_state y) \<Longrightarrow> talks (as_state x) \<or> attached A (ag_master A) x"
  shows "agent_ok H B"
proof -
  have f: "ag_cfg B = ag_cfg A" "ag_master B = ag_master A" "ag_brk B = ag_brk A" "ag_threads B = ag_threads A"
    "ag_ftable B = ag_ftable A"
    using v by (simp_all add: same_views_def)
  have "master_ok B"
  proof -
    obtain x where x: "ag_sessions A (ag_master A) = Some x" "as_passport x = None \<longrightarrow> cfg_prov_code (ag_cfg A) \<noteq> None"
      "talks (as_state x) \<longrightarrow> attached A (ag_master A) x"
      using ok by (auto simp: agent_ok_def master_ok_def talks_def)
    obtain y where y: "ag_sessions B (ag_master A) = Some y" "as_netc y = as_netc x" "as_passport y = as_passport x"
      using same_views_session(1) [OF v x(1)] by blast
    show ?thesis using x y m [OF x(1) y(1)] attached_same [OF v y(2)] f by (auto simp: master_ok_def talks_def)
  qed
  moreover have "threads_ok B"
  proof -
    have "threads_ok A" using ok by (simp add: agent_ok_def)
    then show ?thesis
      unfolding threads_ok_def f by (auto dest!: same_views_conn(2) [OF v] same_views_session(2) [OF v])
  qed
  moreover have "own_conns B"
  proof -
    have o: "own_conns A" using ok by (simp add: agent_ok_def)
    show ?thesis unfolding own_conns_def
    proof (intro allI impI)
      fix n c n' c' s
      assume "ag_conns B n = Some c" "ag_conns B n' = Some c'" "ac_ext_ptr c = Some s" "ac_ext_ptr c' = Some s"
      then obtain d d' where "ag_conns A n = Some d" "ag_conns A n' = Some d'" "ac_ext_ptr d = Some s" "ac_ext_ptr d' = Some s"
        using same_views_conn(2) [OF v] by metis
      with o show "n = n'" unfolding own_conns_def by blast
    qed
  qed
  moreover have "ftable_ok B"
  proof -
    obtain t where t: "ag_ftable A = Some t" "ft.invar t"
      "\<And>mac s. ft.absm t mac = Some s \<Longrightarrow> s \<noteq> ag_master A
         \<and> (\<exists>x. ag_sessions A s = Some x \<and> mac_value (as_mac_dst x) = mac \<and> as_netc x \<noteq> None)"
      using ok by (auto simp: agent_ok_def ftable_ok_def)
    then show ?thesis unfolding ftable_ok_def f using same_views_session(1) [OF v] by metis
  qed
  moreover have "session_ok_ag H B s y" if y: "ag_sessions B s = Some y" for s y
  proof -
    obtain x where x: "ag_sessions A s = Some x" "as_netc y = as_netc x" "as_mac_dst y = as_mac_dst x" "as_passport y = as_passport x"
      using same_views_session(2) [OF v y] by blast
    have "session_ok_ag H A s x" using ok x(1) by (simp add: agent_ok_def)
    then show ?thesis unfolding session_ok_ag_def f x(2-4) using same_views_conn(1) [OF v] by metis
  qed
  moreover have "conn_ok_ag B n d" if d: "ag_conns B n = Some d" for n d
  proof -
    obtain c where c: "ag_conns A n = Some c" "ac_ext_ptr d = ac_ext_ptr c" "ac_p2p d = ac_p2p c" "ac_hooked d = ac_hooked c"
      "ac_passport d = ac_passport c"
      using same_views_conn(2) [OF v d] by blast
    have "conn_ok_ag A n c" using ok c(1) by (simp add: agent_ok_def)
    then show ?thesis unfolding conn_ok_ag_def f c(2-5) using same_views_session(1) [OF v] by metis
  qed
  ultimately show ?thesis using ok ip f unfolding agent_ok_def by simp
qed

text \<open>A connection changes in what the invariant does not tie to anything else.\<close>

lemma conn_update_ok:
  assumes ok: "agent_ok H A" and c: "ag_conns A n = Some c"
    and same: "cview c' = cview c" "ac_rsa c \<Longrightarrow> ac_rsa c'"
  shows "agent_ok H (A\<lparr>ag_conns := (ag_conns A)(n \<mapsto> c')\<rparr>)"
proof (rule same_views_ok [OF ok])
  show "same_views A (A\<lparr>ag_conns := (ag_conns A)(n \<mapsto> c')\<rparr>)"
    using c same by (auto simp: same_views_def)
  show "ip_ok (A\<lparr>ag_conns := (ag_conns A)(n \<mapsto> c')\<rparr>)" using ok by (simp add: agent_ok_def ip_ok_def)
qed simp

text \<open>A session changes its state.\<close>

lemma state_update_ok:
  assumes ok: "agent_ok H A" and s: "ag_sessions A s = Some x"
    and m: "s = ag_master A \<Longrightarrow> talks st \<Longrightarrow> attached A s x"
  shows "agent_ok H (A\<lparr>ag_sessions := (ag_sessions A)(s \<mapsto> x\<lparr>as_state := st\<rparr>)\<rparr>)"
proof (rule same_views_ok [OF ok])
  show "same_views A (A\<lparr>ag_sessions := (ag_sessions A)(s \<mapsto> x\<lparr>as_state := st\<rparr>)\<rparr>)"
    using s by (auto simp: same_views_def sview_def)
  show "ip_ok (A\<lparr>ag_sessions := (ag_sessions A)(s \<mapsto> x\<lparr>as_state := st\<rparr>)\<rparr>)" using ok by (simp add: agent_ok_def ip_ok_def)
qed (use s m in \<open>auto split: if_splits\<close>)

section \<open>What the agent sends\<close>

definition dnm_msg :: "u64 \<Rightarrow> dnop_PR \<Rightarrow> dnop_choice \<Rightarrow> DNDSMessage" where
  "dnm_msg seq operation c = \<lparr>msg_version = 1, msg_channel = 0, pdu_present = pdu_PR_dnm,
     pdu_choice = Dnm \<lparr>dnm_seqNumber = seq, dnm_ackNumber = 0, dnop_present = operation, dnop_choice = c\<rparr>\<rparr>"

lemma dnm_message_eq: "dnm_message seq operation = Some (Some (dnm_msg (ucast seq) operation DnopZero))"
  by (simp add: dnm_message_def dnm_msg_def DNDSMessage_new_def DNDSMessage_set_channel_def DNDSMessage_set_pdu_def
      DNMessage_set_seqNumber_def DNMessage_set_ackNumber_def DNMessage_set_operation_def guard_defs dnm_of_def dnm_put_def dnm_zero_def)

text \<open>The string up to its terminator, as \<open>strdup\<close> copies it, and its length.\<close>

definition string_octets :: "u8 list \<Rightarrow> octets" where
  "string_octets s = \<lparr>obuf = Some (the (cbytes s) @ [0]), osize = int_of_size (of_nat (length (the (cbytes s))))\<rparr>"

definition auth_request_msg :: "u8 list \<Rightarrow> DNDSMessage" where
  "auth_request_msg subj = dnm_msg 1 dnop_PR_authRequest (AuthRequest \<lparr>authRequest_certName = string_octets subj\<rparr>)"

definition prov_request_msg :: "u8 list \<Rightarrow> DNDSMessage" where
  "prov_request_msg code = dnm_msg 1 dnop_PR_provRequest (ProvRequest \<lparr>provRequest_provCode = Some (string_octets code)\<rparr>)"

definition local_addr :: "u8 list \<Rightarrow> octets" where
  "local_addr ip = (case inet_pton (map (\<lambda>c. char_of (unat c)) (the (cbytes ip))) of
     None \<Rightarrow> \<lparr>obuf = Some [0, 0, 0, 0], osize = 0\<rparr> | Some b \<Rightarrow> \<lparr>obuf = Some b, osize = 4\<rparr>)"

definition netinfo_request_msg :: "host \<Rightarrow> DNDSMessage" where
  "netinfo_request_msg H = dnm_msg 0 dnop_PR_netinfoRequest (NetinfoRequest
     \<lparr>netinfoRequest_ipLocal = local_addr (local_ip H),
      netinfoRequest_macAddr = \<lparr>obuf = Some (take 6 (hwaddr H)), osize = 6\<rparr>\<rparr>)"

lemma strlen_split: "terminated s \<Longrightarrow> \<exists>b r. s = b @ 0 # r \<and> cstring b"
  by (metis split_list_first)

lemma cbytes_string [simp]: "cstring b \<Longrightarrow> cbytes (b @ 0 # r) = Some b"
  by (simp add: cbytes_def strlen_append)

lemma string_octets_append [simp]:
  "cstring b \<Longrightarrow> string_octets (b @ 0 # r) = \<lparr>obuf = Some (b @ [0]), osize = int_of_size (of_nat (length b))\<rparr>"
  by (simp add: string_octets_def)

lemma set_certName:
  assumes "terminated subj"
  shows "\<exists>n. strlen subj = Some n \<and> AuthRequest_set_certName al (Some (dnm_msg 1 dnop_PR_authRequest DnopZero)) (Some subj) (of_nat n)
    = Some (DNDS_success, Some (dnm_msg 1 dnop_PR_authRequest (AuthRequest
        \<lparr>authRequest_certName = \<lparr>obuf = (if al 0 then Some (the (cbytes subj) @ [0]) else None), osize = int_of_size (of_nat n)\<rparr>\<rparr>))) \<and> length (the (cbytes subj)) = n"
proof -
  obtain b r where "subj = b @ 0 # r" "cstring b" using strlen_split [OF assms] by blast
  then show ?thesis
    by (auto simp: strlen_append AuthRequest_set_certName_def dnm_msg_def guard_defs union_defs strdup_def authRequest_zero_def)
qed

lemma set_provCode:
  assumes "terminated code"
  shows "\<exists>n. strlen code = Some n \<and> ProvRequest_set_provCode (\<lambda>_. True) (Some (dnm_msg 1 dnop_PR_provRequest DnopZero)) (Some code) (of_nat n)
    = Some (DNDS_success, Some (prov_request_msg code))"
proof -
  obtain b r where "code = b @ 0 # r" "cstring b" using strlen_split [OF assms] by blast
  then show ?thesis
    by (auto simp: strlen_append ProvRequest_set_provCode_def prov_request_msg_def dnm_msg_def guard_defs union_defs
        strdup_def provRequest_zero_def optional_set_string_def)
qed

lemma set_netinfo:
  assumes "terminated (local_ip H)" "6 \<le> length (hwaddr H)"
  shows "\<exists>rc m. NetinfoRequest_set_ipLocal (\<lambda>_. True) (Some (dnm_msg 0 dnop_PR_netinfoRequest DnopZero)) (Some (local_ip H)) = Some (rc, Some m)
    \<and> NetinfoRequest_set_macAddr (\<lambda>_. True) (Some m) (Some (hwaddr H)) = Some (DNDS_success, Some (netinfo_request_msg H))"
proof -
  obtain b r where b: "local_ip H = b @ 0 # r" "cstring b" using strlen_split [OF assms(1)] by blast
  define m where "m = dnm_msg 0 dnop_PR_netinfoRequest (NetinfoRequest
    \<lparr>netinfoRequest_ipLocal = local_addr (local_ip H), netinfoRequest_macAddr = octets_zero\<rparr>)"
  have "\<exists>rc. octets_set_inet True octets_zero (local_ip H) = Some (rc, local_addr (local_ip H))"
    using b by (auto simp: strlen_append octets_set_inet_def local_addr_def octets_zero_def cstr_def split: option.splits)
  then obtain rc where "octets_set_inet True octets_zero (local_ip H) = Some (rc, local_addr (local_ip H))" by blast
  then have "NetinfoRequest_set_ipLocal (\<lambda>_. True) (Some (dnm_msg 0 dnop_PR_netinfoRequest DnopZero)) (Some (local_ip H)) = Some (rc, Some m)"
    by (simp add: NetinfoRequest_set_ipLocal_def m_def dnm_msg_def guard_defs union_defs netinfoRequest_zero_def)
  moreover have "NetinfoRequest_set_macAddr (\<lambda>_. True) (Some m) (Some (hwaddr H)) = Some (DNDS_success, Some (netinfo_request_msg H))"
    using assms(2) by (simp add: NetinfoRequest_set_macAddr_def m_def netinfo_request_msg_def dnm_msg_def guard_defs union_defs
        octets_set_mac_def octets_zero_def memcpy_def)
  ultimately show ?thesis by blast
qed

section \<open>Requests\<close>

text \<open>What a message that has been sent leaves behind.\<close>

definition sent :: "addr \<Rightarrow> DNDSMessage \<Rightarrow> agent \<Rightarrow> agent" where
  "sent n m A = tell (Msg_sent n m) (A\<lparr>ag_nsent := Suc (ag_nsent A)\<rparr>)"

lemma sent_fields [simp]:
  "ag_sessions (sent n m A) = ag_sessions A" "ag_conns (sent n m A) = ag_conns A" "ag_brk (sent n m A) = ag_brk A"
  "ag_master (sent n m A) = ag_master A" "ag_cfg (sent n m A) = ag_cfg A" "ag_ftable (sent n m A) = ag_ftable A"
  "ag_files (sent n m A) = ag_files A" "ag_ip (sent n m A) = ag_ip A" "ag_threads (sent n m A) = ag_threads A"
  "agent_ok H (sent n m A) = agent_ok H A"
  by (simp_all add: sent_def)

lemma netinfo_request_sent:
  assumes "host_ok H" "ag_sessions A s = Some x" "as_netc x = Some n" "ag_conns A n = Some c"
  shows "transmit_netinfo_request H A (Some s) = Some (sent n (netinfo_request_msg H) A)"
proof -
  obtain rc m where m: "NetinfoRequest_set_ipLocal (\<lambda>_. True) (Some (dnm_msg 0 dnop_PR_netinfoRequest DnopZero)) (Some (local_ip H)) = Some (rc, Some m)"
    "NetinfoRequest_set_macAddr (\<lambda>_. True) (Some m) (Some (hwaddr H)) = Some (DNDS_success, Some (netinfo_request_msg H))"
    using set_netinfo assms(1) unfolding host_ok_def by blast
  then show ?thesis using assms by (simp add: transmit_netinfo_request_def dnm_message_eq sent_def)
qed

lemma prov_request_sent:
  assumes "cfg_prov_code (ag_cfg A) = Some code" "terminated code" "ag_conns A n = Some c"
  shows "transmit_prov_request H A n = Some (sent n (prov_request_msg code) A)"
  using set_provCode [OF assms(2)] assms by (auto simp: transmit_prov_request_def dnm_message_eq sent_def)

text \<open>The name is sent; when that fails nothing else happens, else the session waits for the answer and
  the connection is set up for its certificate.\<close>

lemma register_sent:
  assumes c: "ag_conns A n = Some c" "ac_ext_ptr c = Some s" and x: "ag_sessions A s = Some x" "as_netc x = Some n" "as_passport x = Some p"
    and p: "common_name H p = Some subj" "terminated subj" and rsa: "ac_rsa c \<or> ac_passport c \<noteq> None"
  shows "transmit_register H A (Some n) = Some (let B = sent n (auth_request_msg subj) A in
    if msg_result H (ag_nsent A) = - 1 then B
    else let B = B\<lparr>ag_sessions := (ag_sessions A)(s \<mapsto> x\<lparr>as_state := SESSION_STATE_WAIT_ANSWER\<rparr>)\<rparr> in
      if ac_rsa c then B else B\<lparr>ag_conns := (ag_conns A)(n \<mapsto> c\<lparr>ac_rsa := True\<rparr>)\<rparr>)"
proof -
  obtain k where k: "strlen subj = Some k" "AuthRequest_set_certName (\<lambda>_. True) (Some (dnm_msg 1 dnop_PR_authRequest DnopZero)) (Some subj) (of_nat k)
      = Some (DNDS_success, Some (auth_request_msg subj))"
    using set_certName [OF p(2), of "\<lambda>_. True"] by (auto simp: auth_request_msg_def string_octets_def)
  show ?thesis using assms k
    by (auto simp: transmit_register_def dnm_message_eq krypt_set_rsa_def Let_def sent_def upd_as_def upd_ac_def get_ac_def tell_def)
qed

section \<open>A connection and its session\<close>

definition served :: "agent \<Rightarrow> addr \<Rightarrow> addr \<Rightarrow> DNDSMessage list \<Rightarrow> bool \<Rightarrow> bool" where
  "served A n s q b \<longleftrightarrow> map_option (\<lambda>c. (ac_ext_ptr c, ac_queue_msg c)) (ag_conns A n) = Some (Some s, q)
     \<and> map_option as_netc (ag_sessions A s) = Some (Some n) \<and> (s \<noteq> ag_master A) = b"

lemma servedD: "served A n s q b \<Longrightarrow> \<exists>c x. ag_conns A n = Some c \<and> ac_ext_ptr c = Some s \<and> ag_sessions A s = Some x \<and> as_netc x = Some n"
  by (auto simp: served_def)

lemma served_queue: "served A n s q b \<Longrightarrow> ag_conns A n = Some c \<Longrightarrow> ac_queue_msg c = q"
  by (auto simp: served_def)

lemma agent_okD:
  assumes "agent_ok H A"
  shows "ag_sessions A s = Some x \<Longrightarrow> session_ok_ag H A s x" "ag_conns A n = Some c \<Longrightarrow> conn_ok_ag A n c"
    "host_ok H" "cfg_ok (ag_cfg A)" "ip_ok A"
  using assms by (simp_all add: agent_ok_def)

lemma served_p2p:
  assumes "agent_ok H A" "ag_conns A n = Some c" "ac_ext_ptr c = Some s"
  shows "ac_p2p c \<longleftrightarrow> s \<noteq> ag_master A"
  using agent_okD(2) [OF assms(1,2)] assms(3) by (auto simp: conn_ok_ag_def)

lemma served_rsa:
  assumes ok: "agent_ok H A" and c: "ag_conns A n = Some c" "ac_ext_ptr c = Some s" and x: "ag_sessions A s = Some x" "as_netc x = Some n"
    and p: "as_passport x \<noteq> None"
  shows "ac_rsa c \<or> ac_passport c \<noteq> None"
proof (cases "ac_p2p c")
  case True
  then have "s \<noteq> ag_master A" using served_p2p [OF ok c] by simp
  then show ?thesis using agent_okD(1) [OF ok x(1)] x(2) c(1) by (auto simp: session_ok_ag_def)
next
  case False
  then show ?thesis using agent_okD(2) [OF ok c(1)] c(2) x(1) p by (auto simp: conn_ok_ag_def)
qed

lemma register_ok:
  assumes ok: "agent_ok H A" and v: "served A n s q b" and x: "ag_sessions A s = Some x" "as_passport x = Some p"
  shows "\<exists>A'. transmit_register H A (Some n) = Some A' \<and> agent_ok H A' \<and> served A' n s q b
    \<and> ag_files A' = ag_files A \<and> ag_ftable A' = ag_ftable A
    \<and> (msg_result H (ag_nsent A) \<noteq> - 1 \<longrightarrow> map_option as_state (ag_sessions A' s) = Some SESSION_STATE_WAIT_ANSWER)"
proof -
  obtain c where c: "ag_conns A n = Some c" "ac_ext_ptr c = Some s" "as_netc x = Some n"
    using servedD [OF v] x by auto
  obtain subj where p: "common_name H p = Some subj" "terminated subj"
    using agent_okD(1) [OF ok x(1)] x(2) by (auto simp: session_ok_ag_def readable_def)
  have r: "ac_rsa c \<or> ac_passport c \<noteq> None" using served_rsa [OF ok c(1,2) x(1) c(3)] x(2) by simp
  define B where "B = sent n (auth_request_msg subj) A"
  define B1 where "B1 = B\<lparr>ag_sessions := (ag_sessions A)(s \<mapsto> x\<lparr>as_state := SESSION_STATE_WAIT_ANSWER\<rparr>)\<rparr>"
  define A' where "A' = (if msg_result H (ag_nsent A) = - 1 then B
    else let B = B\<lparr>ag_sessions := (ag_sessions A)(s \<mapsto> x\<lparr>as_state := SESSION_STATE_WAIT_ANSWER\<rparr>)\<rparr> in
      if ac_rsa c then B else B\<lparr>ag_conns := (ag_conns A)(n \<mapsto> c\<lparr>ac_rsa := True\<rparr>)\<rparr>)"
  have e: "transmit_register H A (Some n) = Some A'"
    using register_sent [OF c(1,2) x(1) c(3) x(2) p r] by (simp add: A'_def B_def Let_def)
  have okB: "agent_ok H B" using ok by (simp add: B_def)
  have okB1: "agent_ok H B1"
    unfolding B1_def using state_update_ok [OF okB, of s x] x(1) c by (simp add: B_def attached_def)
  have "agent_ok H A'"
  proof (cases "ac_rsa c")
    case True
    with okB okB1 show ?thesis by (simp add: A'_def B1_def)
  next
    case False
    have "agent_ok H (B1\<lparr>ag_conns := (ag_conns B1)(n \<mapsto> c\<lparr>ac_rsa := True\<rparr>)\<rparr>)"
      by (rule conn_update_ok [OF okB1, of n c]) (simp_all add: B1_def B_def c(1) cview_def)
    with False okB show ?thesis by (simp add: A'_def B1_def B_def)
  qed
  moreover have "served A' n s q b"
    using v c x by (simp add: served_def A'_def B_def Let_def)
  moreover have "ag_files A' = ag_files A" "ag_ftable A' = ag_ftable A"
    "msg_result H (ag_nsent A) \<noteq> - 1 \<Longrightarrow> map_option as_state (ag_sessions A' s) = Some SESSION_STATE_WAIT_ANSWER"
    by (simp_all add: A'_def B_def Let_def)
  ultimately show ?thesis using e by blast
qed

section \<open>The address\<close>

lemma same_views_refl: "ag_sessions B = ag_sessions A \<Longrightarrow> ag_conns B = ag_conns A \<Longrightarrow> ag_cfg B = ag_cfg A \<Longrightarrow> ag_master B = ag_master A
    \<Longrightarrow> ag_brk B = ag_brk A \<Longrightarrow> ag_threads B = ag_threads A \<Longrightarrow> ag_ftable B = ag_ftable A \<Longrightarrow> same_views A B"
  by (simp add: same_views_def)

text \<open>Files and the address change.\<close>

lemma files_ok:
  assumes "agent_ok H A" "ag_sessions B = ag_sessions A" "ag_conns B = ag_conns A" "ag_cfg B = ag_cfg A" "ag_master B = ag_master A"
    "ag_brk B = ag_brk A" "ag_threads B = ag_threads A" "ag_ftable B = ag_ftable A" "ip_ok B"
  shows "agent_ok H B"
  by (rule same_views_ok [OF assms(1) same_views_refl [OF assms(2-8)] assms(9)]) (use assms(1,2) in \<open>auto simp: agent_ok_def master_ok_def talks_def\<close>)

lemma scan_ok:
  assumes "length mem = 16" "terminated mem" "length (word_of_file content) < 16"
  shows "\<exists>ip. scan_word mem content = Some ip \<and> length ip = 16 \<and> terminated ip"
  using assms by (auto simp: scan_word_def word_of_file_def overwrite_def Let_def)

lemma ip_update_ok:
  assumes "agent_ok H A" "length ip = 16" "terminated ip"
  shows "agent_ok H (A\<lparr>ag_ip := ip\<rparr>)"
  by (rule files_ok [OF assms(1)]) (use assms in \<open>auto simp: agent_ok_def ip_ok_def\<close>)

lemma op_netinfo_response_ok:
  assumes ok: "agent_ok H A" and v: "served A n s q b"
  shows "\<exists>A'. op_netinfo_response A (Some s) = Some A' \<and> agent_ok H A' \<and> served A' n s q b"
proof (cases "ag_files A (cfg_ip_conf (ag_cfg A))")
  case (Some content)
  obtain c x where x: "ag_conns A n = Some c" "ac_ext_ptr c = Some s" "ag_sessions A s = Some x" "as_netc x = Some n"
    using servedD [OF v] by blast
  obtain ip where ip: "scan_word (ag_ip A) content = Some ip" "length ip = 16" "terminated ip"
    using scan_ok [of "ag_ip A" content] agent_okD(5) [OF ok] Some by (auto simp: ip_ok_def)
  define B where "B = tell (Tap_ipv4 ip) (tell Tap_up (A\<lparr>ag_ip := ip\<rparr>))"
  have B: "agent_ok H B" using ip_update_ok [OF ok ip(2,3)] by (simp add: B_def)
  have "agent_ok H (B\<lparr>ag_sessions := (ag_sessions B)(s \<mapsto> x\<lparr>as_state := SESSION_STATE_AUTHED\<rparr>)\<rparr>)"
    by (rule state_update_ok [OF B]) (use x in \<open>simp_all add: B_def attached_def\<close>)
  then show ?thesis using Some ip x v by (simp add: op_netinfo_response_def B_def Let_def served_def)
qed (use ok v in \<open>simp add: op_netinfo_response_def\<close>)

lemma op_auth_response_ok:
  assumes ok: "agent_ok H A" and v: "served A n s q b"
    and m: "pdu_present msg = pdu_PR_dnm" "pdu_choice msg = Dnm d" "dnop_present d = dnop_PR_authResponse" "dnop_choice d = AuthResponse r"
  shows "\<exists>A'. op_auth_response H A (Some s) msg = Some A' \<and> agent_ok H A' \<and> served A' n s q b"
proof -
  have g: "AuthResponse_get_result (Some msg) True = Some (DNDS_success, Some r)"
    using m by (simp add: AuthResponse_get_result_def guard_defs union_defs)
  obtain c x where x: "ag_conns A n = Some c" "ac_ext_ptr c = Some s" "ag_sessions A s = Some x" "as_netc x = Some n"
    using servedD [OF v] by blast
  show ?thesis
  proof (cases "r = DNDSResult_success")
    case True
    obtain B where B: "(case ag_files A (cfg_ip_conf (ag_cfg A)) of
              None \<Rightarrow> Some A
            | Some content \<Rightarrow> do { ip \<leftarrow> scan_word (ag_ip A) content; Some (A\<lparr>ag_ip := ip\<rparr>) }) = Some B"
      "agent_ok H B" "ag_sessions B = ag_sessions A" "ag_conns B = ag_conns A" "ag_master B = ag_master A"
    proof (cases "ag_files A (cfg_ip_conf (ag_cfg A))")
      case None
      with ok that show ?thesis by simp
    next
      case (Some content)
      obtain ip where ip: "scan_word (ag_ip A) content = Some ip" "length ip = 16" "terminated ip"
        using scan_ok [of "ag_ip A" content] agent_okD(5) [OF ok] Some by (auto simp: ip_ok_def)
      show ?thesis
        by (rule that [of "A\<lparr>ag_ip := ip\<rparr>"]) (simp_all add: Some ip(1) ip_update_ok [OF ok ip(2,3)])
    qed
    have "transmit_netinfo_request H (tell (Ev_connect (ag_ip B)) B) (Some s)
        = Some (sent n (netinfo_request_msg H) (tell (Ev_connect (ag_ip B)) B))"
      by (rule netinfo_request_sent [OF agent_okD(3) [OF ok]]) (use x B in simp_all)
    then show ?thesis using True g x B v by (simp add: op_auth_response_def served_def)
  next
    case False
    with g ok v show ?thesis by (simp add: op_auth_response_def)
  qed
qed

section \<open>Provisioning\<close>

definition string_in :: "octets option \<Rightarrow> u8 list option" where
  "string_in f = Option.bind f obuf"

text \<open>A provisioning answer with a certificate has the key and the trusted certificate too, and the
  host can read the certificate; an address has four bytes.\<close>

definition prov_ok :: "host \<Rightarrow> ProvResponse \<Rightarrow> bool" where
  "prov_ok H r \<longleftrightarrow>
     (\<forall>c. string_in (provResponse_certificate r) = Some c \<longrightarrow>
        (\<exists>k t. string_in (provResponse_certificateKey r) = Some k \<and> string_in (provResponse_trustedCert r) = Some t
           \<and> terminated c \<and> terminated k \<and> terminated t \<and> readable H (the (cbytes c), the (cbytes k), the (cbytes t))))
     \<and> (\<forall>f. provResponse_ipAddress r = Some f \<longrightarrow> (\<exists>b. obuf f = Some b \<and> 4 \<le> length b))"

lemma prov_getters:
  assumes "pdu_choice msg = Dnm d" "dnop_present d = dnop_PR_provResponse" "dnop_choice d = ProvResponse r"
  shows "\<exists>rc v. ProvResponse_get_certificate (Some msg) True True = Some (rc, v) \<and> Option.bind v fst = string_in (provResponse_certificate r)"
    and "\<exists>rc v. ProvResponse_get_certificateKey (Some msg) True True = Some (rc, v) \<and> Option.bind v fst = string_in (provResponse_certificateKey r)"
    and "\<exists>rc v. ProvResponse_get_trustedCert (Some msg) True True = Some (rc, v) \<and> Option.bind v fst = string_in (provResponse_trustedCert r)"
  using assms
  by (auto simp: ProvResponse_get_certificate_def ProvResponse_get_certificateKey_def ProvResponse_get_trustedCert_def
      guard_defs union_defs optional_get_string_def string_in_def split: option.splits)

lemma ascii_dotted: "length (map of_char s :: u8 list) = length s"
  by simp

lemma prov_ip:
  assumes m: "pdu_choice msg = Dnm d" "dnop_present d = dnop_PR_provResponse" "dnop_choice d = ProvResponse r"
    and r: "prov_ok H r" and mem: "length mem = 16" "terminated mem"
  shows "\<exists>rc v ip. ProvResponse_get_ipAddress (Some msg) True = Some (rc, v)
    \<and> (case v of None \<Rightarrow> Some mem | Some t \<Rightarrow> overwrite mem (cmem t)) = Some ip \<and> length ip = 16 \<and> terminated ip"
proof (cases "provResponse_ipAddress r")
  case None
  then have "ProvResponse_get_ipAddress (Some msg) True = Some (DNDS_value_not_present, None)"
    using m by (simp add: ProvResponse_get_ipAddress_def guard_defs union_defs)
  with mem show ?thesis by simp
next
  case (Some f)
  then obtain b where b: "obuf f = Some b" "4 \<le> length b" using r by (auto simp: prov_ok_def)
  obtain b0 b1 b2 b3 r' where bs: "b = b0 # b1 # b2 # b3 # r'"
    using b(2) by (auto simp: numeral_eq_Suc Suc_le_length_iff)
  have "ProvResponse_get_ipAddress (Some msg) True = octets_get_inet f"
    using m Some by (simp add: ProvResponse_get_ipAddress_def guard_defs union_defs)
  also have "\<dots> = Some (if length (dotted b0 b1 b2 b3) < 16 then (DNDS_success, Some (dotted b0 b1 b2 b3)) else (DNDS_conversion_failed, None))"
    using b(1) bs by (simp add: octets_get_inet_def inet_ntop_def Let_def)
  finally show ?thesis using mem by (auto simp: overwrite_def cmem_def)
qed

lemma write_file_run: "terminated s \<Longrightarrow> write_file A name (Some s) = Some (A\<lparr>ag_files := (ag_files A)(name \<mapsto> the (cbytes s))\<rparr>)"
  using cbytes_terminated [of s] by (auto simp: write_file_def)

lemma word_of_file_le: "length (word_of_file content) \<le> length content"
  using length_takeWhile_le le_trans length_dropWhile_le unfolding word_of_file_def by blast

lemma cbytes_length: "terminated s \<Longrightarrow> length (the (cbytes s)) < length s"
  using strlen_split [of s] by auto

lemma attached_cong:
  assumes "ag_conns A n = Some c" "ac_ext_ptr c' = ac_ext_ptr c" "ag_conns B = (ag_conns A)(n \<mapsto> c')" "as_netc y = as_netc x"
  shows "attached B s y = attached A s x"
  using assms by (auto simp: attached_def)

text \<open>The passport of the session and of its connection.\<close>

lemma passport_ok:
  assumes ok: "agent_ok H A" and c: "ag_conns A n = Some c" "ac_ext_ptr c = Some s"
    and x: "ag_sessions A s = Some x" "as_netc x = Some n" and p: "readable H p"
  shows "agent_ok H (A\<lparr>ag_sessions := (ag_sessions A)(s \<mapsto> x\<lparr>as_passport := Some p\<rparr>),
    ag_conns := (ag_conns A)(n \<mapsto> c\<lparr>ac_passport := Some p\<rparr>)\<rparr>)" (is "agent_ok H ?B")
proof -
  have th: "ag_threads A = []" if "s = ag_master A"
    using served_p2p [OF ok c] agent_okD(2) [OF ok c(1)] c(2) that by (simp add: conn_ok_ag_def)
  have a: "attached ?B s' y = attached A s' y'" if "as_netc y = as_netc y'" for s' y y'
    by (rule attached_cong [OF c(1), where c' = "c\<lparr>ac_passport := Some p\<rparr>"]) (simp_all add: that)
  have "master_ok ?B"
  proof -
    obtain y where y: "ag_sessions A (ag_master A) = Some y" "as_passport y = None \<longrightarrow> cfg_prov_code (ag_cfg A) \<noteq> None"
      "talks (as_state y) \<longrightarrow> attached A (ag_master A) y"
      using ok by (auto simp: agent_ok_def master_ok_def talks_def)
    show ?thesis
    proof (cases "s = ag_master A")
      case True
      with y x a [of "x\<lparr>as_passport := Some p\<rparr>" x] show ?thesis by (auto simp: master_ok_def talks_def)
    next
      case False
      with y a [of y y] show ?thesis by (auto simp: master_ok_def talks_def)
    qed
  qed
  moreover have "threads_ok ?B" using ok c x th by (cases "s = ag_master A") (auto simp: agent_ok_def threads_ok_def)
  moreover have "own_conns ?B"
  proof -
    have o: "\<And>n c n' c' s. ag_conns A n = Some c \<Longrightarrow> ag_conns A n' = Some c' \<Longrightarrow> ac_ext_ptr c = Some s
      \<Longrightarrow> ac_ext_ptr c' = Some s \<Longrightarrow> n = n'" using ok unfolding agent_ok_def own_conns_def by blast
    show ?thesis unfolding own_conns_def using o c by (auto split: if_splits)
  qed
  moreover have "ftable_ok ?B" using ok x by (fastforce simp: agent_ok_def ftable_ok_def)
  moreover have "session_ok_ag H ?B s' x'" if x': "ag_sessions ?B s' = Some x'" for s' x'
  proof -
    obtain y where y: "ag_sessions A s' = Some y" "as_netc x' = as_netc y" "as_mac_dst x' = as_mac_dst y"
      "as_passport x' = as_passport y \<or> as_passport x' = Some p"
      using x' x(1) by (auto split: if_splits)
    have fwd: "\<exists>d'. ag_conns ?B k = Some d' \<and> ac_p2p d' = ac_p2p d \<and> ac_ext_ptr d' = ac_ext_ptr d \<and> ac_rsa d' = ac_rsa d"
      if "ag_conns A k = Some d" for k d
      using that c(1) by auto
    have "session_ok_ag H A s' y" by (rule agent_okD(1) [OF ok y(1)])
    then have f: "s' < ag_brk A" "length (as_mac_dst y) = 6" "\<And>q. as_passport y = Some q \<Longrightarrow> readable H q"
      "\<And>k. s' \<noteq> ag_master A \<Longrightarrow> as_netc y = Some k \<Longrightarrow> \<exists>d. ag_conns A k = Some d \<and> ac_p2p d \<and> ac_ext_ptr d = Some s' \<and> ac_rsa d"
      unfolding session_ok_ag_def by blast+
    have "\<exists>d. ag_conns ?B k = Some d \<and> ac_p2p d \<and> ac_ext_ptr d = Some s' \<and> ac_rsa d"
      if "s' \<noteq> ag_master A" "as_netc y = Some k" for k
      using f(4) [OF that] fwd by metis
    moreover have "readable H q" if "as_passport x' = Some q" for q using y(4) f(3) [of q] p that by (metis option.inject)
    ultimately show ?thesis using f(1,2) y(2,3) by (auto simp: session_ok_ag_def)
  qed
  moreover have "conn_ok_ag ?B n' c'" if c': "ag_conns ?B n' = Some c'" for n' c'
  proof (cases "n' = n")
    case True
    then have "c' = c\<lparr>ac_passport := Some p\<rparr>" using c' by simp
    moreover have "conn_ok_ag A n c" by (rule agent_okD(2) [OF ok c(1)])
    ultimately show ?thesis using True c x by (auto simp: conn_ok_ag_def)
  next
    case False
    then have a: "ag_conns A n' = Some c'" using c' by simp
    then have "ac_ext_ptr c' \<noteq> Some s" using ok c False unfolding agent_ok_def own_conns_def by blast
    then show ?thesis using agent_okD(2) [OF ok a] by (auto simp: conn_ok_ag_def)
  qed
  ultimately show ?thesis using agent_okD(3-5) [OF ok] by (simp add: agent_ok_def ip_ok_def)
qed

lemma op_prov_response_ok:
  assumes ok: "agent_ok H A" and v: "served A n s q b"
    and m: "pdu_choice msg = Dnm d" "dnop_present d = dnop_PR_provResponse" "dnop_choice d = ProvResponse r" "prov_ok H r"
  shows "\<exists>A'. op_prov_response H A (Some s) msg = Some A' \<and> agent_ok H A' \<and> served A' n s q b \<and> ag_ftable A' = ag_ftable A
    \<and> (\<forall>cert key tr. string_in (provResponse_certificate r) = Some cert \<longrightarrow> string_in (provResponse_certificateKey r) = Some key
         \<longrightarrow> string_in (provResponse_trustedCert r) = Some tr \<longrightarrow> (\<forall>f. can_write H f) \<longrightarrow>
         ag_files A' (cfg_certificate (ag_cfg A)) = cbytes cert \<and> ag_files A' (cfg_privatekey (ag_cfg A)) = cbytes key
         \<and> ag_files A' (cfg_trusted_cert (ag_cfg A)) = cbytes tr
         \<and> (msg_result H (ag_nsent A) \<noteq> - 1 \<longrightarrow> map_option as_state (ag_sessions A' s) = Some SESSION_STATE_WAIT_ANSWER))"
proof (cases "string_in (provResponse_certificate r)")
  case None
  then show ?thesis using prov_getters(1) [OF m(1-3)] ok v by (auto simp: op_prov_response_def)
next
  case (Some cert)
  then obtain key tr where f: "string_in (provResponse_certificateKey r) = Some key" "string_in (provResponse_trustedCert r) = Some tr"
    "terminated cert" "terminated key" "terminated tr" "readable H (the (cbytes cert), the (cbytes key), the (cbytes tr))"
    using m(4) by (auto simp: prov_ok_def)
  define cfg where "cfg = ag_cfg A"
  have dist: "distinct [cfg_certificate cfg, cfg_privatekey cfg, cfg_trusted_cert cfg, cfg_ip_conf cfg]"
    using agent_okD(4) [OF ok] by (simp add: cfg_ok_def cfg_def)
  have ip0: "ip_ok A" by (rule agent_okD(5) [OF ok])
  obtain rc1 v1 where g1: "ProvResponse_get_certificate (Some msg) True True = Some (rc1, v1)" "Option.bind v1 fst = Some cert"
    using prov_getters(1) [OF m(1-3)] Some by auto
  obtain rc2 v2 where g2: "ProvResponse_get_certificateKey (Some msg) True True = Some (rc2, v2)" "Option.bind v2 fst = Some key"
    using prov_getters(2) [OF m(1-3)] f by auto
  obtain rc3 v3 where g3: "ProvResponse_get_trustedCert (Some msg) True True = Some (rc3, v3)" "Option.bind v3 fst = Some tr"
    using prov_getters(3) [OF m(1-3)] f by auto
  obtain rc4 v4 ip where g4: "ProvResponse_get_ipAddress (Some msg) True = Some (rc4, v4)"
    "(case v4 of None \<Rightarrow> Some (ag_ip A) | Some t \<Rightarrow> overwrite (ag_ip A) (cmem t)) = Some ip" "length ip = 16" "terminated ip"
    using prov_ip [OF m, of "ag_ip A"] ip0 by (auto simp: ip_ok_def)
  define A1 where "A1 = A\<lparr>ag_files := (ag_files A)(cfg_certificate cfg \<mapsto> the (cbytes cert))\<rparr>"
  define A2 where "A2 = A1\<lparr>ag_files := (ag_files A1)(cfg_privatekey cfg \<mapsto> the (cbytes key))\<rparr>"
  define A3 where "A3 = A2\<lparr>ag_files := (ag_files A2)(cfg_trusted_cert cfg \<mapsto> the (cbytes tr))\<rparr>"
  define A4 where "A4 = A3\<lparr>ag_ip := ip\<rparr>"
  define A5 where "A5 = A4\<lparr>ag_files := (ag_files A4)(cfg_ip_conf cfg \<mapsto> the (cbytes ip))\<rparr>"
  note defs = A1_def A2_def A3_def A4_def A5_def
  have same: "ag_sessions B = ag_sessions A" "ag_conns B = ag_conns A" "ag_cfg B = ag_cfg A" "ag_master B = ag_master A" if "B \<in> {A1, A2, A3, A4, A5}" for B
    using that by (auto simp: defs)
  have short: "length (word_of_file (the (cbytes ip))) < 16"
    using word_of_file_le [of "the (cbytes ip)"] cbytes_length [OF g4(4)] g4(3) by linarith
  have ok1: "agent_ok H A1" by (rule files_ok [OF ok]) (use ip0 dist in \<open>auto simp: A1_def ip_ok_def cfg_def\<close>)
  have ok2: "agent_ok H A2" by (rule files_ok [OF ok1]) (use ip0 dist in \<open>auto simp: A1_def A2_def ip_ok_def cfg_def\<close>)
  have ok3: "agent_ok H A3" by (rule files_ok [OF ok2]) (use ip0 dist in \<open>auto simp: A1_def A2_def A3_def ip_ok_def cfg_def\<close>)
  have ok4: "agent_ok H A4" unfolding A4_def by (rule ip_update_ok [OF ok3 g4(3,4)])
  have ok5: "agent_ok H A5" by (rule files_ok [OF ok4]) (use g4 short in \<open>simp_all add: defs ip_ok_def cfg_def\<close>)
  have served: "served B n s q b" if "B \<in> {A1, A2, A3, A4, A5}" for B using v same [OF that] by (simp add: served_def)
  define p where "p = (the (cbytes cert), the (cbytes key), the (cbytes tr))"
  have load: "load_passport A5 = Some p" using dist by (simp add: load_passport_def defs cfg_def p_def)
  obtain c x where x: "ag_conns A n = Some c" "ac_ext_ptr c = Some s" "ag_sessions A s = Some x" "as_netc x = Some n"
    using servedD [OF v] by blast
  have x5: "ag_conns A5 n = Some c" "ag_sessions A5 s = Some x" using x same [of A5] by simp_all
  define A6 where "A6 = A5\<lparr>ag_sessions := (ag_sessions A5)(s \<mapsto> x\<lparr>as_passport := Some p\<rparr>),
    ag_conns := (ag_conns A5)(n \<mapsto> c\<lparr>ac_passport := Some p\<rparr>)\<rparr>"
  have ok6: "agent_ok H A6" unfolding A6_def by (rule passport_ok [OF ok5 x5(1) x(2) x5(2) x(4)]) (use f p_def in simp)
  have "served A6 n s q b" using x v same [of A5] by (simp add: A6_def served_def)
  from register_ok [OF ok6 this, of "x\<lparr>as_passport := Some p\<rparr>" p] obtain A' where
    A': "transmit_register H A6 (Some n) = Some A'" "agent_ok H A'" "served A' n s q b" "ag_files A' = ag_files A6"
      "ag_ftable A' = ag_ftable A6"
      "msg_result H (ag_nsent A6) \<noteq> - 1 \<Longrightarrow> map_option as_state (ag_sessions A' s) = Some SESSION_STATE_WAIT_ANSWER"
    by (auto simp: A6_def)
  have go: "op_prov_response H A (Some s) msg =
    (if \<not> can_write H (cfg_certificate cfg) then Some A else if \<not> can_write H (cfg_privatekey cfg) then Some A1
     else if \<not> can_write H (cfg_trusted_cert cfg) then Some A2 else if \<not> can_write H (cfg_ip_conf cfg) then Some A4
     else transmit_register H A6 (Some n))"
    using g1 g2 g3 g4 f x x5 load A6_def
    by (cases v4) (simp_all add: op_prov_response_def write_file_run Let_def defs cfg_def)
  have bytes: "Some (the (cbytes u)) = cbytes u" if "terminated u" for u using cbytes_terminated [OF that] by auto
  have stored: "ag_files A' (cfg_certificate cfg) = cbytes cert" "ag_files A' (cfg_privatekey cfg) = cbytes key"
    "ag_files A' (cfg_trusted_cert cfg) = cbytes tr"
    using dist f(3-5) by (simp_all add: A'(4) A6_def defs bytes)
  have ft: "ag_ftable A' = ag_ftable A" "ag_nsent A6 = ag_nsent A" by (simp_all add: A'(5) A6_def defs)
  have "ag_ftable A1 = ag_ftable A" "ag_ftable A2 = ag_ftable A" "ag_ftable A4 = ag_ftable A" by (simp_all add: defs)
  with ok v ok1 ok2 ok4 served [of A1] served [of A2] served [of A4] A' stored ft f Some show ?thesis unfolding go
    by (auto simp: cfg_def)
qed

section \<open>Introductions\<close>

definition p2p_ok :: "P2pRequest \<Rightarrow> bool" where
  "p2p_ok r \<longleftrightarrow> (\<exists>b. obuf (p2pRequest_macAddrDst r) = Some b \<and> 6 \<le> length b)
     \<and> (\<exists>b. obuf (p2pRequest_ipAddrDst r) = Some b \<and> 4 \<le> length b)"

definition p2p_mac :: "P2pRequest \<Rightarrow> u8 list" where
  "p2p_mac r = take 6 (the (obuf (p2pRequest_macAddrDst r)))"

definition p2p_ip :: "P2pRequest \<Rightarrow> string" where
  "p2p_ip r = (case the (obuf (p2pRequest_ipAddrDst r)) of b0 # b1 # b2 # b3 # _ \<Rightarrow> dotted b0 b1 b2 b3 | _ \<Rightarrow> [])"

text \<open>A session and its connection for the agent the message names, with the passport of the session the
  message came on.\<close>

definition introduced :: "agent \<Rightarrow> agent_session \<Rightarrow> P2pRequest \<Rightarrow> agent" where
  "introduced A x r = tell (Rendezvous (Suc (ag_brk A)) (p2p_ip r) (port_text (ucast (p2pRequest_port r))) (p2pRequest_side r))
     (A\<lparr>ag_sessions := (ag_sessions A)(ag_brk A \<mapsto>
          \<lparr>as_passport = as_passport x, as_netc = None, as_mac_dst = p2p_mac r, as_state = 0\<rparr>),
        ag_conns := (ag_conns A)(Suc (ag_brk A) \<mapsto>
          \<lparr>ac_ext_ptr = Some (ag_brk A), ac_p2p = True, ac_hooked = True, ac_rsa = False,
           ac_passport = as_passport x, ac_queue_msg = []\<rparr>),
        ag_brk := Suc (Suc (ag_brk A))\<rparr>)"

lemma dotted_short: "length (dotted b0 b1 b2 b3) < 16"
proof -
  have d: "length (dec_nat n) \<le> 3" if "n < 256" for n
  proof -
    have "n div 10 < 100" "n div 10 div 10 < 10" using that by simp_all
    then show ?thesis using that
      by (subst dec_nat.simps) (auto simp: dec_nat.simps [of "n div 10"] dec_nat.simps [of "n div 10 div 10"])
  qed
  have u: "unat (b::u8) < 256" for b using unsigned_less [of b] by simp
  show ?thesis using d [OF u, of b0] d [OF u, of b1] d [OF u, of b2] d [OF u, of b3] by (simp add: dotted_def)
qed

lemma p2p_request_run:
  assumes m: "pdu_present msg = pdu_PR_dnm" "pdu_choice msg = Dnm d" "dnop_present d = dnop_PR_p2pRequest" "dnop_choice d = P2pRequest r"
    and r: "p2p_ok r" and x: "ag_sessions A s = Some x"
  shows "op_p2p_request A (Some s) msg = Some (introduced A x r)"
proof -
  obtain b where b: "obuf (p2pRequest_macAddrDst r) = Some b" "6 \<le> length b" using r by (auto simp: p2p_ok_def)
  obtain a where a: "obuf (p2pRequest_ipAddrDst r) = Some a" "4 \<le> length a" using r by (auto simp: p2p_ok_def)
  obtain b0 b1 b2 b3 r' where bs: "a = b0 # b1 # b2 # b3 # r'"
    using a(2) by (auto simp: numeral_eq_Suc Suc_le_length_iff)
  have "P2pRequest_get_macAddrDst (Some msg) = Some (DNDS_success, Some (p2p_mac r))"
    using m b by (simp add: P2pRequest_get_macAddrDst_def guard_defs union_defs memcpy_def p2p_mac_def)
  moreover have "P2pRequest_get_ipAddrDst (Some msg) True = Some (DNDS_success, Some (p2p_ip r))"
    using m a bs dotted_short by (simp add: P2pRequest_get_ipAddrDst_def guard_defs union_defs octets_get_inet_def inet_ntop_def
        p2p_ip_def Let_def)
  moreover have "P2pRequest_get_port (Some msg) True = Some (DNDS_success, Some (ucast (p2pRequest_port r)))"
    using m by (simp add: P2pRequest_get_port_def guard_defs union_defs)
  moreover have "P2pRequest_get_side (Some msg) True = Some (DNDS_success, Some (p2pRequest_side r))"
    using m by (simp add: P2pRequest_get_side_def guard_defs union_defs)
  ultimately show ?thesis using x by (simp add: op_p2p_request_def introduced_def Let_def)
qed

lemma fresh_addresses:
  assumes "agent_ok H A" "ag_brk A \<le> a"
  shows "ag_sessions A a = None" "ag_conns A a = None" "ag_master A \<noteq> a"
proof -
  show "ag_sessions A a = None" using agent_okD(1) [OF assms(1), of a] assms(2)
    by (cases "ag_sessions A a") (auto simp: session_ok_ag_def)
  then show "ag_master A \<noteq> a" using assms(1) by (auto simp: agent_ok_def master_ok_def)
  show "ag_conns A a = None" using agent_okD(2) [OF assms(1), of a] assms(2)
    by (cases "ag_conns A a") (auto simp: conn_ok_ag_def)
qed

lemma introduced_ok:
  assumes ok: "agent_ok H A" and x: "ag_sessions A s = Some x" and r: "p2p_ok r"
  shows "agent_ok H (introduced A x r)" (is "agent_ok H ?B")
proof -
  define b where "b = ag_brk A"
  note new = fresh_addresses [OF ok, of b] fresh_addresses [OF ok, of "Suc b"]
  have f: "ag_sessions ?B = (ag_sessions A)(b \<mapsto> \<lparr>as_passport = as_passport x, as_netc = None, as_mac_dst = p2p_mac r, as_state = 0\<rparr>)"
    "ag_conns ?B = (ag_conns A)(Suc b \<mapsto> \<lparr>ac_ext_ptr = Some b, ac_p2p = True, ac_hooked = True, ac_rsa = False,
           ac_passport = as_passport x, ac_queue_msg = []\<rparr>)" "ag_brk ?B = Suc (Suc b)"
    "ag_master ?B = ag_master A" "ag_cfg ?B = ag_cfg A" "ag_ftable ?B = ag_ftable A" "ag_files ?B = ag_files A" "ag_ip ?B = ag_ip A"
    "ag_threads ?B = ag_threads A"
    by (simp_all add: introduced_def b_def)
  have fresh: "ag_sessions A b = None" "ag_conns A (Suc b) = None" "ag_master A \<noteq> b" using new by (simp_all add: b_def)
  have keep: "ag_sessions ?B s' = Some y" if "ag_sessions A s' = Some y" for s' y using that fresh(1) by (auto simp: f)
  have keepc: "ag_conns ?B k = Some d" if "ag_conns A k = Some d" for k d using that fresh(2) by (auto simp: f)
  have "master_ok ?B"
  proof -
    obtain y where y: "ag_sessions A (ag_master A) = Some y" "as_passport y = None \<longrightarrow> cfg_prov_code (ag_cfg A) \<noteq> None"
      "talks (as_state y) \<longrightarrow> attached A (ag_master A) y"
      using ok by (auto simp: agent_ok_def master_ok_def talks_def)
    have "attached A (ag_master A) y \<Longrightarrow> attached ?B (ag_master A) y" using keepc by (fastforce simp: attached_def)
    with y keep [OF y(1)] show ?thesis by (auto simp: master_ok_def talks_def f(4,5))
  qed
  moreover have "threads_ok ?B"
  proof -
    have "threads_ok A" using ok by (simp add: agent_ok_def)
    moreover have "n < b \<Longrightarrow> n < Suc (Suc b)" "n < b \<Longrightarrow> n \<noteq> Suc b" for n :: nat by simp_all
    ultimately show ?thesis using fresh(3) unfolding threads_ok_def f by (auto simp: b_def split: if_splits)
  qed
  moreover have "own_conns ?B"
  proof -
    have o: "\<And>n c n' c' s. ag_conns A n = Some c \<Longrightarrow> ag_conns A n' = Some c' \<Longrightarrow> ac_ext_ptr c = Some s
      \<Longrightarrow> ac_ext_ptr c' = Some s \<Longrightarrow> n = n'" using ok unfolding agent_ok_def own_conns_def by blast
    have nob: "ac_ext_ptr c \<noteq> Some b" if "ag_conns A n = Some c" for n c
      using agent_okD(2) [OF ok that] fresh by (cases "ac_p2p c") (auto simp: conn_ok_ag_def)
    show ?thesis unfolding own_conns_def f using o nob by (auto split: if_splits)
  qed
  moreover have "ftable_ok ?B"
  proof -
    obtain t where t: "ag_ftable A = Some t" "ft.invar t"
      "\<And>mac s. ft.absm t mac = Some s \<Longrightarrow> s \<noteq> ag_master A
         \<and> (\<exists>x. ag_sessions A s = Some x \<and> mac_value (as_mac_dst x) = mac \<and> as_netc x \<noteq> None)"
      using ok by (auto simp: agent_ok_def ftable_ok_def)
    then show ?thesis unfolding ftable_ok_def f(4,6) using keep by metis
  qed
  moreover have "session_ok_ag H ?B s' y" if y: "ag_sessions ?B s' = Some y" for s' y
  proof (cases "s' = b")
    case True
    have "length (p2p_mac r) = 6" using r by (auto simp: p2p_ok_def p2p_mac_def)
    with True y agent_okD(1) [OF ok x] show ?thesis by (auto simp: session_ok_ag_def f)
  next
    case False
    then have a: "ag_sessions A s' = Some y" using y by (simp add: f)
    then show ?thesis using agent_okD(1) [OF ok a] keepc by (auto simp: session_ok_ag_def f(3,4) b_def less_Suc_eq)
  qed
  moreover have "conn_ok_ag ?B k d" if d: "ag_conns ?B k = Some d" for k d
  proof (cases "k = Suc b")
    case True
    with d fresh show ?thesis by (auto simp: conn_ok_ag_def f)
  next
    case False
    then have a: "ag_conns A k = Some d" using d by (simp add: f)
    then show ?thesis using agent_okD(2) [OF ok a] keep by (fastforce simp: conn_ok_ag_def f(3,4,9) b_def less_Suc_eq)
  qed
  ultimately show ?thesis using agent_okD(3-5) [OF ok] by (simp add: agent_ok_def ip_ok_def f)
qed

lemma introduced_served: "agent_ok H A \<Longrightarrow> served A n s q b \<Longrightarrow> served (introduced A x r) n s q b"
  using fresh_addresses [of H A] by (auto simp: served_def introduced_def)

end
