(* ===== verification/Agent_Events.thy ===== *)
theory Agent_Events
  imports Agent_Inv
begin

text \<open>
  The agent as a whole: connections that come and go, the inputs that reach it from the interface,
  the network layer and its own threads, and the states such inputs lead to.
\<close>

section \<open>Connections that end\<close>

lemma own_connsD:
  "agent_ok H A \<Longrightarrow> ag_conns A n = Some c \<Longrightarrow> ag_conns A n' = Some c' \<Longrightarrow> ac_ext_ptr c = Some s \<Longrightarrow> ac_ext_ptr c' = Some s \<Longrightarrow> n = n'"
  unfolding agent_ok_def own_conns_def by blast

lemma masterD:
  assumes "agent_ok H A"
  obtains x where "ag_sessions A (ag_master A) = Some x" "as_passport x = None \<longrightarrow> cfg_prov_code (ag_cfg A) \<noteq> None"
    "talks (as_state x) \<longrightarrow> attached A (ag_master A) x"
  using assms by (auto simp: agent_ok_def master_ok_def talks_def)

lemma attached_drop:
  assumes "attached A s x" "ag_conns A n = Some c" "ac_ext_ptr c \<noteq> Some s" "ag_conns B = (ag_conns A)(n := None)"
  shows "attached B s x"
proof -
  obtain k where k: "as_netc x = Some k" "map_option ac_ext_ptr (ag_conns A k) = Some (Some s)" using assms(1) by (auto simp: attached_def)
  then have "k \<noteq> n" using assms(2,3) by auto
  with k show ?thesis by (simp add: attached_def assms(4))
qed

lemma ftableD:
  assumes "agent_ok H A"
  obtains t where "ag_ftable A = Some t" "ft.invar t"
    "\<And>mac s. ft.absm t mac = Some s \<Longrightarrow> s \<noteq> ag_master A \<and> (\<exists>x. ag_sessions A s = Some x \<and> mac_value (as_mac_dst x) = mac \<and> as_netc x \<noteq> None)"
  using assms by (auto simp: agent_ok_def ftable_ok_def)

lemma ftable_okI:
  assumes "ag_ftable B = Some t" "ft.invar t"
    "\<And>mac s. ft.absm t mac = Some s \<Longrightarrow> s \<noteq> ag_master B \<and> (\<exists>x. ag_sessions B s = Some x \<and> mac_value (as_mac_dst x) = mac \<and> as_netc x \<noteq> None)"
  shows "ftable_ok B"
  using assms by (auto simp: ftable_ok_def)

text \<open>A session with another agent is released with its connection.\<close>

lemma p2p_gone_ok:
  assumes ok: "agent_ok H A" and c: "ag_conns A n = Some c" "ac_ext_ptr c = Some s" "s \<noteq> ag_master A"
    and B: "ag_sessions B = (ag_sessions A)(s := None)" "ag_conns B = (ag_conns A)(n := None)" "ag_brk B = ag_brk A"
      "ag_master B = ag_master A" "ag_cfg B = ag_cfg A" "ag_files B = ag_files A" "ag_ip B = ag_ip A" "ag_threads B = ag_threads A"
    and t: "ag_ftable A = Some t" "ag_ftable B = Some t'" "ft.invar t'" "\<And>mac s'. ft.absm t' mac = Some s' \<Longrightarrow> ft.absm t mac = Some s' \<and> s' \<noteq> s"
  shows "agent_ok H B"
proof -
  have other: "k \<noteq> n" if "ag_conns A k = Some d" "ac_ext_ptr d = Some s'" "s' \<noteq> s" for k d s' using that c by auto
  have "master_ok B"
  proof -
    obtain y where y: "ag_sessions A (ag_master A) = Some y" "as_passport y = None \<longrightarrow> cfg_prov_code (ag_cfg A) \<noteq> None"
      "talks (as_state y) \<longrightarrow> attached A (ag_master A) y" by (rule masterD [OF ok])
    have "attached A (ag_master A) y \<Longrightarrow> attached B (ag_master A) y"
      by (rule attached_drop [OF _ c(1) _ B(2)]) (use c in simp_all)
    with y c(3) show ?thesis by (auto simp: master_ok_def talks_def B)
  qed
  moreover have "threads_ok B" using ok c(3) unfolding agent_ok_def threads_ok_def B by (auto split: if_splits)
  moreover have "own_conns B" using ok unfolding agent_ok_def own_conns_def B by (auto split: if_splits)
  moreover have "ftable_ok B"
  proof -
    have e: "ft.absm t mac = Some s' \<Longrightarrow> s' \<noteq> ag_master A \<and> (\<exists>x. ag_sessions A s' = Some x \<and> mac_value (as_mac_dst x) = mac \<and> as_netc x \<noteq> None)" for mac s'
      using ok t(1) by (auto simp: agent_ok_def ftable_ok_def)
    show ?thesis
    proof (rule ftable_okI [OF t(2,3)])
      fix mac s' assume "ft.absm t' mac = Some s'"
      with t(4) [OF this] e [of mac s'] show "s' \<noteq> ag_master B \<and> (\<exists>x. ag_sessions B s' = Some x \<and> mac_value (as_mac_dst x) = mac \<and> as_netc x \<noteq> None)"
        by (simp add: B)
    qed
  qed
  moreover have "session_ok_ag H B s' y" if y: "ag_sessions B s' = Some y" for s' y
  proof -
    have a: "ag_sessions A s' = Some y" "s' \<noteq> s" using y by (auto simp: B split: if_splits)
    show ?thesis using agent_okD(1) [OF ok a(1)] other [OF _ _ a(2)] unfolding session_ok_ag_def B by (metis fun_upd_other)
  qed
  moreover have "conn_ok_ag B k d" if d: "ag_conns B k = Some d" for k d
  proof -
    have a: "ag_conns A k = Some d" "k \<noteq> n" using d by (auto simp: B split: if_splits)
    then have "ac_ext_ptr d \<noteq> Some s" using own_connsD [OF ok c(1)] c(2) by blast
    then show ?thesis using agent_okD(2) [OF ok a(1)] unfolding conn_ok_ag_def B by (metis fun_upd_other)
  qed
  ultimately show ?thesis using agent_okD(3-5) [OF ok] by (simp add: agent_ok_def ip_ok_def B)
qed

text \<open>The connection to the switch goes: the session stays, and is no longer served.\<close>

lemma server_gone_ok:
  assumes ok: "agent_ok H A" and c: "ag_conns A n = Some c" "\<not> ac_p2p c" and x: "ag_sessions A (ag_master A) = Some x"
    and y: "as_mac_dst y = as_mac_dst x" "as_passport y = as_passport x" "ac_ext_ptr c \<noteq> None \<and> \<not> talks (as_state y) \<or> ac_ext_ptr c = None \<and> y = x"
    and B: "ag_sessions B = (ag_sessions A)(ag_master A \<mapsto> y)" "ag_conns B = (ag_conns A)(n := None)" "ag_brk B = ag_brk A"
      "ag_master B = ag_master A" "ag_cfg B = ag_cfg A" "ag_files B = ag_files A" "ag_ip B = ag_ip A" "ag_ftable B = ag_ftable A"
      "ag_threads B = ag_threads A \<or> ag_threads B = [(ag_master A, None)] \<and> ac_ext_ptr c \<noteq> None"
  shows "agent_ok H B"
proof -
  have "conn_ok_ag A n c" by (rule agent_okD(2) [OF ok c(1)])
  then have ext: "ac_ext_ptr c = None \<or> ac_ext_ptr c = Some (ag_master A) \<and> ag_threads A = []"
    using c(2) by (cases "ac_ext_ptr c") (auto simp: conn_ok_ag_def)
  have "master_ok B"
  proof -
    have m: "as_passport x = None \<longrightarrow> cfg_prov_code (ag_cfg A) \<noteq> None" "talks (as_state x) \<longrightarrow> attached A (ag_master A) x"
      using ok x by (auto simp: agent_ok_def master_ok_def talks_def)
    have "attached B (ag_master A) x" if "attached A (ag_master A) x" "ac_ext_ptr c = None"
      using attached_drop [OF that(1) c(1) _ B(2)] that(2) by simp
    then show ?thesis using m y by (auto simp: master_ok_def talks_def B)
  qed
  moreover have "threads_ok B"
  proof (cases "ag_threads B = ag_threads A \<and> ag_threads A \<noteq> []")
    case True
    then have "y = x" using ext y(3) by auto
    moreover have "threads_ok A" using ok by (simp add: agent_ok_def)
    ultimately show ?thesis using True x unfolding threads_ok_def B by (auto simp: B split: if_splits)
  next
    case False
    then show ?thesis using B(9) by (auto simp: threads_ok_def B(4))
  qed
  moreover have "own_conns B" using ok unfolding agent_ok_def own_conns_def B by (auto split: if_splits)
  moreover have "ftable_ok B"
  proof -
    obtain t where t: "ag_ftable A = Some t" "ft.invar t"
      "\<And>mac s. ft.absm t mac = Some s \<Longrightarrow> s \<noteq> ag_master A \<and> (\<exists>x. ag_sessions A s = Some x \<and> mac_value (as_mac_dst x) = mac \<and> as_netc x \<noteq> None)"
      by (rule ftableD [OF ok]) blast
    show ?thesis
    proof (rule ftable_okI [OF _ t(2)])
      fix mac s assume "ft.absm t mac = Some s"
      with t(3) [OF this] show "s \<noteq> ag_master B \<and> (\<exists>x. ag_sessions B s = Some x \<and> mac_value (as_mac_dst x) = mac \<and> as_netc x \<noteq> None)"
        by (simp add: B)
    qed (simp add: B t(1))
  qed
  moreover have "session_ok_ag H B s' y'" if y': "ag_sessions B s' = Some y'" for s' y'
  proof (cases "s' = ag_master A")
    case True
    then have "y' = y" using y' by (simp add: B)
    with True agent_okD(1) [OF ok x] y show ?thesis by (auto simp: session_ok_ag_def B)
  next
    case False
    then have a: "ag_sessions A s' = Some y'" using y' by (simp add: B)
    have f: "\<exists>d. ag_conns B k = Some d \<and> ac_p2p d \<and> ac_ext_ptr d = Some s' \<and> ac_rsa d" if netc: "as_netc y' = Some k" for k
    proof -
      obtain d where d: "ag_conns A k = Some d" "ac_p2p d" "ac_ext_ptr d = Some s'" "ac_rsa d"
        using agent_okD(1) [OF ok a] False netc by (auto simp: session_ok_ag_def)
      then have "k \<noteq> n" using c by auto
      with d show ?thesis by (simp add: B)
    qed
    show ?thesis using agent_okD(1) [OF ok a] f by (simp add: session_ok_ag_def B)
  qed
  moreover have "conn_ok_ag B k d" if d: "ag_conns B k = Some d" for k d
  proof -
    have a: "ag_conns A k = Some d" "k \<noteq> n" using d by (auto simp: B split: if_splits)
    have k: "conn_ok_ag A k d" by (rule agent_okD(2) [OF ok a(1)])
    have none: "ac_ext_ptr d \<noteq> Some (ag_master A)" if "ac_ext_ptr c \<noteq> None"
      using own_connsD [OF ok c(1) a(1)] a(2) ext that by blast
    show ?thesis
    proof (cases "ac_p2p d")
      case True
      with k show ?thesis unfolding conn_ok_ag_def B by auto
    next
      case False
      show ?thesis
      proof (cases "ac_ext_ptr d")
        case None
        with False k show ?thesis by (simp add: conn_ok_ag_def B)
      next
        case (Some s')
        then have "s' = ag_master A" using k False by (simp add: conn_ok_ag_def)
        with none Some have "ac_ext_ptr c = None" by (cases "ac_ext_ptr c") auto
        with y(3) B(9) have "y = x" "ag_threads B = ag_threads A" by simp_all
        with k x show ?thesis unfolding conn_ok_ag_def B by auto
      qed
    qed
  qed
  ultimately show ?thesis using agent_okD(3-5) [OF ok] by (simp add: agent_ok_def ip_ok_def B)
qed

text \<open>The session that can be reached directly under the destination of a frame.\<close>

definition peer_for :: "agent \<Rightarrow> u8 list \<Rightarrow> addr option" where
  "peer_for A frame = (case ag_ftable A of None \<Rightarrow> None | Some t \<Rightarrow> ft.absm t (mac_value frame))"

lemma conn_gone_ok:
  assumes ok: "agent_ok H A" and c: "ag_conns A n = Some c"
  shows "\<exists>A'. conn_gone A n = Some A' \<and> agent_ok H A' \<and> ag_conns A' = (ag_conns A)(n := None) \<and> ag_master A' = ag_master A
    \<and> map_option as_netc (ag_sessions A' (ag_master A)) = map_option as_netc (ag_sessions A (ag_master A))
    \<and> (\<forall>frame. peer_for A' frame = (if ac_p2p c \<and> peer_for A frame \<noteq> None \<and> peer_for A frame = ac_ext_ptr c then None else peer_for A frame))"
proof -
  have h: "ac_hooked c" "conn_ok_ag A n c" using agent_okD(2) [OF ok c] by (simp_all add: conn_ok_ag_def)
  show ?thesis
  proof (cases "ac_p2p c")
    case True
    then obtain s x where s: "ac_ext_ptr c = Some s" "s \<noteq> ag_master A" "ag_sessions A s = Some x" "as_netc x = None \<or> as_netc x = Some n"
      using h by (auto simp: conn_ok_ag_def)
    obtain t where t: "ag_ftable A = Some t" "ft.invar t"
      "\<And>mac s. ft.absm t mac = Some s \<Longrightarrow> s \<noteq> ag_master A \<and> (\<exists>x. ag_sessions A s = Some x \<and> mac_value (as_mac_dst x) = mac \<and> as_netc x \<noteq> None)"
      by (rule ftableD [OF ok]) blast
    have mac: "6 \<le> length (as_mac_dst x)" using agent_okD(1) [OF ok s(3)] by (simp add: session_ok_ag_def)
    have find: "ftable_find t (as_mac_dst x) = Some (ft.absm t (mac_value (as_mac_dst x)))"
      using ft.hfind_ok [OF t(2) mac] by (simp add: ftable_find_def)
    show ?thesis
    proof (cases "ft.absm t (mac_value (as_mac_dst x)) = Some s")
      case False
      define B where "B = tell (Conn_closed n) (A\<lparr>ag_sessions := (ag_sessions A)(s := None), ag_conns := (ag_conns A)(n := None)\<rparr>)"
      have "conn_gone A n = Some B"
        using c h True s t(1) find False by (auto simp: conn_gone_def p2p_on_disconnect_def Let_def B_def)
      moreover have "agent_ok H B"
      proof (rule p2p_gone_ok [OF ok c s(1,2), where t = t and t' = t])
        fix mac s' assume "ft.absm t mac = Some s'"
        with t(3) [OF this] s(3) False show "ft.absm t mac = Some s' \<and> s' \<noteq> s" by auto
      qed (use t in \<open>simp_all add: B_def\<close>)
      moreover have "peer_for A frame = Some s \<Longrightarrow> False" for frame
        using t(3) [of "mac_value frame" s] s(3) False by (auto simp: peer_for_def t(1))
      ultimately show ?thesis using s(1,2) by (auto simp: B_def peer_for_def t(1))
    next
      case True
      have netc: "as_netc x = Some n" using t(3) [OF True] s by auto
      obtain k' t' where e: "jsw_herase t (as_mac_dst x) = Some (1, [(k', Some s)], t')" "ft.invar t'"
        "ft.absm t' = (ft.absm t)(mac_value (as_mac_dst x) := None)"
        using ft.herase_ok [OF t(2) mac] True by auto
      define B where "B = tell (Conn_closed n) (A\<lparr>ag_ftable := Some t', ag_sessions := (ag_sessions A)(s := None), ag_conns := (ag_conns A)(n := None)\<rparr>)"
      have "conn_gone A n = Some B"
        using c h \<open>ac_p2p c\<close> s t(1) find True e netc
        by (simp add: conn_gone_def p2p_on_disconnect_def Let_def B_def ftable_erase_def session_itemrel_def)
      moreover have "agent_ok H B"
      proof (rule p2p_gone_ok [OF ok c s(1,2), where t = t and t' = t'])
        fix mac s' assume "ft.absm t' mac = Some s'"
        then have "ft.absm t mac = Some s'" "mac \<noteq> mac_value (as_mac_dst x)" using e(3) by (auto split: if_splits)
        then show "ft.absm t mac = Some s' \<and> s' \<noteq> s" using t(3) s(3) by fastforce
      qed (use t e in \<open>simp_all add: B_def\<close>)
      moreover have "peer_for B frame = (if peer_for A frame = Some s then None else peer_for A frame)" for frame
      proof -
        define m where "m = mac_value frame"
        have eA: "peer_for A frame = ft.absm t m" by (simp add: peer_for_def t(1) m_def)
        have eB: "peer_for B frame = (if m = mac_value (as_mac_dst x) then None else ft.absm t m)"
          by (simp add: peer_for_def B_def e(3) m_def)
        show ?thesis
        proof (cases "m = mac_value (as_mac_dst x)")
          case True
          with \<open>ft.absm t (mac_value (as_mac_dst x)) = Some s\<close> show ?thesis unfolding eA eB by simp
        next
          case False
          then have "ft.absm t m \<noteq> Some s" using t(3) [of m s] s(3) by auto
          with False show ?thesis unfolding eA eB by simp
        qed
      qed
      moreover have "map_option as_netc (ag_sessions B (ag_master A)) = map_option as_netc (ag_sessions A (ag_master A))"
        "ag_conns B = (ag_conns A)(n := None)" "ag_master B = ag_master A"
        using s(2) by (simp_all add: B_def)
      ultimately show ?thesis using s(1) \<open>ac_p2p c\<close> by auto
    qed
  next
    case False
    obtain x where x: "ag_sessions A (ag_master A) = Some x" by (rule masterD [OF ok])
    show ?thesis
    proof (cases "ac_ext_ptr c")
      case None
      define B where "B = tell (Conn_closed n) (A\<lparr>ag_conns := (ag_conns A)(n := None)\<rparr>)"
      have "conn_gone A n = Some B"
        using c h False None by (simp add: conn_gone_def on_disconnect_agent_def Let_def B_def)
      moreover have "agent_ok H B"
        by (rule server_gone_ok [OF ok c False x, where y = x]) (use None x in \<open>auto simp: B_def\<close>)
      ultimately show ?thesis using False by (simp add: B_def peer_for_def)
    next
      case (Some s)
      then have s: "s = ag_master A" "ag_threads A = []" using h(2) False by (auto simp: conn_ok_ag_def)
      define y where "y = (if as_state x = SESSION_STATE_DOWN then x else x\<lparr>as_state := SESSION_STATE_DOWN\<rparr>)"
      have idem: "(ag_sessions A)(ag_master A \<mapsto> x) = ag_sessions A" using x by (simp add: fun_upd_idem)
      obtain B where B: "conn_gone A n = Some B" "ag_sessions B = (ag_sessions A)(ag_master A \<mapsto> y)" "ag_conns B = (ag_conns A)(n := None)"
        "ag_brk B = ag_brk A" "ag_master B = ag_master A" "ag_cfg B = ag_cfg A" "ag_files B = ag_files A" "ag_ip B = ag_ip A"
        "ag_ftable B = ag_ftable A" "ag_threads B = ag_threads A \<or> ag_threads B = [(ag_master A, None)]"
        using c h False Some s x by (cases "as_state x = SESSION_STATE_DOWN")
          (auto simp: conn_gone_def on_disconnect_agent_def Let_def y_def idem)
      have "agent_ok H B"
        by (rule server_gone_ok [OF ok c False x, where y = y]) (use B Some in \<open>simp_all add: y_def talks_def\<close>)
      with B False x show ?thesis by (simp add: peer_for_def y_def)
    qed
  qed
qed

section \<open>Connections that begin\<close>

text \<open>The session with another agent gets its connection.\<close>

lemma p2p_attach_ok:
  assumes ok: "agent_ok H A" and c: "ag_conns A n = Some c" "ac_p2p c" "ac_ext_ptr c = Some s" "ac_rsa c" and x: "ag_sessions A s = Some x"
  shows "agent_ok H (A\<lparr>ag_sessions := (ag_sessions A)(s \<mapsto> x\<lparr>as_netc := Some n\<rparr>)\<rparr>)" (is "agent_ok H ?B")
proof -
  have s: "s \<noteq> ag_master A" using served_p2p [OF ok c(1,3)] c(2) by simp
  have "master_ok ?B" using ok s by (auto simp: agent_ok_def master_ok_def attached_def)
  moreover have "threads_ok ?B" using ok s by (auto simp: agent_ok_def threads_ok_def)
  moreover have "own_conns ?B" using ok by (simp add: agent_ok_def own_conns_def)
  moreover have "ftable_ok ?B"
  proof -
    obtain t where t: "ag_ftable A = Some t" "ft.invar t"
      "\<And>mac s. ft.absm t mac = Some s \<Longrightarrow> s \<noteq> ag_master A \<and> (\<exists>x. ag_sessions A s = Some x \<and> mac_value (as_mac_dst x) = mac \<and> as_netc x \<noteq> None)"
      by (rule ftableD [OF ok]) blast
    show ?thesis
    proof (rule ftable_okI [OF _ t(2)])
      fix mac s' assume "ft.absm t mac = Some s'"
      with t(3) [OF this] x show "s' \<noteq> ag_master ?B \<and> (\<exists>x. ag_sessions ?B s' = Some x \<and> mac_value (as_mac_dst x) = mac \<and> as_netc x \<noteq> None)"
        by auto
    qed (simp add: t(1))
  qed
  moreover have "session_ok_ag H ?B s' y" if y: "ag_sessions ?B s' = Some y" for s' y
    using y agent_okD(1) [OF ok, of s'] x c by (cases "s' = s") (auto simp: session_ok_ag_def)
  moreover have "conn_ok_ag ?B k d" if d: "ag_conns ?B k = Some d" for k d
  proof -
    have a: "ag_conns A k = Some d" using d by simp
    have "ac_ext_ptr d = Some s \<Longrightarrow> k = n" using own_connsD [OF ok a c(1) _ c(3)] .
    then show ?thesis using agent_okD(2) [OF ok a] x s by (auto simp: conn_ok_ag_def)
  qed
  ultimately show ?thesis using agent_okD(3-5) [OF ok] by (simp add: agent_ok_def ip_ok_def)
qed

lemma net_p2p_on_connect_ok:
  assumes ok: "agent_ok H A" and c: "ag_conns A n = Some c" "ac_p2p c" "ac_passport c \<noteq> None"
  shows "\<exists>A'. net_p2p_on_connect A n = Some A' \<and> agent_ok H A'"
proof -
  obtain s x where s: "ac_ext_ptr c = Some s" "s \<noteq> ag_master A" "ag_sessions A s = Some x"
    using agent_okD(2) [OF ok c(1)] c(2) by (auto simp: conn_ok_ag_def)
  define B where "B = (if ac_rsa c then A else A\<lparr>ag_conns := (ag_conns A)(n \<mapsto> c\<lparr>ac_rsa := True\<rparr>)\<rparr>)"
  have B: "agent_ok H B" "krypt_set_rsa A (Some n) = Some B" "ag_sessions B = ag_sessions A" "ag_conns B n = Some (c\<lparr>ac_rsa := True\<rparr>)"
    using ok c conn_update_ok [OF ok c(1), of "c\<lparr>ac_rsa := True\<rparr>"]
    by (auto simp: B_def krypt_set_rsa_def cview_def)
  have "agent_ok H (B\<lparr>ag_sessions := (ag_sessions B)(s \<mapsto> x\<lparr>as_netc := Some n\<rparr>)\<rparr>)"
    by (rule p2p_attach_ok [OF B(1,4)]) (use c s B in simp_all)
  then show ?thesis using B s by (simp add: net_p2p_on_connect_def p2p_on_connect_def)
qed

lemma p2p_on_secure_ok:
  assumes ok: "agent_ok H A" and v: "served A n s q b" and s: "s \<noteq> ag_master A"
  shows "\<exists>A' x. p2p_on_secure A n = Some A' \<and> agent_ok H A' \<and> served A' n s q b \<and> ag_master A' = ag_master A
    \<and> ag_sessions A' s = Some x \<and> as_state x = SESSION_STATE_AUTHED
    \<and> (\<forall>frame. peer_for A' frame = (if peer_for A frame = None \<and> mac_value frame = mac_value (as_mac_dst x) then Some s else peer_for A frame))"
proof -
  obtain c x where x: "ag_conns A n = Some c" "ac_ext_ptr c = Some s" "ag_sessions A s = Some x" "as_netc x = Some n"
    using servedD [OF v] by blast
  define x1 where "x1 = x\<lparr>as_state := SESSION_STATE_AUTHED\<rparr>"
  define A1 where "A1 = A\<lparr>ag_sessions := (ag_sessions A)(s \<mapsto> x1)\<rparr>"
  define A2 where "A2 = A1\<lparr>ag_conns := (ag_conns A1)(n \<mapsto> c\<lparr>ac_ext_ptr := Some s\<rparr>)\<rparr>"
  have ok1: "agent_ok H A1" unfolding A1_def x1_def by (rule state_update_ok [OF ok x(3)]) (use s in simp)
  have ok2: "agent_ok H A2"
    unfolding A2_def by (rule conn_update_ok [OF ok1, of n c]) (use x in \<open>simp_all add: A1_def cview_def\<close>)
  obtain t where t: "ag_ftable A2 = Some t" "ft.invar t"
    "\<And>mac s. ft.absm t mac = Some s \<Longrightarrow> s \<noteq> ag_master A2 \<and> (\<exists>x. ag_sessions A2 s = Some x \<and> mac_value (as_mac_dst x) = mac \<and> as_netc x \<noteq> None)"
    by (rule ftableD [OF ok2]) blast
  have mac: "6 \<le> length (as_mac_dst x1)" using agent_okD(1) [OF ok x(3)] by (simp add: session_ok_ag_def x1_def)
  have "\<exists>r t'. ftable_insert t (as_mac_dst x1) (Some s) = Some (r, t') \<and> ft.invar t'
      \<and> (if ft.absm t (mac_value (as_mac_dst x1)) = None then ft.absm t' = (ft.absm t)(mac_value (as_mac_dst x1) \<mapsto> s) else t' = t)"
    using ft.hinsert_ok [OF t(2) mac, of s] t(2) by (auto simp: ftable_insert_def split: if_splits)
  then obtain r t' where t': "ftable_insert t (as_mac_dst x1) (Some s) = Some (r, t')" "ft.invar t'"
    "if ft.absm t (mac_value (as_mac_dst x1)) = None then ft.absm t' = (ft.absm t)(mac_value (as_mac_dst x1) \<mapsto> s) else t' = t" by blast
  have "ftable_ok (A2\<lparr>ag_ftable := Some t'\<rparr>)"
  proof (rule ftable_okI [OF _ t'(2)])
    fix mac s' assume m: "ft.absm t' mac = Some s'"
    show "s' \<noteq> ag_master (A2\<lparr>ag_ftable := Some t'\<rparr>) \<and> (\<exists>x. ag_sessions (A2\<lparr>ag_ftable := Some t'\<rparr>) s' = Some x
        \<and> mac_value (as_mac_dst x) = mac \<and> as_netc x \<noteq> None)"
    proof (cases "ft.absm t mac = Some s'")
      case True
      with t(3) show ?thesis by simp
    next
      case False
      then have "s' = s" "mac = mac_value (as_mac_dst x1)" using m t'(3) by (auto split: if_splits)
      then show ?thesis using s x by (simp add: A2_def A1_def x1_def)
    qed
  qed simp
  then have "agent_ok H (A2\<lparr>ag_ftable := Some t'\<rparr>)"
    using ok2 by (simp add: agent_ok_def ip_ok_def master_ok_def attached_def threads_ok_def own_conns_def session_ok_ag_def conn_ok_ag_def)
  moreover have "p2p_on_secure A n = Some (A2\<lparr>ag_ftable := Some t'\<rparr>)"
    using x t(1) t'(1) by (simp add: p2p_on_secure_def A2_def A1_def x1_def Let_def)
  moreover have "served (A2\<lparr>ag_ftable := Some t'\<rparr>) n s q b" using v x by (simp add: served_def A2_def A1_def x1_def)
  moreover have "ag_sessions A2 s = Some x1" "ag_ftable A = Some t" "ag_master A2 = ag_master A" "as_state x1 = SESSION_STATE_AUTHED"
    using t(1) by (simp_all add: A2_def A1_def x1_def)
  ultimately show ?thesis using t'(3) by (auto simp: peer_for_def split: if_splits)
qed

text \<open>The threads that reconnect.\<close>

lemma reconnect_connected_ok:
  assumes ok: "agent_ok H A" and i: "i < length (ag_threads A)" "snd (ag_threads A ! i) = None"
  shows "\<exists>A'. reconnect_connected A i = Some A' \<and> agent_ok H A'"
proof -
  have "threads_ok A" using ok by (simp add: agent_ok_def)
  then have th: "ag_threads A = [(ag_master A, None)]" "i = 0" using i by (auto simp: threads_ok_def)
  obtain x where x: "ag_sessions A (ag_master A) = Some x" "as_passport x = None \<longrightarrow> cfg_prov_code (ag_cfg A) \<noteq> None"
    "talks (as_state x) \<longrightarrow> attached A (ag_master A) x" by (rule masterD [OF ok])
  define b where "b = ag_brk A"
  define c where "c = \<lparr>ac_ext_ptr = None, ac_p2p = False, ac_hooked = True, ac_rsa = False, ac_passport = as_passport x, ac_queue_msg = []\<rparr>"
  define B where "B = A\<lparr>ag_conns := (ag_conns A)(b \<mapsto> c), ag_brk := Suc b, ag_threads := [(ag_master A, Some b)]\<rparr>"
  have fresh: "ag_conns A b = None" using fresh_addresses [OF ok, of b] by (simp add: b_def)
  have keep: "ag_conns B k = Some d" if "ag_conns A k = Some d" for k d using that fresh by (auto simp: B_def)
  have run: "reconnect_connected A i = Some B" using th x by (simp add: reconnect_connected_def B_def b_def c_def Let_def)
  have "master_ok B"
  proof -
    have "attached A (ag_master A) x \<Longrightarrow> attached B (ag_master A) x" using keep by (fastforce simp: attached_def)
    with x show ?thesis by (auto simp: master_ok_def talks_def B_def)
  qed
  moreover have "threads_ok B" using x by (auto simp: threads_ok_def B_def c_def)
  moreover have "own_conns B"
  proof -
    have o: "\<And>n c n' c' s. ag_conns A n = Some c \<Longrightarrow> ag_conns A n' = Some c' \<Longrightarrow> ac_ext_ptr c = Some s
      \<Longrightarrow> ac_ext_ptr c' = Some s \<Longrightarrow> n = n'" using ok unfolding agent_ok_def own_conns_def by blast
    show ?thesis unfolding own_conns_def B_def using o by (auto simp: c_def split: if_splits)
  qed
  moreover have "ftable_ok B" using ok by (simp add: agent_ok_def ftable_ok_def B_def)
  moreover have "session_ok_ag H B s y" if y: "ag_sessions B s = Some y" for s y
  proof -
    have a: "ag_sessions A s = Some y" using y by (simp add: B_def)
    have "as_netc y = Some k \<Longrightarrow> s \<noteq> ag_master A \<Longrightarrow> \<exists>d. ag_conns B k = Some d \<and> ac_p2p d \<and> ac_ext_ptr d = Some s \<and> ac_rsa d" for k
      using agent_okD(1) [OF ok a] keep by (auto simp: session_ok_ag_def)
    then show ?thesis using agent_okD(1) [OF ok a] by (auto simp: session_ok_ag_def B_def b_def)
  qed
  moreover have "conn_ok_ag B k d" if d: "ag_conns B k = Some d" for k d
  proof (cases "k = b")
    case True
    with d show ?thesis by (auto simp: conn_ok_ag_def B_def c_def)
  next
    case False
    then have a: "ag_conns A k = Some d" using d by (simp add: B_def)
    then show ?thesis using agent_okD(2) [OF ok a] th(1) by (auto simp: conn_ok_ag_def B_def b_def)
  qed
  ultimately have "agent_ok H B" using agent_okD(3-5) [OF ok] by (simp add: agent_ok_def ip_ok_def B_def)
  with run show ?thesis by blast
qed

lemma reconnect_assign_ok:
  assumes ok: "agent_ok H A" and i: "i < length (ag_threads A)" "snd (ag_threads A ! i) = Some n" "ag_conns A n = Some c"
  shows "\<exists>A' x. reconnect_assign A i = Some A' \<and> agent_ok H A' \<and> served A' n (ag_master A) (ac_queue_msg c) False
    \<and> ag_sessions A' (ag_master A) = Some x \<and> as_state x = SESSION_STATE_NOT_AUTHED"
proof -
  have "threads_ok A" using ok by (simp add: agent_ok_def)
  then have th: "ag_threads A = [(ag_master A, Some n)]" "i = 0" using i by (auto simp: threads_ok_def)
  obtain x where x: "ag_sessions A (ag_master A) = Some x" "as_passport x = None \<longrightarrow> cfg_prov_code (ag_cfg A) \<noteq> None"
    by (rule masterD [OF ok])
  have c: "\<not> ac_p2p c" "ac_ext_ptr c = None" "ac_passport c = as_passport x"
    using \<open>threads_ok A\<close> th i(3) x by (auto simp: threads_ok_def)
  define y where "y = x\<lparr>as_state := SESSION_STATE_NOT_AUTHED, as_netc := Some n\<rparr>"
  define d where "d = c\<lparr>ac_ext_ptr := Some (ag_master A)\<rparr>"
  define B where "B = A\<lparr>ag_sessions := (ag_sessions A)(ag_master A \<mapsto> y), ag_conns := (ag_conns A)(n \<mapsto> d), ag_threads := []\<rparr>"
  have run: "reconnect_assign A i = Some B" using th x(1) i(3) by (simp add: reconnect_assign_def B_def y_def d_def)
  have none: "ac_ext_ptr e \<noteq> Some (ag_master A)" if "ag_conns A k = Some e" for k e
    using agent_okD(2) [OF ok that] th by (cases "ac_p2p e") (auto simp: conn_ok_ag_def)
  have "master_ok B" using x by (simp add: master_ok_def B_def y_def)
  moreover have "threads_ok B" by (simp add: threads_ok_def B_def)
  moreover have "own_conns B"
  proof -
    have o: "\<And>n c n' c' s. ag_conns A n = Some c \<Longrightarrow> ag_conns A n' = Some c' \<Longrightarrow> ac_ext_ptr c = Some s
      \<Longrightarrow> ac_ext_ptr c' = Some s \<Longrightarrow> n = n'" using ok unfolding agent_ok_def own_conns_def by blast
    show ?thesis unfolding own_conns_def B_def using o none by (auto simp: d_def split: if_splits)
  qed
  moreover have "ftable_ok B"
  proof -
    obtain t where t: "ag_ftable A = Some t" "ft.invar t"
      "\<And>mac s. ft.absm t mac = Some s \<Longrightarrow> s \<noteq> ag_master A \<and> (\<exists>x. ag_sessions A s = Some x \<and> mac_value (as_mac_dst x) = mac \<and> as_netc x \<noteq> None)"
      by (rule ftableD [OF ok]) blast
    show ?thesis
    proof (rule ftable_okI [OF _ t(2)])
      fix mac s assume "ft.absm t mac = Some s"
      with t(3) [OF this] show "s \<noteq> ag_master B \<and> (\<exists>x. ag_sessions B s = Some x \<and> mac_value (as_mac_dst x) = mac \<and> as_netc x \<noteq> None)"
        by (simp add: B_def)
    qed (simp add: B_def t(1))
  qed
  moreover have "session_ok_ag H B s z" if z: "ag_sessions B s = Some z" for s z
  proof (cases "s = ag_master A")
    case True
    with z agent_okD(1) [OF ok x(1)] show ?thesis by (auto simp: session_ok_ag_def B_def y_def)
  next
    case False
    then have a: "ag_sessions A s = Some z" using z by (simp add: B_def)
    have "\<exists>e. ag_conns B k = Some e \<and> ac_p2p e \<and> ac_ext_ptr e = Some s \<and> ac_rsa e" if netc: "as_netc z = Some k" for k
    proof -
      obtain e where e: "ag_conns A k = Some e" "ac_p2p e" "ac_ext_ptr e = Some s" "ac_rsa e"
        using agent_okD(1) [OF ok a] False netc by (auto simp: session_ok_ag_def)
      then have "k \<noteq> n" using i(3) c by auto
      with e show ?thesis by (simp add: B_def)
    qed
    then show ?thesis using agent_okD(1) [OF ok a] by (simp add: session_ok_ag_def B_def)
  qed
  moreover have "conn_ok_ag B k e" if e: "ag_conns B k = Some e" for k e
  proof (cases "k = n")
    case True
    with e agent_okD(2) [OF ok i(3)] c show ?thesis by (auto simp: conn_ok_ag_def B_def d_def y_def)
  next
    case False
    then have a: "ag_conns A k = Some e" using e by (simp add: B_def)
    then show ?thesis using agent_okD(2) [OF ok a] none [OF a] by (auto simp: conn_ok_ag_def B_def)
  qed
  ultimately have "agent_ok H B" using agent_okD(3-5) [OF ok] by (simp add: agent_ok_def ip_ok_def B_def)
  then show ?thesis using run by (auto simp: served_def B_def y_def d_def)
qed

section \<open>Messages\<close>

text \<open>The messages the agent expects: frames, and the answers and introductions of the switch.  A message
  of another kind, which ends the session, may only come from the switch.\<close>

definition answer_ok :: "host \<Rightarrow> DNMessage \<Rightarrow> bool" where
  "answer_ok H d \<longleftrightarrow> (case dnop_present d of
       dnop_PR_provResponse \<Rightarrow> (\<exists>r. dnop_choice d = ProvResponse r \<and> prov_ok H r)
     | dnop_PR_authResponse \<Rightarrow> (\<exists>r. dnop_choice d = AuthResponse r)
     | dnop_PR_netinfoResponse \<Rightarrow> True
     | dnop_PR_p2pRequest \<Rightarrow> (\<exists>r. dnop_choice d = P2pRequest r \<and> p2p_ok r)
     | _ \<Rightarrow> False)"

definition agent_msg_ok :: "host \<Rightarrow> bool \<Rightarrow> DNDSMessage \<Rightarrow> bool" where
  "agent_msg_ok H p2p m \<longleftrightarrow> (case pdu_present m of
       pdu_PR_dnm \<Rightarrow> (\<exists>d. pdu_choice m = Dnm d \<and> answer_ok H d)
     | pdu_PR_ethernet \<Rightarrow> (\<exists>e. pdu_choice m = Ethernet e)
     | _ \<Rightarrow> \<not> p2p)"

lemma dispatch_op_agent_ok:
  assumes ok: "agent_ok H A" and v: "served A n s q b" and m: "pdu_present m = pdu_PR_dnm" "pdu_choice m = Dnm d" "answer_ok H d"
  shows "\<exists>A'. dispatch_op_agent H A (Some s) m = Some A' \<and> agent_ok H A' \<and> served A' n s q b"
proof -
  have g: "DNMessage_get_operation (Some m) = Some (DNDS_success, Some (dnop_present d))"
    using m by (simp add: DNMessage_get_operation_def guard_defs union_defs)
  show ?thesis
  proof (cases "dnop_present d")
    case dnop_PR_provResponse
    with m obtain r where "dnop_choice d = ProvResponse r" "prov_ok H r" by (auto simp: answer_ok_def)
    from op_prov_response_ok [OF ok v m(2) dnop_PR_provResponse this] g dnop_PR_provResponse show ?thesis
      by (auto simp: dispatch_op_agent_def)
  next
    case dnop_PR_authResponse
    with m obtain r where "dnop_choice d = AuthResponse r" by (auto simp: answer_ok_def)
    from op_auth_response_ok [OF ok v m(1,2) dnop_PR_authResponse this] g dnop_PR_authResponse show ?thesis
      by (simp add: dispatch_op_agent_def)
  next
    case dnop_PR_netinfoResponse
    from op_netinfo_response_ok [OF ok v] g dnop_PR_netinfoResponse show ?thesis by (simp add: dispatch_op_agent_def)
  next
    case dnop_PR_p2pRequest
    with m obtain r where r: "dnop_choice d = P2pRequest r" "p2p_ok r" by (auto simp: answer_ok_def)
    obtain x where x: "ag_sessions A s = Some x" using servedD [OF v] by blast
    from p2p_request_run [OF m(1,2) dnop_PR_p2pRequest r x] introduced_ok [OF ok x r(2)] introduced_served [OF ok v] g dnop_PR_p2pRequest
    show ?thesis by (simp add: dispatch_op_agent_def)
  qed (use m in \<open>simp_all add: answer_ok_def\<close>)
qed

lemma handle_msg_agent_ok:
  assumes ok: "agent_ok H A" and v: "served A n s q b" and m: "agent_msg_ok H (s \<noteq> ag_master A) m"
  shows "\<exists>more A'. handle_msg_agent H A (Some s) m = Some (more, A') \<and> agent_ok H A' \<and> (more \<longrightarrow> served A' n s q b)"
proof -
  have g: "DNDSMessage_get_pdu (Some m) = Some (DNDS_success, Some (pdu_present m))"
    by (simp add: DNDSMessage_get_pdu_def guard_defs)
  have invalid: "\<exists>A'. terminate A (Some s) = Some A' \<and> agent_ok H A'" if s: "s = ag_master A"
  proof -
    obtain c x where x: "ag_conns A n = Some c" "ac_ext_ptr c = Some s" "ag_sessions A s = Some x" "as_netc x = Some n"
      using servedD [OF v] by blast
    have p: "\<not> ac_p2p c" "ac_hooked c" using served_p2p [OF ok x(1,2)] s agent_okD(2) [OF ok x(1)] by (simp_all add: conn_ok_ag_def)
    define y where "y = x\<lparr>as_state := SESSION_STATE_DOWN, as_netc := None\<rparr>"
    obtain B where B: "terminate A (Some s) = Some B" "ag_sessions B = (ag_sessions A)(ag_master A \<mapsto> y)" "ag_conns B = (ag_conns A)(n := None)"
        "ag_brk B = ag_brk A" "ag_master B = ag_master A" "ag_cfg B = ag_cfg A" "ag_files B = ag_files A" "ag_ip B = ag_ip A"
        "ag_ftable B = ag_ftable A" "ag_threads B = ag_threads A"
      using x p s by (simp add: terminate_def net_disconnect_agent_def conn_gone_def on_disconnect_agent_def Let_def y_def)
    have "agent_ok H B"
      by (rule server_gone_ok [OF ok x(1) p(1), where x = x and y = y]) (use x s B in \<open>simp_all add: y_def talks_def\<close>)
    with B(1) show ?thesis by blast
  qed
  show ?thesis
  proof (cases "pdu_present m")
    case pdu_PR_dnm
    then obtain d where d: "pdu_choice m = Dnm d" "answer_ok H d" using m by (auto simp: agent_msg_ok_def)
    from dispatch_op_agent_ok [OF ok v pdu_PR_dnm d] g pdu_PR_dnm show ?thesis by (auto simp: handle_msg_agent_def)
  next
    case pdu_PR_ethernet
    then obtain e where e: "pdu_choice m = Ethernet e" using m by (auto simp: agent_msg_ok_def)
    obtain x where "ag_sessions A s = Some x" using servedD [OF v] by blast
    then have "handle_msg_agent H A (Some s) m = Some (True, tell (Tap_write (obuf e) (size_of_int (osize e))) A)"
      using e g pdu_PR_ethernet by (simp add: handle_msg_agent_def tunnel_out_def DNDSMessage_get_ethernet_def)
    with ok v show ?thesis by (auto simp: served_def)
  next
    case pdu_PR_NOTHING
    with m have "s = ag_master A" by (simp add: agent_msg_ok_def)
    with invalid g pdu_PR_NOTHING show ?thesis by (auto simp: handle_msg_agent_def)
  next
    case pdu_PR_dsm
    with m have "s = ag_master A" by (simp add: agent_msg_ok_def)
    with invalid g pdu_PR_dsm show ?thesis by (auto simp: handle_msg_agent_def)
  qed
qed

lemma queue_update_ok:
  assumes "agent_ok H A" "ag_conns A n = Some c"
  shows "agent_ok H (A\<lparr>ag_conns := (ag_conns A)(n \<mapsto> c\<lparr>ac_queue_msg := ms\<rparr>)\<rparr>)"
  by (rule conn_update_ok [OF assms]) (simp_all add: cview_def)

lemma input_loop_agent_ok:
  assumes "agent_ok H A" "served A n s ms b" "\<forall>m \<in> set ms. agent_msg_ok H b m"
  shows "\<exists>A'. input_loop_agent H A (Some s) n = Some A' \<and> agent_ok H A'"
  using assms
proof (induction ms arbitrary: A)
  case Nil
  then obtain c where "ag_conns A n = Some c" "ac_queue_msg c = []" using servedD served_queue by blast
  with Nil show ?case by (subst input_loop_agent.simps) auto
next
  case (Cons m ms)
  obtain c where c: "ag_conns A n = Some c" "ac_queue_msg c = m # ms" using servedD [OF Cons.prems(2)] served_queue [OF Cons.prems(2)] by blast
  have "b = (s \<noteq> ag_master A)" using Cons.prems(2) by (simp add: served_def)
  then have m: "agent_msg_ok H (s \<noteq> ag_master A) m" using Cons.prems(3) by simp
  obtain more A1 where h: "handle_msg_agent H A (Some s) m = Some (more, A1)" "agent_ok H A1" "more \<longrightarrow> served A1 n s (m # ms) b"
    using handle_msg_agent_ok [OF Cons.prems(1,2) m] by blast
  show ?case
  proof (cases more)
    case False
    with h c show ?thesis by (subst input_loop_agent.simps) simp
  next
    case True
    then obtain c1 where c1: "ag_conns A1 n = Some c1" "ac_queue_msg c1 = m # ms"
      using servedD [of A1 n s] served_queue [of A1 n s] h(3) by blast
    define A2 where "A2 = A1\<lparr>ag_conns := (ag_conns A1)(n \<mapsto> c1\<lparr>ac_queue_msg := ms\<rparr>)\<rparr>"
    have ok2: "agent_ok H A2" unfolding A2_def by (rule queue_update_ok [OF h(2) c1(1)])
    have v2: "served A2 n s ms b" using h(3) True c1 by (simp add: A2_def served_def)
    have "input_loop_agent H A (Some s) n = input_loop_agent H A2 (Some s) n"
      using c h(1) True c1 by (subst input_loop_agent.simps) (simp add: A2_def)
    with Cons.IH [OF ok2 v2] Cons.prems(3) show ?thesis by simp
  qed
qed

section \<open>Frames of the interface\<close>

definition frame_msg :: "u8 list \<Rightarrow> int \<Rightarrow> DNDSMessage" where
  "frame_msg frame len = \<lparr>msg_version = 1, msg_channel = 0, pdu_present = pdu_PR_ethernet,
     pdu_choice = Ethernet \<lparr>obuf = Some frame, osize = int_of_size (word_of_int len)\<rparr>\<rparr>"

lemma peer_for_ok:
  assumes ok: "agent_ok H A" and p: "peer_for A frame = Some s"
  shows "s \<noteq> ag_master A \<and> (\<exists>x n c. ag_sessions A s = Some x \<and> mac_value (as_mac_dst x) = mac_value frame
    \<and> as_netc x = Some n \<and> ag_conns A n = Some c \<and> ac_p2p c \<and> ac_rsa c \<and> ac_ext_ptr c = Some s)"
proof -
  obtain t where t: "ag_ftable A = Some t" "ft.invar t"
    "\<And>mac s. ft.absm t mac = Some s \<Longrightarrow> s \<noteq> ag_master A \<and> (\<exists>x. ag_sessions A s = Some x \<and> mac_value (as_mac_dst x) = mac \<and> as_netc x \<noteq> None)"
    by (rule ftableD [OF ok]) blast
  have m: "ft.absm t (mac_value frame) = Some s" using p t(1) by (simp add: peer_for_def)
  obtain x n where x: "s \<noteq> ag_master A" "ag_sessions A s = Some x" "mac_value (as_mac_dst x) = mac_value frame" "as_netc x = Some n"
    using t(3) [OF m] by blast
  have "session_ok_ag H A s x" by (rule agent_okD(1) [OF ok x(2)])
  then obtain c where "ag_conns A n = Some c" "ac_p2p c" "ac_ext_ptr c = Some s" "ac_rsa c"
    using x(1,4) unfolding session_ok_ag_def by blast
  with x show ?thesis by blast
qed

lemma tunnel_in_run:
  assumes ok: "agent_ok H A" and f: "6 \<le> length frame"
  defines "s \<equiv> (case peer_for A frame of None \<Rightarrow> ag_master A | Some s \<Rightarrow> s)"
  shows "\<exists>x. ag_sessions A s = Some x \<and>
    (if as_state x = SESSION_STATE_AUTHED
     then \<exists>n c. as_netc x = Some n \<and> ag_conns A n = Some c \<and> ac_ext_ptr c = Some s
            \<and> tunnel_in H A (Some (ag_master A)) frame len = Some (sent n (frame_msg frame len) A)
     else tunnel_in H A (Some (ag_master A)) frame len = Some A)"
proof -
  obtain t where t: "ag_ftable A = Some t" "ft.invar t" by (rule ftableD [OF ok]) blast
  have find: "p2p_find_session A frame = Some (peer_for A frame)"
    using f t ft.hfind_ok [OF t(2), of "take 6 frame"]
    by (simp add: p2p_find_session_def memcpy_def ftable_find_def peer_for_def mac_value_def)
  have sess: "(if peer_for A frame \<noteq> None then peer_for A frame else Some (ag_master A)) = Some s"
    by (auto simp: s_def)
  obtain x where x: "ag_sessions A s = Some x"
    "as_state x = SESSION_STATE_AUTHED \<Longrightarrow> \<exists>n c. as_netc x = Some n \<and> ag_conns A n = Some c \<and> ac_ext_ptr c = Some s"
  proof (cases "peer_for A frame")
    case None
    then have "s = ag_master A" by (simp add: s_def)
    moreover obtain x where "ag_sessions A (ag_master A) = Some x" "talks (as_state x) \<longrightarrow> attached A (ag_master A) x"
      by (rule masterD [OF ok])
    ultimately show ?thesis using that [of x] by (auto simp: talks_def attached_def)
  next
    case (Some s')
    with peer_for_ok [OF ok Some] show ?thesis using that by (auto simp: s_def)
  qed
  show ?thesis
  proof (cases "as_state x = SESSION_STATE_AUTHED")
    case False
    then have "tunnel_in H A (Some (ag_master A)) frame len = Some A"
      by (simp add: tunnel_in_def find sess [simplified] x(1) Let_def)
    with x(1) False show ?thesis by simp
  next
    case True
    then obtain n c where n: "as_netc x = Some n" "ag_conns A n = Some c" "ac_ext_ptr c = Some s" using x(2) by blast
    have "tunnel_in H A (Some (ag_master A)) frame len = Some (sent n (frame_msg frame len) A)"
      using True n by (simp add: tunnel_in_def find sess [simplified] x(1) Let_def DNDSMessage_new_def DNDSMessage_set_channel_def
          DNDSMessage_set_pdu_def DNDSMessage_set_ethernet_def guard_defs frame_msg_def sent_def)
    with x(1) True n show ?thesis by auto
  qed
qed

section \<open>Inputs\<close>

text \<open>A frame of the interface with the result of reading it; the two steps of a thread that reconnects;
  what happens on a connection.  The callbacks of a connection depend on its kind.\<close>

datatype agent_input =
    Ag_frame "u8 list" int
  | Ag_connected nat
  | Ag_assigned nat
  | Ag_p2p addr
  | Ag_secured addr
  | Ag_messages addr "DNDSMessage list"
  | Ag_closed addr

fun handle_agent :: "host \<Rightarrow> agent \<Rightarrow> agent_input \<Rightarrow> agent option" where
  "handle_agent H A (Ag_frame frame len) = tunnel_in H A (Some (ag_master A)) frame len"
| "handle_agent H A (Ag_connected i) = reconnect_connected A i"
| "handle_agent H A (Ag_assigned i) = reconnect_assign A i"
| "handle_agent H A (Ag_p2p n) = net_p2p_on_connect A n"
| "handle_agent H A (Ag_secured n) = do {
     c \<leftarrow> ag_conns A n;
     if ac_p2p c then p2p_on_secure A n else on_secure_agent H A n }"
| "handle_agent H A (Ag_messages n ms) = do {
     A \<leftarrow> upd_ac A (Some n) (\<lambda>c. c\<lparr>ac_queue_msg := ms\<rparr>);
     on_input_agent H A n }"
| "handle_agent H A (Ag_closed n) = conn_gone A n"

text \<open>What the agent relies on: a thread assigns a connection that is still there, nothing happens on a
  connection before it belongs to a session that knows it, agents are introduced once there is a
  passport, and messages are as \<^const>\<open>agent_msg_ok\<close> says.\<close>

fun admissible_agent :: "host \<Rightarrow> agent \<Rightarrow> agent_input \<Rightarrow> bool" where
  "admissible_agent H A (Ag_frame frame len) \<longleftrightarrow> 6 \<le> length frame"
| "admissible_agent H A (Ag_connected i) \<longleftrightarrow> i < length (ag_threads A) \<and> snd (ag_threads A ! i) = None"
| "admissible_agent H A (Ag_assigned i) \<longleftrightarrow> i < length (ag_threads A)
     \<and> (\<exists>n. snd (ag_threads A ! i) = Some n \<and> ag_conns A n \<noteq> None)"
| "admissible_agent H A (Ag_p2p n) \<longleftrightarrow> (\<exists>c. ag_conns A n = Some c \<and> ac_p2p c \<and> ac_passport c \<noteq> None)"
| "admissible_agent H A (Ag_secured n) \<longleftrightarrow> (\<exists>s q b. served A n s q b)"
| "admissible_agent H A (Ag_messages n ms) \<longleftrightarrow> (\<exists>s q b. served A n s q b \<and> (\<forall>m \<in> set ms. agent_msg_ok H b m))"
| "admissible_agent H A (Ag_closed n) \<longleftrightarrow> ag_conns A n \<noteq> None"

inductive agent_reachable :: "host \<Rightarrow> agent_cfg \<Rightarrow> (string \<rightharpoonup> u8 list) \<Rightarrow> agent \<Rightarrow> bool" for H cfg fs where
  start: "agent_init cfg fs = Some A \<Longrightarrow> agent_reachable H cfg fs A"
| step: "agent_reachable H cfg fs A \<Longrightarrow> admissible_agent H A i \<Longrightarrow> handle_agent H A i = Some A' \<Longrightarrow> agent_reachable H cfg fs A'"

text \<open>What is on the disk when the agent starts.\<close>

definition disk_ok :: "host \<Rightarrow> agent_cfg \<Rightarrow> (string \<rightharpoonup> u8 list) \<Rightarrow> bool" where
  "disk_ok H cfg fs \<longleftrightarrow> (\<forall>content. fs (cfg_ip_conf cfg) = Some content \<longrightarrow> length (word_of_file content) < 16)
     \<and> (\<forall>c k t. fs (cfg_certificate cfg) = Some c \<longrightarrow> fs (cfg_privatekey cfg) = Some k \<longrightarrow> fs (cfg_trusted_cert cfg) = Some t
          \<longrightarrow> readable H (c, k, t))"

lemma agent_init_ok:
  assumes "host_ok H" "cfg_ok cfg" "disk_ok H cfg fs" "agent_init cfg fs = Some A"
  shows "agent_ok H A"
proof -
  obtain t where t: "p2p_init = Some t" "ft.invar t" "ft.absm t = Map.empty"
    using ft.hnew_ok [of 1024 "\<lambda>item. item"] by (auto simp: p2p_init_def ftable_new_def)
  define p where "p = (if cfg_prov_code cfg = None then load_passport (agent_start cfg fs) else None)"
  have p: "p \<noteq> None \<or> cfg_prov_code cfg \<noteq> None" using assms(4) by (auto simp: agent_init_def p_def Let_def split: if_splits)
  have r: "readable H q" if "p = Some q" for q
    using that assms(3) by (auto simp: p_def load_passport_def agent_start_def disk_ok_def split: if_splits Option.bind_splits)
  have A: "A = (agent_start cfg fs)\<lparr>ag_sessions := [0 \<mapsto>
      \<lparr>as_passport = p, as_netc = None, as_mac_dst = replicate 6 0, as_state = SESSION_STATE_NOT_AUTHED\<rparr>], ag_threads := [(0, None)]\<rparr>"
    using assms(4) p by (auto simp: agent_init_def p_def agent_start_def Let_def split: if_splits)
  show ?thesis
    using assms(1-3) p r t
    by (auto simp: A agent_ok_defs agent_start_def disk_ok_def split: if_splits)
qed

lemma on_secure_agent_ok:
  assumes ok: "agent_ok H A" and v: "served A n s q False"
  shows "\<exists>A'. on_secure_agent H A n = Some A' \<and> agent_ok H A'"
proof -
  obtain c x where x: "ag_conns A n = Some c" "ac_ext_ptr c = Some s" "ag_sessions A s = Some x" "as_netc x = Some n"
    using servedD [OF v] by blast
  have s: "s = ag_master A" using v by (simp add: served_def)
  have code: "as_passport x = None \<longrightarrow> cfg_prov_code (ag_cfg A) \<noteq> None" using ok x(3) s by (auto simp: agent_ok_def master_ok_def)
  show ?thesis
  proof (cases "as_state x = SESSION_STATE_NOT_AUTHED")
    case False
    with x ok show ?thesis by (simp add: on_secure_agent_def)
  next
    case True
    show ?thesis
    proof (cases "as_passport x")
      case None
      then obtain code where c: "cfg_prov_code (ag_cfg A) = Some code" "terminated code"
        using code agent_okD(4) [OF ok] by (auto simp: cfg_ok_def)
      show ?thesis using True None x c ok prov_request_sent [OF c x(1)] by (simp add: on_secure_agent_def)
    next
      case (Some p)
      with register_ok [OF ok v x(3) Some] True x show ?thesis by (auto simp: on_secure_agent_def)
    qed
  qed
qed

lemma handle_agent_ok:
  assumes ok: "agent_ok H A" and a: "admissible_agent H A i"
  shows "\<exists>A'. handle_agent H A i = Some A' \<and> agent_ok H A'"
proof (cases i)
  case (Ag_frame frame len)
  then have "6 \<le> length frame" using a by simp
  from tunnel_in_run [OF ok this, of len] ok Ag_frame show ?thesis by (auto split: if_splits)
next
  case (Ag_connected k)
  with reconnect_connected_ok [OF ok] a show ?thesis by simp
next
  case (Ag_assigned k)
  with a obtain n c where "k < length (ag_threads A)" "snd (ag_threads A ! k) = Some n" "ag_conns A n = Some c" by auto
  from reconnect_assign_ok [OF ok this] Ag_assigned show ?thesis by auto
next
  case (Ag_p2p n)
  with net_p2p_on_connect_ok [OF ok] a show ?thesis by auto
next
  case (Ag_secured n)
  with a obtain s q b where v: "served A n s q b" by auto
  obtain c where c: "ag_conns A n = Some c" "ac_ext_ptr c = Some s" using servedD [OF v] by blast
  have b: "ac_p2p c = b" "b = (s \<noteq> ag_master A)" using served_p2p [OF ok c] v by (simp_all add: served_def)
  show ?thesis
  proof (cases b)
    case True
    with p2p_on_secure_ok [OF ok v] b c Ag_secured show ?thesis by auto
  next
    case False
    with on_secure_agent_ok [OF ok] v b c Ag_secured show ?thesis by simp
  qed
next
  case (Ag_messages n ms)
  with a obtain s q b where v: "served A n s q b" "\<forall>m \<in> set ms. agent_msg_ok H b m" by auto
  obtain c where c: "ag_conns A n = Some c" "ac_ext_ptr c = Some s" using servedD [OF v(1)] by blast
  define A1 where "A1 = A\<lparr>ag_conns := (ag_conns A)(n \<mapsto> c\<lparr>ac_queue_msg := ms\<rparr>)\<rparr>"
  have "agent_ok H A1" unfolding A1_def by (rule queue_update_ok [OF ok c(1)])
  moreover have "served A1 n s ms b" using v(1) c by (simp add: A1_def served_def)
  ultimately have "\<exists>A'. input_loop_agent H A1 (Some s) n = Some A' \<and> agent_ok H A'" by (rule input_loop_agent_ok [OF _ _ v(2)])
  with c Ag_messages show ?thesis by (simp add: on_input_agent_def A1_def)
next
  case (Ag_closed n)
  with a obtain c where "ag_conns A n = Some c" by auto
  from conn_gone_ok [OF ok this] Ag_closed show ?thesis by auto
qed

lemma agent_reachable_ok:
  assumes "agent_reachable H cfg fs A" "host_ok H" "cfg_ok cfg" "disk_ok H cfg fs"
  shows "agent_ok H A"
  using assms
proof (induction rule: agent_reachable.induct)
  case (start A)
  then show ?case using agent_init_ok by blast
next
  case (step A i A')
  then have "agent_ok H A" by blast
  from handle_agent_ok [OF this step.hyps(2)] step.hyps(3) show ?case by simp
qed

end
