(* ===== verification/Agent_Props.thy ===== *)
theory Agent_Props
  imports Agent_Events
begin

text \<open>
  What the agent does: every input it expects is handled, the frames of the interface take the direct
  way when there is one, and what a message or the end of a connection does that was not meant.
\<close>

section \<open>A small agent\<close>

definition demo_host :: host where
  "demo_host = \<lparr>local_ip = cmem ''192.168.1.2'', hwaddr = [2, 0, 0, 0, 0, 1], common_name = (\<lambda>_. Some (cmem ''nva'')),
     can_write = (\<lambda>_. True), msg_result = (\<lambda>_. 0)\<rparr>"

definition demo_cfg :: agent_cfg where
  "demo_cfg = \<lparr>cfg_certificate = ''c'', cfg_privatekey = ''k'', cfg_trusted_cert = ''t'', cfg_prov_code = None, cfg_ip_conf = ''ip''\<rparr>"

definition demo_disk :: "string \<rightharpoonup> u8 list" where
  "demo_disk = [''c'' \<mapsto> [1], ''k'' \<mapsto> [2], ''t'' \<mapsto> [3], ''ip'' \<mapsto> map of_char ''10.0.0.7'']"

lemma demo_agent_ok: "host_ok demo_host" "cfg_ok demo_cfg" "disk_ok demo_host demo_cfg demo_disk"
proof -
  show "host_ok demo_host" "cfg_ok demo_cfg" by (simp_all add: host_ok_def cfg_ok_def demo_host_def demo_cfg_def cmem_def)
  have "length (word_of_file (map of_char ''10.0.0.7'')) < 16"
    using word_of_file_le [of "map of_char ''10.0.0.7''"] by simp
  moreover have "readable demo_host p" for p by (simp add: readable_def demo_host_def cmem_def)
  ultimately show "disk_ok demo_host demo_cfg demo_disk" by (simp add: disk_ok_def demo_cfg_def demo_disk_def)
qed

abbreviation "demo_reachable \<equiv> agent_reachable demo_host demo_cfg demo_disk"

text \<open>The agent has got its connection to the switch.\<close>

definition demo_connected :: agent where
  "demo_connected = (agent_start demo_cfg demo_disk)\<lparr>ag_sessions := [0 \<mapsto> \<lparr>as_passport = Some ([1], [2], [3]), as_netc = Some 1,
       as_mac_dst = replicate 6 0, as_state = SESSION_STATE_NOT_AUTHED\<rparr>],
     ag_conns := [1 \<mapsto> \<lparr>ac_ext_ptr = Some 0, ac_p2p = False, ac_hooked = True, ac_rsa = False,
       ac_passport = Some ([1], [2], [3]), ac_queue_msg = []\<rparr>], ag_brk := 2\<rparr>"

definition demo_init :: agent where
  "demo_init = (agent_start demo_cfg demo_disk)\<lparr>ag_sessions := [0 \<mapsto> \<lparr>as_passport = Some ([1], [2], [3]), as_netc = None,
       as_mac_dst = replicate 6 0, as_state = SESSION_STATE_NOT_AUTHED\<rparr>], ag_threads := [(0, None)]\<rparr>"

lemma demo_init_reached: "agent_reachable H demo_cfg demo_disk demo_init"
proof (rule agent_reachable.start)
  show "agent_init demo_cfg demo_disk = Some demo_init"
    by (simp add: agent_init_def demo_init_def agent_start_def load_passport_def demo_cfg_def demo_disk_def Let_def)
qed

lemma demo_connected_reached: "agent_reachable H demo_cfg demo_disk demo_connected"
proof -
  define A where "A = demo_init\<lparr>ag_conns := [1 \<mapsto> \<lparr>ac_ext_ptr = None, ac_p2p = False, ac_hooked = True, ac_rsa = False,
       ac_passport = Some ([1], [2], [3]), ac_queue_msg = []\<rparr>], ag_brk := 2, ag_threads := [(0, Some 1)]\<rparr>"
  have "handle_agent H demo_init (Ag_connected 0) = Some A"
    by (simp add: reconnect_connected_def A_def demo_init_def agent_start_def Let_def)
  then have 1: "agent_reachable H demo_cfg demo_disk A"
    by (rule agent_reachable.step [OF demo_init_reached, rotated]) (simp add: demo_init_def)
  have "handle_agent H A (Ag_assigned 0) = Some demo_connected"
    by (simp add: reconnect_assign_def A_def demo_init_def demo_connected_def agent_start_def)
  then show ?thesis by (rule agent_reachable.step [OF 1, rotated]) (simp add: A_def demo_init_def)
qed

lemma demo_connected_served: "served demo_connected 1 0 [] False"
  by (simp add: served_def demo_connected_def agent_start_def)

lemma handle_single:
  assumes "ag_conns A n = Some c" "ac_ext_ptr c = s"
    and "handle_msg_agent H (A\<lparr>ag_conns := (ag_conns A)(n \<mapsto> c\<lparr>ac_queue_msg := [m]\<rparr>)\<rparr>) s m = Some (True, B)"
    and "ag_conns B n = Some d" "ac_queue_msg d = [m]"
  shows "handle_agent H A (Ag_messages n [m]) = Some (B\<lparr>ag_conns := (ag_conns B)(n \<mapsto> d\<lparr>ac_queue_msg := []\<rparr>)\<rparr>)"
  using assms by (simp add: on_input_agent_def input_loop_agent.simps [of H _ s n])

section \<open>Every input is handled\<close>

text \<open>C20. Whatever has happened before, the agent handles every input it expects to its end without
  touching null, freed or foreign memory: frames of the interface, both steps of the threads that
  reconnect, connections that are made, secured and lost, and the messages of the switch and of
  other agents.\<close>

theorem agent_never_faults:
  assumes "host_ok H" "cfg_ok cfg" "disk_ok H cfg fs" "agent_reachable H cfg fs A" "admissible_agent H A i"
  shows "\<exists>A'. handle_agent H A i = Some A' \<and> agent_ok H A'"
  by (rule handle_agent_ok [OF agent_reachable_ok [OF assms(4,1,2,3)] assms(5)])

theorem agent_never_faults_witness:
  "\<exists>A'. handle_agent demo_host demo_connected (Ag_secured 1) = Some A' \<and> agent_ok demo_host A'"
proof (rule agent_never_faults [OF demo_agent_ok demo_connected_reached])
  show "admissible_agent demo_host demo_connected (Ag_secured 1)" using demo_connected_served by auto
qed

section \<open>Frames\<close>

text \<open>C21. A frame of the interface goes to the agent that has been introduced under its destination
  address, if there is one, else to the switch: it is sent, as it is, on the connection of that
  session if the session is authenticated, and dropped otherwise.  A direct session is always one
  of another agent, with a connection of its own whose level is RSA.\<close>

theorem frames_take_the_direct_way:
  assumes "host_ok H" "cfg_ok cfg" "disk_ok H cfg fs" "agent_reachable H cfg fs A" "6 \<le> length frame"
    and "s = (case peer_for A frame of None \<Rightarrow> ag_master A | Some s \<Rightarrow> s)"
  shows "\<exists>x. ag_sessions A s = Some x \<and>
    (if as_state x = SESSION_STATE_AUTHED
     then \<exists>n c. as_netc x = Some n \<and> ag_conns A n = Some c \<and> ac_ext_ptr c = Some s \<and> (s \<noteq> ag_master A \<longrightarrow> ac_p2p c \<and> ac_rsa c)
            \<and> tunnel_in H A (Some (ag_master A)) frame len = Some (sent n (frame_msg frame len) A)
     else tunnel_in H A (Some (ag_master A)) frame len = Some A)"
proof -
  have ok: "agent_ok H A" by (rule agent_reachable_ok [OF assms(4,1,2,3)])
  obtain x where x: "ag_sessions A s = Some x"
    "if as_state x = SESSION_STATE_AUTHED
     then \<exists>n c. as_netc x = Some n \<and> ag_conns A n = Some c \<and> ac_ext_ptr c = Some s
            \<and> tunnel_in H A (Some (ag_master A)) frame len = Some (sent n (frame_msg frame len) A)
     else tunnel_in H A (Some (ag_master A)) frame len = Some A"
    using tunnel_in_run [OF ok assms(5), of len] assms(6) by blast
  have "ac_p2p c \<and> ac_rsa c" if "s \<noteq> ag_master A" "as_netc x = Some n" "ag_conns A n = Some c" for n c
    using agent_okD(1) [OF ok x(1)] that by (auto simp: session_ok_ag_def)
  with x show ?thesis by (auto split: if_splits)
qed

theorem frames_take_the_direct_way_witness:
  "tunnel_in demo_host demo_connected (Some 0) (replicate 60 7) 60 = Some demo_connected"
proof -
  have e: "ag_master demo_connected = 0" by (simp add: demo_connected_def agent_start_def)
  obtain t where t: "p2p_init = Some t" "ft.absm t = Map.empty"
    using ft.hnew_ok [of 1024 "\<lambda>item. item"] by (auto simp: p2p_init_def ftable_new_def)
  have p: "peer_for demo_connected (replicate 60 7) = None"
    by (simp add: peer_for_def demo_connected_def agent_start_def t)
  show ?thesis
    using frames_take_the_direct_way [OF demo_agent_ok demo_connected_reached, of "replicate 60 7" 0 60] p e
    by (simp add: demo_connected_def agent_start_def)
qed

section \<open>The direct way\<close>

text \<open>C22. When the connection to an agent that has been introduced is secured, the frames for its
  address go there, unless another agent is already known under that address; when the connection
  goes, they go to the switch again.  Frames for other addresses are not touched by either.\<close>

theorem direct_way_opens_and_closes:
  assumes "host_ok H" "cfg_ok cfg" "disk_ok H cfg fs" "agent_reachable H cfg fs A" "served A n s q True"
  shows "\<exists>A1 A2 x. handle_agent H A (Ag_secured n) = Some A1 \<and> ag_sessions A1 s = Some x \<and> as_state x = SESSION_STATE_AUTHED
    \<and> (\<forall>frame. peer_for A1 frame = (if peer_for A frame = None \<and> mac_value frame = mac_value (as_mac_dst x) then Some s else peer_for A frame))
    \<and> handle_agent H A1 (Ag_closed n) = Some A2 \<and> ag_conns A2 n = None
    \<and> (\<forall>frame. peer_for A2 frame = (if peer_for A1 frame = Some s then None else peer_for A1 frame))"
proof -
  have ok: "agent_ok H A" by (rule agent_reachable_ok [OF assms(4,1,2,3)])
  obtain c where c: "ag_conns A n = Some c" "ac_ext_ptr c = Some s" using servedD [OF assms(5)] by blast
  have s: "s \<noteq> ag_master A" using assms(5) by (simp add: served_def)
  obtain A1 x where A1: "p2p_on_secure A n = Some A1" "agent_ok H A1" "served A1 n s q True" "ag_master A1 = ag_master A"
    "ag_sessions A1 s = Some x" "as_state x = SESSION_STATE_AUTHED"
    "\<forall>frame. peer_for A1 frame = (if peer_for A frame = None \<and> mac_value frame = mac_value (as_mac_dst x) then Some s else peer_for A frame)"
    using p2p_on_secure_ok [OF ok assms(5) s] by blast
  obtain c1 where c1: "ag_conns A1 n = Some c1" "ac_ext_ptr c1 = Some s" using servedD [OF A1(3)] by blast
  have p: "ac_p2p c" "ac_p2p c1" using served_p2p [OF ok c] served_p2p [OF A1(2) c1] s A1(4) by simp_all
  obtain A2 where A2: "conn_gone A1 n = Some A2" "ag_conns A2 = (ag_conns A1)(n := None)"
    "\<forall>frame. peer_for A2 frame = (if ac_p2p c1 \<and> peer_for A1 frame \<noteq> None \<and> peer_for A1 frame = ac_ext_ptr c1 then None else peer_for A1 frame)"
    using conn_gone_ok [OF A1(2) c1(1)] by blast
  have "\<forall>frame. peer_for A2 frame = (if peer_for A1 frame = Some s then None else peer_for A1 frame)"
    using A2(3) p(2) c1(2) by simp
  with A1 A2 c p show ?thesis by (intro exI [of _ A1] exI [of _ A2] exI [of _ x]) simp
qed

text \<open>An introduction to the agent with the address \<open>2:0:0:0:0:9\<close>.\<close>

definition demo_p2p :: P2pRequest where
  "demo_p2p = \<lparr>p2pRequest_macAddrDst = \<lparr>obuf = Some [2, 0, 0, 0, 0, 9], osize = 6\<rparr>,
     p2pRequest_ipAddrDst = \<lparr>obuf = Some [10, 0, 0, 9], osize = 4\<rparr>, p2pRequest_port = 50000, p2pRequest_side = 1\<rparr>"

lemma demo_peer:
  "\<exists>A x. demo_reachable A \<and> served A 3 2 [] True \<and> ag_sessions A 2 = Some x \<and> as_mac_dst x = [2, 0, 0, 0, 0, 9]
    \<and> (\<forall>frame. peer_for A frame = None) \<and> ag_cfg A = demo_cfg"
proof -
  define m where "m = dnm_msg 0 dnop_PR_p2pRequest (P2pRequest demo_p2p)"
  define x where "x = \<lparr>as_passport = Some ([1], [2], [3]), as_netc = Some (1::nat), as_mac_dst = replicate 6 0, as_state = SESSION_STATE_NOT_AUTHED\<rparr>"
  define c where "c = \<lparr>ac_ext_ptr = Some (0::nat), ac_p2p = False, ac_hooked = True, ac_rsa = False,
       ac_passport = Some ([1], [2], [3]), ac_queue_msg = []\<rparr>"
  define Q where "Q = demo_connected\<lparr>ag_conns := (ag_conns demo_connected)(1 \<mapsto> c\<lparr>ac_queue_msg := [m]\<rparr>)\<rparr>"
  have f: "ag_sessions demo_connected = [0 \<mapsto> x]" "ag_conns demo_connected = [1 \<mapsto> c]" "ag_brk demo_connected = 2"
    by (simp_all add: demo_connected_def x_def c_def)
  have "p2p_ok demo_p2p" by (simp add: p2p_ok_def demo_p2p_def)
  then have "op_p2p_request Q (Some 0) m = Some (introduced Q x demo_p2p)"
    by (intro p2p_request_run [where d = "\<lparr>dnm_seqNumber = 0, dnm_ackNumber = 0, dnop_present = dnop_PR_p2pRequest,
        dnop_choice = P2pRequest demo_p2p\<rparr>"]) (simp_all add: m_def dnm_msg_def Q_def f)
  then have h: "handle_msg_agent demo_host Q (Some 0) m = Some (True, introduced Q x demo_p2p)"
    by (simp add: handle_msg_agent_def dispatch_op_agent_def DNDSMessage_get_pdu_def DNMessage_get_operation_def guard_defs union_defs
        m_def dnm_msg_def)
  define A1 where "A1 = (introduced Q x demo_p2p)\<lparr>ag_conns := (ag_conns (introduced Q x demo_p2p))(1 \<mapsto> c)\<rparr>"
  have q: "c\<lparr>ac_queue_msg := []\<rparr> = c" by (simp add: c_def)
  have "handle_agent demo_host demo_connected (Ag_messages 1 [m]) = Some A1"
    using handle_single [of demo_connected 1 c "Some 0" demo_host m "introduced Q x demo_p2p" "c\<lparr>ac_queue_msg := [m]\<rparr>"] h q
    by (simp add: f Q_def [symmetric]) (simp add: A1_def introduced_def Q_def f c_def)
  moreover have "agent_msg_ok demo_host False m"
    using \<open>p2p_ok demo_p2p\<close> by (simp add: agent_msg_ok_def m_def dnm_msg_def answer_ok_def)
  ultimately have r1: "demo_reachable A1"
    using agent_reachable.step [OF demo_connected_reached, of demo_host "Ag_messages 1 [m]" A1] demo_connected_served by auto
  define y where "y = \<lparr>as_passport = Some ([1], [2], [3]), as_netc = None, as_mac_dst = [2, 0, 0, 0, 0, 9], as_state = 0\<rparr>"
  define d where "d = \<lparr>ac_ext_ptr = Some (2::nat), ac_p2p = True, ac_hooked = True, ac_rsa = False,
       ac_passport = Some ([1], [2], [3]), ac_queue_msg = []\<rparr>"
  have f1: "ag_sessions A1 2 = Some y" "ag_conns A1 3 = Some d" "ag_ftable A1 = p2p_init"
    by (simp_all add: A1_def introduced_def Q_def f y_def d_def x_def p2p_mac_def demo_p2p_def c_def)
      (simp add: demo_connected_def agent_start_def)
  define A2 where "A2 = A1\<lparr>ag_conns := (ag_conns A1)(3 \<mapsto> d\<lparr>ac_rsa := True\<rparr>),
    ag_sessions := (ag_sessions A1)(2 \<mapsto> y\<lparr>as_netc := Some 3\<rparr>)\<rparr>"
  have "handle_agent demo_host A1 (Ag_p2p 3) = Some A2"
    by (simp add: net_p2p_on_connect_def krypt_set_rsa_def p2p_on_connect_def f1 A2_def) (simp add: d_def upd_as_def f1)
  then have r2: "demo_reachable A2"
    by (rule agent_reachable.step [OF r1, rotated]) (simp add: f1, simp add: d_def)
  obtain t where t: "p2p_init = Some t" "ft.absm t = Map.empty"
    using ft.hnew_ok [of 1024 "\<lambda>item. item"] by (auto simp: p2p_init_def ftable_new_def)
  have "ag_master A2 = 0" by (simp add: A2_def A1_def introduced_def Q_def demo_connected_def agent_start_def)
  then have "served A2 3 2 [] True" by (simp add: served_def A2_def d_def)
  moreover have "ag_sessions A2 2 = Some (y\<lparr>as_netc := Some 3\<rparr>)" by (simp add: A2_def)
  moreover have "ag_ftable A2 = Some t" by (simp add: A2_def f1 t)
  then have "\<forall>frame. peer_for A2 frame = None" by (simp add: peer_for_def t)
  moreover have "ag_cfg A2 = demo_cfg"
    by (simp add: A2_def A1_def introduced_def Q_def demo_connected_def agent_start_def)
  ultimately show ?thesis using r2 by (intro exI [of _ A2]) (simp add: y_def)
qed

theorem direct_way_opens_and_closes_witness:
  "\<exists>A A1 A2. handle_agent demo_host A (Ag_secured 3) = Some A1 \<and> peer_for A1 [2, 0, 0, 0, 0, 9, 2, 0, 0, 0, 0, 1] = Some 2
    \<and> handle_agent demo_host A1 (Ag_closed 3) = Some A2 \<and> peer_for A2 [2, 0, 0, 0, 0, 9, 2, 0, 0, 0, 0, 1] = None"
proof -
  obtain A x where A: "demo_reachable A" "served A 3 2 [] True" "ag_sessions A 2 = Some x" "as_mac_dst x = [2, 0, 0, 0, 0, 9]"
    "\<forall>frame. peer_for A frame = None" using demo_peer by blast
  obtain A1 A2 y where s: "handle_agent demo_host A (Ag_secured 3) = Some A1" "ag_sessions A1 2 = Some y"
    "\<forall>frame. peer_for A1 frame = (if peer_for A frame = None \<and> mac_value frame = mac_value (as_mac_dst y) then Some 2 else peer_for A frame)"
    "handle_agent demo_host A1 (Ag_closed 3) = Some A2"
    "\<forall>frame. peer_for A2 frame = (if peer_for A1 frame = Some 2 then None else peer_for A1 frame)"
    using direct_way_opens_and_closes [OF demo_agent_ok A(1,2)] by blast
  obtain c where c: "ag_conns A 3 = Some c" "ac_p2p c"
    using servedD [OF A(2)] served_p2p [OF agent_reachable_ok [OF A(1) demo_agent_ok]] A(2) by (auto simp: served_def)
  have "as_mac_dst y = as_mac_dst x"
    using s(1,2) A(2,3) c by (auto simp: p2p_on_secure_def served_def Let_def split: Option.bind_splits prod.splits)
  with A s show ?thesis by (intro exI [of _ A] exI [of _ A1] exI [of _ A2]) (simp add: mac_value_def)
qed

end
