(* ===== verification/Agent_Flaws.thy ===== *)
theory Agent_Flaws
  imports Agent_Props
begin

text \<open>
  Inputs on which the agent fails, and messages it should not have obeyed.
\<close>

section \<open>Messages that end a session\<close>

lemma terminate_then:
  assumes "terminate A s = Some B" "ag_conns A n = Some c" "get_as A s = Some x" "as_netc x = Some n"
  shows "ag_conns B n = None"
  using assms
  by (cases s) (auto simp: terminate_def net_disconnect_agent_def conn_gone_def upd_as_def split: Option.bind_splits if_splits)

text \<open>C23. A request to terminate, or any operation the agent does not know, makes it use freed memory,
  whoever sends it: the connection the message came on is released, and the loop goes on to delete
  the message from its queue.\<close>

theorem terminate_uses_freed_connection:
  assumes "agent_ok H A" "served A n s q b" "pdu_present m = pdu_PR_dnm" "pdu_choice m = Dnm d"
    and "dnop_present d \<notin> {dnop_PR_provResponse, dnop_PR_authResponse, dnop_PR_netinfoResponse, dnop_PR_p2pRequest}"
  shows "handle_agent H A (Ag_messages n (m # ms)) = None"
proof -
  obtain c x where x: "ag_conns A n = Some c" "ac_ext_ptr c = Some s" "ag_sessions A s = Some x" "as_netc x = Some n"
    using servedD [OF assms(2)] by blast
  define Q where "Q = A\<lparr>ag_conns := (ag_conns A)(n \<mapsto> c\<lparr>ac_queue_msg := m # ms\<rparr>)\<rparr>"
  have d: "dispatch_op_agent H Q (Some s) m = terminate Q (Some s)"
    using assms(3-5) by (cases "dnop_present d") (simp_all add: dispatch_op_agent_def DNMessage_get_operation_def guard_defs union_defs)
  have "handle_msg_agent H Q (Some s) m = Option.bind (terminate Q (Some s)) (\<lambda>A. Some (True, A))"
    using assms(3) d by (simp add: handle_msg_agent_def DNDSMessage_get_pdu_def guard_defs)
  moreover have "ag_conns B n = None" if "terminate Q (Some s) = Some B" for B
    by (rule terminate_then [OF that]) (use x in \<open>simp_all add: Q_def\<close>)
  ultimately have "input_loop_agent H Q (Some s) n = None"
    by (subst input_loop_agent.simps) (auto simp: Q_def upd_ac_def split: Option.bind_splits)
  with x show ?thesis by (simp add: on_input_agent_def Q_def)
qed

theorem terminate_uses_freed_connection_witness:
  "handle_agent demo_host demo_connected (Ag_messages 1 [dnm_msg 0 dnop_PR_terminateRequest DnopZero]) = None"
  by (rule terminate_uses_freed_connection [OF agent_reachable_ok [OF demo_connected_reached demo_agent_ok] demo_connected_served,
      where d = "\<lparr>dnm_seqNumber = 0, dnm_ackNumber = 0, dnop_present = dnop_PR_terminateRequest, dnop_choice = DnopZero\<rparr>"])
    (simp_all add: dnm_msg_def)

section \<open>Provisioning by anyone\<close>

text \<open>C24. An answer to a provisioning request is obeyed whoever sends it and whether or not it has been
  asked for.  An agent that is reached directly can replace the certificate, the key and the trusted
  certificate of its peer; the peer then registers with it, and drops every frame for its address.\<close>

theorem peer_replaces_identity:
  assumes "host_ok H" "cfg_ok cfg" "disk_ok H cfg fs" "agent_reachable H cfg fs A" "served A n s q True"
    and "pdu_present m = pdu_PR_dnm" "pdu_choice m = Dnm d" "dnop_present d = dnop_PR_provResponse"
    and "dnop_choice d = ProvResponse r" "prov_ok H r" "string_in (provResponse_certificate r) = Some cert"
    and "string_in (provResponse_certificateKey r) = Some key" "string_in (provResponse_trustedCert r) = Some tr"
    and "\<And>f. can_write H f" "msg_result H (ag_nsent A) \<noteq> - 1" "peer_for A frame = Some s" "6 \<le> length frame"
  shows "\<exists>A'. handle_agent H A (Ag_messages n [m]) = Some A'
    \<and> ag_files A' (cfg_certificate (ag_cfg A)) = cbytes cert \<and> ag_files A' (cfg_privatekey (ag_cfg A)) = cbytes key
    \<and> ag_files A' (cfg_trusted_cert (ag_cfg A)) = cbytes tr
    \<and> tunnel_in H A' (Some (ag_master A')) frame len = Some A'"
proof -
  have ok: "agent_ok H A" by (rule agent_reachable_ok [OF assms(4,1,2,3)])
  obtain c x where x: "ag_conns A n = Some c" "ac_ext_ptr c = Some s" "ag_sessions A s = Some x" "as_netc x = Some n"
    using servedD [OF assms(5)] by blast
  define Q where "Q = A\<lparr>ag_conns := (ag_conns A)(n \<mapsto> c\<lparr>ac_queue_msg := [m]\<rparr>)\<rparr>"
  have okQ: "agent_ok H Q" unfolding Q_def by (rule queue_update_ok [OF ok x(1)])
  have vQ: "served Q n s [m] True" using assms(5) x by (simp add: Q_def served_def)
  have f: "ag_nsent Q = ag_nsent A" "ag_cfg Q = ag_cfg A" "ag_ftable Q = ag_ftable A" by (simp_all add: Q_def)
  obtain B where B: "op_prov_response H Q (Some s) m = Some B" "agent_ok H B" "served B n s [m] True" "ag_ftable B = ag_ftable Q"
    "ag_files B (cfg_certificate (ag_cfg A)) = cbytes cert" "ag_files B (cfg_privatekey (ag_cfg A)) = cbytes key"
    "ag_files B (cfg_trusted_cert (ag_cfg A)) = cbytes tr" "map_option as_state (ag_sessions B s) = Some SESSION_STATE_WAIT_ANSWER"
    using op_prov_response_ok [OF okQ vQ assms(7-10)] assms(11-15) unfolding f by blast
  have h: "handle_msg_agent H Q (Some s) m = Some (True, B)"
    using assms(6-8) B(1)
    by (simp add: handle_msg_agent_def dispatch_op_agent_def DNDSMessage_get_pdu_def DNMessage_get_operation_def guard_defs union_defs)
  obtain cB where cB: "ag_conns B n = Some cB" "ac_queue_msg cB = [m]" using servedD [OF B(3)] served_queue [OF B(3)] by blast
  define A' where "A' = B\<lparr>ag_conns := (ag_conns B)(n \<mapsto> cB\<lparr>ac_queue_msg := []\<rparr>)\<rparr>"
  have run: "handle_agent H A (Ag_messages n [m]) = Some A'"
    unfolding A'_def by (rule handle_single [OF x(1,2) _ cB]) (use h in \<open>simp add: Q_def\<close>)
  have ok': "agent_ok H A'" unfolding A'_def by (rule queue_update_ok [OF B(2) cB(1)])
  have "peer_for A' frame = Some s" using assms(16) B(4) f by (simp add: peer_for_def A'_def)
  then have "tunnel_in H A' (Some (ag_master A')) frame len = Some A'"
    using tunnel_in_run [OF ok' assms(17), of len] B(8) by (auto simp: A'_def)
  with run B(5-7) show ?thesis by (simp add: A'_def)
qed

definition demo_prov :: ProvResponse where
  "demo_prov = \<lparr>provResponse_certificate = Some \<lparr>obuf = Some [7, 0], osize = 1\<rparr>, provResponse_certificateKey = Some \<lparr>obuf = Some [8, 0], osize = 1\<rparr>,
     provResponse_trustedCert = Some \<lparr>obuf = Some [9, 0], osize = 1\<rparr>, provResponse_ipAddress = None\<rparr>"

lemma demo_secured_peer:
  "\<exists>A. demo_reachable A \<and> served A 3 2 [] True \<and> peer_for A [2, 0, 0, 0, 0, 9, 2, 0, 0, 0, 0, 1] = Some 2
    \<and> ag_cfg A = demo_cfg"
proof -
  obtain A x where A: "demo_reachable A" "served A 3 2 [] True" "ag_sessions A 2 = Some x" "as_mac_dst x = [2, 0, 0, 0, 0, 9]"
    "\<forall>frame. peer_for A frame = None" "ag_cfg A = demo_cfg" using demo_peer by blast
  have ok: "agent_ok demo_host A" by (rule agent_reachable_ok [OF A(1) demo_agent_ok])
  have s: "2 \<noteq> ag_master A" using A(2) by (simp add: served_def)
  obtain B y where B: "p2p_on_secure A 3 = Some B" "served B 3 2 [] True" "ag_sessions B 2 = Some y"
    "\<forall>frame. peer_for B frame = (if peer_for A frame = None \<and> mac_value frame = mac_value (as_mac_dst y) then Some 2 else peer_for A frame)"
    using p2p_on_secure_ok [OF ok A(2) s] by blast
  obtain c where c: "ag_conns A 3 = Some c" "ac_p2p c"
    using servedD [OF A(2)] served_p2p [OF ok] A(2) by (auto simp: served_def)
  have "as_mac_dst y = as_mac_dst x"
    using B(1,3) A(2,3) by (auto simp: p2p_on_secure_def served_def Let_def split: Option.bind_splits prod.splits)
  then have "peer_for B [2, 0, 0, 0, 0, 9, 2, 0, 0, 0, 0, 1] = Some 2" using B(4) A(4,5) by (simp add: mac_value_def)
  moreover have "demo_reachable B"
    by (rule agent_reachable.step [OF A(1), of "Ag_secured 3"]) (use A(2) B(1) c in auto)
  moreover have "ag_cfg B = demo_cfg"
    using B(1) A(2,3,6) c by (auto simp: p2p_on_secure_def served_def Let_def upd_as_def split: Option.bind_splits prod.splits)
  ultimately show ?thesis using B(2) by blast
qed

theorem peer_replaces_identity_witness:
  "\<exists>A A'. handle_agent demo_host A (Ag_messages 3 [dnm_msg 0 dnop_PR_provResponse (ProvResponse demo_prov)]) = Some A'
    \<and> ag_files A' ''k'' = Some [8] \<and> tunnel_in demo_host A' (Some (ag_master A')) [2, 0, 0, 0, 0, 9, 2, 0, 0, 0, 0, 1] 12 = Some A'"
proof -
  obtain A where A: "demo_reachable A" "served A 3 2 [] True" "peer_for A [2, 0, 0, 0, 0, 9, 2, 0, 0, 0, 0, 1] = Some 2"
    and cfg: "ag_cfg A = demo_cfg"
    using demo_secured_peer by blast
  have "readable demo_host p" for p by (simp add: readable_def demo_host_def cmem_def)
  then have "prov_ok demo_host demo_prov" by (simp add: prov_ok_def demo_prov_def string_in_def)
  then have "\<exists>A'. handle_agent demo_host A (Ag_messages 3 [dnm_msg 0 dnop_PR_provResponse (ProvResponse demo_prov)]) = Some A'
    \<and> ag_files A' (cfg_certificate (ag_cfg A)) = cbytes [7, 0] \<and> ag_files A' (cfg_privatekey (ag_cfg A)) = cbytes [8, 0]
    \<and> ag_files A' (cfg_trusted_cert (ag_cfg A)) = cbytes [9, 0]
    \<and> tunnel_in demo_host A' (Some (ag_master A')) [2, 0, 0, 0, 0, 9, 2, 0, 0, 0, 0, 1] 12 = Some A'"
    by (intro peer_replaces_identity [OF demo_agent_ok A(1,2), where r = demo_prov
        and d = "\<lparr>dnm_seqNumber = 0, dnm_ackNumber = 0, dnop_present = dnop_PR_provResponse, dnop_choice = ProvResponse demo_prov\<rparr>"])
      (simp_all add: dnm_msg_def demo_prov_def string_in_def demo_host_def A(3))
  then show ?thesis by (auto simp: cfg demo_cfg_def cbytes_def)
qed

section \<open>Frames from anyone\<close>

text \<open>C25. A frame that arrives is handed to the interface whatever the state of the session: also before
  the agent has been authenticated, on a connection that is encrypted but not yet authenticated.\<close>

theorem frames_accepted_unauthenticated:
  assumes "host_ok H" "cfg_ok cfg" "disk_ok H cfg fs" "agent_reachable H cfg fs A" "served A n s q b"
    and "pdu_present m = pdu_PR_ethernet" "pdu_choice m = Ethernet e"
  shows "\<exists>A'. handle_agent H A (Ag_messages n [m]) = Some A' \<and> ag_sessions A' = ag_sessions A
    \<and> ag_events A' = ag_events A @ [Tap_write (obuf e) (size_of_int (osize e))]"
proof -
  obtain c x where x: "ag_conns A n = Some c" "ac_ext_ptr c = Some s" "ag_sessions A s = Some x"
    using servedD [OF assms(5)] by blast
  define Q where "Q = A\<lparr>ag_conns := (ag_conns A)(n \<mapsto> c\<lparr>ac_queue_msg := [m]\<rparr>)\<rparr>"
  have "handle_msg_agent H Q (Some s) m = Some (True, tell (Tap_write (obuf e) (size_of_int (osize e))) Q)"
    using assms(6,7) x(3)
    by (simp add: handle_msg_agent_def DNDSMessage_get_pdu_def guard_defs tunnel_out_def DNDSMessage_get_ethernet_def Q_def)
  from handle_single [OF x(1,2) this [unfolded Q_def], of "c\<lparr>ac_queue_msg := [m]\<rparr>"] show ?thesis
    by (simp add: tell_def)
qed

theorem frames_accepted_unauthenticated_witness:
  "\<exists>A'. handle_agent demo_host demo_connected (Ag_messages 1 [frame_msg [1, 2, 3] 3]) = Some A'
    \<and> map_option as_state (ag_sessions A' 0) = Some SESSION_STATE_NOT_AUTHED
    \<and> ag_events A' = [Tap_write (Some [1, 2, 3]) 3]"
proof -
  have "\<exists>A'. handle_agent demo_host demo_connected (Ag_messages 1 [frame_msg [1, 2, 3] 3]) = Some A' \<and> ag_sessions A' = ag_sessions demo_connected
    \<and> ag_events A' = ag_events demo_connected @ [Tap_write (obuf \<lparr>obuf = Some [1, 2, 3], osize = 3\<rparr>) (size_of_int (osize \<lparr>obuf = Some [1, 2, 3], osize = 3\<rparr>))]"
    by (rule frames_accepted_unauthenticated [OF demo_agent_ok demo_connected_reached demo_connected_served])
      (simp_all add: frame_msg_def int_of_size_def)
  then show ?thesis by (auto simp: demo_connected_def agent_start_def size_of_int_def)
qed

section \<open>Reconnecting\<close>



section \<open>Quitting\<close>

text \<open>C27. When the connection to the switch has been lost, the session keeps its pointer to it, and
  quitting the agent disconnects through it: a use after free.\<close>

theorem quit_after_disconnect:
  assumes "host_ok H" "cfg_ok cfg" "disk_ok H cfg fs" "agent_reachable H cfg fs A" "served A n s q False"
  shows "\<exists>A'. handle_agent H A (Ag_closed n) = Some A' \<and> agent_fini A' = None"
proof -
  have ok: "agent_ok H A" by (rule agent_reachable_ok [OF assms(4,1,2,3)])
  obtain c x where x: "ag_conns A n = Some c" "ag_sessions A s = Some x" "as_netc x = Some n"
    using servedD [OF assms(5)] by blast
  have s: "s = ag_master A" using assms(5) by (simp add: served_def)
  obtain B where B: "conn_gone A n = Some B" "ag_conns B = (ag_conns A)(n := None)" "ag_master B = ag_master A"
    "map_option as_netc (ag_sessions B (ag_master A)) = map_option as_netc (ag_sessions A (ag_master A))"
    using conn_gone_ok [OF ok x(1)] by blast
  obtain y where y: "ag_sessions B (ag_master A) = Some y" "as_netc y = Some n" using B(4) x s by auto
  have "agent_fini B = None" using B(2,3) y by (simp add: agent_fini_def net_disconnect_agent_def conn_gone_def)
  with B(1) show ?thesis by simp
qed

theorem quit_after_disconnect_witness:
  "\<exists>A'. handle_agent demo_host demo_connected (Ag_closed 1) = Some A' \<and> agent_fini A' = None"
  by (rule quit_after_disconnect [OF demo_agent_ok demo_connected_reached demo_connected_served])

end
