(* ===== verification/Login.thy ===== *)
theory Login
  imports Agent_Props Switch_Life
begin

text \<open>
  An agent and a switch together: the messages one sends are the input of the other.  A log in, from
  the connection that has been secured anonymously to the address of the interface, run by the two
  models against each other.
\<close>

section \<open>Taking turns\<close>

text \<open>The messages that have been sent on a connection; one input, and what is sent meanwhile.\<close>

fun sent_on :: "addr \<Rightarrow> agent_event list \<Rightarrow> DNDSMessage list" where
  "sent_on n [] = []"
| "sent_on n (e # es) = (case e of Msg_sent k m \<Rightarrow> if k = n then m # sent_on n es else sent_on n es | _ \<Rightarrow> sent_on n es)"

fun sends_on :: "addr \<Rightarrow> event list \<Rightarrow> DNDSMessage list" where
  "sends_on n [] = []"
| "sends_on n (e # es) = (case e of Send k m \<Rightarrow> if k = n then m # sends_on n es else sends_on n es | _ \<Rightarrow> sends_on n es)"

definition agent_turn :: "host \<Rightarrow> addr \<Rightarrow> agent \<Rightarrow> agent_input \<Rightarrow> (agent \<times> DNDSMessage list) option" where
  "agent_turn H n A i = do {
     A' \<leftarrow> handle_agent H A i;
     Some (A', sent_on n (drop (length (ag_events A)) (ag_events A'))) }"

definition switch_turn :: "'j jansson \<Rightarrow> addr \<Rightarrow> switch \<Rightarrow> 'j input \<Rightarrow> (switch \<times> DNDSMessage list) option" where
  "switch_turn J n sw i = do {
     sw' \<leftarrow> handle J sw i;
     Some (sw', sends_on n (drop (length (events sw)) (events sw'))) }"

text \<open>The connection is \<open>a\<close> for the agent and \<open>n\<close> for the switch.  When the switch steps up, both are
  told that the connection is secure again, the switch with the name in the agent's certificate.\<close>

definition log_in :: "host \<Rightarrow> 'j jansson \<Rightarrow> addr \<Rightarrow> addr \<Rightarrow> u8 list \<Rightarrow> agent \<Rightarrow> switch \<Rightarrow> (agent \<times> switch) option" where
  "log_in H J a n name A sw = do {
     (A, ms) \<leftarrow> agent_turn H a A (Ag_secured a);
     (sw, ms) \<leftarrow> switch_turn J n sw (Input n ms);
     (A, _) \<leftarrow> agent_turn H a A (Ag_messages a ms);
     (A, _) \<leftarrow> agent_turn H a A (Ag_secured a);
     (sw, ms) \<leftarrow> switch_turn J n sw (Secure n None (Some name));
     (A, ms) \<leftarrow> agent_turn H a A (Ag_messages a ms);
     (sw, ms) \<leftarrow> switch_turn J n sw (Input n ms);
     (A, _) \<leftarrow> agent_turn H a A (Ag_messages a ms);
     Some (A, sw) }"

section \<open>The agent's turns\<close>

text \<open>What every turn of a log in keeps: the agent is in order, the connection belongs to the session
  with the switch, and the file with the address is there.\<close>

definition logging_in :: "host \<Rightarrow> addr \<Rightarrow> u8 \<Rightarrow> u8 list \<Rightarrow> agent \<Rightarrow> bool" where
  "logging_in H a st content A \<longleftrightarrow> agent_ok H A \<and> served A a (ag_master A) [] False
     \<and> map_option as_state (ag_sessions A (ag_master A)) = Some st \<and> ag_files A (cfg_ip_conf (ag_cfg A)) = Some content"

lemma agent_takes:
  assumes A: "logging_in H a st content A"
    and h: "\<And>B. agent_ok H B \<Longrightarrow> served B a (ag_master B) [m] False \<Longrightarrow> ag_sessions B = ag_sessions A \<Longrightarrow> ag_master B = ag_master A
      \<Longrightarrow> ag_files B = ag_files A \<Longrightarrow> ag_cfg B = ag_cfg A \<Longrightarrow> ag_events B = ag_events A
      \<Longrightarrow> \<exists>C. handle_msg_agent H B (Some (ag_master B)) m = Some (True, C) \<and> agent_ok H C \<and> served C a (ag_master C) [m] False
        \<and> map_option as_state (ag_sessions C (ag_master C)) = Some st' \<and> ag_files C (cfg_ip_conf (ag_cfg C)) = Some content
        \<and> sent_on a (drop (length (ag_events A)) (ag_events C)) = ms"
  shows "\<exists>A'. agent_turn H a A (Ag_messages a [m]) = Some (A', ms) \<and> logging_in H a st' content A'"
proof -
  have v: "agent_ok H A" "served A a (ag_master A) [] False" using A by (simp_all add: logging_in_def)
  obtain c where c: "ag_conns A a = Some c" "ac_ext_ptr c = Some (ag_master A)" using servedD [OF v(2)] by blast
  define B where "B = A\<lparr>ag_conns := (ag_conns A)(a \<mapsto> c\<lparr>ac_queue_msg := [m]\<rparr>)\<rparr>"
  have "agent_ok H B" unfolding B_def by (rule queue_update_ok [OF v(1) c(1)])
  moreover have "served B a (ag_master B) [m] False" using v(2) c by (simp add: B_def served_def)
  moreover have f: "ag_sessions B = ag_sessions A" "ag_master B = ag_master A" "ag_files B = ag_files A" "ag_cfg B = ag_cfg A"
    "ag_events B = ag_events A" by (simp_all add: B_def)
  ultimately obtain C where C: "handle_msg_agent H B (Some (ag_master A)) m = Some (True, C)" "agent_ok H C" "served C a (ag_master C) [m] False"
    "map_option as_state (ag_sessions C (ag_master C)) = Some st'" "ag_files C (cfg_ip_conf (ag_cfg C)) = Some content"
    "sent_on a (drop (length (ag_events A)) (ag_events C)) = ms" using h [of B] by metis
  obtain d where d: "ag_conns C a = Some d" "ac_queue_msg d = [m]" using servedD [OF C(3)] served_queue [OF C(3)] by blast
  define A' where "A' = C\<lparr>ag_conns := (ag_conns C)(a \<mapsto> d\<lparr>ac_queue_msg := []\<rparr>)\<rparr>"
  have "handle_agent H A (Ag_messages a [m]) = Some A'"
    unfolding A'_def by (rule handle_single [OF c C(1) [unfolded B_def] d])
  moreover have "agent_ok H A'" unfolding A'_def by (rule queue_update_ok [OF C(2) d(1)])
  ultimately show ?thesis using C(3-6) d by (simp add: agent_turn_def logging_in_def A'_def served_def)
qed

lemma auth_answer:
  "auth_message r = dnm_msg 1 dnop_PR_authResponse (AuthResponse r)"
  by (simp add: auth_message_def auth_response_def DNDSMessage_new_def DNDSMessage_set_channel_def DNDSMessage_set_pdu_def
      DNMessage_set_seqNumber_def DNMessage_set_ackNumber_def DNMessage_set_operation_def
      AuthResponse_set_result_def guard_defs union_defs dnm_zero_def dnm_msg_def)

lemma netinfo_answer: "the netinfo_response = dnm_msg 1 dnop_PR_netinfoResponse DnopZero"
  by (simp add: netinfo_response_def DNDSMessage_new_def DNDSMessage_set_channel_def DNDSMessage_set_pdu_def
      DNMessage_set_seqNumber_def DNMessage_set_ackNumber_def DNMessage_set_operation_def
      guard_defs union_defs dnm_zero_def dnm_msg_def)

lemma handle_dnm:
  "handle_msg_agent H B s (dnm_msg k op ch) = Option.bind (dispatch_op_agent H B s (dnm_msg k op ch)) (\<lambda>A. Some (True, A))"
  "DNMessage_get_operation (Some (dnm_msg k op ch)) = Some (DNDS_success, Some op)"
  by (simp_all add: handle_msg_agent_def DNDSMessage_get_pdu_def DNMessage_get_operation_def guard_defs union_defs dnm_msg_def)

text \<open>The connection has been secured: the agent asks to be authenticated under its name.\<close>

lemma agent_registers:
  assumes A: "logging_in H a Agent.SESSION_STATE_NOT_AUTHED content A"
    and p: "ag_sessions A (ag_master A) = Some y" "as_passport y = Some p" "common_name H p = Some subj"
    and r: "msg_result H (ag_nsent A) \<noteq> - 1"
  shows "\<exists>A'. agent_turn H a A (Ag_secured a) = Some (A', [auth_request_msg subj])
    \<and> logging_in H a Agent.SESSION_STATE_WAIT_ANSWER content A'"
proof -
  let ?s = "ag_master A"
  have ok: "agent_ok H A" and v: "served A a ?s [] False" using A by (simp_all add: logging_in_def)
  obtain c where c: "ag_conns A a = Some c" "ac_ext_ptr c = Some ?s" "as_netc y = Some a" using servedD [OF v] p(1) by auto
  have t: "terminated subj" using agent_okD(1) [OF ok p(1)] p(2,3) by (auto simp: session_ok_ag_def readable_def)
  have rsa: "ac_rsa c \<or> ac_passport c \<noteq> None" using served_rsa [OF ok c(1,2) p(1) c(3)] p(2) by simp
  obtain A' where A': "transmit_register H A (Some a) = Some A'" "agent_ok H A'" "served A' a ?s [] False" "ag_files A' = ag_files A"
    "map_option as_state (ag_sessions A' ?s) = Some Agent.SESSION_STATE_WAIT_ANSWER"
    using register_ok [OF ok v p(1,2)] r by blast
  have e: "A' = (let B = sent a (auth_request_msg subj) A; B = B\<lparr>ag_sessions := (ag_sessions A)(?s \<mapsto> y\<lparr>as_state := Agent.SESSION_STATE_WAIT_ANSWER\<rparr>)\<rparr> in
      if ac_rsa c then B else B\<lparr>ag_conns := (ag_conns A)(a \<mapsto> c\<lparr>ac_rsa := True\<rparr>)\<rparr>)"
    using register_sent [OF c(1,2) p(1) c(3) p(2,3) t rsa] A'(1) r by (simp add: Let_def)
  have f: "ag_master A' = ?s" "ag_cfg A' = ag_cfg A" "ag_events A' = ag_events A @ [Msg_sent a (auth_request_msg subj)]"
    by (simp_all add: e Let_def sent_def tell_def)
  have "\<not> ac_p2p c" using served_p2p [OF ok c(1,2)] by simp
  moreover have "as_state y = Agent.SESSION_STATE_NOT_AUTHED" using A p(1) by (simp add: logging_in_def)
  ultimately have "handle_agent H A (Ag_secured a) = Some A'"
    using A'(1) c p(1,2) by (simp add: on_secure_agent_def)
  with A' f A show ?thesis by (simp add: agent_turn_def logging_in_def)
qed

text \<open>A step-up that has succeeded, or a refusal, changes nothing.\<close>

lemma agent_secured_again:
  assumes "logging_in H a st content A" "st \<noteq> Agent.SESSION_STATE_NOT_AUTHED"
  shows "agent_turn H a A (Ag_secured a) = Some (A, [])"
proof -
  have v: "agent_ok H A" "served A a (ag_master A) [] False" using assms(1) by (simp_all add: logging_in_def)
  obtain c x where c: "ag_conns A a = Some c" "ac_ext_ptr c = Some (ag_master A)" "ag_sessions A (ag_master A) = Some x"
    using servedD [OF v(2)] by blast
  have "\<not> ac_p2p c" using served_p2p [OF v(1) c(1,2)] by simp
  moreover have "as_state x \<noteq> Agent.SESSION_STATE_NOT_AUTHED" using assms c(3) by (simp add: logging_in_def)
  ultimately show ?thesis using c by (simp add: agent_turn_def on_secure_agent_def)
qed

lemma agent_waits:
  assumes A: "logging_in H a st content A" and r: "r \<noteq> DNDSResult_success"
  shows "\<exists>A'. agent_turn H a A (Ag_messages a [auth_message r]) = Some (A', []) \<and> logging_in H a st content A'"
proof (rule agent_takes [OF A], goal_cases)
  case (1 B)
  have "op_auth_response H B (Some (ag_master B)) (auth_message r) = Some B"
    using r by (simp add: op_auth_response_def AuthResponse_get_result_def auth_answer guard_defs union_defs dnm_msg_def)
  with 1 A show ?case
    by (simp add: auth_answer handle_dnm dispatch_op_agent_def logging_in_def)
qed

lemma agent_idle:
  assumes "logging_in H a st content A"
  shows "agent_turn H a A (Ag_messages a []) = Some (A, [])"
proof -
  have "served A a (ag_master A) [] False" using assms by (simp add: logging_in_def)
  then obtain c where c: "ag_conns A a = Some c" "ac_ext_ptr c = Some (ag_master A)" "ac_queue_msg c = []"
    using servedD served_queue by blast
  then have "A\<lparr>ag_conns := (ag_conns A)(a \<mapsto> c\<lparr>ac_queue_msg := []\<rparr>)\<rparr> = A" by (cases A; cases c) (auto simp: fun_upd_idem)
  with c show ?thesis by (simp add: agent_turn_def on_input_agent_def input_loop_agent.simps)
qed

lemma agent_succeeds:
  assumes A: "logging_in H a st content A"
  shows "\<exists>A'. agent_turn H a A (Ag_messages a [auth_message DNDSResult_success]) = Some (A', [netinfo_request_msg H])
    \<and> logging_in H a st content A'"
proof (rule agent_takes [OF A], goal_cases)
  case (1 B)
  obtain c x where c: "ag_conns B a = Some c" "ag_sessions B (ag_master B) = Some x" "as_netc x = Some a"
    using servedD [OF 1(2)] by blast
  have conf: "ag_files B (cfg_ip_conf (ag_cfg B)) = Some content" using A 1 by (simp add: logging_in_def)
  obtain ip where ip: "scan_word (ag_ip B) content = Some ip" "length ip = 16" "terminated ip"
    using scan_ok [of "ag_ip B" content] agent_okD(5) [OF 1(1)] conf by (auto simp: ip_ok_def)
  define D where "D = tell (Ev_connect ip) (B\<lparr>ag_ip := ip\<rparr>)"
  have D: "agent_ok H D" using ip_update_ok [OF 1(1) ip(2,3)] by (simp add: D_def)
  have "transmit_netinfo_request H D (Some (ag_master B)) = Some (sent a (netinfo_request_msg H) D)"
    by (rule netinfo_request_sent [OF agent_okD(3) [OF 1(1)], of _ _ x _ c]) (simp_all add: D_def c)
  then have "op_auth_response H B (Some (ag_master B)) (auth_message DNDSResult_success) = Some (sent a (netinfo_request_msg H) D)"
    using c conf ip(1)
    by (simp add: op_auth_response_def AuthResponse_get_result_def auth_answer guard_defs union_defs dnm_msg_def D_def)
  moreover have "served D a (ag_master D) [auth_message DNDSResult_success] False" using 1(2) by (simp add: served_def D_def)
  moreover have "ag_events (sent a (netinfo_request_msg H) D) = ag_events A @ [Ev_connect ip, Msg_sent a (netinfo_request_msg H)]"
    by (simp add: sent_def D_def tell_def 1)
  moreover have "map_option as_state (ag_sessions D (ag_master D)) = Some st" "ag_files D (cfg_ip_conf (ag_cfg D)) = Some content"
    using A 1 conf by (simp_all add: logging_in_def D_def)
  ultimately show ?case using D
    by (intro exI [of _ "sent a (netinfo_request_msg H) D"])
      (simp add: auth_answer handle_dnm dispatch_op_agent_def served_def)
qed

lemma agent_goes_up:
  assumes A: "logging_in H a st content A"
  shows "\<exists>A'. agent_turn H a A (Ag_messages a [the netinfo_response]) = Some (A', [])
    \<and> logging_in H a Agent.SESSION_STATE_AUTHED content A'"
proof (rule agent_takes [OF A], goal_cases)
  case (1 B)
  obtain c x where c: "ag_conns B a = Some c" "ag_sessions B (ag_master B) = Some x" "as_netc x = Some a"
    using servedD [OF 1(2)] by blast
  have conf: "ag_files B (cfg_ip_conf (ag_cfg B)) = Some content" using A 1 by (simp add: logging_in_def)
  obtain ip where ip: "scan_word (ag_ip B) content = Some ip"
    using scan_ok [of "ag_ip B" content] agent_okD(5) [OF 1(1)] conf by (auto simp: ip_ok_def)
  obtain C where C: "op_netinfo_response B (Some (ag_master B)) = Some C" "agent_ok H C" "served C a (ag_master B) [the netinfo_response] False"
    using op_netinfo_response_ok [OF 1(1,2)] by blast
  have e: "C = (let D = tell (Tap_ipv4 ip) (tell Tap_up (B\<lparr>ag_ip := ip\<rparr>)) in
      D\<lparr>ag_sessions := (ag_sessions B)(ag_master B \<mapsto> x\<lparr>as_state := Agent.SESSION_STATE_AUTHED\<rparr>)\<rparr>)"
    using C(1) conf ip c by (simp add: op_netinfo_response_def Let_def)
  have f: "ag_master C = ag_master B" "ag_cfg C = ag_cfg B" "ag_files C = ag_files B" "ag_events C = ag_events A @ [Tap_up, Tap_ipv4 ip]"
    "map_option as_state (ag_sessions C (ag_master B)) = Some Agent.SESSION_STATE_AUTHED"
    by (simp_all add: e Let_def tell_def 1)
  with C conf show ?case by (simp add: netinfo_answer handle_dnm dispatch_op_agent_def)
qed

section \<open>The switch's turns\<close>

lemma resolved:
  assumes "resolve_network sw ni = Some (vnet, ni')"
  shows "ni_uuid ni' = ni_uuid ni"
  using assms by (auto simp: resolve_network_def fill_network_uuid_def split: if_splits Option.bind_splits option.splits)

lemma switch_takes:
  assumes inv: "switch_ok sw" and c: "netcs sw n = Some c" "n_ext_ptr c = Some s" "sessions sw s = Some x" "s_state x \<noteq> SESSION_STATE_PURGE"
    and h: "\<And>B. switch_ok B \<Longrightarrow> sessions B = sessions sw \<Longrightarrow> vnets B = vnets sw \<Longrightarrow> events B = events sw
      \<Longrightarrow> (\<And>ni. resolve_network B ni = resolve_network sw ni)
      \<Longrightarrow> \<exists>C. handle_msg J B (Some s) m = Some C \<and> switch_ok C \<and> netcs C = netcs B \<and> events C = events sw @ es \<and> P (sessions C) (vnets C)"
  shows "\<exists>sw'. switch_turn J n sw (Input n [m]) = Some (sw', sends_on n es) \<and> switch_ok sw'
    \<and> netcs sw' = (netcs sw)(n \<mapsto> c\<lparr>n_queue_msg := []\<rparr>) \<and> P (sessions sw') (vnets sw')"
proof -
  define B where "B = sw\<lparr>netcs := (netcs sw)(n \<mapsto> c\<lparr>n_queue_msg := [m]\<rparr>)\<rparr>"
  have "switch_ok B" unfolding B_def by (rule queue_ok [OF inv c(1)])
  moreover have f: "sessions B = sessions sw" "vnets B = vnets sw" "events B = events sw" by (simp_all add: B_def)
  moreover have "resolve_network B ni = resolve_network sw ni" for ni
    by (simp add: B_def resolve_network_def vnetwork_lookup_def vnetwork_lookup_id_def cong: option.case_cong)
  ultimately obtain C where C: "handle_msg J B (Some s) m = Some C" "switch_ok C" "netcs C = netcs B" "events C = events sw @ es"
    "P (sessions C) (vnets C)" using h [of B] by blast
  define sw' where "sw' = C\<lparr>netcs := (netcs C)(n \<mapsto> c\<lparr>n_queue_msg := []\<rparr>)\<rparr>"
  have cn: "netcs C n = Some (c\<lparr>n_queue_msg := [m]\<rparr>)" by (simp add: C(3) B_def)
  have "input_loop J B (Some s) n = Some sw'"
    using C(1) cn cn [unfolded C(3)] by (simp add: input_loop.simps [of J _ "Some s" n] sw'_def)
  then have "on_input J B n = Some sw'" using c by (simp add: on_input_def B_def)
  then have "handle J sw (Input n [m]) = Some sw'" using c(1) by (simp add: B_def)
  moreover have "switch_ok sw'" using queue_ok [OF C(2) cn, of "[]"] by (simp add: sw'_def)
  ultimately show ?thesis
    using C(4,5) by (simp add: switch_turn_def) (simp add: sw'_def C(3) B_def)
qed

lemma switch_idle:
  assumes inv: "switch_ok sw" and c: "netcs sw n = Some c" "n_ext_ptr c = Some s" "sessions sw s = Some x" "s_state x \<noteq> SESSION_STATE_PURGE"
  shows "\<exists>sw'. switch_turn J n sw (Input n []) = Some (sw', []) \<and> switch_ok sw' \<and> sessions sw' = sessions sw"
proof -
  define B where "B = sw\<lparr>netcs := (netcs sw)(n \<mapsto> c\<lparr>n_queue_msg := []\<rparr>)\<rparr>"
  have "switch_ok B" unfolding B_def by (rule queue_ok [OF inv c(1)])
  moreover have "handle J sw (Input n []) = Some B"
    using c by (simp add: on_input_def input_loop.simps B_def)
  ultimately show ?thesis by (simp add: switch_turn_def B_def)
qed

lemma handle_op:
  "handle_msg J B s (dnm_msg k op ch) = dispatch_operation J B s (dnm_msg k op ch)"
  by (simp add: handle_msg_def DNDSMessage_get_pdu_def guard_defs dnm_msg_def)

lemma switch_asks_step_up:
  assumes inv: "switch_ok sw" and c: "netcs sw n = Some c" "n_ext_ptr c = Some s" "sessions sw s = Some x"
    and st: "s_state x = Switch_State.SESSION_STATE_NOT_AUTHED" and b: "cstring b"
    and ni: "cn2node_info (Some (b @ [0])) = Some (Some ni)" "resolve_network sw ni = Some (Some v, ni')" and vn: "vnets sw v = Some vn"
  shows "\<exists>sw' x' ct. switch_turn J n sw (Input n [auth_request_msg (b @ 0 # r)]) = Some (sw', [auth_message DNDSResult_secureStepUp])
    \<and> switch_ok sw' \<and> netcs sw' = (netcs sw)(n \<mapsto> c\<lparr>n_queue_msg := []\<rparr>) \<and> vnets sw' v = Some (vn\<lparr>v_ctable := ct\<rparr>)
    \<and> sessions sw' s = Some x' \<and> s_state x' = SESSION_STATE_WAIT_STEPUP \<and> s_node_info x' = Own ni' \<and> s_vnetwork x' = Some v"
proof -
  have x: "s_netc x = Some n" using netc_session [OF inv c(1)] c by auto
  have nio: "node_info_ok ni" by (rule cn2node_info_ok [OF ni(1)])
  have nio': "node_info_ok ni'" using resolve_ok [OF inv nio] ni(2) by auto
  let ?m = "auth_request_msg (b @ 0 # r)"
  have g: "AuthRequest_get_certName (Some ?m) True True = Some (DNDS_success, Some (Some (b @ [0]), size_of_int (int_of_size (of_nat (length b)))))"
    using b by (simp add: auth_request_msg_def AuthRequest_get_certName_def guard_defs union_defs dnm_msg_def)
  let ?P = "\<lambda>S V. \<exists>x' ct. V v = Some (vn\<lparr>v_ctable := ct\<rparr>) \<and> S s = Some x' \<and> s_state x' = SESSION_STATE_WAIT_STEPUP
    \<and> s_node_info x' = Own ni' \<and> s_vnetwork x' = Some v"
  have "\<exists>sw'. switch_turn J n sw (Input n [?m]) = Some (sw', sends_on n [Send n (auth_message DNDSResult_secureStepUp), AddPassport n (v_passport vn), StepUp n])
    \<and> switch_ok sw' \<and> netcs sw' = (netcs sw)(n \<mapsto> c\<lparr>n_queue_msg := []\<rparr>) \<and> ?P (sessions sw') (vnets sw')"
  proof (rule switch_takes [OF inv c], goal_cases)
    case 1
    show ?case by (simp add: st)
  next
    case (2 B)
    have B: "sessions B s = Some x" "resolve_network B ni = Some (Some v, ni')" "vnets B v = Some vn" "terminated (b @ [0])"
      using 2 c(3) ni(2) vn by simp_all
    obtain B' cert ct where B': "authRequest J B (Some s) ?m = Some (0, B')" "switch_ok B'" "netcs B' = netcs B"
      "sessions B' = (sessions B)(s \<mapsto> x\<lparr>s_node_info := Own ni', s_vnetwork := Some v, s_cert_name := cert, s_state := SESSION_STATE_WAIT_STEPUP\<rparr>)"
      "vnets B' = (vnets B)(v \<mapsto> vn\<lparr>v_ctable := ct\<rparr>)"
      "events B' = events B @ [Send n (auth_message DNDSResult_secureStepUp), AddPassport n (v_passport vn), StepUp n]"
      using authRequest_run [OF 2(1) B(1) x st g B(4) ni(1) B(2) nio' B(3), of J] by blast
    have "handle_msg J B (Some s) ?m = Some B'"
      using B'(1) by (simp add: auth_request_msg_def handle_op dispatch_operation_def handle_dnm)
    with B' 2(4) show ?case by auto
  qed
  then show ?thesis by auto
qed

text \<open>The handshake has ended: the switch opens the session if it knows the node, and answers either way.\<close>

lemma switch_secures:
  assumes inv: "switch_ok sw" and c: "netcs sw n = Some c" "n_ext_ptr c = Some s" "sessions sw s = Some x"
    and x: "s_state x = SESSION_STATE_WAIT_STEPUP" "s_node_info x = Own ni'" "s_vnetwork x = Some v" "vnets sw v = Some vn"
    and ni: "cn2node_info (Some name) = Some (Some ni)" "ni_uuid ni' = ni_uuid ni"
    and at: "v_atable vn = Some at" "bits_set (v_bitpool vn) \<noteq> {..<1024}"
  defines "known \<equiv> ct.absm at (uuid_value (ni_uuid ni)) \<noteq> None"
  shows "\<exists>sw'. switch_turn J n sw (Secure n None (Some name))
      = Some (sw', [auth_message (if known then DNDSResult_success else DNDSResult_noRight)])
    \<and> switch_ok sw' \<and> netcs sw' = netcs sw
    \<and> map_option s_state (sessions sw' s) = Some (if known then Switch_State.SESSION_STATE_AUTHED else SESSION_STATE_WAIT_STEPUP)"
proof -
  have cert: "cert_node None (Some name) = Some (Some ni)" using ni(1) by (simp add: cert_node_def)
  have "secure_ok sw n None (Some name)"
    using cert ni(2) c x at(2) by (auto simp: secure_ok_def)
  from on_secure_run [OF inv c(1) this c(2,3) x(1,3,4) cert, of J] at(1)
  obtain sw' where sw': "on_secure J sw n None (Some name) = Some sw'" "switch_ok sw'" "netcs sw' = netcs sw"
    "if known then opened sw sw' s v vn \<and> events sw' = events sw @ [Send n (auth_message DNDSResult_success)]
     else sessions sw' s = Some (x\<lparr>s_node_info := Own ni\<rparr>) \<and> events sw' = events sw @ [Send n (auth_message DNDSResult_noRight)]"
    by (auto simp: known_def)
  then show ?thesis using x(1) by (cases known) (auto simp: switch_turn_def opened_def)
qed

lemma netinfo_request_fits:
  assumes "host_ok H"
  shows "request_ok \<lparr>dnm_seqNumber = k, dnm_ackNumber = l, dnop_present = dnop_PR_netinfoRequest,
    dnop_choice = NetinfoRequest \<lparr>netinfoRequest_ipLocal = local_addr (local_ip H),
      netinfoRequest_macAddr = \<lparr>obuf = Some (take 6 (hwaddr H)), osize = 6\<rparr>\<rparr>\<rparr>"
proof -
  have "\<exists>b. obuf (local_addr (local_ip H)) = Some b \<and> 4 \<le> length b"
    by (auto simp: local_addr_def dest: inet_pton_length split: option.split)
  with assms show ?thesis by (auto simp: request_ok_def host_ok_def)
qed

lemma switch_answers:
  assumes inv: "switch_ok sw" and c: "netcs sw n = Some c" "n_ext_ptr c = Some s" "map_option s_state (sessions sw s) = Some st"
    and st: "st \<noteq> SESSION_STATE_PURGE" and H: "host_ok H"
  shows "\<exists>sw'. switch_turn J n sw (Input n [netinfo_request_msg H]) = Some (sw', [the netinfo_response]) \<and> switch_ok sw'
    \<and> map_option s_state (sessions sw' s) = Some st"
proof -
  obtain x where x: "sessions sw s = Some x" "s_state x = st" "s_netc x = Some n"
    using netc_session [OF inv c(1)] c(2,3) by auto
  have "\<exists>sw'. switch_turn J n sw (Input n [netinfo_request_msg H]) = Some (sw', sends_on n [Send n (the netinfo_response)]) \<and> switch_ok sw'
    \<and> netcs sw' = (netcs sw)(n \<mapsto> c\<lparr>n_queue_msg := []\<rparr>) \<and> map_option s_state (sessions sw' s) = Some st"
  proof (rule switch_takes [OF inv c(1,2) x(1)], goal_cases)
    case 1
    show ?case using x st by simp
  next
    case (2 B)
    have m: "pdu_present (netinfo_request_msg H) = pdu_PR_dnm"
      "pdu_choice (netinfo_request_msg H) = Dnm \<lparr>dnm_seqNumber = 0, dnm_ackNumber = 0, dnop_present = dnop_PR_netinfoRequest,
        dnop_choice = NetinfoRequest \<lparr>netinfoRequest_ipLocal = local_addr (local_ip H),
          netinfoRequest_macAddr = \<lparr>obuf = Some (take 6 (hwaddr H)), osize = 6\<rparr>\<rparr>\<rparr>"
      by (simp_all add: netinfo_request_msg_def dnm_msg_def)
    have B: "sessions B s = Some x" using 2(2) x(1) by simp
    obtain C loc mac where C: "handle_netinfo_request B (Some s) (netinfo_request_msg H) = Some C" "switch_ok C" "netcs C = netcs B"
      "sessions C = (sessions B)(s \<mapsto> x\<lparr>s_ip_local := loc, s_tun_mac_addr := mac\<rparr>)" "events C = events B @ [Send n (the netinfo_response)]"
      using netinfo_request_run [OF 2(1) B x(3) m _ netinfo_request_fits [OF H]] by auto
    have "handle_msg J B (Some s) (netinfo_request_msg H) = Some C"
      using C(1) by (simp add: netinfo_request_msg_def handle_op dispatch_operation_def handle_dnm)
    with C 2(4) x(2) show ?case by auto
  qed
  then show ?thesis by auto
qed

section \<open>The log in\<close>


text \<open>The small agent connects to the small switch, with a certificate for a node the network knows.\<close>

definition demo_name :: "u8 list" where
  "demo_name = map of_char ''nva-'' @ replicate 36 0x61 @ [0x40] @ [49]"

definition demo_named :: host where
  "demo_named = demo_host\<lparr>common_name := \<lambda>_. Some (demo_name @ [0])\<rparr>"

lemma demo_named_ok: "host_ok demo_named" "cfg_ok demo_cfg" "disk_ok demo_named demo_cfg demo_disk"
proof -
  show "host_ok demo_named" "cfg_ok demo_cfg" using demo_agent_ok(1,2) by (simp_all add: host_ok_def demo_named_def)
  have "readable demo_named p" for p by (simp add: readable_def demo_named_def)
  then show "disk_ok demo_named demo_cfg demo_disk" using demo_agent_ok(3) by (simp add: disk_ok_def)
qed

definition demo_joined :: "(u8 list, addr) jsw_hash \<Rightarrow> (u8 list, addr) jsw_hash \<Rightarrow> (u8 list, addr) jsw_hash \<Rightarrow> switch" where
  "demo_joined ft ct at = (let sw = demo_switch ft ct at in
     sw\<lparr>sessions := (sessions sw)(9 \<mapsto> session_zero\<lparr>s_state := Switch_State.SESSION_STATE_NOT_AUTHED, s_ip := None, s_netc := Some 8\<rparr>),
        netcs := (netcs sw)(8 \<mapsto> demo_netc 9 68), brk := 10\<rparr>)"

lemma demo_joined_ok:
  assumes "demo_tables ft ct at"
  shows "switch_ok (demo_joined ft ct at)"
proof -
  have b: "brk (demo_switch ft ct at) = 8" by (simp add: demo_switch_as_def)
  show ?thesis
    using connect_ok [OF demo_ok [OF assms], of 8 9 None "demo_netc 9 68"] b
    by (simp add: demo_joined_def demo_netc_def Let_def)
qed


end
