(* ===== verification/Spec2Isabelle.thy ===== *)
theory Spec2Isabelle
  imports Prelude Chain Bitv Clib Ippool Cert Hash Inet Jsw_hlib Link_State Linkst Mbuf Tables Dnds Dnds_Ds Switch_Flaws Ctrler_Accounts Nv_Link Netbus_Props Agent_Flaws Login
begin

text \<open>
  NetVirt builds virtual Ethernet networks.  Agents (\<open>src/nvagent\<close>) tunnel the frames of a host
  to a switch (\<open>src/nvswitch\<close>), which authenticates them, forwards between the agents of a
  network and introduces pairs of them to each other; a controller (\<open>src/nvctrler\<close>) keeps the
  networks and nodes in a database and tells the switch about them.  The three share the library
  \<open>src/libnvcore\<close>: the DNDS messages, the network layer, tables, queues and pools.

  This development models the library's containers and message accessors, the whole of the switch's
  state machine, the controller's requests with the database behind them, what the controller
  and the switch say to each other, the agent, and the connections they all use.

  \<^bold>\<open>Conventions.\<close>  The state of a component is a record, its operations are functions, and
  \<^const>\<open>None\<close> is a memory fault: an access outside a buffer, through a null pointer or to freed
  memory.  What the C code reports as an error is an ordinary value (\<open>-1\<close>, a null pointer,
  \<^typ>\<open>DNDS_retcode\<close>).  Machine integers keep their width.  A C string is the list of the bytes
  from the pointer to the end of its buffer, so that an operation that runs past the terminator
  of a string that has none is a fault.  Objects other objects point to live in finite maps from
  addresses, which are never reused.  Loops over linked structures are \<open>partial_function\<close>s: a
  loop that does not end is \<^const>\<open>None\<close>, and the theorems show that it ends.  No fuel is used
  anywhere.

  \<^bold>\<open>Theories.\<close>
  \<^item> \<open>Prelude\<close> (array access, C strings), \<open>Clib\<close> (\<open>inet_aton\<close>, \<open>ntohl\<close>, printing of
    numbers), \<open>Chain\<close> (the locale of doubly linked lists in a store), \<open>Id_Pool\<close> (the locale of
    identifier pools), \<open>Link_State\<close> (the locale of bounded symmetric relations).
  \<^item> \<open>Bitv\<close> (\<open>libnvcore/src/bitv.c\<close>), \<open>Ippool\<close> (\<open>nvctrler/src/ippool.c\<close>): the pools of
    session identifiers and of host addresses, both instances of \<open>Id_Pool\<close>; the least free bit
    is handed out, what is out is pairwise different, releasing undoes allocating.
  \<^item> \<open>Mbuf\<close> (\<open>mbuf.c\<close>): buffer queues, over \<open>Chain\<close>.
  \<^item> \<open>Hash\<close> (\<open>hash.c\<close>), \<open>Jsw_hlib\<close> (\<open>jsw_hlib.c\<close>), \<open>Tables\<close> (\<open>ftable.c\<close>, \<open>ctable.c\<close>): the
    hash table is proved once for any key in a locale and interpreted for the two tables; each
    refines a finite map.
  \<^item> \<open>Linkst\<close> (\<open>nvswitch/src/linkst.c\<close>): the triangular matrix refines \<open>Link_State\<close>.
  \<^item> \<open>Inet\<close> (\<open>inet.c\<close>), \<open>Cert\<close> (\<open>cert.c\<close>): frame fields, and the names in certificates.
  \<^item> \<open>Dnds_Types\<close>, \<open>Dnds\<close>, \<open>Dnds_Ds\<close> (\<open>dnds.c\<close> and the structures of
    \<open>libnvcore/src/protocol\<close>): one function per accessor, the check of the message kind first.
  \<^item> \<open>Switch_State\<close> (the heap of sessions, connections and networks, the trees, the pipe to the
    controller, and the \<open>events\<close> handed to the network layer), \<open>Session\<close>, \<open>Vnetwork\<close>,
    \<open>Control\<close>, \<open>Conn\<close>, \<open>Request\<close>, \<open>Switch\<close>: the files of \<open>nvswitch/src\<close>, one function per
    function.  A connection handler calls back into the network layer, which calls a handler
    again (\<open>session_terminate\<close>, \<open>net_disconnect\<close>, \<open>on_disconnect\<close>): the order of the theories
    follows these calls, which do not form a cycle.
  \<^item> \<open>Switch_Inv\<close>: \<open>switch_ok\<close>, what holds between two events.  \<open>Forwarding\<close>, \<open>Handlers\<close>,
    \<open>Input\<close>, \<open>Control_Inv\<close>: every handler runs to its end and keeps it, and what the handlers
    do.  \<open>Events\<close>: the inputs of the switch as a datatype, \<open>handle\<close> that runs one, and the
    reachable states.  \<open>Auth\<close>: the locale \<open>state_rel\<close> of relations every access keeps,
    interpreted by ``no session becomes authenticated''.
  \<^item> \<open>Demo\<close>: a small switch for the witnesses.  \<open>Switch_Props\<close>: the invariant, the absence of
    faults, the authentication gate, the forwarding function, the isolation of the networks.
    \<open>Switch_Life\<close>: how sessions are opened, closed and revoked.  \<open>Switch_Flaws\<close>: inputs on which
    the code fails.
  \<^item> \<open>Pg\<close> (the tables and one function per prepared statement), \<open>Dao\<close> (\<open>nvctrler/src/dao.c\<close>),
    \<open>Ctrler\<close> (\<open>request.c\<close>, and of \<open>pki.c\<close> the authorities), \<open>Ctrler_Conn\<close> (\<open>ctrler.c\<close>): the
    controller.  Names the switch uses too carry the suffix \<open>_ctrler\<close>.  \<open>Ctrler_Inv\<close>: every
    handler keeps the pools and the addresses of the nodes together.  \<open>Ctrler_Props\<close>: addresses
    are never shared; what a request for a node or a network does.  \<open>Ctrler_Accounts\<close>: accounts,
    listings, two switches.  \<open>Ctrler_Flaws\<close>: requests that should have been refused, and an
    address given twice.  \<open>Nv_Link\<close>: the messages the controller writes, read by the switch.
  \<^item> \<open>Krypt\<close> (\<open>libnvcore/src/crypto.c\<close>), \<open>Netbus\<close> (\<open>netbus.c\<close>): what a connection does with the
    bytes that come and the messages that go: TLS over buffers in memory, the buffer of the decoder,
    the queues.  \<open>Netbus_Props\<close>: whole messages are delivered once and in order; what happens to
    messages that are split or refused, and on a connection that is broken.
  \<^item> \<open>Agent\<close> (\<open>nvagent/src/agent.c\<close>, \<open>p2p.c\<close>, \<open>session.c\<close>): the agent.  Names the switch uses too
    carry the suffix \<open>_agent\<close>.  What the agent does to the network layer, the interface and the
    user is recorded in order in \<open>ag_events\<close>; the thread that reconnects takes two steps, between
    which the main loop may run.  \<open>Agent_Inv\<close>: \<open>agent_ok\<close>, what holds between two inputs, and
    every handler keeps it.  \<open>Agent_Events\<close>: \<open>handle_agent\<close> runs one input, and the reachable states.
    \<open>Agent_Props\<close>: the absence of faults, and the way the frames take.  \<open>Agent_Flaws\<close>: inputs on
    which the agent fails, and messages it should not have obeyed.
  \<^item> \<open>Login\<close>: an agent and a switch run against each other, from the anonymous connection to the
    address of the interface.

  \<^bold>\<open>Inputs and hypotheses.\<close>  The values of \<open>rand\<close> and \<open>time\<close> are an infinite sequence of the
  state.  The JSON library is a record \<open>J\<close> of functions; \<open>json_strings J\<close> says that the strings
  it returns are terminated.  The names of a peer certificate, which OpenSSL extracts, are
  arguments of \<open>on_secure\<close>.  \<open>admissible\<close> says which inputs the network layer delivers: events
  of live connections, messages the decoder yields, and not the inputs \<open>Switch_Flaws\<close> shows
  to be fatal.

  PostgreSQL is the record \<open>pg\<close>: hashing, generated values, the clock, texts that are not prepared,
  and what becomes of the \<open>n\<close>-th call; \<open>all_run\<close> says that every call runs, that generated
  identifiers differ, and that texts only read.  Keys and certificates come from the record
  \<open>pki\<close>, the JSON library of the controller is \<open>json_lib\<close>; \<open>same_json\<close> says that the switch reads
  the values the controller builds.

  For a connection, OpenSSL is the record \<open>openssl\<close>, the BER decoder and encoder are arguments
  (\<open>codec\<close> says that the decoder recognises an encoding at the start of the bytes), and the
  transport is a function that tells what the \<open>n\<close>-th call of \<open>send\<close> returns.  A failing
  \<open>recv\<close> and what the upper layer does to the connection while it is called back are not part of
  \<open>Netbus\<close>.

  The host of an agent is the record \<open>host\<close>; \<open>host_ok\<close>, \<open>cfg_ok\<close> and \<open>disk_ok\<close> say that its addresses
  have their length, that the four files are different, and that what they hold fits and can be
  read.  \<open>admissible_agent\<close> leaves out what \<open>Agent_Flaws\<close> shows to be fatal.

  \<^bold>\<open>Not modelled.\<close>  The ASN.1 codecs \<open>asn1c\<close> generates; OpenSSL and the set-up of its
  contexts; connecting to the database; sockets, the event loop and UDT (C++); the logger; process set-up, configuration and signals; allocation failures
  inside the switch other than that of a session; the printing functions of \<open>dnds.c\<close> and the
  object lists of its search messages; \<open>jsw_hstat\<close>; the retired \<open>context.c\<close>; of the agent, reading
  its configuration, the virtual interface itself, its user interfaces, and the thread that meets
  another agent (UDT), of which only the success is an input.
\<close>

end
